(* ===== verification/Prelude.thy ===== *)
theory Prelude
  imports Main "HOL-Library.Word" "HOL-Library.Char_ord" "HOL-Library.List_Lexorder"
    "HOL-Library.Sublist"
begin

text \<open>
  What the component theories share: the names of the machine integers, the results of fallible
  code, saturating and checked arithmetic, and the operations of Rust's \<open>str\<close> that the crate
  under \<^verbatim>\<open>src/src/rust/src\<close> uses.

  A Rust \<open>String\<close> is a sequence of UTF-8 bytes, so it is a \<^typ>\<open>string\<close> here, one
  \<^typ>\<open>char\<close> per byte: \<open>len\<close> is \<^const>\<open>length\<close>, and the order of \<open>Ord for str\<close>
  (bytewise, lexicographic) is the order of \<open>List_Lexorder\<close> over \<open>Char_ord\<close>.
  A \<open>Result<T, E>\<close> is a sum whose left component is the error.
\<close>

section \<open>Collections of facts\<close>

named_theorems ascii_defs \<open>the predicates and maps on single bytes\<close>
named_theorems str_defs \<open>non-recursive operations on strings\<close>
named_theorems result_simps \<open>the combinators on results\<close>

section \<open>Machine integers\<close>

type_synonym u8 = "8 word"
type_synonym u16 = "16 word"
type_synonym u32 = "32 word"
type_synonym u64 = "64 word"
type_synonym u128 = "128 word"
type_synonym bytes = "char list"

text \<open>
  A \<open>Duration\<close> and an \<open>Instant\<close> of the monotonic clock are numbers of nanoseconds.
  \<open>now.duration_since(t)\<close> and \<open>t.elapsed()\<close> are zero when \<open>t\<close> lies in the future, which is
  the subtraction of \<^typ>\<open>nat\<close>.
\<close>

type_synonym duration = nat
type_synonym instant = nat

text \<open>\<open>saturating_add\<close>, \<open>saturating_sub\<close> and \<open>checked_add\<close> of the integer types.\<close>

definition saturating_add :: "'a::len word \<Rightarrow> 'a word \<Rightarrow> 'a word" where
  "saturating_add a b = (if a \<le> a + b then a + b else - 1)"

definition saturating_sub :: "'a::len word \<Rightarrow> 'a word \<Rightarrow> 'a word" where
  "saturating_sub a b = (if b \<le> a then a - b else 0)"

text \<open>\<open>usize\<close> is 64 bits wide; sizes and counts are natural numbers, and \<open>checked_add\<close> fails at the width.\<close>

definition checked_add_usize :: "nat \<Rightarrow> nat \<Rightarrow> nat option" where
  "checked_add_usize a b = (if a + b < 2 ^ 64 then Some (a + b) else None)"

definition checked_add_u64 :: "u64 \<Rightarrow> u64 \<Rightarrow> u64 option" where
  "checked_add_u64 a b = (if unat a + unat b < 2 ^ 64 then Some (a + b) else None)"

section \<open>Results\<close>

type_synonym ('e, 'a) result = "'e + 'a"

definition bind_result :: "('e, 'a) result \<Rightarrow> ('a \<Rightarrow> ('e, 'b) result) \<Rightarrow> ('e, 'b) result" where
  "bind_result r f = (case r of Inl e \<Rightarrow> Inl e | Inr a \<Rightarrow> f a)"

definition ok_or :: "'e \<Rightarrow> 'a option \<Rightarrow> ('e, 'a) result" where
  "ok_or e r = (case r of None \<Rightarrow> Inl e | Some a \<Rightarrow> Inr a)"

text \<open>\<open>b.then_some(v)\<close>, and the filter of an option.\<close>

definition then_some :: "bool \<Rightarrow> 'a \<Rightarrow> 'a option" where
  "then_some b v = (if b then Some v else None)"

definition opt_filter :: "('a \<Rightarrow> bool) \<Rightarrow> 'a option \<Rightarrow> 'a option" where
  "opt_filter p r = (case r of None \<Rightarrow> None | Some a \<Rightarrow> if p a then Some a else None)"

definition opt_list :: "'a option \<Rightarrow> 'a list" where
  "opt_list r = (case r of None \<Rightarrow> [] | Some a \<Rightarrow> [a])"

text \<open>\<open>iter().enumerate()\<close>.\<close>

definition enum_list :: "'a list \<Rightarrow> (nat \<times> 'a) list" where
  "enum_list xs = zip [0..<length xs] xs"

section \<open>Bytes\<close>

abbreviation code_of :: "char \<Rightarrow> nat" where
  "code_of c \<equiv> of_char c"

definition is_ascii_uppercase :: "char \<Rightarrow> bool" where
  [ascii_defs]: "is_ascii_uppercase c \<longleftrightarrow> 65 \<le> code_of c \<and> code_of c \<le> 90"

definition is_ascii_lowercase :: "char \<Rightarrow> bool" where
  [ascii_defs]: "is_ascii_lowercase c \<longleftrightarrow> 97 \<le> code_of c \<and> code_of c \<le> 122"

definition is_ascii_digit :: "char \<Rightarrow> bool" where
  [ascii_defs]: "is_ascii_digit c \<longleftrightarrow> 48 \<le> code_of c \<and> code_of c \<le> 57"

definition is_ascii_alphabetic :: "char \<Rightarrow> bool" where
  [ascii_defs]: "is_ascii_alphabetic c \<longleftrightarrow> is_ascii_uppercase c \<or> is_ascii_lowercase c"

definition is_ascii_alphanumeric :: "char \<Rightarrow> bool" where
  [ascii_defs]: "is_ascii_alphanumeric c \<longleftrightarrow> is_ascii_alphabetic c \<or> is_ascii_digit c"

definition is_ascii_hexdigit :: "char \<Rightarrow> bool" where
  [ascii_defs]: "is_ascii_hexdigit c \<longleftrightarrow>
     is_ascii_digit c \<or> 65 \<le> code_of c \<and> code_of c \<le> 70 \<or> 97 \<le> code_of c \<and> code_of c \<le> 102"

definition lower_char :: "char \<Rightarrow> char" where
  "lower_char c = (if is_ascii_uppercase c then char_of (code_of c + 32) else c)"

definition upper_char :: "char \<Rightarrow> char" where
  "upper_char c = (if is_ascii_lowercase c then char_of (code_of c - 32) else c)"

section \<open>Strings\<close>

definition to_ascii_lowercase :: "string \<Rightarrow> string" where
  [str_defs]: "to_ascii_lowercase s = map lower_char s"

definition to_ascii_uppercase :: "string \<Rightarrow> string" where
  [str_defs]: "to_ascii_uppercase s = map upper_char s"

definition eq_ignore_ascii_case :: "string \<Rightarrow> string \<Rightarrow> bool" where
  [str_defs]: "eq_ignore_ascii_case a b \<longleftrightarrow> to_ascii_lowercase a = to_ascii_lowercase b"

definition starts_with :: "string \<Rightarrow> string \<Rightarrow> bool" where
  [str_defs]: "starts_with p s \<longleftrightarrow> take (length p) s = p"

definition ends_with :: "string \<Rightarrow> string \<Rightarrow> bool" where
  [str_defs]: "ends_with p s \<longleftrightarrow> length p \<le> length s \<and> drop (length s - length p) s = p"

definition strip_prefix :: "string \<Rightarrow> string \<Rightarrow> string option" where
  [str_defs]: "strip_prefix p s = (if starts_with p s then Some (drop (length p) s) else None)"

definition strip_suffix :: "string \<Rightarrow> string \<Rightarrow> string option" where
  [str_defs]: "strip_suffix p s = (if ends_with p s then Some (take (length s - length p) s) else None)"

fun contains_str :: "string \<Rightarrow> string \<Rightarrow> bool" where
  "contains_str p [] = (p = [])"
| "contains_str p (c # s) = (starts_with p (c # s) \<or> contains_str p s)"

text \<open>\<open>split(c)\<close> keeps empty pieces; \<open>split_once(c)\<close> cuts at the first \<open>c\<close>.\<close>

fun split_on :: "char \<Rightarrow> string \<Rightarrow> string list" where
  "split_on c [] = [[]]"
| "split_on c (x # xs) =
     (if x = c then [] # split_on c xs
      else case split_on c xs of [] \<Rightarrow> [[x]] | y # ys \<Rightarrow> (x # y) # ys)"

fun split_once :: "char \<Rightarrow> string \<Rightarrow> (string \<times> string) option" where
  "split_once c [] = None"
| "split_once c (x # xs) =
     (if x = c then Some ([], xs)
      else case split_once c xs of None \<Rightarrow> None | Some (a, b) \<Rightarrow> Some (x # a, b))"

fun join_with :: "string \<Rightarrow> string list \<Rightarrow> string" where
  "join_with sep [] = []"
| "join_with sep [x] = x"
| "join_with sep (x # y # ys) = x @ sep @ join_with sep (y # ys)"

text \<open>
  \<open>str::trim\<close> removes the characters of Unicode's \<open>White_Space\<close>, given here by their
  UTF-8 encodings.
\<close>

definition white_space :: "string list" where
  "white_space = map (map char_of)
     [[9::nat], [10], [11], [12], [13], [32],
      [194, 133], [194, 160], [225, 154, 128],
      [226, 128, 128], [226, 128, 129], [226, 128, 130], [226, 128, 131], [226, 128, 132],
      [226, 128, 133], [226, 128, 134], [226, 128, 135], [226, 128, 136], [226, 128, 137],
      [226, 128, 138], [226, 128, 168], [226, 128, 169], [226, 128, 175], [226, 129, 159],
      [227, 128, 128]]"

function strip_seqs :: "string list \<Rightarrow> string \<Rightarrow> string" where
  "strip_seqs ws s =
     (case find (\<lambda>w. w \<noteq> [] \<and> starts_with w s) ws of
        None \<Rightarrow> s
      | Some w \<Rightarrow> strip_seqs ws (drop (length w) s))"
  by pat_completeness auto
termination
proof (relation "measure (\<lambda>(ws, s). length s)")
  show "wf (measure (\<lambda>(ws :: string list, s :: string). length s))" by simp
next
  fix ws :: "string list" and s w
  assume "find (\<lambda>w. w \<noteq> [] \<and> starts_with w s) ws = Some w"
  then have w: "w \<noteq> []" "take (length w) s = w"
    by (auto simp: find_Some_iff starts_with_def)
  then have "s \<noteq> []" by auto
  with w show "((ws, drop (length w) s), ws, s) \<in> measure (\<lambda>(ws, s). length s)" by simp
qed

declare strip_seqs.simps [simp del]

text \<open>\<open>char::is_whitespace\<close>: a character of \<open>White_Space\<close> occurs in the text.\<close>

definition has_whitespace :: "string \<Rightarrow> bool" where
  "has_whitespace v \<longleftrightarrow> list_ex (\<lambda>w. contains_str w v) white_space"

definition trim_start :: "string \<Rightarrow> string" where
  "trim_start s = strip_seqs white_space s"

definition trim_end :: "string \<Rightarrow> string" where
  "trim_end s = rev (strip_seqs (map rev white_space) (rev s))"

definition trim :: "string \<Rightarrow> string" where
  "trim s = trim_end (trim_start s)"

text \<open>Decimal printing of unsigned integers, as \<open>Display\<close> writes them.\<close>

fun show_nat :: "nat \<Rightarrow> string" where
  "show_nat n =
     (let d = [char_of (48 + n mod 10)] in if n div 10 = 0 then d else show_nat (n div 10) @ d)"

declare show_nat.simps [simp del]

definition show_word :: "'a::len word \<Rightarrow> string" where
  "show_word w = show_nat (unat w)"

section \<open>Lemmas on results and options\<close>

lemma bind_result_simps [simp, result_simps]:
  "bind_result (Inl e) f = Inl e"
  "bind_result (Inr a) f = f a"
  by (simp_all add: bind_result_def)

lemma bind_result_Inr [result_simps]:
  "bind_result r f = Inr b \<longleftrightarrow> (\<exists>a. r = Inr a \<and> f a = Inr b)"
  by (cases r) auto

lemma then_some_simps [simp]:
  "then_some True v = Some v" "then_some False v = None"
  "then_some b v = None \<longleftrightarrow> \<not> b" "then_some b v = Some w \<longleftrightarrow> b \<and> v = w"
  by (auto simp: then_some_def)

lemma opt_filter_simps [simp]:
  "opt_filter p None = None"
  "opt_filter p r = Some a \<longleftrightarrow> r = Some a \<and> p a"
  "opt_filter p r = None \<longleftrightarrow> (\<forall>a. r = Some a \<longrightarrow> \<not> p a)"
  by (auto simp: opt_filter_def split: option.splits)

lemma opt_list_simps [simp]:
  "opt_list None = []" "opt_list (Some a) = [a]" "set (opt_list r) = set_option r"
  "opt_list r = [] \<longleftrightarrow> r = None"
  by (auto simp: opt_list_def split: option.splits)

lemma find_SomeD: "find p xs = Some x \<Longrightarrow> x \<in> set xs \<and> p x"
  by (auto simp: find_Some_iff)

lemma set_enum_list: "set (enum_list xs) = {(i, xs ! i) | i. i < length xs}"
  by (force simp: enum_list_def set_zip)

lemma enum_list_simps [simp]:
  "map fst (enum_list xs) = [0..<length xs]" "map snd (enum_list xs) = xs"
  "length (enum_list xs) = length xs"
  by (simp_all add: enum_list_def)

section \<open>Lemmas on machine integers\<close>

lemma unat_saturating_add:
  "unat (saturating_add a b) = min (unat a + unat b) (2 ^ LENGTH('a) - 1)"
  for a b :: "'a::len word"
proof -
  have lt: "unat a < 2 ^ LENGTH('a)" "unat b < 2 ^ LENGTH('a)" by simp_all
  have max: "unat (- 1 :: 'a word) = 2 ^ LENGTH('a) - 1"
    by (simp add: unsigned_minus_1_eq_mask mask_eq_exp_minus_1)
  show ?thesis
  proof (cases "unat a + unat b < 2 ^ LENGTH('a)")
    case True
    then show ?thesis by (auto simp: saturating_add_def word_le_nat_alt unat_word_ariths)
  next
    case False
    from lt have "unat a + unat b - 2 ^ LENGTH('a) < 2 ^ LENGTH('a)" by linarith
    with False have "unat (a + b) = unat a + unat b - 2 ^ LENGTH('a)"
      by (simp add: unat_word_ariths le_mod_geq)
    with False lt(2) have "\<not> a \<le> a + b" unfolding word_le_nat_alt by linarith
    with False max show ?thesis by (simp add: saturating_add_def)
  qed
qed

lemma unat_saturating_sub:
  "unat (saturating_sub a b) = unat a - unat b" for a b :: "'a::len word"
  by (auto simp: saturating_sub_def unat_sub word_le_nat_alt)

lemma saturating_add_one:
  fixes a b :: "'a::len word"
  assumes "a < b"
  shows "saturating_add a 1 = a + 1" and "unat (a + 1) = Suc (unat a)"
proof -
  from assms have "a \<noteq> - 1" by auto
  then have "1 + a \<noteq> 0" by (metis add.commute add_eq_0_iff)
  then show u: "unat (a + 1) = Suc (unat a)" by (simp add: unatSuc add.commute)
  then show "saturating_add a 1 = a + 1" by (simp add: saturating_add_def word_le_nat_alt)
qed

section \<open>Lemmas on strings\<close>

lemma code_of_less [simp]: "code_of c < 256"
  using mod_less_divisor [of 256 "code_of c"] by simp

lemma lower_char_idem [simp]: "lower_char (lower_char c) = lower_char c"
  by (auto simp: lower_char_def is_ascii_uppercase_def)

lemma lower_char_not_upper [simp]: "\<not> is_ascii_uppercase (lower_char c)"
  by (auto simp: lower_char_def is_ascii_uppercase_def)

lemma to_ascii_lowercase_idem [simp]:
  "to_ascii_lowercase (to_ascii_lowercase s) = to_ascii_lowercase s"
  by (simp add: to_ascii_lowercase_def comp_def)

lemma length_to_ascii_lowercase [simp]: "length (to_ascii_lowercase s) = length s"
  by (simp add: to_ascii_lowercase_def)

lemma eq_ignore_ascii_case_refl [simp]: "eq_ignore_ascii_case s s"
  by (simp add: eq_ignore_ascii_case_def)

lemma eq_ignore_ascii_case_sym: "eq_ignore_ascii_case a b \<longleftrightarrow> eq_ignore_ascii_case b a"
  by (auto simp: eq_ignore_ascii_case_def)

lemma split_on_not_Nil [simp]: "split_on c s \<noteq> []"
  by (induction s) (auto split: list.splits)

lemma split_on_pieces: "p \<in> set (split_on c s) \<Longrightarrow> c \<notin> set p"
  by (induction s arbitrary: p) (auto split: list.splits if_splits)

lemma join_split_on [simp]: "join_with [c] (split_on c s) = s"
proof (induction s)
  case Nil
  show ?case by simp
next
  case (Cons x xs)
  obtain y ys where ys: "split_on c xs = y # ys" by (cases "split_on c xs") auto
  with Cons.IH show ?case by (cases ys) auto
qed

lemma split_once_Some: "split_once c s = Some (a, b) \<Longrightarrow> s = a @ c # b \<and> c \<notin> set a"
  by (induction s arbitrary: a) (auto split: if_splits option.splits prod.splits)

lemma split_once_None: "split_once c s = None \<longleftrightarrow> c \<notin> set s"
  by (induction s) (auto split: option.splits)

lemma split_once_append: "c \<notin> set a \<Longrightarrow> split_once c (a @ c # b) = Some (a, b)"
  by (induction a) auto

lemma join_with_snoc:
  "join_with sep (xs @ [x]) = (if xs = [] then x else join_with sep xs @ sep @ x)"
  by (induction sep xs rule: join_with.induct) auto

lemma join_with_eq_Nil: "[] \<notin> set xs \<Longrightarrow> join_with sep xs = [] \<longleftrightarrow> xs = []"
  by (cases "(sep, xs)" rule: join_with.cases) auto

text \<open>Text that begins and ends with a visible ASCII character has nothing to trim.\<close>

definition visible :: "char \<Rightarrow> bool" where
  "visible c \<longleftrightarrow> 33 \<le> code_of c \<and> code_of c \<le> 126"

lemma strip_seqs_id:
  assumes "\<And>w. w \<in> set ws \<Longrightarrow> w \<noteq> [] \<Longrightarrow> \<not> starts_with w s"
  shows "strip_seqs ws s = s"
proof -
  have "find (\<lambda>w. w \<noteq> [] \<and> starts_with w s) ws = None" using assms by (auto simp: find_None_iff)
  then show ?thesis by (subst strip_seqs.simps) simp
qed

lemma starts_with_hd: "starts_with w s \<Longrightarrow> w \<noteq> [] \<Longrightarrow> s \<noteq> [] \<and> hd w = hd s"
  by (cases w; cases s) (auto simp: starts_with_def)

lemma white_space_not_visible:
  "w \<in> set white_space \<Longrightarrow> \<not> visible (hd w) \<and> \<not> visible (last w)"
  unfolding white_space_def visible_def by (simp, elim disjE) simp_all

lemma trim_visible:
  assumes "s \<noteq> []" "visible (hd s)" "visible (last s)"
  shows "trim s = s"
proof -
  have "\<not> starts_with w s" if "w \<in> set white_space" "w \<noteq> []" for w
    using that starts_with_hd [of w s] white_space_not_visible [of w] assms(2) by auto
  then have "trim_start s = s" unfolding trim_start_def by (intro strip_seqs_id)
  moreover have "\<not> starts_with w (rev s)" if "w \<in> set (map rev white_space)" "w \<noteq> []" for w
  proof
    assume sw: "starts_with w (rev s)"
    from that obtain v where v: "v \<in> set white_space" "w = rev v" "v \<noteq> []" by auto
    with starts_with_hd [OF sw that(2)] have "last v = last s" by (simp add: hd_rev)
    with white_space_not_visible [OF v(1)] assms(3) show False by simp
  qed
  then have "strip_seqs (map rev white_space) (rev s) = rev s" by (intro strip_seqs_id)
  ultimately show ?thesis by (simp add: trim_def trim_end_def)
qed

text \<open>Trimming is idempotent, and a leading space is trimmed away.\<close>

lemma strip_seqs_fix: "find (\<lambda>w. w \<noteq> [] \<and> starts_with w (strip_seqs ws s)) ws = None"
proof (induction ws s rule: strip_seqs.induct)
  case (1 ws s)
  then show ?case
    by (cases "find (\<lambda>w. w \<noteq> [] \<and> starts_with w s) ws")
      (simp_all add: strip_seqs.simps [of ws s])
qed

lemma strip_seqs_none:
  "w \<in> set ws \<Longrightarrow> w \<noteq> [] \<Longrightarrow> \<not> starts_with w (strip_seqs ws s)"
  using strip_seqs_fix [of ws s] by (auto simp: find_None_iff)

lemma strip_seqs_suffix: "\<exists>u. s = u @ strip_seqs ws s"
proof (induction ws s rule: strip_seqs.induct)
  case (1 ws s)
  show ?case
  proof (cases "find (\<lambda>w. w \<noteq> [] \<and> starts_with w s) ws")
    case None
    then show ?thesis by (simp add: strip_seqs.simps [of ws s])
  next
    case (Some w)
    with 1 obtain u where "drop (length w) s = u @ strip_seqs ws (drop (length w) s)" by blast
    then have "s = (take (length w) s @ u) @ strip_seqs ws (drop (length w) s)"
      by (metis append.assoc append_take_drop_id)
    moreover have "strip_seqs ws s = strip_seqs ws (drop (length w) s)"
      using Some by (simp add: strip_seqs.simps [of ws s])
    ultimately show ?thesis by metis
  qed
qed

lemma starts_with_prefix: "starts_with w s \<longleftrightarrow> prefix w s"
  by (auto simp: starts_with_def prefix_def) (metis append_take_drop_id)

lemma trim_end_prefix: "prefix (trim_end s) s"
proof -
  obtain u where "rev s = u @ strip_seqs (map rev white_space) (rev s)"
    using strip_seqs_suffix by blast
  then have "s = trim_end s @ rev u" unfolding trim_end_def by (metis rev_append rev_rev_ident)
  then show ?thesis by (rule prefixI)
qed

lemma trim_idem [simp]: "trim (trim s) = trim s"
proof -
  let ?t = "trim_start s"
  have "\<not> starts_with w (trim_end ?t)" if "w \<in> set white_space" "w \<noteq> []" for w
    using strip_seqs_none [OF that, of s] trim_end_prefix [of ?t]
    by (auto simp: trim_start_def starts_with_prefix dest: prefix_order.trans)
  then have "trim_start (trim s) = trim s"
    unfolding trim_def trim_start_def [of "trim_end ?t"] by (intro strip_seqs_id)
  moreover have "trim_end (trim_end ?t) = trim_end ?t"
    unfolding trim_end_def rev_rev_ident by (subst strip_seqs_id) (simp_all add: strip_seqs_none)
  ultimately show ?thesis by (simp add: trim_def)
qed

lemma strip_seqs_space:
  assumes "[CHR '' ''] \<in> set ws" "\<And>w. w \<in> set ws \<Longrightarrow> w \<noteq> [] \<Longrightarrow> hd w = CHR '' '' \<Longrightarrow> w = [CHR '' '']"
  shows "strip_seqs ws (CHR '' '' # s) = strip_seqs ws s"
proof -
  let ?p = "\<lambda>w. w \<noteq> [] \<and> starts_with w (CHR '' '' # s)"
  have "w = [CHR '' '']" if "w \<in> set ws" "?p w" for w
    using assms(2) [OF that(1)] starts_with_hd [of w "CHR '' '' # s"] that(2) by simp
  moreover have "?p [CHR '' '']" by (simp add: starts_with_def)
  ultimately have "find ?p ws = Some [CHR '' '']"
  proof (cases "find ?p ws")
    case None
    then show ?thesis using assms(1) \<open>?p [CHR '' '']\<close> unfolding find_None_iff by blast
  next
    case (Some w)
    from find_SomeD [OF Some] \<open>\<And>w. w \<in> set ws \<Longrightarrow> ?p w \<Longrightarrow> w = [CHR '' '']\<close>
    have "w = [CHR '' '']" by blast
    with Some show ?thesis by simp
  qed
  then show ?thesis by (subst strip_seqs.simps) simp
qed

lemma white_space_space:
  "[CHR '' ''] \<in> set white_space"
  "w \<in> set white_space \<Longrightarrow> hd w = CHR '' '' \<Longrightarrow> w = [CHR '' '']"
  "w \<in> set white_space \<Longrightarrow> last w = CHR '' '' \<Longrightarrow> w = [CHR '' '']"
proof -
  have sp: "char_of (32 :: nat) = CHR '' ''" by code_simp
  then show "[CHR '' ''] \<in> set white_space" by (simp add: white_space_def)
  have hd: "w = [CHR '' '']" if "w \<in> set white_space" "code_of (hd w) = 32"
    using that sp unfolding white_space_def by (simp, elim disjE) simp_all
  then show "w = [CHR '' '']" if "w \<in> set white_space" "hd w = CHR '' ''" using that by simp
  have last: "w = [CHR '' '']" if "w \<in> set white_space" "code_of (last w) = 32"
    using that sp unfolding white_space_def by (simp, elim disjE) simp_all
  then show "w = [CHR '' '']" if "w \<in> set white_space" "last w = CHR '' ''" using that by simp
qed

lemma trim_space: "trim (CHR '' '' # s) = trim s"
  using strip_seqs_space [OF white_space_space(1), of s] white_space_space(2)
  by (simp add: trim_def trim_start_def)

lemma trim_space_end:
  assumes "s \<noteq> []" "visible (hd s)" "visible (last s)"
  shows "trim (s @ '' '') = s"
proof -
  have "\<not> starts_with w (s @ t)" if "w \<in> set white_space" "w \<noteq> []" for w t
    using that starts_with_hd [of w "s @ t"] white_space_not_visible [of w] assms(1,2) by auto
  then have "trim_start (s @ t) = s @ t" for t unfolding trim_start_def by (intro strip_seqs_id)
  from this [of "'' ''"] this [of "[]"] have "trim_start (s @ '' '') = s @ '' ''" "trim_start s = s" by simp_all
  moreover have "strip_seqs (map rev white_space) (CHR '' '' # rev s) = strip_seqs (map rev white_space) (rev s)"
  proof (rule strip_seqs_space)
    have "rev [CHR '' ''] \<in> rev ` set white_space" by (rule imageI, rule white_space_space(1))
    then show "[CHR '' ''] \<in> set (map rev white_space)" by simp
    fix w assume "w \<in> set (map rev white_space)" "w \<noteq> []" "hd w = CHR '' ''"
    moreover from this(1) obtain v where v: "v \<in> set white_space" "w = rev v" by auto
    ultimately have "last v = CHR '' ''" by (simp add: hd_rev)
    from white_space_space(3) [OF v(1) this] v(2) show "w = [CHR '' '']" by simp
  qed
  ultimately show ?thesis
    using trim_visible [OF assms] by (simp add: trim_def trim_end_def)
qed

lemma trim_Nil [simp]: "trim [] = []"
proof -
  have "strip_seqs ws [] = []" for ws using strip_seqs_suffix [of "[]" ws] by simp
  then show ?thesis by (simp add: trim_def trim_end_def trim_start_def)
qed

lemma trim_all_visible: "list_all visible s \<Longrightarrow> trim s = s"
  by (cases "s = []") (auto simp: list_all_iff intro: trim_visible)

lemma set_trim: "set (trim s) \<subseteq> set s"
proof -
  have "set (trim_end t) \<subseteq> set t" for t using trim_end_prefix set_mono_prefix by blast
  moreover have "set (trim_start s) \<subseteq> set s"
    using strip_seqs_suffix [of s white_space] unfolding trim_start_def by (metis Un_upper2 set_append)
  ultimately show ?thesis unfolding trim_def by blast
qed

text \<open>Splitting what was joined with a separator and a space.\<close>

lemma split_on_append:
  "c \<notin> set x \<Longrightarrow> split_on c (x @ c # s) = x # split_on c s"
  by (induction x) auto

lemma split_on_id: "c \<notin> set x \<Longrightarrow> split_on c x = [x]"
  by (induction x) auto

lemma split_on_join:
  assumes "\<And>x. x \<in> set xs \<Longrightarrow> c \<notin> set x" "d \<noteq> c" "xs \<noteq> []"
  shows "split_on c (join_with [c, d] xs) = hd xs # map (Cons d) (tl xs)"
proof -
  have "split_on c (d # join_with [c, d] xs) = map (Cons d) xs" if "xs \<noteq> []"
      "\<And>x. x \<in> set xs \<Longrightarrow> c \<notin> set x" for xs
    using that
  proof (induction "[c, d]" xs rule: join_with.induct)
    case 1
    then show ?case by simp
  next
    case (2 x)
    then show ?case using assms(2) by (simp add: split_on_id)
  next
    case (3 x y ys)
    then show ?case using assms(2) split_on_append [of c "d # x" "d # join_with [c, d] (y # ys)"]
      by simp
  qed
  from this [of "tl xs"] show ?thesis
    using assms by (cases xs; cases "tl xs") (auto simp: split_on_id split_on_append)
qed

lemma contains_str_set: "contains_str w v \<Longrightarrow> set w \<subseteq> set v"
proof (induction v)
  case (Cons c v)
  have "set w \<subseteq> set (c # v)" if "starts_with w (c # v)"
    using that set_take_subset [of "length w" "c # v"] by (simp add: starts_with_def)
  with Cons show ?case by auto
qed simp

lemma visible_no_whitespace:
  assumes "list_all visible v"
  shows "\<not> has_whitespace v"
proof
  assume "has_whitespace v"
  then obtain w where w: "w \<in> set white_space" "contains_str w v" by (auto simp: has_whitespace_def list_ex_iff)
  then have "hd w \<in> set v" using contains_str_set [OF w(2)] by (auto simp: white_space_def)
  with assms white_space_not_visible [OF w(1)] show False by (simp add: list_all_iff)
qed

end
