(* ===== verification/Resilience.thy ===== *)
theory Resilience
  imports Prelude
begin

text \<open>
  \<^verbatim>\<open>src/src/rust/src/resilience.rs\<close>: the circuit breaker and the bulkhead.

  The breaker keeps its state behind a mutex, and every operation takes the lock once, so each
  operation is one atomic function from the state before to the state after; concurrent callers
  are sequences of such operations. The clock is the argument \<open>now\<close>.

  The bulkhead wraps a counting semaphore of the tokio package, which is a parameter
  (\<open>semaphore_ops\<close>) with its documented laws (\<open>semaphore_laws\<close>).
\<close>

section \<open>Data\<close>

record circuit_breaker_config =
  failure_threshold :: u32
  open_for :: duration

record resilience_config_error =
  rce_code :: string
  rce_message :: string

datatype circuit_admission = AdmitAllowed | AdmitRejected

datatype circuit_state_snapshot = SnapClosed u32 | SnapOpen | SnapHalfOpen

datatype circuit_state = Closed u32 | Open instant | HalfOpen bool

record circuit_breaker =
  cb_config :: circuit_breaker_config
  cb_state :: circuit_state

section \<open>Operations of the circuit breaker\<close>

definition circuit_breaker_new ::
    "circuit_breaker_config \<Rightarrow> (resilience_config_error, circuit_breaker) result" where
  "circuit_breaker_new config =
     (if failure_threshold config = 0 then
        Inl \<lparr>rce_code = ''circuit_failure_threshold_invalid'',
             rce_message = ''circuit failure threshold must be positive''\<rparr>
      else if open_for config = 0 then
        Inl \<lparr>rce_code = ''circuit_open_duration_invalid'',
             rce_message = ''circuit open duration must be positive''\<rparr>
      else Inr \<lparr>cb_config = config, cb_state = Closed 0\<rparr>)"

definition admit :: "instant \<Rightarrow> circuit_breaker \<Rightarrow> circuit_admission \<times> circuit_breaker" where
  "admit now cb =
     (case cb_state cb of
        Closed _ \<Rightarrow> (AdmitAllowed, cb)
      | Open opened_at \<Rightarrow>
          if now - opened_at \<ge> open_for (cb_config cb)
          then (AdmitAllowed, cb\<lparr>cb_state := HalfOpen True\<rparr>)
          else (AdmitRejected, cb)
      | HalfOpen probe_in_flight \<Rightarrow>
          if \<not> probe_in_flight then (AdmitAllowed, cb\<lparr>cb_state := HalfOpen True\<rparr>)
          else (AdmitRejected, cb))"

definition record_success :: "circuit_breaker \<Rightarrow> circuit_breaker" where
  "record_success cb = cb\<lparr>cb_state := Closed 0\<rparr>"

definition record_failure :: "instant \<Rightarrow> circuit_breaker \<Rightarrow> circuit_breaker" where
  "record_failure now cb =
     (case cb_state cb of
        Closed consecutive_failures \<Rightarrow>
          (let n = saturating_add consecutive_failures 1 in
           if n \<ge> failure_threshold (cb_config cb) then cb\<lparr>cb_state := Open now\<rparr>
           else cb\<lparr>cb_state := Closed n\<rparr>)
      | Open _ \<Rightarrow> cb
      | HalfOpen _ \<Rightarrow> cb\<lparr>cb_state := Open now\<rparr>)"

definition cancel_probe :: "circuit_breaker \<Rightarrow> circuit_breaker" where
  "cancel_probe cb =
     (case cb_state cb of
        HalfOpen _ \<Rightarrow> cb\<lparr>cb_state := HalfOpen False\<rparr>
      | _ \<Rightarrow> cb)"

definition breaker_snapshot :: "circuit_breaker \<Rightarrow> circuit_state_snapshot" where
  "breaker_snapshot cb =
     (case cb_state cb of
        Closed consecutive_failures \<Rightarrow> SnapClosed consecutive_failures
      | Open _ \<Rightarrow> SnapOpen
      | HalfOpen _ \<Rightarrow> SnapHalfOpen)"

section \<open>The bulkhead\<close>

record 's semaphore_ops =
  sem_new :: "nat \<Rightarrow> 's option"
  sem_try_acquire_owned :: "'s \<Rightarrow> 's option"
  sem_drop_permit :: "'s \<Rightarrow> 's"
  sem_available_permits :: "'s \<Rightarrow> nat"

datatype bulkhead_rejected = BulkheadRejected

text \<open>\<^const>\<open>None\<close> is the panic of the package when there are more permits than a semaphore can count.\<close>

definition bulkhead_new ::
    "'s semaphore_ops \<Rightarrow> nat \<Rightarrow> (resilience_config_error, 's) result option" where
  "bulkhead_new ops max_in_flight =
     (if max_in_flight = 0 then
        Some (Inl \<lparr>rce_code = ''bulkhead_capacity_invalid'',
                   rce_message = ''bulkhead capacity must be positive''\<rparr>)
      else map_option Inr (sem_new ops max_in_flight))"

definition bulkhead_try_acquire ::
    "'s semaphore_ops \<Rightarrow> 's \<Rightarrow> (bulkhead_rejected, 's) result" where
  "bulkhead_try_acquire ops s =
     (case sem_try_acquire_owned ops s of None \<Rightarrow> Inl BulkheadRejected | Some s' \<Rightarrow> Inr s')"

definition bulkhead_available_permits :: "'s semaphore_ops \<Rightarrow> 's \<Rightarrow> nat" where
  "bulkhead_available_permits ops s = sem_available_permits ops s"

section \<open>Runs\<close>

text \<open>
  A run of the breaker: timed operations of any callers in the order in which they take the lock.
  The result is the list of admission decisions and the breaker after the run.
\<close>

datatype circuit_op = Admit | RecordSuccess | RecordFailure | CancelProbe

fun circuit_step :: "instant \<times> circuit_op \<Rightarrow> circuit_breaker \<Rightarrow> circuit_admission list \<times> circuit_breaker" where
  "circuit_step (now, Admit) cb = (let (a, cb') = admit now cb in ([a], cb'))"
| "circuit_step (now, RecordSuccess) cb = ([], record_success cb)"
| "circuit_step (now, RecordFailure) cb = ([], record_failure now cb)"
| "circuit_step (now, CancelProbe) cb = ([], cancel_probe cb)"

fun circuit_run ::
    "(instant \<times> circuit_op) list \<Rightarrow> circuit_breaker \<Rightarrow> circuit_admission list \<times> circuit_breaker" where
  "circuit_run [] cb = ([], cb)"
| "circuit_run (e # es) cb =
     (let (a, cb1) = circuit_step e cb; (as, cb2) = circuit_run es cb1 in (a @ as, cb2))"

text \<open>
  A run of the bulkhead with the number of permits that callers hold: an acquisition that is
  rejected changes nothing, and only a held permit can be dropped.
\<close>

datatype bulkhead_op = TryAcquire | DropPermit

fun bulkhead_run :: "'s semaphore_ops \<Rightarrow> bulkhead_op list \<Rightarrow> 's \<times> nat \<Rightarrow> 's \<times> nat" where
  "bulkhead_run ops [] st = st"
| "bulkhead_run ops (TryAcquire # es) (s, held) =
     (case bulkhead_try_acquire ops s of
        Inl _ \<Rightarrow> bulkhead_run ops es (s, held)
      | Inr s' \<Rightarrow> bulkhead_run ops es (s', Suc held))"
| "bulkhead_run ops (DropPermit # es) (s, held) =
     (case held of
        0 \<Rightarrow> bulkhead_run ops es (s, held)
      | Suc h \<Rightarrow> bulkhead_run ops es (sem_drop_permit ops s, h))"

text \<open>The documented behaviour of tokio's semaphore.\<close>

definition semaphore_laws :: "'s semaphore_ops \<Rightarrow> bool" where
  "semaphore_laws ops \<longleftrightarrow>
     (\<forall>n. (\<forall>s. sem_new ops n = Some s \<longrightarrow> sem_available_permits ops s = n)) \<and>
     (\<forall>s. sem_available_permits ops s = 0 \<longrightarrow> sem_try_acquire_owned ops s = None) \<and>
     (\<forall>s. 0 < sem_available_permits ops s \<longrightarrow>
        (\<exists>s'. sem_try_acquire_owned ops s = Some s' \<and>
              Suc (sem_available_permits ops s') = sem_available_permits ops s)) \<and>
     (\<forall>s. sem_available_permits ops (sem_drop_permit ops s) = Suc (sem_available_permits ops s))"

section \<open>Well-formedness\<close>

definition breaker_ok :: "circuit_breaker \<Rightarrow> bool" where
  "breaker_ok cb \<longleftrightarrow>
     failure_threshold (cb_config cb) \<noteq> 0 \<and> open_for (cb_config cb) \<noteq> 0 \<and>
     (case cb_state cb of Closed n \<Rightarrow> n < failure_threshold (cb_config cb) | _ \<Rightarrow> True)"

lemmas breaker_op_defs = admit_def record_success_def record_failure_def cancel_probe_def

lemma circuit_run_Cons [simp]:
  "circuit_run (e # es) cb =
     (fst (circuit_step e cb) @ fst (circuit_run es (snd (circuit_step e cb))),
      snd (circuit_run es (snd (circuit_step e cb))))"
  by (simp split: prod.splits)

declare circuit_run.simps(2) [simp del]

lemma circuit_step_Admit [simp]:
  "circuit_step (t, Admit) cb = ([fst (admit t cb)], snd (admit t cb))"
  by (simp split: prod.splits)

declare circuit_step.simps(1) [simp del]

lemma circuit_step_config [simp]: "cb_config (snd (circuit_step e cb)) = cb_config cb"
  by (cases e rule: prod.exhaust, rename_tac t p, case_tac p)
    (auto simp: breaker_op_defs Let_def split: circuit_state.splits prod.splits)

lemma circuit_run_config [simp]: "cb_config (snd (circuit_run es cb)) = cb_config cb"
  by (induction es arbitrary: cb) simp_all

lemma breaker_new_ok: "circuit_breaker_new config = Inr cb \<Longrightarrow> breaker_ok cb"
  by (auto simp: circuit_breaker_new_def breaker_ok_def word_neq_0_conv split: if_splits)

lemma circuit_step_ok: "breaker_ok cb \<Longrightarrow> breaker_ok (snd (circuit_step e cb))"
  by (cases e rule: prod.exhaust, rename_tac t p, case_tac p)
    (auto simp: breaker_op_defs breaker_ok_def Let_def word_neq_0_conv
      split: circuit_state.splits prod.splits)

lemma circuit_run_ok: "breaker_ok cb \<Longrightarrow> breaker_ok (snd (circuit_run es cb))"
  by (induction es arbitrary: cb) (simp_all add: circuit_step_ok)

section \<open>Opening\<close>

lemma failures_keep_open:
  "cb_state cb = Open t0 \<Longrightarrow> circuit_run (map (\<lambda>t. (t, RecordFailure)) ts) cb = ([], cb)"
  by (induction ts) (simp_all add: record_failure_def)

lemma record_failure_closed:
  assumes "cb_state cb = Closed k" and "k < failure_threshold (cb_config cb)"
  shows "cb_state (record_failure t cb) =
    (if Suc (unat k) < unat (failure_threshold (cb_config cb)) then Closed (k + 1) else Open t)"
  using saturating_add_one [OF assms(2)] assms(1)
  by (auto simp: record_failure_def Let_def word_le_nat_alt not_less)

lemma failures_from_closed:
  assumes "cb_state cb = Closed k" and "k < failure_threshold (cb_config cb)"
  shows "cb_state (snd (circuit_run (map (\<lambda>t. (t, RecordFailure)) ts) cb)) =
    (if unat k + length ts < unat (failure_threshold (cb_config cb)) then Closed (k + of_nat (length ts))
     else Open (ts ! (unat (failure_threshold (cb_config cb)) - Suc (unat k))))"
  using assms
proof (induction ts arbitrary: cb k)
  case Nil
  then show ?case by (simp add: word_less_nat_alt)
next
  case (Cons t ts)
  let ?thr = "failure_threshold (cb_config cb)"
  let ?cb = "record_failure t cb"
  have cfg: "cb_config ?cb = cb_config cb"
    using circuit_step_config [of "(t, RecordFailure)" cb] by simp
  have run: "snd (circuit_run (map (\<lambda>t. (t, RecordFailure)) (t # ts)) cb) =
      snd (circuit_run (map (\<lambda>t. (t, RecordFailure)) ts) ?cb)"
    by (simp split: prod.splits)
  note st = record_failure_closed [OF Cons.prems, of t]
  show ?case
  proof (cases "Suc (unat k) < unat ?thr")
    case True
    then have k1: "unat (k + 1) = Suc (unat k)"
      using saturating_add_one(2) [OF Cons.prems(2)] by simp
    with True have "k + 1 < failure_threshold (cb_config ?cb)" by (simp add: cfg word_less_nat_alt)
    with True st have "cb_state (snd (circuit_run (map (\<lambda>t. (t, RecordFailure)) ts) ?cb)) =
        (if unat (k + 1) + length ts < unat ?thr then Closed (k + 1 + of_nat (length ts))
         else Open (ts ! (unat ?thr - Suc (unat (k + 1)))))"
      using Cons.IH [of ?cb "k + 1"] by (simp add: cfg)
    moreover have "unat ?thr - Suc (unat k) = Suc (unat ?thr - Suc (Suc (unat k)))"
      using True by simp
    ultimately show ?thesis using run k1 by (simp add: add.assoc)
  next
    case False
    with Cons.prems(2) have "unat ?thr = Suc (unat k)" by (simp add: word_less_nat_alt)
    with False st run show ?thesis by (simp add: failures_keep_open)
  qed
qed

text \<open>
  C1. A breaker opens exactly at the configured number of consecutive failures: starting from a
  new breaker, fewer than \<open>failure_threshold\<close> failures leave it closed with that count, and any
  longer run leaves it open since the moment of the failure that reached the threshold, however
  many further failures are recorded.
\<close>

theorem breaker_opens_at_threshold:
  assumes "circuit_breaker_new config = Inr cb"
  shows "cb_state (snd (circuit_run (map (\<lambda>t. (t, RecordFailure)) ts) cb)) =
    (if length ts < unat (failure_threshold config) then Closed (of_nat (length ts))
     else Open (ts ! (unat (failure_threshold config) - 1)))"
proof -
  from assms have "cb_state cb = Closed 0" "cb_config cb = config" "0 < failure_threshold config"
    by (auto simp: circuit_breaker_new_def word_neq_0_conv split: if_splits)
  then show ?thesis using failures_from_closed [of cb 0 ts] by simp
qed

theorem breaker_opens_at_threshold_witness:
  "cb_state (snd (circuit_run (map (\<lambda>t. (t, RecordFailure)) [10, 20, 30])
     \<lparr>cb_config = \<lparr>failure_threshold = 2, open_for = 5\<rparr>, cb_state = Closed 0\<rparr>)) = Open 20"
  using breaker_opens_at_threshold
    [of "\<lparr>failure_threshold = 2, open_for = 5\<rparr>" _ "[10, 20, 30]"]
  by (simp add: circuit_breaker_new_def)

section \<open>Rejection while open, and the single probe\<close>

lemma admit_run_half_open:
  "cb_state cb = HalfOpen True \<Longrightarrow>
   fst (circuit_run (map (\<lambda>t. (t, Admit)) ts) cb) = map (\<lambda>_. AdmitRejected) ts"
  by (induction ts) (auto simp: admit_def split: prod.splits)

lemma admit_not_closed:
  "\<nexists>n. cb_state cb = Closed n \<Longrightarrow>
   admit t cb = (AdmitRejected, cb) \<or>
   admit t cb = (AdmitAllowed, cb\<lparr>cb_state := HalfOpen True\<rparr>)"
  by (auto simp: admit_def split: circuit_state.splits)

text \<open>
  C2. However many callers race for admission at whatever times, a breaker that is not closed
  lets at most one of them through until somebody reports the outcome of the probe.
\<close>

theorem breaker_single_probe:
  assumes "\<nexists>n. cb_state cb = Closed n"
  shows "length (filter (\<lambda>a. a = AdmitAllowed) (fst (circuit_run (map (\<lambda>t. (t, Admit)) ts) cb))) \<le> 1"
proof (induction ts)
  case Nil
  show ?case by simp
next
  case (Cons t ts)
  let ?run = "\<lambda>cb. fst (circuit_run (map (\<lambda>t. (t, Admit)) ts) cb)"
  consider "admit t cb = (AdmitRejected, cb)"
    | "admit t cb = (AdmitAllowed, cb\<lparr>cb_state := HalfOpen True\<rparr>)"
    using admit_not_closed [OF assms] by blast
  then show ?case
  proof cases
    case 1
    with Cons.IH show ?thesis by (simp split: prod.splits)
  next
    case 2
    have "?run (cb\<lparr>cb_state := HalfOpen True\<rparr>) = map (\<lambda>_. AdmitRejected) ts"
      by (simp add: admit_run_half_open)
    with 2 show ?thesis by (simp add: filter_empty_conv split: prod.splits)
  qed
qed

theorem breaker_single_probe_witness:
  "length (filter (\<lambda>a. a = AdmitAllowed) (fst (circuit_run (map (\<lambda>t. (t, Admit)) [11, 16, 17, 90])
     \<lparr>cb_config = \<lparr>failure_threshold = 2, open_for = 5\<rparr>, cb_state = Open 10\<rparr>))) \<le> 1 \<and>
   fst (circuit_run (map (\<lambda>t. (t, Admit)) [11, 16, 17, 90])
     \<lparr>cb_config = \<lparr>failure_threshold = 2, open_for = 5\<rparr>, cb_state = Open 10\<rparr>) =
     [AdmitRejected, AdmitAllowed, AdmitRejected, AdmitRejected]"
  using breaker_single_probe
    [of "\<lparr>cb_config = \<lparr>failure_threshold = 2, open_for = 5\<rparr>, cb_state = Open 10\<rparr>"
      "[11, 16, 17, 90]"]
  by (simp add: admit_def)

text \<open>
  While the open period lasts nothing but a recorded success ends it: from a breaker opened at
  \<open>t0\<close>, every run of admissions, failures and cancellations before \<open>t0 + open_for\<close> is rejected
  throughout and leaves the breaker as it was.
\<close>

theorem breaker_rejects_while_open:
  assumes "cb_state cb = Open t0" and "breaker_ok cb"
    and "\<forall>e \<in> set es. fst e < t0 + open_for (cb_config cb) \<and> snd e \<noteq> RecordSuccess"
  shows "snd (circuit_run es cb) = cb \<and> set (fst (circuit_run es cb)) \<subseteq> {AdmitRejected}"
  using assms(3)
proof (induction es)
  case Nil
  show ?case by simp
next
  case (Cons e es)
  obtain t p where e: "e = (t, p)" by fastforce
  with Cons.prems have "t < t0 + open_for (cb_config cb)" "p \<noteq> RecordSuccess" by auto
  then have "snd (circuit_step e cb) = cb \<and> set (fst (circuit_step e cb)) \<subseteq> {AdmitRejected}"
    using assms(1,2) e by (cases p) (auto simp: breaker_op_defs breaker_ok_def)
  with Cons show ?case by (auto simp: Let_def split: prod.splits)
qed

theorem breaker_rejects_while_open_witness:
  "snd (circuit_run [(11, Admit), (12, RecordFailure), (13, CancelProbe), (14, Admit)]
     \<lparr>cb_config = \<lparr>failure_threshold = 2, open_for = 5\<rparr>, cb_state = Open 10\<rparr>) =
     \<lparr>cb_config = \<lparr>failure_threshold = 2, open_for = 5\<rparr>, cb_state = Open 10\<rparr>"
  using breaker_rejects_while_open
    [of "\<lparr>cb_config = \<lparr>failure_threshold = 2, open_for = 5\<rparr>, cb_state = Open 10\<rparr>" 10
      "[(11, Admit), (12, RecordFailure), (13, CancelProbe), (14, Admit)]"]
  by (simp add: breaker_ok_def)

section \<open>The bulkhead\<close>

lemma bulkhead_run_conserves:
  assumes "semaphore_laws ops"
  shows "bulkhead_run ops es (s, held) = (s', held') \<Longrightarrow>
    sem_available_permits ops s' + held' = sem_available_permits ops s + held"
proof (induction es arbitrary: s held)
  case Nil
  then show ?case by simp
next
  case (Cons e es)
  show ?case
  proof (cases e)
    case TryAcquire
    show ?thesis
    proof (cases "sem_available_permits ops s")
      case 0
      with assms have "sem_try_acquire_owned ops s = None" by (simp add: semaphore_laws_def)
      with Cons TryAcquire show ?thesis by (simp add: bulkhead_try_acquire_def)
    next
      case (Suc n)
      with assms obtain s1 where "sem_try_acquire_owned ops s = Some s1"
        and "sem_available_permits ops s1 = n"
        unfolding semaphore_laws_def by (metis old.nat.inject zero_less_Suc)
      with Cons TryAcquire Suc show ?thesis by (fastforce simp: bulkhead_try_acquire_def)
    qed
  next
    case DropPermit
    with Cons assms show ?thesis by (fastforce simp: semaphore_laws_def split: nat.splits)
  qed
qed

text \<open>
  A bulkhead of capacity \<open>max_in_flight\<close> never has more permits in flight than that, whatever
  callers acquire and drop in whatever order, and it rejects an acquisition only when all of them
  are held.
\<close>

theorem bulkhead_bounds_in_flight:
  assumes "semaphore_laws ops" and "bulkhead_new ops max_in_flight = Some (Inr s)"
    and "bulkhead_run ops es (s, 0) = (s', held)"
  shows "held \<le> max_in_flight \<and>
    (bulkhead_try_acquire ops s' = Inl BulkheadRejected \<longleftrightarrow> held = max_in_flight)"
proof -
  from assms(1,2) have "sem_available_permits ops s = max_in_flight"
    by (auto simp: bulkhead_new_def semaphore_laws_def split: if_splits)
  with bulkhead_run_conserves [OF assms(1,3)]
  have sum: "sem_available_permits ops s' + held = max_in_flight" by simp
  have "bulkhead_try_acquire ops s' = Inl BulkheadRejected \<longleftrightarrow> sem_available_permits ops s' = 0"
    using assms(1) by (cases "sem_available_permits ops s' = 0")
      (force simp: semaphore_laws_def bulkhead_try_acquire_def split: option.splits)+
  with sum show ?thesis by auto
qed

definition nat_semaphore :: "nat semaphore_ops" where
  "nat_semaphore = \<lparr>sem_new = (\<lambda>n. then_some (n < 2 ^ 61) n),
     sem_try_acquire_owned = (\<lambda>n. case n of 0 \<Rightarrow> None | Suc m \<Rightarrow> Some m),
     sem_drop_permit = Suc, sem_available_permits = id\<rparr>"

lemma nat_semaphore_laws: "semaphore_laws nat_semaphore"
  by (auto simp: semaphore_laws_def nat_semaphore_def split: nat.splits)

theorem bulkhead_bounds_in_flight_witness:
  "semaphore_laws nat_semaphore \<and>
   bulkhead_run nat_semaphore [TryAcquire, TryAcquire, TryAcquire, DropPermit, TryAcquire] (2, 0) = (0, 2) \<and>
   bulkhead_try_acquire nat_semaphore 0 = Inl BulkheadRejected"
proof -
  have run: "bulkhead_run nat_semaphore
      [TryAcquire, TryAcquire, TryAcquire, DropPermit, TryAcquire] (2, 0) = (0, 2)"
    by (simp add: nat_semaphore_def bulkhead_try_acquire_def numeral_2_eq_2)
  have "bulkhead_new nat_semaphore 2 = Some (Inr 2)"
    by (simp add: bulkhead_new_def nat_semaphore_def)
  from bulkhead_bounds_in_flight [OF nat_semaphore_laws this run] run nat_semaphore_laws
  show ?thesis by blast
qed

end
