(* ===== verification/Ordered_Map.thy ===== *)
theory Ordered_Map
  imports Prelude
begin

text \<open>
  The standard library's maps. A \<open>BTreeMap\<close> is an association list kept strictly ascending in
  its keys, so that \<open>iter()\<close> is the list itself; a \<open>BTreeSet\<close> is the list of its elements.
  A \<open>HashMap\<close>, whose iteration order is not specified, is a HOL map wherever the source does not
  iterate over it.

  The locale \<open>map_interface\<close> states what the clients rely on (what a lookup returns after an
  insertion or a removal, and that the representation stays well formed); it is interpreted once
  for each of the two representations, and \<open>collect\<close>, \<open>extend\<close> and \<open>chain\<close> of the source are
  reasoned about through it.
\<close>

section \<open>BTreeMap\<close>

type_synonym ('k, 'v) btree_map = "('k \<times> 'v) list"

fun bt_insert :: "'k::linorder \<Rightarrow> 'v \<Rightarrow> ('k, 'v) btree_map \<Rightarrow> ('k, 'v) btree_map" where
  "bt_insert k v [] = [(k, v)]"
| "bt_insert k v (e # m) =
     (if k = fst e then (k, v) # m else if k < fst e then (k, v) # e # m
      else e # bt_insert k v m)"

definition bt_remove :: "'k \<Rightarrow> ('k, 'v) btree_map \<Rightarrow> ('k, 'v) btree_map" where
  "bt_remove k m = filter (\<lambda>e. fst e \<noteq> k) m"

definition bt_get :: "('k, 'v) btree_map \<Rightarrow> 'k \<Rightarrow> 'v option" where
  "bt_get m k = map_of m k"

definition bt_contains_key :: "('k, 'v) btree_map \<Rightarrow> 'k \<Rightarrow> bool" where
  "bt_contains_key m k \<longleftrightarrow> (\<exists>v. bt_get m k = Some v)"

text \<open>\<open>entry(k).or_insert(v)\<close>, and the \<open>collect\<close> of an iterator of pairs (a later pair wins).\<close>

definition bt_or_insert :: "'k::linorder \<Rightarrow> 'v \<Rightarrow> ('k, 'v) btree_map \<Rightarrow> ('k, 'v) btree_map" where
  "bt_or_insert k v m = (case bt_get m k of None \<Rightarrow> bt_insert k v m | Some _ \<Rightarrow> m)"

definition bt_extend ::
    "('k::linorder, 'v) btree_map \<Rightarrow> ('k \<times> 'v) list \<Rightarrow> ('k, 'v) btree_map" where
  "bt_extend m kvs = foldl (\<lambda>acc kv. bt_insert (fst kv) (snd kv) acc) m kvs"

definition bt_collect :: "('k::linorder \<times> 'v) list \<Rightarrow> ('k, 'v) btree_map" where
  "bt_collect kvs = bt_extend [] kvs"

text \<open>\<open>*get_mut(k) = f(value)\<close> on a key that is present.\<close>

definition bt_modify :: "'k \<Rightarrow> ('v \<Rightarrow> 'v) \<Rightarrow> ('k, 'v) btree_map \<Rightarrow> ('k, 'v) btree_map" where
  "bt_modify k f m = map (\<lambda>e. if fst e = k then (k, f (snd e)) else e) m"

definition bt_ok :: "('k::linorder, 'v) btree_map \<Rightarrow> bool" where
  "bt_ok m \<longleftrightarrow> sorted_wrt (<) (map fst m)"

text \<open>\<open>BTreeSet::insert\<close> with the flag it returns, and \<open>collect\<close> into a set.\<close>

definition bs_insert :: "'k::linorder \<Rightarrow> 'k list \<Rightarrow> 'k list \<times> bool" where
  "bs_insert k s = (if k \<in> set s then (s, False) else (insort k s, True))"

definition bs_collect :: "'k::linorder list \<Rightarrow> 'k list" where
  "bs_collect ks = foldl (\<lambda>s k. fst (bs_insert k s)) [] ks"

section \<open>The interface\<close>

locale map_interface =
  fixes empty :: "'m"
    and insert :: "'k \<Rightarrow> 'v \<Rightarrow> 'm \<Rightarrow> 'm"
    and remove :: "'k \<Rightarrow> 'm \<Rightarrow> 'm"
    and get :: "'m \<Rightarrow> 'k \<Rightarrow> 'v option"
    and ok :: "'m \<Rightarrow> bool"
  assumes get_empty: "get empty k = None"
    and get_insert: "ok m \<Longrightarrow> get (insert k v m) j = (if j = k then Some v else get m j)"
    and get_remove: "ok m \<Longrightarrow> get (remove k m) j = (if j = k then None else get m j)"
    and ok_empty: "ok empty"
    and ok_insert: "ok m \<Longrightarrow> ok (insert k v m)"
    and ok_remove: "ok m \<Longrightarrow> ok (remove k m)"
begin

lemma ok_foldl: "ok m \<Longrightarrow> ok (foldl (\<lambda>acc kv. insert (fst kv) (snd kv) acc) m kvs)"
  by (induction kvs arbitrary: m) (simp_all add: ok_insert)

lemma get_foldl:
  "ok m \<Longrightarrow> get (foldl (\<lambda>acc kv. insert (fst kv) (snd kv) acc) m kvs) k =
     (case map_of (rev kvs) k of None \<Rightarrow> get m k | Some v \<Rightarrow> Some v)"
proof (induction kvs arbitrary: m)
  case Nil
  then show ?case by simp
next
  case (Cons kv kvs)
  have "get (foldl (\<lambda>acc kv. insert (fst kv) (snd kv) acc) m (kv # kvs)) k =
      (case map_of (rev kvs) k of
         None \<Rightarrow> get (insert (fst kv) (snd kv) m) k | Some v \<Rightarrow> Some v)"
    using Cons.IH [OF ok_insert [OF Cons.prems]] by simp
  then show ?case
    by (cases kv) (simp add: get_insert Cons.prems map_add_def split: option.splits)
qed

lemma get_insert_same [simp]: "ok m \<Longrightarrow> get (insert k v m) k = Some v"
  by (simp add: get_insert)

end

section \<open>Lemmas\<close>

lemma bt_ok_Nil [simp]: "bt_ok []"
  by (simp add: bt_ok_def)

lemma bt_ok_Cons: "bt_ok (e # m) \<longleftrightarrow> (\<forall>k \<in> fst ` set m. fst e < k) \<and> bt_ok m"
  by (auto simp: bt_ok_def)

lemma keys_bt_insert [simp]: "fst ` set (bt_insert k v m) = insert k (fst ` set m)"
  by (induction m) auto

lemma bt_ok_insert [simp, intro]: "bt_ok m \<Longrightarrow> bt_ok (bt_insert k v m)"
proof (induction m)
  case Nil
  show ?case by (simp add: bt_ok_def)
next
  case (Cons e m)
  then have m: "bt_ok (bt_insert k v m)" "\<forall>j \<in> fst ` set m. fst e < j" "bt_ok m"
    by (simp_all add: bt_ok_Cons)
  consider "k = fst e" | "k < fst e" | "fst e < k" by (meson linorder_neqE)
  then show ?case
    using m by cases (auto simp add: bt_ok_Cons intro: less_trans dest: less_asym)
qed

lemma bt_ok_remove [simp, intro]: "bt_ok m \<Longrightarrow> bt_ok (bt_remove k m)"
  by (induction m) (auto simp: bt_remove_def bt_ok_Cons)

lemma bt_ok_filter: "bt_ok m \<Longrightarrow> bt_ok (filter p m)"
  by (induction m) (auto simp: bt_ok_Cons)

lemma bt_ok_distinct: "bt_ok m \<Longrightarrow> distinct (map fst m)"
  unfolding bt_ok_def by (induction m) auto

lemma bt_get_Nil [simp]: "bt_get [] k = None"
  by (simp add: bt_get_def)

lemma bt_get_insert:
  "bt_ok m \<Longrightarrow> bt_get (bt_insert k v m) j = (if j = k then Some v else bt_get m j)"
proof (induction m)
  case Nil
  show ?case by (simp add: bt_get_def)
next
  case (Cons e m)
  then show ?case by (cases e) (auto simp: bt_get_def bt_ok_Cons)
qed

lemma bt_get_remove: "bt_get (bt_remove k m) j = (if j = k then None else bt_get m j)"
  by (induction m) (auto simp: bt_get_def bt_remove_def)

lemma bt_get_modify:
  "bt_get (bt_modify k f m) j = (if j = k then map_option f (bt_get m k) else bt_get m j)"
  by (induction m) (auto simp: bt_get_def bt_modify_def)

lemma keys_bt_modify [simp]: "map fst (bt_modify k f m) = map fst m"
  by (induction m) (auto simp: bt_modify_def)

lemma bt_get_iff: "bt_ok m \<Longrightarrow> bt_get m k = Some v \<longleftrightarrow> (k, v) \<in> set m"
  by (simp add: bt_get_def bt_ok_distinct map_of_eq_Some_iff)

lemma bt_get_None_iff: "bt_get m k = None \<longleftrightarrow> k \<notin> fst ` set m"
  by (simp add: bt_get_def map_of_eq_None_iff)

lemma bt_contains_key_iff: "bt_contains_key m k \<longleftrightarrow> k \<in> fst ` set m"
  using bt_get_None_iff [of m k] by (auto simp: bt_contains_key_def)

lemma bt_ext:
  assumes "bt_ok m" "bt_ok m'" "\<And>k. bt_get m k = bt_get m' k"
  shows "m = m'"
proof -
  have "set m = set m'"
    using assms(3) bt_get_iff [OF assms(1)] bt_get_iff [OF assms(2)] by (auto; metis)
  moreover have "sorted (map fst m)" "sorted (map fst m')"
    using assms(1,2) by (auto simp: bt_ok_def intro: strict_sorted_imp_sorted)
  ultimately show ?thesis
    using assms(1,2) by (metis bt_ok_distinct map_sorted_distinct_set_unique bt_ok_def
        distinct_map inj_on_Un sup.idem)
qed

lemma set_bt_insert:
  "bt_ok m \<Longrightarrow> set (bt_insert k v m) = insert (k, v) {e \<in> set m. fst e \<noteq> k}"
proof (induction m)
  case Nil
  show ?case by simp
next
  case (Cons e m)
  then show ?case by (cases e) (auto simp: bt_ok_Cons)
qed

lemma set_bt_insert_subset: "set (bt_insert k v m) \<subseteq> insert (k, v) (set m)"
  by (induction m) auto

lemma length_bt_insert:
  "length (bt_insert k v m) \<le> Suc (length m)"
  by (induction m) auto

lemma length_bt_insert_new:
  "k \<notin> fst ` set m \<Longrightarrow> length (bt_insert k v m) = Suc (length m)"
  by (induction m) auto

lemma length_bt_insert_old:
  "bt_ok m \<Longrightarrow> k \<in> fst ` set m \<Longrightarrow> length (bt_insert k v m) = length m"
  by (induction m) (auto simp: bt_ok_Cons)

lemma length_bt_remove:
  "bt_ok m \<Longrightarrow> k \<in> fst ` set m \<Longrightarrow> Suc (length (bt_remove k m)) = length m"
proof (induction m)
  case Nil
  then show ?case by simp
next
  case (Cons e m)
  show ?case
  proof (cases "fst e = k")
    case True
    with Cons.prems have "\<forall>x \<in> set m. fst x \<noteq> k" by (auto simp: bt_ok_Cons)
    then have "filter (\<lambda>x. fst x \<noteq> k) m = m" by (simp add: filter_id_conv)
    with True show ?thesis by (simp add: bt_remove_def)
  next
    case False
    with Cons show ?thesis by (auto simp: bt_remove_def bt_ok_Cons)
  qed
qed

interpretation bt: map_interface "[]" bt_insert bt_remove bt_get bt_ok
  by unfold_locales (simp_all add: bt_get_insert bt_get_remove)

interpretation hm: map_interface Map.empty "\<lambda>k v m. m(k \<mapsto> v)" "\<lambda>k m. m(k := None)"
    "\<lambda>m k. m k" "\<lambda>_. True"
  by unfold_locales simp_all

lemma bt_ok_extend [simp, intro]: "bt_ok m \<Longrightarrow> bt_ok (bt_extend m kvs)"
  unfolding bt_extend_def by (rule bt.ok_foldl)

lemma bt_ok_collect [simp, intro]: "bt_ok (bt_collect kvs)"
  by (simp add: bt_collect_def)

lemma bt_get_extend:
  "bt_ok m \<Longrightarrow> bt_get (bt_extend m kvs) k =
     (case map_of (rev kvs) k of None \<Rightarrow> bt_get m k | Some v \<Rightarrow> Some v)"
  unfolding bt_extend_def by (rule bt.get_foldl)

lemma bt_get_collect: "bt_get (bt_collect kvs) k = map_of (rev kvs) k"
  by (simp add: bt_collect_def bt_get_extend split: option.splits)

lemma bt_collect_id: "bt_ok m \<Longrightarrow> bt_collect m = m"
proof (rule bt_ext)
  fix k
  assume ok: "bt_ok m"
  have "map_of (rev m) = map_of m"
    using bt_ok_distinct [OF ok] by (simp add: map_of_inject_set rev_map [symmetric])
  then show "bt_get (bt_collect m) k = bt_get m k" unfolding bt_get_collect by (simp add: bt_get_def)
qed auto

lemma bt_or_insert_get:
  "bt_ok m \<Longrightarrow> bt_get (bt_or_insert k v m) j =
     (if j = k \<and> bt_get m k = None then Some v else bt_get m j)"
  by (auto simp: bt_or_insert_def bt_get_insert split: option.splits)

lemma bt_ok_or_insert [simp, intro]: "bt_ok m \<Longrightarrow> bt_ok (bt_or_insert k v m)"
  by (auto simp: bt_or_insert_def split: option.splits)

lemma set_bt_extend_subset: "set (bt_extend m kvs) \<subseteq> set m \<union> set kvs"
proof (induction kvs arbitrary: m)
  case Nil
  show ?case by (simp add: bt_extend_def)
next
  case (Cons kv kvs)
  have "bt_extend m (kv # kvs) = bt_extend (bt_insert (fst kv) (snd kv) m) kvs"
    by (simp add: bt_extend_def)
  with Cons.IH [of "bt_insert (fst kv) (snd kv) m"] set_bt_insert_subset [of "fst kv" "snd kv" m]
  show ?case by auto
qed

lemma set_bt_collect_subset: "set (bt_collect kvs) \<subseteq> set kvs"
  using set_bt_extend_subset [of "[]" kvs] by (simp add: bt_collect_def)

lemma set_bs_insert [simp]: "set (fst (bs_insert k s)) = insert k (set s)"
  by (auto simp: bs_insert_def set_insort_key)

lemma snd_bs_insert [simp]: "snd (bs_insert k s) \<longleftrightarrow> k \<notin> set s"
  by (simp add: bs_insert_def)

end
