(* ===== verification/Breaker_Registry.thy ===== *)
theory Breaker_Registry
  imports Resilience Ordered_Map
begin

text \<open>
  The registry of circuit breakers of \<^verbatim>\<open>src/src/rust/src/hardening.rs\<close>.

  A \<open>CircuitBreaker\<close> is a handle: its clones share one state behind an \<open>Arc\<close>, and a breaker that
  the registry has evicted lives on with whoever holds a clone. So the breakers stand in an explicit
  store, a list that only grows, and the registry's entries hold indices into it. Every operation
  takes the registry's lock once and is one atomic step; the clock is the argument \<open>now\<close>.
\<close>

section \<open>Keys\<close>

datatype breaker_key = BreakerKey (dependency_id: string) (operation_class: string)

instantiation breaker_key :: linorder
begin

definition less_eq_breaker_key :: "breaker_key \<Rightarrow> breaker_key \<Rightarrow> bool" where
  "less_eq_breaker_key a b \<longleftrightarrow> dependency_id a < dependency_id b \<or>
     dependency_id a = dependency_id b \<and> operation_class a \<le> operation_class b"

definition less_breaker_key :: "breaker_key \<Rightarrow> breaker_key \<Rightarrow> bool" where
  "less_breaker_key a b \<longleftrightarrow> dependency_id a < dependency_id b \<or>
     dependency_id a = dependency_id b \<and> operation_class a < operation_class b"

instance
proof
  fix a b c :: breaker_key
  show "a < b \<longleftrightarrow> a \<le> b \<and> \<not> b \<le> a"
    by (auto simp: less_eq_breaker_key_def less_breaker_key_def)
  show "a \<le> a" by (simp add: less_eq_breaker_key_def)
  show "a \<le> b \<Longrightarrow> b \<le> c \<Longrightarrow> a \<le> c" by (auto simp: less_eq_breaker_key_def)
  show "a \<le> b \<Longrightarrow> b \<le> a \<Longrightarrow> a = b"
    by (cases a; cases b) (auto simp: less_eq_breaker_key_def)
  show "a \<le> b \<or> b \<le> a" by (auto simp: less_eq_breaker_key_def)
qed

end

definition max_breaker_registry_entries :: nat where "max_breaker_registry_entries = 1024"
definition max_breaker_key_component_bytes :: nat where "max_breaker_key_component_bytes = 64"

definition valid_breaker_component :: "string \<Rightarrow> bool" where
  "valid_breaker_component v \<longleftrightarrow>
     v \<noteq> [] \<and> length v \<le> max_breaker_key_component_bytes \<and>
     list_all (\<lambda>c. is_ascii_lowercase c \<or> is_ascii_digit c \<or> c \<in> set ''-_.'') v"

definition breaker_key_new ::
    "string \<Rightarrow> string \<Rightarrow> (resilience_config_error, breaker_key) result" where
  "breaker_key_new dependency operation =
     (if \<not> valid_breaker_component dependency \<or> \<not> valid_breaker_component operation then
        Inl \<lparr>rce_code = ''circuit_registry_key_invalid'',
             rce_message = ''circuit registry keys require bounded configured identifiers''\<rparr>
      else Inr (BreakerKey dependency operation))"

section \<open>The registry\<close>

record registry_config =
  max_entries :: nat
  idle_ttl :: duration
  breaker_config :: circuit_breaker_config

record registry_entry =
  re_breaker :: nat
  re_last_used :: instant

record breaker_registry =
  br_config :: registry_config
  br_entries :: "(breaker_key, registry_entry) btree_map"
  br_evictions :: u64
  br_store :: "circuit_breaker list"

definition registry_new ::
    "registry_config \<Rightarrow> (resilience_config_error, breaker_registry) result" where
  "registry_new config =
     (if max_entries config = 0 \<or> max_entries config > max_breaker_registry_entries then
        Inl \<lparr>rce_code = ''circuit_registry_capacity_invalid'',
             rce_message = ''circuit registry capacity must be within the supported bound''\<rparr>
      else if idle_ttl config = 0 then
        Inl \<lparr>rce_code = ''circuit_registry_ttl_invalid'',
             rce_message = ''circuit registry idle TTL must be positive''\<rparr>
      else bind_result (circuit_breaker_new (breaker_config config))
        (\<lambda>_. Inr \<lparr>br_config = config, br_entries = [], br_evictions = 0, br_store = []\<rparr>))"

text \<open>\<open>min_by\<close> with the comparison of the source; of equal elements it keeps the first.\<close>

definition older :: "breaker_key \<times> registry_entry \<Rightarrow> breaker_key \<times> registry_entry \<Rightarrow> bool" where
  "older l r \<longleftrightarrow> re_last_used (snd l) < re_last_used (snd r) \<or>
     re_last_used (snd l) = re_last_used (snd r) \<and> fst l < fst r"

fun least_recent ::
    "(breaker_key \<times> registry_entry) list \<Rightarrow> (breaker_key \<times> registry_entry) option" where
  "least_recent [] = None"
| "least_recent (e # es) = Some (foldl (\<lambda>best x. if older x best then x else best) e es)"

definition drop_expired :: "instant \<Rightarrow> breaker_registry \<Rightarrow> breaker_registry" where
  "drop_expired now reg =
     (let kept = filter (\<lambda>e. now - re_last_used (snd e) < idle_ttl (br_config reg)) (br_entries reg);
          expired = length (br_entries reg) - length kept
      in reg\<lparr>br_entries := kept,
             br_evictions := (if expired > 0 then br_evictions reg + of_nat expired
                              else br_evictions reg)\<rparr>)"

definition evict_if_full :: "breaker_registry \<Rightarrow> breaker_registry" where
  "evict_if_full reg =
     (if length (br_entries reg) \<ge> max_entries (br_config reg) then
        case least_recent (br_entries reg) of
          Some victim \<Rightarrow> reg\<lparr>br_entries := bt_remove (fst victim) (br_entries reg),
                             br_evictions := br_evictions reg + 1\<rparr>
        | None \<Rightarrow> reg
      else reg)"

definition get_or_insert ::
    "instant \<Rightarrow> breaker_key \<Rightarrow> breaker_registry \<Rightarrow>
     (resilience_config_error, nat) result \<times> breaker_registry" where
  "get_or_insert now key reg0 =
     (let reg = drop_expired now reg0 in
      case bt_get (br_entries reg) key of
        Some entry \<Rightarrow>
          (Inr (re_breaker entry),
           reg\<lparr>br_entries := bt_insert key (entry\<lparr>re_last_used := now\<rparr>) (br_entries reg)\<rparr>)
      | None \<Rightarrow>
          (let reg = evict_if_full reg in
           case circuit_breaker_new (breaker_config (br_config reg)) of
             Inl e \<Rightarrow> (Inl e, reg)
           | Inr breaker \<Rightarrow>
               (let p = length (br_store reg) in
                (Inr p,
                 reg\<lparr>br_store := br_store reg @ [breaker],
                     br_entries := bt_insert key \<lparr>re_breaker = p, re_last_used = now\<rparr>
                       (br_entries reg)\<rparr>))))"

definition registry_len :: "breaker_registry \<Rightarrow> nat" where
  "registry_len reg = length (br_entries reg)"

definition registry_is_empty :: "breaker_registry \<Rightarrow> bool" where
  "registry_is_empty reg \<longleftrightarrow> br_entries reg = []"

definition eviction_count :: "breaker_registry \<Rightarrow> u64" where
  "eviction_count reg = br_evictions reg"

text \<open>A sequence of lookups, with the breakers they return.\<close>

fun registry_run ::
    "(instant \<times> breaker_key) list \<Rightarrow> breaker_registry \<Rightarrow>
     (resilience_config_error, nat) result list \<times> breaker_registry" where
  "registry_run [] reg = ([], reg)"
| "registry_run ((now, key) # calls) reg =
     (case get_or_insert now key reg of (r, reg') \<Rightarrow>
        (case registry_run calls reg' of (rs, reg'') \<Rightarrow> (r # rs, reg'')))"

section \<open>The invariant\<close>

definition registry_config_ok :: "registry_config \<Rightarrow> bool" where
  "registry_config_ok c \<longleftrightarrow>
     0 < max_entries c \<and> max_entries c \<le> max_breaker_registry_entries \<and> 0 < idle_ttl c \<and>
     failure_threshold (breaker_config c) \<noteq> 0 \<and> open_for (breaker_config c) \<noteq> 0"

text \<open>The entries point into the store, no two of them to the same breaker.\<close>

definition entries_ok :: "(breaker_key, registry_entry) btree_map \<Rightarrow> nat \<Rightarrow> bool" where
  "entries_ok m n \<longleftrightarrow> bt_ok m \<and>
     (\<forall>a \<in> set m. \<forall>b \<in> set m. re_breaker (snd a) = re_breaker (snd b) \<longrightarrow> fst a = fst b) \<and>
     (\<forall>a \<in> set m. re_breaker (snd a) < n)"

definition registry_ok :: "breaker_registry \<Rightarrow> bool" where
  "registry_ok reg \<longleftrightarrow>
     registry_config_ok (br_config reg) \<and> entries_ok (br_entries reg) (length (br_store reg)) \<and>
     length (br_entries reg) \<le> max_entries (br_config reg) \<and>
     of_nat (length (br_store reg)) = of_nat (length (br_entries reg)) + br_evictions reg"

lemma least_recent_None [simp]: "least_recent es = None \<longleftrightarrow> es = []"
  by (cases es) simp_all

lemma older_trans: "older a b \<Longrightarrow> older b c \<Longrightarrow> older a c"
  by (auto simp: older_def)

lemma not_older_trans: "\<not> older b a \<Longrightarrow> \<not> older c b \<Longrightarrow> \<not> older c a"
  by (auto simp: older_def)

lemma fold_least:
  "foldl (\<lambda>best x. if older x best then x else best) e es \<in> insert e (set es) \<and>
   (\<forall>x \<in> insert e (set es). \<not> older x (foldl (\<lambda>best x. if older x best then x else best) e es))"
proof (induction es arbitrary: e)
  case Nil
  show ?case by (simp add: older_def)
next
  case (Cons x es)
  let ?e = "if older x e then x else e"
  let ?m = "foldl (\<lambda>best x. if older x best then x else best) ?e es"
  from Cons.IH [of ?e] have m: "?m \<in> insert ?e (set es)" "\<forall>y \<in> insert ?e (set es). \<not> older y ?m"
    by blast+
  have "\<not> older e ?e" "\<not> older x ?e" by (auto simp: older_def)
  with m(2) have "\<not> older e ?m" "\<not> older x ?m" using not_older_trans by blast+
  with m show ?case by (auto split: if_splits)
qed

lemma least_recent_min:
  assumes "least_recent es = Some v"
  shows "v \<in> set es" "\<And>x. x \<in> set es \<Longrightarrow> \<not> older x v"
  using assms fold_least by (cases es; fastforce)+

lemma entries_ok_filter: "entries_ok m n \<Longrightarrow> entries_ok (filter p m) n"
  by (auto simp: entries_ok_def bt_ok_filter)

lemma set_bt_insert_ok:
  "bt_ok m \<Longrightarrow> set (bt_insert k v m) = insert (k, v) {e \<in> set m. fst e \<noteq> k}"
  by (induction m) (auto simp: bt_ok_Cons)

lemma entries_ok_touch:
  assumes "entries_ok m n" "bt_get m k = Some e"
  shows "entries_ok (bt_insert k (e\<lparr>re_last_used := now\<rparr>) m) n"
proof -
  have ok: "bt_ok m" using assms(1) by (simp add: entries_ok_def)
  with assms(2) have e: "(k, e) \<in> set m" by (simp add: bt_get_iff)
  have inj: "\<And>a b. a \<in> set m \<Longrightarrow> b \<in> set m \<Longrightarrow> re_breaker (snd a) = re_breaker (snd b) \<Longrightarrow> fst a = fst b"
    and bound: "\<And>a. a \<in> set m \<Longrightarrow> re_breaker (snd a) < n"
    using assms(1) unfolding entries_ok_def by blast+
  let ?m = "bt_insert k (e\<lparr>re_last_used := now\<rparr>) m"
  have old: "\<exists>a' \<in> set m. fst a' = fst a \<and> re_breaker (snd a') = re_breaker (snd a)"
    if "a \<in> set ?m" for a
  proof (cases "fst a = k")
    case True
    with that have "a = (k, e\<lparr>re_last_used := now\<rparr>)" by (simp add: set_bt_insert_ok [OF ok])
    with e show ?thesis by (intro bexI [of _ "(k, e)"]) simp_all
  next
    case False
    with that show ?thesis by (auto simp: set_bt_insert_ok [OF ok])
  qed
  have "fst a = fst b" if "a \<in> set ?m" "b \<in> set ?m" "re_breaker (snd a) = re_breaker (snd b)" for a b
    using old [OF that(1)] old [OF that(2)] that(3) inj by metis
  moreover have "re_breaker (snd a) < n" if "a \<in> set ?m" for a
    using old [OF that] bound by metis
  ultimately show ?thesis using ok unfolding entries_ok_def by blast
qed

lemma entries_ok_fresh:
  assumes "entries_ok m n"
  shows "entries_ok (bt_insert k \<lparr>re_breaker = n, re_last_used = now\<rparr> m) (Suc n)"
proof -
  have ok: "bt_ok m" using assms by (simp add: entries_ok_def)
  have inj: "\<And>a b. a \<in> set m \<Longrightarrow> b \<in> set m \<Longrightarrow> re_breaker (snd a) = re_breaker (snd b) \<Longrightarrow> fst a = fst b"
    and bound: "\<And>a. a \<in> set m \<Longrightarrow> re_breaker (snd a) < n"
    using assms(1) unfolding entries_ok_def by blast+
  let ?m = "bt_insert k \<lparr>re_breaker = n, re_last_used = now\<rparr> m"
  have new: "a = (k, \<lparr>re_breaker = n, re_last_used = now\<rparr>) \<or> a \<in> set m" if "a \<in> set ?m" for a
    using that by (auto simp: set_bt_insert_ok [OF ok])
  have "fst a = fst b" if "a \<in> set ?m" "b \<in> set ?m" "re_breaker (snd a) = re_breaker (snd b)" for a b
    using new [OF that(1)] new [OF that(2)] that(3) inj [of a b] bound [of a] bound [of b] by auto
  moreover have "re_breaker (snd a) < Suc n" if "a \<in> set ?m" for a
    using new [OF that] bound [of a] by auto
  ultimately show ?thesis using ok unfolding entries_ok_def by blast
qed

lemma drop_expired_simps [simp]:
  "br_config (drop_expired now reg) = br_config reg"
  "br_store (drop_expired now reg) = br_store reg"
  "br_entries (drop_expired now reg) =
     filter (\<lambda>e. now - re_last_used (snd e) < idle_ttl (br_config reg)) (br_entries reg)"
  by (simp_all add: drop_expired_def Let_def)

lemma drop_expired_evictions:
  "of_nat (length (br_entries reg)) + br_evictions reg =
   of_nat (length (br_entries (drop_expired now reg))) + br_evictions (drop_expired now reg)"
proof -
  let ?kept = "filter (\<lambda>e. now - re_last_used (snd e) < idle_ttl (br_config reg)) (br_entries reg)"
  obtain x where x: "length (br_entries reg) = length ?kept + x"
    using length_filter_le le_iff_add by blast
  show ?thesis by (simp add: drop_expired_def Let_def) (simp add: x)
qed

lemma drop_expired_ok: "registry_ok reg \<Longrightarrow> registry_ok (drop_expired now reg)"
  using drop_expired_evictions [of reg now]
  by (simp add: registry_ok_def entries_ok_filter order_trans [OF length_filter_le])

lemma evict_if_full_simps [simp]:
  "br_config (evict_if_full reg) = br_config reg"
  "br_store (evict_if_full reg) = br_store reg"
  by (simp_all add: evict_if_full_def split: option.splits)

lemma evict_if_full_cases:
  assumes "registry_ok reg"
  obtains (room) "length (br_entries reg) < max_entries (br_config reg)" "evict_if_full reg = reg"
  | (full) v where "length (br_entries reg) = max_entries (br_config reg)"
      "least_recent (br_entries reg) = Some v"
      "br_entries (evict_if_full reg) = bt_remove (fst v) (br_entries reg)"
      "br_evictions (evict_if_full reg) = br_evictions reg + 1"
proof (cases "length (br_entries reg) \<ge> max_entries (br_config reg)")
  case False
  with room show ?thesis by (simp add: evict_if_full_def)
next
  case True
  with assms have "br_entries reg \<noteq> []" by (auto simp: registry_ok_def registry_config_ok_def)
  then obtain v where "least_recent (br_entries reg) = Some v"
    by (cases "least_recent (br_entries reg)") auto
  with True assms full [of v] show ?thesis by (simp add: evict_if_full_def registry_ok_def)
qed

lemma evict_if_full_ok:
  assumes "registry_ok reg"
  shows "registry_ok (evict_if_full reg) \<and>
    length (br_entries (evict_if_full reg)) < max_entries (br_config reg)"
  using assms
proof (cases rule: evict_if_full_cases)
  case room
  with assms show ?thesis by simp
next
  case (full v)
  have ok: "bt_ok (br_entries reg)" using assms by (simp add: registry_ok_def entries_ok_def)
  have len: "Suc (length (bt_remove (fst v) (br_entries reg))) = length (br_entries reg)"
    using least_recent_min(1) [OF full(2)] by (intro length_bt_remove [OF ok]) simp
  then have "(of_nat (length (br_entries reg)) :: u64) =
      of_nat (length (bt_remove (fst v) (br_entries reg))) + 1"
    by (metis of_nat_Suc add.commute)
  with assms full len show ?thesis
    by (simp add: registry_ok_def bt_remove_def entries_ok_filter)
qed

lemma evict_if_full_subset: "set (br_entries (evict_if_full reg)) \<subseteq> set (br_entries reg)"
  by (auto simp: evict_if_full_def bt_remove_def split: option.splits)

text \<open>The two ways a lookup can go; it never fails on a registry that was created.\<close>

lemma get_or_insert_cases:
  assumes "registry_ok reg0"
  obtains (hit) e where "bt_get (br_entries (drop_expired now reg0)) key = Some e"
      "get_or_insert now key reg0 = (Inr (re_breaker e), (drop_expired now reg0)
         \<lparr>br_entries := bt_insert key (e\<lparr>re_last_used := now\<rparr>) (br_entries (drop_expired now reg0))\<rparr>)"
  | (miss) reg b where "reg = evict_if_full (drop_expired now reg0)"
      "key \<notin> fst ` set (br_entries (drop_expired now reg0))"
      "circuit_breaker_new (breaker_config (br_config reg0)) = Inr b"
      "get_or_insert now key reg0 = (Inr (length (br_store reg)), reg
         \<lparr>br_store := br_store reg @ [b], br_entries := bt_insert key
            \<lparr>re_breaker = length (br_store reg), re_last_used = now\<rparr> (br_entries reg)\<rparr>)"
proof (cases "bt_get (br_entries (drop_expired now reg0)) key")
  case (Some e)
  then show ?thesis by (intro hit) (simp_all add: get_or_insert_def Let_def)
next
  case None
  obtain b where "circuit_breaker_new (breaker_config (br_config reg0)) = Inr b"
    using assms by (auto simp: registry_ok_def registry_config_ok_def circuit_breaker_new_def)
  moreover have "key \<notin> fst ` set (br_entries (drop_expired now reg0))"
    using None bt_get_None_iff by metis
  ultimately show ?thesis
    using None by (intro miss [OF refl]) (simp_all add: get_or_insert_def Let_def)
qed

lemma get_or_insert_ok:
  assumes "registry_ok reg"
  shows "registry_ok (snd (get_or_insert now key reg)) \<and>
    br_config (snd (get_or_insert now key reg)) = br_config reg \<and>
    \<not> isl (fst (get_or_insert now key reg))"
  using assms
proof (cases rule: get_or_insert_cases [of _ now key])
  case (hit e)
  let ?d = "drop_expired now reg"
  have d: "registry_ok ?d" by (rule drop_expired_ok [OF assms])
  have "bt_ok (br_entries ?d)" using d by (simp only: registry_ok_def entries_ok_def)
  moreover have "key \<in> fst ` set (br_entries ?d)"
    using hit(1) bt_get_None_iff [of "br_entries ?d" key] by auto
  ultimately have "length (bt_insert key (e\<lparr>re_last_used := now\<rparr>) (br_entries ?d)) =
      length (br_entries ?d)" by (rule length_bt_insert_old)
  then show ?thesis using d hit entries_ok_touch [OF _ hit(1)]
    by (simp add: registry_ok_def del: drop_expired_simps(3))
next
  case (miss r b)
  let ?e = "\<lparr>re_breaker = length (br_store r), re_last_used = now\<rparr>"
  have r: "registry_ok r \<and> length (br_entries r) < max_entries (br_config r)"
    unfolding miss(1) using evict_if_full_ok [OF drop_expired_ok [OF assms]] by simp
  have "key \<notin> fst ` set (br_entries r)"
    using miss(2) evict_if_full_subset [of "drop_expired now reg"] unfolding miss(1) by blast
  then have "length (bt_insert key ?e (br_entries r)) = Suc (length (br_entries r))"
    by (rule length_bt_insert_new)
  moreover have "br_config r = br_config reg" by (simp add: miss(1))
  ultimately show ?thesis using r miss(4) by (simp add: registry_ok_def entries_ok_fresh)
qed

lemma registry_run_ok:
  "registry_ok reg \<Longrightarrow> registry_ok (snd (registry_run calls reg)) \<and>
   br_config (snd (registry_run calls reg)) = br_config reg \<and>
   list_all (\<lambda>r. \<not> isl r) (fst (registry_run calls reg))"
proof (induction calls arbitrary: reg)
  case Nil
  then show ?case by simp
next
  case (Cons c calls)
  obtain now key where c: "c = (now, key)" by (cases c)
  obtain r reg' where r: "get_or_insert now key reg = (r, reg')" by fastforce
  obtain rs reg'' where rs: "registry_run calls reg' = (rs, reg'')" by fastforce
  from Cons.IH [of reg'] get_or_insert_ok [OF Cons.prems, of now key] r rs c show ?case by simp
qed

lemma registry_new_ok:
  assumes "registry_new config = Inr reg"
  shows "registry_ok reg" "br_config reg = config" "br_entries reg = []"
  using assms by (auto simp: registry_new_def registry_ok_def registry_config_ok_def entries_ok_def
      circuit_breaker_new_def bind_result_def split: if_splits)

text \<open>
  Whatever is looked up, a registry holds at most its configured number of breakers, no two
  keys share a breaker, every lookup succeeds, and the eviction counter accounts for every breaker
  that was created and is no longer registered (modulo the width of the counter).
\<close>

theorem registry_bounded:
  assumes "registry_new config = Inr reg0" and "registry_run calls reg0 = (rs, reg)"
  shows "registry_len reg \<le> max_entries config \<and>
    list_all (\<lambda>r. \<not> isl r) rs \<and>
    inj_on (\<lambda>e. re_breaker (snd e)) (set (br_entries reg)) \<and>
    eviction_count reg = of_nat (length (br_store reg)) - of_nat (registry_len reg)"
proof -
  have ok: "registry_ok reg" "br_config reg = config" "list_all (\<lambda>r. \<not> isl r) rs"
    using registry_run_ok [OF registry_new_ok(1) [OF assms(1)], of calls]
      registry_new_ok(2) [OF assms(1)] assms(2) by simp_all
  have "a = b" if "a \<in> set (br_entries reg)" "b \<in> set (br_entries reg)"
      "re_breaker (snd a) = re_breaker (snd b)" for a b
  proof -
    have "fst a = fst b" using ok(1) that unfolding registry_ok_def entries_ok_def by blast
    moreover have "distinct (map fst (br_entries reg))"
      using ok(1) by (simp add: registry_ok_def entries_ok_def bt_ok_distinct)
    ultimately show ?thesis using that by (metis eq_key_imp_eq_value prod.collapse)
  qed
  with ok show ?thesis
    by (auto simp: registry_ok_def registry_len_def eviction_count_def intro: inj_onI)
qed

definition sample_registry_config :: registry_config where
  "sample_registry_config = \<lparr>max_entries = 2, idle_ttl = 100,
     breaker_config = \<lparr>failure_threshold = 3, open_for = 10\<rparr>\<rparr>"

definition sample_registry :: breaker_registry where
  "sample_registry = \<lparr>br_config = sample_registry_config, br_entries = [], br_evictions = 0,
     br_store = []\<rparr>"

lemma sample_registry_new: "registry_new sample_registry_config = Inr sample_registry"
  by (simp add: registry_new_def sample_registry_config_def sample_registry_def
      max_breaker_registry_entries_def circuit_breaker_new_def)

lemmas registry_eval = sample_registry_def sample_registry_config_def get_or_insert_def
  drop_expired_def evict_if_full_def circuit_breaker_new_def bt_get_def bt_remove_def older_def
  less_breaker_key_def Let_def registry_len_def eviction_count_def

theorem registry_bounded_witness:
  "case registry_run [(0, BreakerKey ''a'' ''x''), (1, BreakerKey ''b'' ''x''),
       (2, BreakerKey ''c'' ''x'')] sample_registry of
     (rs, reg) \<Rightarrow> registry_len reg = 2 \<and> eviction_count reg = 1 \<and> rs = [Inr 0, Inr 1, Inr 2]"
proof -
  let ?calls = "[(0, BreakerKey ''a'' ''x''), (1, BreakerKey ''b'' ''x''), (2, BreakerKey ''c'' ''x'')]"
  obtain rs reg where run: "registry_run ?calls sample_registry = (rs, reg)" by fastforce
  from registry_bounded [OF sample_registry_new this]
  have "eviction_count reg = of_nat (length (br_store reg)) - of_nat (registry_len reg)" by simp
  with run show ?thesis by (auto simp: registry_eval)
qed

section \<open>A recently used breaker stays\<close>

text \<open>
  What holds between two uses of a key at \<open>t\<close> and later: its entry is untouched, and whatever has
  been used since then is among \<open>used\<close>.
\<close>

definition retained ::
    "breaker_key \<Rightarrow> nat \<Rightarrow> instant \<Rightarrow> breaker_key set \<Rightarrow> breaker_registry \<Rightarrow> bool" where
  "retained key p t used reg \<longleftrightarrow>
     registry_ok reg \<and> (key, \<lparr>re_breaker = p, re_last_used = t\<rparr>) \<in> set (br_entries reg) \<and>
     (\<forall>e \<in> set (br_entries reg). t \<le> re_last_used (snd e) \<longrightarrow> fst e \<in> insert key used)"

lemma registry_ok_keys:
  "registry_ok reg \<Longrightarrow> card (fst ` set (br_entries reg)) = length (br_entries reg)"
  by (metis registry_ok_def entries_ok_def bt_ok_distinct distinct_card length_map list.set_map)

lemma retained_drop:
  assumes "retained key p t used reg" "now - t < idle_ttl (br_config reg)"
  shows "retained key p t used (drop_expired now reg)"
  using assms drop_expired_ok [of reg now] by (auto simp: retained_def)

lemma retained_evict:
  assumes "retained key p t used reg" "finite used" "k \<notin> fst ` set (br_entries reg)" "k \<noteq> key"
    and "card (insert k used) < max_entries (br_config reg)"
  shows "retained key p t used (evict_if_full reg)"
proof -
  have ok: "registry_ok reg" using assms(1) by (simp add: retained_def)
  have key: "(key, \<lparr>re_breaker = p, re_last_used = t\<rparr>) \<in> set (br_entries reg)"
    using assms(1) by (simp add: retained_def)
  show ?thesis using ok
  proof (cases rule: evict_if_full_cases)
    case room
    with assms(1) show ?thesis by simp
  next
    case (full v)
    have "fst v \<noteq> key"
    proof
      assume v: "fst v = key"
      have "distinct (map fst (br_entries reg))"
        using ok by (simp add: registry_ok_def entries_ok_def bt_ok_distinct)
      with v key least_recent_min(1) [OF full(2)] have veq: "v = (key, \<lparr>re_breaker = p, re_last_used = t\<rparr>)"
        by (metis eq_key_imp_eq_value prod.collapse)
      have "t \<le> re_last_used (snd e)" if "e \<in> set (br_entries reg)" for e
        using least_recent_min(2) [OF full(2) that] by (auto simp: veq older_def)
      with assms(1,3) have "fst ` set (br_entries reg) \<subseteq> insert key (used - {k})"
        by (auto simp: retained_def)
      then have "length (br_entries reg) \<le> card (insert key (used - {k}))"
        using assms(2) registry_ok_keys [OF ok] by (metis card_mono finite.insertI finite_Diff)
      also have "\<dots> \<le> Suc (card (used - {k}))" by (simp add: card_insert_le_m1 card_insert_if)
      also have "\<dots> = card (insert k used)" using assms(2) by (simp add: card.insert_remove)
      finally show False using full(1) assms(5) by simp
    qed
    then have "retained key p t used (evict_if_full reg)"
      using assms(1) evict_if_full_ok [OF ok] full(3) key
      by (auto simp: retained_def bt_remove_def)
    then show ?thesis .
  qed
qed

lemma retained_step:
  assumes "retained key p t used reg" "finite used" "t < now" "now - t < idle_ttl (br_config reg)"
    and "k \<noteq> key" "card (insert k used) < max_entries (br_config reg)"
  shows "retained key p t (insert k used) (snd (get_or_insert now k reg))"
proof -
  have ok: "registry_ok reg" using assms(1) by (simp add: retained_def)
  have ok': "registry_ok (snd (get_or_insert now k reg))" using get_or_insert_ok [OF ok] by blast
  have btok: "bt_ok (br_entries r)" if "registry_ok r" for r
    using that by (simp add: registry_ok_def entries_ok_def)
  have d: "retained key p t used (drop_expired now reg)" by (rule retained_drop [OF assms(1,4)])
  show ?thesis using ok
  proof (cases rule: get_or_insert_cases [of _ now k])
    case (hit e)
    with d ok' btok [OF drop_expired_ok [OF ok]] assms(3,5) show ?thesis
      unfolding retained_def
      by (simp add: set_bt_insert_ok del: drop_expired_simps(3))
  next
    case (miss r b)
    have "retained key p t used r"
      unfolding miss(1) using d miss(2) assms(2,5,6) by (intro retained_evict) auto
    moreover from this have "bt_ok (br_entries r)" using btok by (simp add: retained_def)
    ultimately show ?thesis using ok' miss(4) assms(3,5)
      unfolding retained_def by (simp add: set_bt_insert_ok)
  qed
qed

lemma retained_run:
  assumes "retained key p t used reg" "finite used"
    and "\<forall>c \<in> set calls. t < fst c \<and> fst c - t < idle_ttl (br_config reg) \<and> snd c \<noteq> key"
    and "card (used \<union> snd ` set calls) < max_entries (br_config reg)"
  shows "retained key p t (used \<union> snd ` set calls) (snd (registry_run calls reg))"
  using assms
proof (induction calls arbitrary: used reg)
  case Nil
  then show ?case by simp
next
  case (Cons c calls)
  obtain now k where c: "c = (now, k)" by (cases c)
  obtain r reg' where r: "get_or_insert now k reg = (r, reg')" by fastforce
  obtain rs reg'' where rs: "registry_run calls reg' = (rs, reg'')" by fastforce
  have "card (insert k used) \<le> card (used \<union> snd ` set (c # calls))"
    using Cons.prems(2) c by (intro card_mono) auto
  with Cons.prems have "retained key p t (insert k used) reg'"
    using retained_step [of key p t used reg now k] by (simp add: c r)
  moreover have "br_config reg' = br_config reg"
    using get_or_insert_ok [of reg now k] Cons.prems(1) r by (simp add: retained_def)
  ultimately have "retained key p t (insert k used \<union> snd ` set calls) (snd (registry_run calls reg'))"
    using Cons.prems c by (intro Cons.IH) simp_all
  then show ?case by (simp add: c r rs)
qed

lemma get_or_insert_times:
  assumes "registry_ok reg" "\<forall>e \<in> set (br_entries reg). re_last_used (snd e) < t"
  shows "\<forall>e \<in> set (br_entries (snd (get_or_insert now k reg))).
    fst e \<noteq> k \<longrightarrow> re_last_used (snd e) < t"
    and "\<exists>p. fst (get_or_insert now k reg) = Inr p \<and>
      (k, \<lparr>re_breaker = p, re_last_used = now\<rparr>) \<in> set (br_entries (snd (get_or_insert now k reg)))"
proof -
  have btok: "bt_ok (br_entries r)" if "registry_ok r" for r
    using that by (simp add: registry_ok_def entries_ok_def)
  have "(\<forall>e \<in> set (br_entries (snd (get_or_insert now k reg))).
      fst e \<noteq> k \<longrightarrow> re_last_used (snd e) < t) \<and>
    (\<exists>p. fst (get_or_insert now k reg) = Inr p \<and>
      (k, \<lparr>re_breaker = p, re_last_used = now\<rparr>) \<in> set (br_entries (snd (get_or_insert now k reg))))"
    using assms(1)
  proof (cases rule: get_or_insert_cases [of _ now k])
    case (hit e)
    have "\<forall>x \<in> set (br_entries (drop_expired now reg)). re_last_used (snd x) < t"
      using assms(2) by simp
    with hit btok [OF drop_expired_ok [OF assms(1)]] show ?thesis
      by (auto simp: set_bt_insert_ok simp del: drop_expired_simps(3))
  next
    case (miss r b)
    have r: "registry_ok r"
      unfolding miss(1) using evict_if_full_ok [OF drop_expired_ok [OF assms(1)]] by blast
    have "\<forall>x \<in> set (br_entries r). re_last_used (snd x) < t"
      using evict_if_full_subset [of "drop_expired now reg"] assms(2) unfolding miss(1) by auto
    with miss(4) btok [OF r] show ?thesis by (auto simp: set_bt_insert_ok)
  qed
  then show "\<forall>e \<in> set (br_entries (snd (get_or_insert now k reg))).
      fst e \<noteq> k \<longrightarrow> re_last_used (snd e) < t"
    and "\<exists>p. fst (get_or_insert now k reg) = Inr p \<and>
      (k, \<lparr>re_breaker = p, re_last_used = now\<rparr>) \<in> set (br_entries (snd (get_or_insert now k reg)))"
    by blast+
qed

lemma entries_key_unique:
  "registry_ok reg \<Longrightarrow> (k, u) \<in> set (br_entries reg) \<Longrightarrow> e \<in> set (br_entries reg) \<Longrightarrow> fst e = k \<Longrightarrow>
   e = (k, u)"
  by (metis registry_ok_def entries_ok_def bt_ok_distinct eq_key_imp_eq_value prod.collapse)

lemma registry_run_times:
  assumes "registry_ok reg" "\<forall>e \<in> set (br_entries reg). re_last_used (snd e) < t"
    and "\<forall>c \<in> set calls. fst c < t"
  shows "\<forall>e \<in> set (br_entries (snd (registry_run calls reg))). re_last_used (snd e) < t"
  using assms
proof (induction calls arbitrary: reg)
  case Nil
  then show ?case by simp
next
  case (Cons c calls)
  obtain now k where c: "c = (now, k)" by (cases c)
  obtain r reg' where r: "get_or_insert now k reg = (r, reg')" by fastforce
  obtain rs reg'' where rs: "registry_run calls reg' = (rs, reg'')" by fastforce
  have ok: "registry_ok reg'" using get_or_insert_ok [OF Cons.prems(1), of now k] r by simp
  from get_or_insert_times [OF Cons.prems(1,2), of now k] r obtain p where
    p: "(k, \<lparr>re_breaker = p, re_last_used = now\<rparr>) \<in> set (br_entries reg')"
    and other: "\<forall>e \<in> set (br_entries reg'). fst e \<noteq> k \<longrightarrow> re_last_used (snd e) < t" by auto
  have "re_last_used (snd e) < t" if "e \<in> set (br_entries reg')" for e
    using other that entries_key_unique [OF ok p that] Cons.prems(3) c by (cases "fst e = k") auto
  with Cons.IH [OF ok] Cons.prems(3) c r rs show ?case by simp
qed

lemma retained_start:
  assumes "registry_ok reg" "\<forall>e \<in> set (br_entries reg). re_last_used (snd e) < t"
  shows "\<exists>p. fst (get_or_insert t k reg) = Inr p \<and> retained k p t {} (snd (get_or_insert t k reg))"
  using get_or_insert_times [OF assms, of t k] get_or_insert_ok [OF assms(1), of t k]
  by (fastforce simp: retained_def)

lemma retained_hit:
  assumes "retained k p t used reg" "now - t < idle_ttl (br_config reg)"
  shows "fst (get_or_insert now k reg) = Inr p"
proof -
  let ?d = "drop_expired now reg"
  have "retained k p t used ?d" by (rule retained_drop [OF assms])
  then have "bt_get (br_entries ?d) k = Some \<lparr>re_breaker = p, re_last_used = t\<rparr>"
    by (auto simp only: retained_def registry_ok_def entries_ok_def bt_get_iff)
  then show ?thesis by (simp add: get_or_insert_def Let_def)
qed

lemma registry_run_append:
  "registry_run (xs @ ys) reg =
     (fst (registry_run xs reg) @ fst (registry_run ys (snd (registry_run xs reg))),
      snd (registry_run ys (snd (registry_run xs reg))))"
proof (induction xs arbitrary: reg)
  case Nil
  show ?case by simp
next
  case (Cons c xs)
  then show ?case by (cases c) (simp split: prod.splits)
qed

lemma length_registry_run [simp]: "length (fst (registry_run xs reg)) = length xs"
proof (induction xs arbitrary: reg)
  case Nil
  show ?case by simp
next
  case (Cons c xs)
  obtain now k where c: "c = (now, k)" by (cases c)
  obtain r reg' where r: "get_or_insert now k reg = (r, reg')" by fastforce
  obtain rs reg'' where rs: "registry_run xs reg' = (rs, reg'')" by fastforce
  with Cons.IH [of reg'] c r show ?case by simp
qed

text \<open>
  A breaker is kept while it is in use: two lookups of a key less than the idle time apart, on
  a clock that strictly increases, return the same breaker when fewer distinct other keys than the
  capacity were looked up in between, whatever happened before.
\<close>

theorem registry_keeps_recent:
  assumes "registry_new config = Inr reg0"
    and "calls = pre @ (t, key) # others @ [(t', key)]"
    and "sorted_wrt (<) (map fst calls)" and "t' - t < idle_ttl config"
    and "key \<notin> snd ` set others" and "card (snd ` set others) < max_entries config"
  shows "\<exists>p. fst (registry_run calls reg0) ! length pre = Inr p \<and>
    last (fst (registry_run calls reg0)) = Inr p"
proof -
  let ?r1 = "snd (registry_run pre reg0)"
  let ?r2 = "snd (get_or_insert t key ?r1)"
  let ?r3 = "snd (registry_run others ?r2)"
  have new: "registry_ok reg0" "br_config reg0 = config" "br_entries reg0 = []"
    using registry_new_ok [OF assms(1)] by simp_all
  have r1: "registry_ok ?r1" "br_config ?r1 = config" using registry_run_ok [OF new(1)] new(2) by simp_all
  have times: "\<forall>c \<in> set pre. fst c < t" "\<forall>c \<in> set others. t < fst c \<and> fst c < t'" "t < t'"
    using assms(2,3) by (auto simp: sorted_wrt_append)
  have "\<forall>e \<in> set (br_entries ?r1). re_last_used (snd e) < t"
    by (rule registry_run_times [OF new(1) _ times(1)]) (simp add: new(3))
  from retained_start [OF r1(1) this] obtain p where
    p: "fst (get_or_insert t key ?r1) = Inr p" "retained key p t {} ?r2" by blast
  have r2: "br_config ?r2 = config" using get_or_insert_ok [OF r1(1)] r1(2) by simp
  have "fst c - t < idle_ttl config" if "c \<in> set others" for c
    using times(2) that assms(4) by fastforce
  with times(2) assms(5,6) r2
  have r3: "retained key p t ({} \<union> snd ` set others) ?r3"
    by (intro retained_run [OF p(2)]) auto
  have "registry_ok ?r2" using get_or_insert_ok [OF r1(1)] by simp
  then have "br_config ?r3 = config" using registry_run_ok [of ?r2 others] r2 by simp
  with retained_hit [OF r3] assms(4) have "fst (get_or_insert t' key ?r3) = Inr p" by simp
  then show ?thesis
    using p(1) by (simp add: assms(2) registry_run_append nth_append case_prod_beta)
qed

theorem registry_keeps_recent_witness:
  "\<exists>p. fst (registry_run [(0, BreakerKey ''a'' ''x''), (1, BreakerKey ''b'' ''x''),
       (2, BreakerKey ''c'' ''x''), (3, BreakerKey ''b'' ''x'')] sample_registry) =
     [Inr 0, Inr p, Inr 2, Inr p]"
proof -
  let ?calls = "[(0, BreakerKey ''a'' ''x''), (1, BreakerKey ''b'' ''x''),
      (2, BreakerKey ''c'' ''x''), (3, BreakerKey ''b'' ''x'')]"
  have "\<exists>p. fst (registry_run ?calls sample_registry) ! length [(0 :: nat, BreakerKey ''a'' ''x'')] = Inr p \<and>
      last (fst (registry_run ?calls sample_registry)) = Inr p"
    by (rule registry_keeps_recent [OF sample_registry_new, where t = 1 and t' = 3
          and key = "BreakerKey ''b'' ''x''" and others = "[(2, BreakerKey ''c'' ''x'')]"])
      (simp_all add: sample_registry_config_def)
  then show ?thesis by (auto simp: registry_eval)
qed

end
