(* ===== verification/Request_Types.thy ===== *)
theory Request_Types
  imports Ordered_Map
begin

text \<open>
  The values that travel through the middleware: the request and response metadata and the
  authentication decision of \<^verbatim>\<open>src/src/rust/src/integrations.rs\<close>, and the request
  context of \<^verbatim>\<open>src/src/rust/src/context.rs\<close>.
\<close>

record transport_security =
  ts_secure :: bool

definition transport_secure :: transport_security where
  "transport_secure = \<lparr>ts_secure = True\<rparr>"

definition transport_insecure :: transport_security where
  "transport_insecure = \<lparr>ts_secure = False\<rparr>"

type_synonym headers = "(string, string) btree_map"

record request_metadata =
  rq_method :: string
  rq_path :: string
  rq_headers :: headers
  rq_remote_ip :: "string option"
  rq_content_length :: "u64 option"
  rq_transport_secure :: bool

record response_metadata =
  rs_status :: u16
  rs_duration_ms :: u64
  rs_response_bytes :: "u64 option"

record auth_decision =
  ad_user_id :: "string option"
  ad_tenant_id :: "string option"
  ad_claims :: "(string, string) btree_map"

record integration_error =
  ie_code :: string
  ie_message :: string

record request_context =
  rc_request_id :: string
  rc_trace_id :: string
  rc_span_id :: "string option"
  rc_tenant_id :: "string option"
  rc_user_id :: "string option"
  rc_locale :: "string option"
  rc_started_at_unix_ms :: u64
  rc_deadline_unix_ms :: "u64 option"
  rc_baggage :: "(string, string) btree_map"

definition auth_decision_default :: auth_decision where
  "auth_decision_default = \<lparr>ad_user_id = None, ad_tenant_id = None, ad_claims = []\<rparr>"

text \<open>
  The first header whose name matches without regard to ASCII case, in the order of the map
  (the private helper \<open>header\<close> of \<^verbatim>\<open>security.rs\<close> and \<^verbatim>\<open>hardening.rs\<close>).
\<close>

definition find_header :: "headers \<Rightarrow> string \<Rightarrow> string option" where
  "find_header hs name =
     map_option snd (find (\<lambda>e. eq_ignore_ascii_case (fst e) name) hs)"

lemma find_header_Some:
  "find_header hs name = Some v \<Longrightarrow> \<exists>k. (k, v) \<in> set hs \<and> eq_ignore_ascii_case k name"
  by (auto simp: find_header_def dest!: find_SomeD)

lemma find_header_None:
  "find_header hs name = None \<longleftrightarrow> (\<forall>e \<in> set hs. \<not> eq_ignore_ascii_case (fst e) name)"
  by (auto simp: find_header_def find_None_iff)

text \<open>A request and its context, for the closed examples of the later theories.\<close>

definition sample_request :: request_metadata where
  "sample_request =
     \<lparr>rq_method = ''POST'', rq_path = ''/widgets'', rq_headers = [], rq_remote_ip = Some ''127.0.0.1'',
      rq_content_length = None, rq_transport_secure = True\<rparr>"

definition sample_context :: request_context where
  "sample_context =
     \<lparr>rc_request_id = ''req-1'', rc_trace_id = ''0123456789abcdef0123456789abcdef'',
      rc_span_id = None, rc_tenant_id = None, rc_user_id = None, rc_locale = None,
      rc_started_at_unix_ms = 0, rc_deadline_unix_ms = None, rc_baggage = []\<rparr>"

end
