(* ===== verification/Stage.thy ===== *)
theory Stage
  imports Request_Types
begin

text \<open>
  \<^verbatim>\<open>src/src/rust/src/stage.rs\<close>: the consumer-ordered stage pipeline.

  A stage handler is an object of the consumer: its asynchronous \<open>request\<close> and \<open>response\<close> may
  have effects, so they are functions that also take and return a world \<open>'w\<close>. \<open>execute\<close> awaits
  each of them in turn, so the world is threaded through in program order.

  JSON values are of a type \<open>'j\<close> of the serde\_json package; the constructors and the serialiser
  that the crate calls are the parameter \<open>json_codec\<close> (\<open>jc_struct_to_vec\<close> serialises the
  named fields of a structure in their order).
\<close>

section \<open>Data\<close>

record 'j json_codec =
  jc_string :: "string \<Rightarrow> 'j"
  jc_number :: "nat \<Rightarrow> 'j"
  jc_object :: "(string \<times> 'j) list \<Rightarrow> 'j"
  jc_to_vec :: "'j \<Rightarrow> bytes option"
  jc_struct_to_vec :: "(string \<times> 'j) list \<Rightarrow> bytes option"

record 'j stage_input =
  si_request :: request_metadata
  si_context :: request_context
  si_decoded_payload :: "'j option"
  si_attributes :: "(string, 'j) btree_map"

definition stage_input_new :: "request_metadata \<Rightarrow> request_context \<Rightarrow> 'j stage_input" where
  "stage_input_new request context =
     \<lparr>si_request = request, si_context = context, si_decoded_payload = None, si_attributes = []\<rparr>"

definition with_decoded_payload :: "'j stage_input \<Rightarrow> 'j \<Rightarrow> 'j stage_input" where
  "with_decoded_payload i payload = i\<lparr>si_decoded_payload := Some payload\<rparr>"

definition with_attribute :: "'j stage_input \<Rightarrow> string \<Rightarrow> 'j \<Rightarrow> 'j stage_input" where
  "with_attribute i key v = i\<lparr>si_attributes := bt_insert key v (si_attributes i)\<rparr>"

record stage_response =
  sr_status :: u16
  sr_headers :: headers
  sr_body :: bytes

definition response_empty :: "u16 \<Rightarrow> stage_response" where
  "response_empty status = \<lparr>sr_status = status, sr_headers = [], sr_body = []\<rparr>"

record stage_rejection =
  sj_status :: u16
  sj_code :: string
  sj_message :: string
  sj_headers :: headers

definition rejection_new :: "u16 \<Rightarrow> string \<Rightarrow> string \<Rightarrow> stage_rejection" where
  "rejection_new status code message =
     \<lparr>sj_status = status, sj_code = code, sj_message = message, sj_headers = []\<rparr>"

definition rejection_with_header :: "stage_rejection \<Rightarrow> string \<Rightarrow> string \<Rightarrow> stage_rejection" where
  "rejection_with_header j name v = j\<lparr>sj_headers := bt_insert name v (sj_headers j)\<rparr>"

text \<open>The bytes of the fallback document, whose quotes are byte 34.\<close>

definition fallback_problem_body :: bytes where
  "fallback_problem_body =
     map (\<lambda>c. if c = CHR ''!'' then char_of (34::nat) else c) ''{!title!:!Request rejected!}''"

definition response_problem :: "'j json_codec \<Rightarrow> stage_rejection \<Rightarrow> stage_response" where
  "response_problem jc rejection =
     (let body =
        (case jc_to_vec jc (jc_object jc
           [(''type'', jc_string jc ''about:blank''),
            (''title'', jc_string jc ''Request rejected''),
            (''status'', jc_number jc (unat (sj_status rejection))),
            (''code'', jc_string jc (sj_code rejection))]) of
           Some b \<Rightarrow> b | None \<Rightarrow> fallback_problem_body);
        headers = bt_collect (sj_headers rejection @
          [(''content-type'', ''application/problem+json''), (''cache-control'', ''no-store'')])
      in \<lparr>sr_status = sj_status rejection, sr_headers = headers, sr_body = body\<rparr>)"

datatype 'j stage_decision =
    Continue "'j stage_input"
  | Respond stage_response
  | Reject stage_rejection

section \<open>Handlers and pipelines\<close>

record ('j, 'w) stage_handler =
  sh_name :: string
  sh_request :: "'j stage_input \<Rightarrow> 'w \<Rightarrow> 'j stage_decision \<times> 'w"
  sh_response :: "'j stage_input \<Rightarrow> stage_response \<Rightarrow> 'w \<Rightarrow> stage_response \<times> 'w"

text \<open>The provided \<open>response\<close> of the trait returns the response unchanged.\<close>

definition default_response :: "'j stage_input \<Rightarrow> stage_response \<Rightarrow> 'w \<Rightarrow> stage_response \<times> 'w" where
  "default_response i response w = (response, w)"

type_synonym ('j, 'w) stage_pipeline = "('j, 'w) stage_handler list"
type_synonym ('j, 'w) route_handler = "'j stage_input \<Rightarrow> 'w \<Rightarrow> stage_response \<times> 'w"
type_synonym ('j, 'w) entered_stages = "(('j, 'w) stage_handler \<times> 'j stage_input) list"

definition pipeline_new :: "('j, 'w) stage_pipeline" where
  "pipeline_new = []"

definition with_stage :: "('j, 'w) stage_pipeline \<Rightarrow> ('j, 'w) stage_handler \<Rightarrow> ('j, 'w) stage_pipeline" where
  "with_stage stages stage = stages @ [stage]"

definition pipeline_push :: "('j, 'w) stage_pipeline \<Rightarrow> ('j, 'w) stage_handler \<Rightarrow> ('j, 'w) stage_pipeline" where
  "pipeline_push stages stage = stages @ [stage]"

definition stage_names :: "('j, 'w) stage_pipeline \<Rightarrow> string list" where
  "stage_names stages = map sh_name stages"

fun unwind_loop :: "('j, 'w) entered_stages \<Rightarrow> stage_response \<Rightarrow> 'w \<Rightarrow> stage_response \<times> 'w" where
  "unwind_loop [] response w = (response, w)"
| "unwind_loop ((stage, i) # es) response w =
     (case sh_response stage i response w of (response', w') \<Rightarrow> unwind_loop es response' w')"

definition unwind :: "('j, 'w) entered_stages \<Rightarrow> stage_response \<Rightarrow> 'w \<Rightarrow> stage_response \<times> 'w" where
  "unwind entered response w = unwind_loop (rev entered) response w"

fun execute_loop ::
    "'j json_codec \<Rightarrow> ('j, 'w) route_handler \<Rightarrow> ('j, 'w) stage_pipeline \<Rightarrow> ('j, 'w) entered_stages \<Rightarrow>
     'j stage_input \<Rightarrow> 'w \<Rightarrow> stage_response \<times> 'w" where
  "execute_loop jc handler [] entered i w =
     (case handler i w of (response, w') \<Rightarrow> unwind entered response w')"
| "execute_loop jc handler (stage # stages) entered i w =
     (case sh_request stage i w of
        (Continue n, w') \<Rightarrow> execute_loop jc handler stages (entered @ [(stage, n)]) n w'
      | (Respond response, w') \<Rightarrow> unwind (entered @ [(stage, i)]) response w'
      | (Reject rejection, w') \<Rightarrow> unwind (entered @ [(stage, i)]) (response_problem jc rejection) w')"

definition execute ::
    "'j json_codec \<Rightarrow> ('j, 'w) stage_pipeline \<Rightarrow> 'j stage_input \<Rightarrow> ('j, 'w) route_handler \<Rightarrow> 'w \<Rightarrow>
     stage_response \<times> 'w" where
  "execute jc stages i handler w = execute_loop jc handler stages [] i w"

section \<open>Specifications\<close>

text \<open>
  The reference: stages as nested layers. The first stage wraps everything behind it, and its
  response hook runs last, on the input it handed on (or on the one it received, when it answered
  itself).
\<close>

fun onion ::
    "'j json_codec \<Rightarrow> ('j, 'w) stage_pipeline \<Rightarrow> ('j, 'w) route_handler \<Rightarrow> ('j, 'w) route_handler" where
  "onion jc [] handler i w = handler i w"
| "onion jc (stage # stages) handler i w =
     (case sh_request stage i w of
        (Continue n, w1) \<Rightarrow>
          (case onion jc stages handler n w1 of (response, w2) \<Rightarrow> sh_response stage n response w2)
      | (Respond response, w1) \<Rightarrow> sh_response stage i response w1
      | (Reject rejection, w1) \<Rightarrow> sh_response stage i (response_problem jc rejection) w1)"

text \<open>Whether the request phase of some stages ends before their end.\<close>

fun short_circuits :: "('j, 'w) stage_pipeline \<Rightarrow> 'j stage_input \<Rightarrow> 'w \<Rightarrow> bool" where
  "short_circuits [] i w = False"
| "short_circuits (stage # stages) i w =
     (case sh_request stage i w of (Continue n, w') \<Rightarrow> short_circuits stages n w' | _ \<Rightarrow> True)"

section \<open>The pipeline is the nesting of its stages\<close>

lemma unwind_snoc:
  "unwind (entered @ [(stage, i)]) response w =
     (case sh_response stage i response w of (response', w') \<Rightarrow> unwind entered response' w')"
  by (simp add: unwind_def)

lemma execute_loop_onion:
  "execute_loop jc handler stages entered i w =
     (case onion jc stages handler i w of (response, w') \<Rightarrow> unwind entered response w')"
proof (induction stages arbitrary: entered i w)
  case Nil
  show ?case by simp
next
  case (Cons stage stages)
  obtain d w1 where req: "sh_request stage i w = (d, w1)" by fastforce
  then show ?case
    by (cases d) (simp_all add: Cons.IH unwind_snoc split: prod.splits)
qed

text \<open>
  C3. Executing a pipeline with its explicit stack of entered stages is the nesting of its stages:
  each stage's request hook runs before everything behind it, its response hook after, in reverse
  order of entry, with every effect in that order, whether the request reaches the handler or a
  stage answers or rejects it.
\<close>

theorem execute_is_nesting: "execute jc stages i handler w = onion jc stages handler i w"
  by (simp add: execute_def execute_loop_onion unwind_def split: prod.splits)

lemma onion_short_circuits:
  "short_circuits stages i w \<Longrightarrow>
   onion jc (stages @ rest) handler i w = onion jc stages handler' i w"
proof (induction stages arbitrary: i w)
  case Nil
  then show ?case by simp
next
  case (Cons stage stages)
  obtain d w1 where req: "sh_request stage i w = (d, w1)" by fastforce
  with Cons show ?case by (cases d) (simp_all split: prod.splits)
qed

text \<open>
  When a stage answers or rejects, nothing behind it runs: the response and every effect are
  those of the stages up to it, whatever stages follow and whatever the handler is.
\<close>

theorem execute_short_circuit:
  assumes "short_circuits stages i w"
  shows "execute jc (stages @ rest) i handler w = execute jc stages i handler' w"
  using onion_short_circuits [OF assms, of jc rest handler handler']
  by (simp add: execute_def execute_loop_onion unwind_def)

text \<open>For the closed examples: JSON values that carry nothing, and a stage that always rejects.\<close>

definition unit_codec :: "unit json_codec" where
  "unit_codec = \<lparr>jc_string = (\<lambda>_. ()), jc_number = (\<lambda>_. ()), jc_object = (\<lambda>_. ()),
     jc_to_vec = (\<lambda>_. Some ''{}''), jc_struct_to_vec = (\<lambda>_. Some ''{}'')\<rparr>"

definition sample_input :: "unit stage_input" where
  "sample_input = stage_input_new sample_request sample_context"

definition closed_door :: "(unit, nat) stage_handler" where
  "closed_door = \<lparr>sh_name = ''closed'',
     sh_request = (\<lambda>i w. (Reject (rejection_new 403 ''closed'' ''closed''), w)),
     sh_response = default_response\<rparr>"

definition counting_stage :: "(unit, nat) stage_handler" where
  "counting_stage = \<lparr>sh_name = ''count'', sh_request = (\<lambda>i w. (Continue i, Suc w)),
     sh_response = default_response\<rparr>"

theorem execute_short_circuit_witness:
  "snd (execute unit_codec ([counting_stage, closed_door] @ [counting_stage, counting_stage])
     sample_input (\<lambda>i w. (response_empty 200, w + 100)) 0) = 1"
proof -
  have "short_circuits [counting_stage, closed_door] sample_input 0"
    by (simp add: counting_stage_def closed_door_def)
  from execute_short_circuit [OF this, of unit_codec "[counting_stage, counting_stage]"
      "\<lambda>i w. (response_empty 200, w + 100)" "\<lambda>i w. (response_empty 200, w)"]
  show ?thesis
    by (simp add: execute_def unwind_def counting_stage_def closed_door_def default_response_def)
qed

end
