(* ===== verification/Header_Admission.thy ===== *)
theory Header_Admission
  imports Stage
begin

text \<open>
  The first half of \<^verbatim>\<open>src/src/rust/src/hardening.rs\<close>: admission of raw header pairs, the
  bounds on stage attributes, and the sanitised problem response.
\<close>

section \<open>Raw headers\<close>

definition max_raw_headers :: nat where "max_raw_headers = 128"
definition max_header_name_bytes :: nat where "max_header_name_bytes = 128"
definition max_header_value_bytes :: nat where "max_header_value_bytes = 8 * 1024"
definition max_header_bytes :: nat where "max_header_bytes = 64 * 1024"

record header_admission_error =
  hae_code :: string

text \<open>Byte 39 is the single quote, which the literals of HOL cannot hold.\<close>

definition is_http_token_byte :: "char \<Rightarrow> bool" where
  "is_http_token_byte c \<longleftrightarrow>
     is_ascii_alphanumeric c \<or> code_of c = 39 \<or> code_of c = 96 \<or> c \<in> set ''!#$%&*+-.^_|~''"

definition is_forbidden_header_value_byte :: "char \<Rightarrow> bool" where
  "is_forbidden_header_value_byte c \<longleftrightarrow>
     code_of c = 0 \<or> code_of c = 13 \<or> code_of c = 10 \<or> code_of c < 32 \<and> code_of c \<noteq> 9 \<or>
     code_of c = 127"

definition is_singleton_or_security_sensitive :: "string \<Rightarrow> bool" where
  "is_singleton_or_security_sensitive name \<longleftrightarrow>
     name \<in> {''content-length'', ''transfer-encoding'', ''authorization'', ''cookie'', ''host'',
       ''origin'', ''forwarded'', ''cf-connecting-ip'', ''traceparent'', ''idempotency-key''} \<or>
     starts_with ''x-forwarded-'' name \<or> starts_with ''x-ores-'' name"

definition is_joinable_list_header :: "string \<Rightarrow> bool" where
  "is_joinable_list_header name \<longleftrightarrow>
     name \<in> {''accept'', ''accept-encoding'', ''accept-language'', ''cache-control'', ''pragma'',
       ''via'', ''warning''}"

fun admit_headers_loop ::
    "(string \<times> string) list \<Rightarrow> nat \<Rightarrow> headers \<Rightarrow> (header_admission_error, headers) result" where
  "admit_headers_loop [] total_bytes admitted = Inr admitted"
| "admit_headers_loop ((raw_name, raw_value) # rest) total_bytes admitted =
     (if raw_name = [] \<or> length raw_name > max_header_name_bytes then
        Inl \<lparr>hae_code = ''header_name_size_invalid''\<rparr>
      else if length raw_value > max_header_value_bytes then
        Inl \<lparr>hae_code = ''header_value_size_exceeded''\<rparr>
      else if \<not> list_all is_http_token_byte raw_name then
        Inl \<lparr>hae_code = ''header_name_invalid''\<rparr>
      else if list_ex is_forbidden_header_value_byte raw_value then
        Inl \<lparr>hae_code = ''header_value_invalid''\<rparr>
      else
        (case Option.bind (checked_add_usize total_bytes (length raw_name))
               (\<lambda>n. checked_add_usize n (length raw_value)) of
          None \<Rightarrow> Inl \<lparr>hae_code = ''header_bytes_exceeded''\<rparr>
        | Some n \<Rightarrow>
            if n > max_header_bytes then Inl \<lparr>hae_code = ''header_bytes_exceeded''\<rparr>
            else
              let name = to_ascii_lowercase raw_name;
                  singleton = is_singleton_or_security_sensitive name;
                  joinable = is_joinable_list_header name
              in (case bt_get admitted name of
                   Some existing \<Rightarrow>
                     if singleton then Inl \<lparr>hae_code = ''duplicate_header_forbidden''\<rparr>
                     else if \<not> joinable then Inl \<lparr>hae_code = ''duplicate_header_ambiguous''\<rparr>
                     else
                       let sep = (if existing \<noteq> [] \<and> raw_value \<noteq> [] then '', '' else [])
                       in admit_headers_loop rest n
                            (bt_insert name (existing @ sep @ raw_value) admitted)
                 | None \<Rightarrow> admit_headers_loop rest n (bt_insert name raw_value admitted))))"

definition admit_raw_headers ::
    "(string \<times> string) list \<Rightarrow> (header_admission_error, headers) result" where
  "admit_raw_headers raw_headers =
     (if length raw_headers > max_raw_headers then Inl \<lparr>hae_code = ''header_count_exceeded''\<rparr>
      else
        (case admit_headers_loop raw_headers 0 [] of
          Inl e \<Rightarrow> Inl e
        | Inr admitted \<Rightarrow>
            if bt_contains_key admitted ''content-length'' \<and>
               bt_contains_key admitted ''transfer-encoding''
            then Inl \<lparr>hae_code = ''transfer_length_ambiguous''\<rparr>
            else Inr admitted))"

section \<open>Stage attributes\<close>

definition max_stage_attributes :: nat where "max_stage_attributes = 32"
definition max_stage_attribute_key_bytes :: nat where "max_stage_attribute_key_bytes = 64"
definition max_stage_attribute_value_bytes :: nat where "max_stage_attribute_value_bytes = 1024"
definition max_stage_attribute_bytes :: nat where "max_stage_attribute_bytes = 8 * 1024"

record stage_attribute_error =
  sae_code :: string

definition is_stage_attribute_key_byte :: "char \<Rightarrow> bool" where
  "is_stage_attribute_key_byte c \<longleftrightarrow>
     is_ascii_lowercase c \<or> is_ascii_digit c \<or> c \<in> {CHR ''.'', CHR ''_'', CHR ''-''}"

fun stage_attributes_loop ::
    "'j json_codec \<Rightarrow> (string \<times> 'j) list \<Rightarrow> nat \<Rightarrow> (stage_attribute_error, unit) result" where
  "stage_attributes_loop jc [] total_bytes = Inr ()"
| "stage_attributes_loop jc ((key, v) # rest) total_bytes =
     (if key = [] \<or> length key > max_stage_attribute_key_bytes \<or>
         \<not> list_all is_stage_attribute_key_byte key then
        Inl \<lparr>sae_code = ''stage_attribute_key_invalid''\<rparr>
      else
        (case jc_to_vec jc v of
          None \<Rightarrow> Inl \<lparr>sae_code = ''stage_attribute_value_invalid''\<rparr>
        | Some encoded \<Rightarrow>
            if length encoded > max_stage_attribute_value_bytes then
              Inl \<lparr>sae_code = ''stage_attribute_value_exceeded''\<rparr>
            else
              (case Option.bind (checked_add_usize total_bytes (length key))
                     (\<lambda>n. checked_add_usize n (length encoded)) of
                None \<Rightarrow> Inl \<lparr>sae_code = ''stage_attribute_bytes_exceeded''\<rparr>
              | Some n \<Rightarrow>
                  if n > max_stage_attribute_bytes then
                    Inl \<lparr>sae_code = ''stage_attribute_bytes_exceeded''\<rparr>
                  else stage_attributes_loop jc rest n)))"

definition validate_stage_attributes ::
    "'j json_codec \<Rightarrow> (string, 'j) btree_map \<Rightarrow> (stage_attribute_error, unit) result" where
  "validate_stage_attributes jc attributes =
     (if length attributes > max_stage_attributes then
        Inl \<lparr>sae_code = ''stage_attribute_count_exceeded''\<rparr>
      else stage_attributes_loop jc attributes 0)"

section \<open>The sanitised problem response\<close>

record problem_document =
  pd_problem_type :: string
  pd_title :: string
  pd_status :: u16
  pd_code :: string
  pd_request_id :: "string option"

definition problem_document_to_vec :: "'j json_codec \<Rightarrow> problem_document \<Rightarrow> bytes option" where
  "problem_document_to_vec jc d =
     jc_struct_to_vec jc
       ([(''type'', jc_string jc (pd_problem_type d)), (''title'', jc_string jc (pd_title d)),
         (''status'', jc_number jc (unat (pd_status d))), (''code'', jc_string jc (pd_code d))] @
        (case pd_request_id d of None \<Rightarrow> [] | Some r \<Rightarrow> [(''requestId'', jc_string jc r)]))"

definition sanitize_problem_code :: "string \<Rightarrow> string" where
  "sanitize_problem_code v =
     (if v \<noteq> [] \<and> length v \<le> 64 \<and>
         list_all (\<lambda>c. is_ascii_lowercase c \<or> is_ascii_digit c \<or> c = CHR ''_'') v
      then v else ''middleware_rejection'')"

definition sanitize_request_id :: "string \<Rightarrow> string option" where
  "sanitize_request_id v =
     (if v = [] \<or> length v > 128 then None
      else then_some (list_all (\<lambda>c. is_ascii_alphanumeric c \<or> c \<in> set ''-_.:/'') v) v)"

definition safe_response_headers :: "string set" where
  "safe_response_headers = {''retry-after'', ''ratelimit'', ''ratelimit-policy'',
     ''ratelimit-limit'', ''ratelimit-remaining'', ''ratelimit-reset'', ''x-request-id'',
     ''x-ores-request-id''}"

definition sanitize_safe_response_header :: "string \<Rightarrow> string \<Rightarrow> (string \<times> string) option" where
  "sanitize_safe_response_header raw_name v =
     (let name = to_ascii_lowercase raw_name in
      if name \<notin> safe_response_headers \<or> v = [] \<or> length v > 256 \<or>
         list_ex is_forbidden_header_value_byte v
      then None else Some (name, v))"

definition sanitized_problem_response ::
    "'j json_codec \<Rightarrow> u16 \<Rightarrow> string \<Rightarrow> string option \<Rightarrow> headers \<Rightarrow> stage_response" where
  "sanitized_problem_response jc status code request_id safe_headers =
     (let body =
        (case problem_document_to_vec jc
            \<lparr>pd_problem_type = ''about:blank'', pd_title = ''Request rejected'', pd_status = status,
             pd_code = sanitize_problem_code code,
             pd_request_id = Option.bind request_id sanitize_request_id\<rparr> of
           Some b \<Rightarrow> b | None \<Rightarrow> fallback_problem_body);
        headers = bt_collect
          (List.map_filter (\<lambda>(name, v). sanitize_safe_response_header name v) safe_headers @
           [(''content-type'', ''application/problem+json''), (''cache-control'', ''no-store'')])
      in \<lparr>sr_status = status, sr_headers = headers, sr_body = body\<rparr>)"

section \<open>What raw headers are admitted\<close>

definition header_names :: "(string \<times> string) list \<Rightarrow> string list" where
  "header_names raw = map (\<lambda>h. to_ascii_lowercase (fst h)) raw"

definition header_bytes :: "(string \<times> string) list \<Rightarrow> nat" where
  "header_bytes raw = sum_list (map (\<lambda>h. length (fst h) + length (snd h)) raw)"

text \<open>The value of a name: its nonempty values in the order they came, joined as one list.\<close>

definition header_value :: "(string \<times> string) list \<Rightarrow> string \<Rightarrow> string option" where
  "header_value raw name =
     then_some (name \<in> set (header_names raw))
       (join_with '', '' (filter (\<lambda>v. v \<noteq> [])
          (map snd (filter (\<lambda>h. to_ascii_lowercase (fst h) = name) raw))))"

definition well_formed_header :: "string \<times> string \<Rightarrow> bool" where
  "well_formed_header h \<longleftrightarrow>
     fst h \<noteq> [] \<and> length (fst h) \<le> max_header_name_bytes \<and>
     length (snd h) \<le> max_header_value_bytes \<and>
     list_all is_http_token_byte (fst h) \<and> \<not> list_ex is_forbidden_header_value_byte (snd h)"

definition may_repeat :: "string \<Rightarrow> bool" where
  "may_repeat name \<longleftrightarrow> is_joinable_list_header name \<and> \<not> is_singleton_or_security_sensitive name"

definition admissible :: "(string \<times> string) list \<Rightarrow> bool" where
  "admissible raw \<longleftrightarrow>
     length raw \<le> max_raw_headers \<and> header_bytes raw \<le> max_header_bytes \<and>
     list_all well_formed_header raw \<and>
     (\<forall>i < length raw. \<forall>j < i. header_names raw ! j = header_names raw ! i \<longrightarrow>
        may_repeat (header_names raw ! i)) \<and>
     \<not> (''content-length'' \<in> set (header_names raw) \<and>
        ''transfer-encoding'' \<in> set (header_names raw))"

text \<open>What the loop checks of one header after the ones it has seen.\<close>

definition header_ok :: "(string \<times> string) list \<Rightarrow> string \<times> string \<Rightarrow> bool" where
  "header_ok seen h \<longleftrightarrow>
     well_formed_header h \<and> header_bytes (seen @ [h]) \<le> max_header_bytes \<and>
     (to_ascii_lowercase (fst h) \<in> set (header_names seen) \<longrightarrow>
        may_repeat (to_ascii_lowercase (fst h)))"

fun headers_ok :: "(string \<times> string) list \<Rightarrow> (string \<times> string) list \<Rightarrow> bool" where
  "headers_ok seen [] = True"
| "headers_ok seen (h # hs) = (header_ok seen h \<and> headers_ok (seen @ [h]) hs)"

definition admits :: "(string \<times> string) list \<Rightarrow> headers \<Rightarrow> bool" where
  "admits seen m \<longleftrightarrow> bt_ok m \<and> (\<forall>name. bt_get m name = header_value seen name)"

lemma header_names_simps [simp]:
  "header_names [] = []" "header_names (h # hs) = to_ascii_lowercase (fst h) # header_names hs"
  "header_names (xs @ ys) = header_names xs @ header_names ys"
  "length (header_names xs) = length xs"
  by (simp_all add: header_names_def)

lemma header_bytes_simps [simp]:
  "header_bytes [] = 0" "header_bytes (h # hs) = length (fst h) + length (snd h) + header_bytes hs"
  "header_bytes (xs @ ys) = header_bytes xs + header_bytes ys"
  by (simp_all add: header_bytes_def)

lemma header_value_Nil [simp]: "header_value [] name = None"
  by (simp add: header_value_def)

lemma header_value_None: "header_value seen name = None \<longleftrightarrow> name \<notin> set (header_names seen)"
  by (simp add: header_value_def)

lemma header_value_other:
  "to_ascii_lowercase (fst h) \<noteq> name \<Longrightarrow> header_value (seen @ [h]) name = header_value seen name"
  by (simp add: header_value_def)

lemma header_value_same:
  assumes "to_ascii_lowercase (fst h) = name"
  shows "header_value (seen @ [h]) name =
    Some (case header_value seen name of None \<Rightarrow> snd h
          | Some v \<Rightarrow> v @ (if v \<noteq> [] \<and> snd h \<noteq> [] then '', '' else []) @ snd h)"
proof (cases "name \<in> set (header_names seen)")
  case True
  let ?vs = "filter (\<lambda>v. v \<noteq> []) (map snd (filter (\<lambda>h. to_ascii_lowercase (fst h) = name) seen))"
  have "join_with '', '' ?vs = [] \<longleftrightarrow> ?vs = []" by (rule join_with_eq_Nil) simp
  with True assms show ?thesis by (simp add: header_value_def join_with_snoc)
next
  case False
  then have "filter (\<lambda>h. to_ascii_lowercase (fst h) = name) seen = []"
    by (auto simp: header_names_def filter_empty_conv)
  with False assms show ?thesis by (auto simp: header_value_def)
qed

lemma admits_snoc:
  assumes "admits seen m" "to_ascii_lowercase (fst h) = name"
  shows "admits (seen @ [h])
    (bt_insert name (case bt_get m name of None \<Rightarrow> snd h
       | Some v \<Rightarrow> v @ (if v \<noteq> [] \<and> snd h \<noteq> [] then '', '' else []) @ snd h) m)"
  using assms header_value_same [OF assms(2), of seen] header_value_other [of h _ seen]
  by (auto simp: admits_def bt_get_insert)

lemma admit_headers_step:
  assumes "admits seen m" "header_bytes seen \<le> max_header_bytes"
  shows "header_ok seen h \<Longrightarrow> \<exists>m'. admits (seen @ [h]) m' \<and>
      admit_headers_loop (h # hs) (header_bytes seen) m =
        admit_headers_loop hs (header_bytes (seen @ [h])) m'"
    and "\<not> header_ok seen h \<Longrightarrow> \<exists>e. admit_headers_loop (h # hs) (header_bytes seen) m = Inl e"
proof -
  obtain n v where h: "h = (n, v)" by (cases h)
  have small: "well_formed_header h \<Longrightarrow> checked_add_usize (header_bytes seen) (length n) =
      Some (header_bytes seen + length n) \<and> checked_add_usize (header_bytes seen + length n) (length v) =
      Some (header_bytes (seen @ [h]))"
    using assms(2) by (simp add: h well_formed_header_def checked_add_usize_def max_header_bytes_def
        max_header_name_bytes_def max_header_value_bytes_def)
  have seen: "bt_get m (to_ascii_lowercase n) = None \<longleftrightarrow>
      to_ascii_lowercase n \<notin> set (header_names seen)"
    using assms(1) by (simp add: admits_def header_value_None)
  show "\<exists>m'. admits (seen @ [h]) m' \<and> admit_headers_loop (h # hs) (header_bytes seen) m =
      admit_headers_loop hs (header_bytes (seen @ [h])) m'" if ok: "header_ok seen h"
    using ok small seen admits_snoc [OF assms(1), of h "to_ascii_lowercase n"]
    by (cases "bt_get m (to_ascii_lowercase n)")
      (auto simp: header_ok_def h well_formed_header_def may_repeat_def Let_def)
  show "\<exists>e. admit_headers_loop (h # hs) (header_bytes seen) m = Inl e" if "\<not> header_ok seen h"
  proof (cases "well_formed_header h")
    case True
    with that small seen show ?thesis
      by (cases "bt_get m (to_ascii_lowercase n)")
        (auto simp: header_ok_def h well_formed_header_def may_repeat_def Let_def)
  next
    case False
    then show ?thesis by (auto simp: h well_formed_header_def)
  qed
qed

lemma admit_headers_loop_correct:
  assumes "admits seen m" "header_bytes seen \<le> max_header_bytes"
  shows "case admit_headers_loop hs (header_bytes seen) m of
      Inl e \<Rightarrow> \<not> headers_ok seen hs | Inr m' \<Rightarrow> headers_ok seen hs \<and> admits (seen @ hs) m'"
  using assms
proof (induction hs arbitrary: seen m)
  case Nil
  then show ?case by simp
next
  case (Cons h hs)
  show ?case
  proof (cases "header_ok seen h")
    case True
    from admit_headers_step(1) [OF Cons.prems True] obtain m' where
      m': "admits (seen @ [h]) m'" "admit_headers_loop (h # hs) (header_bytes seen) m =
        admit_headers_loop hs (header_bytes (seen @ [h])) m'" by blast
    with True Cons.IH [of "seen @ [h]" m'] show ?thesis
      by (simp add: header_ok_def split: sum.splits)
  next
    case False
    with admit_headers_step(2) [OF Cons.prems False, of hs] show ?thesis
      by (auto simp del: admit_headers_loop.simps)
  qed
qed

lemma headers_ok_iff:
  "headers_ok seen hs \<longleftrightarrow> list_all well_formed_header hs \<and>
     (hs \<noteq> [] \<longrightarrow> header_bytes (seen @ hs) \<le> max_header_bytes) \<and>
     (\<forall>i < length hs. header_names hs ! i \<in> set (header_names (seen @ take i hs)) \<longrightarrow>
        may_repeat (header_names hs ! i))"
proof (induction hs arbitrary: seen)
  case Nil
  show ?case by simp
next
  case (Cons h hs)
  have "headers_ok seen (h # hs) \<longleftrightarrow> header_ok seen h \<and> headers_ok (seen @ [h]) hs" by simp
  also have "\<dots> \<longleftrightarrow> list_all well_formed_header (h # hs) \<and>
      header_bytes (seen @ h # hs) \<le> max_header_bytes \<and>
      (\<forall>i < length (h # hs). header_names (h # hs) ! i \<in>
         set (header_names (seen @ take i (h # hs))) \<longrightarrow> may_repeat (header_names (h # hs) ! i))"
    unfolding Cons.IH by (cases "hs = []") (simp_all add: header_ok_def All_less_Suc2, auto)
  finally show ?case by simp
qed

lemma admissible_iff:
  "admissible raw \<longleftrightarrow> length raw \<le> max_raw_headers \<and> headers_ok [] raw \<and>
     \<not> (''content-length'' \<in> set (header_names raw) \<and>
        ''transfer-encoding'' \<in> set (header_names raw))"
proof -
  have "header_names raw ! i \<in> set (header_names (take i raw)) \<longleftrightarrow>
      (\<exists>j < i. header_names raw ! j = header_names raw ! i)" if "i < length raw" for i
    using that by (auto simp: header_names_def in_set_conv_nth simp flip: take_map)
  then show ?thesis by (cases raw) (auto simp: admissible_def headers_ok_iff)
qed

lemma admits_unique:
  assumes "admits seen m" "admits seen m'"
  shows "m = m'"
  using assms by (auto simp: admits_def intro: bt_ext)

text \<open>
  Header admission accepts exactly the admissible lists (at most 128 headers and 64 KiB, names
  that are tokens, values without control bytes, a repeated name only when it is on the list of
  joinable headers, not both a content length and a transfer encoding), and the map it returns has,
  for each name in lower case, its nonempty values joined in the order they came.
\<close>

theorem admit_raw_headers_spec:
  "admit_raw_headers raw = Inr m \<longleftrightarrow>
     admissible raw \<and> bt_ok m \<and> (\<forall>name. bt_get m name = header_value raw name)"
proof (cases "admit_headers_loop raw 0 []")
  case (Inl e)
  then show ?thesis
    using admit_headers_loop_correct [of "[]" "[]" raw]
    by (simp add: admits_def admit_raw_headers_def admissible_iff)
next
  case (Inr m')
  then have m': "headers_ok [] raw" "admits raw m'"
    using admit_headers_loop_correct [of "[]" "[]" raw] by (simp_all add: admits_def)
  then have "bt_contains_key m' name \<longleftrightarrow> name \<in> set (header_names raw)" for name
    using header_value_None [of raw name] by (auto simp: admits_def bt_contains_key_def)
  moreover have "m = m' \<longleftrightarrow> bt_ok m \<and> (\<forall>name. bt_get m name = header_value raw name)"
    using admits_unique [OF m'(2), of m] m'(2) by (auto simp: admits_def)
  ultimately show ?thesis
    using Inr m'(1) by (simp add: admit_raw_headers_def admissible_iff) metis
qed

section \<open>What stage attributes are admitted\<close>

definition attribute_bytes :: "'j json_codec \<Rightarrow> string \<times> 'j \<Rightarrow> nat" where
  "attribute_bytes jc a = length (fst a) + (case jc_to_vec jc (snd a) of None \<Rightarrow> 0 | Some b \<Rightarrow> length b)"

definition attribute_ok :: "'j json_codec \<Rightarrow> string \<times> 'j \<Rightarrow> bool" where
  "attribute_ok jc a \<longleftrightarrow>
     fst a \<noteq> [] \<and> length (fst a) \<le> max_stage_attribute_key_bytes \<and>
     list_all is_stage_attribute_key_byte (fst a) \<and>
     (case jc_to_vec jc (snd a) of
        None \<Rightarrow> False | Some b \<Rightarrow> length b \<le> max_stage_attribute_value_bytes)"

lemma stage_attributes_loop_iff:
  "n \<le> max_stage_attribute_bytes \<Longrightarrow>
   stage_attributes_loop jc attrs n = Inr () \<longleftrightarrow>
     list_all (attribute_ok jc) attrs \<and>
     n + sum_list (map (attribute_bytes jc) attrs) \<le> max_stage_attribute_bytes"
proof (induction attrs arbitrary: n)
  case Nil
  then show ?case by simp
next
  case (Cons a attrs)
  obtain k v where a: "a = (k, v)" by (cases a)
  show ?case
  proof (cases "attribute_ok jc a")
    case False
    then show ?thesis by (auto simp: a attribute_ok_def split: option.splits)
  next
    case True
    then obtain b where b: "jc_to_vec jc v = Some b" "length b \<le> max_stage_attribute_value_bytes"
      by (auto simp: a attribute_ok_def split: option.splits)
    let ?n = "n + attribute_bytes jc a"
    have "Option.bind (checked_add_usize n (length k)) (\<lambda>n. checked_add_usize n (length b)) = Some ?n"
      using True Cons.prems b
      by (simp add: a checked_add_usize_def attribute_ok_def attribute_bytes_def
          max_stage_attribute_bytes_def max_stage_attribute_value_bytes_def
          max_stage_attribute_key_bytes_def)
    then have "stage_attributes_loop jc (a # attrs) n =
        (if ?n > max_stage_attribute_bytes then Inl \<lparr>sae_code = ''stage_attribute_bytes_exceeded''\<rparr>
         else stage_attributes_loop jc attrs ?n)"
      using True b by (simp add: a attribute_ok_def)
    then show ?thesis using True Cons.IH [of ?n] by (auto simp: add.assoc)
  qed
qed

text \<open>
  Stage attributes pass exactly when there are at most 32 of them, every key is a nonempty
  lower-case key of at most 64 bytes, every value serialises to at most 1024 bytes, and keys and
  values together take at most 8 KiB.
\<close>

theorem validate_stage_attributes_spec:
  "validate_stage_attributes jc attrs = Inr () \<longleftrightarrow>
     length attrs \<le> max_stage_attributes \<and> list_all (attribute_ok jc) attrs \<and>
     sum_list (map (attribute_bytes jc) attrs) \<le> max_stage_attribute_bytes"
  by (simp add: validate_stage_attributes_def stage_attributes_loop_iff)

section \<open>The sanitised problem response leaks nothing\<close>

definition safe_value :: "string \<Rightarrow> bool" where
  "safe_value v \<longleftrightarrow> v \<noteq> [] \<and> length v \<le> 256 \<and> \<not> list_ex is_forbidden_header_value_byte v"

lemma sanitize_safe_response_header_Some:
  "sanitize_safe_response_header n v = Some (n', v') \<longleftrightarrow>
     n' = to_ascii_lowercase n \<and> v' = v \<and> n' \<in> safe_response_headers \<and> safe_value v"
  by (auto simp: sanitize_safe_response_header_def safe_value_def Let_def)

lemma sanitize_problem_code_idem [simp]:
  "sanitize_problem_code (sanitize_problem_code c) = sanitize_problem_code c"
  by (simp add: sanitize_problem_code_def ascii_defs)

lemma sanitize_request_id_idem:
  "Option.bind r (\<lambda>v. Option.bind (sanitize_request_id v) sanitize_request_id) =
   Option.bind r sanitize_request_id"
  by (cases r) (auto simp: sanitize_request_id_def then_some_def)

text \<open>
  C4. Whatever headers, code and request id a failing stage supplies, a sanitised problem response
  carries only headers of the allow list (and the content type and cache control it sets itself),
  each with a nonempty value of at most 256 bytes free of control bytes, and its body is a function
  of the status and of the sanitised code and request id alone.
\<close>

theorem sanitized_problem_response_safe:
  "list_all (\<lambda>(n, v). n \<in> safe_response_headers \<union> {''content-type'', ''cache-control''} \<and> safe_value v)
     (sr_headers (sanitized_problem_response jc status code rid hs)) \<and>
   bt_get (sr_headers (sanitized_problem_response jc status code rid hs)) ''cache-control'' =
     Some ''no-store'' \<and>
   bt_get (sr_headers (sanitized_problem_response jc status code rid hs)) ''content-type'' =
     Some ''application/problem+json'' \<and>
   sr_body (sanitized_problem_response jc status code rid hs) =
     sr_body (sanitized_problem_response jc status (sanitize_problem_code code)
       (Option.bind rid sanitize_request_id) [])"
proof -
  define kvs where "kvs = List.map_filter (\<lambda>(name, v). sanitize_safe_response_header name v) hs @
      [(''content-type'', ''application/problem+json''), (''cache-control'', ''no-store'')]"
  have hdr: "sr_headers (sanitized_problem_response jc status code rid hs) = bt_collect kvs"
    by (simp add: sanitized_problem_response_def kvs_def Let_def)
  have "(n \<in> safe_response_headers \<union> {''content-type'', ''cache-control''}) \<and> safe_value v"
    if "(n, v) \<in> set kvs" for n v
    using that
    by (auto simp: kvs_def map_filter_def sanitize_safe_response_header_Some safe_value_def
        is_forbidden_header_value_byte_def)
  with set_bt_collect_subset [of kvs]
  have "list_all (\<lambda>(n, v). n \<in> safe_response_headers \<union> {''content-type'', ''cache-control''} \<and>
      safe_value v) (bt_collect kvs)"
    by (fastforce simp: list_all_iff)
  moreover have "bt_get (bt_collect kvs) ''cache-control'' = Some ''no-store''"
    "bt_get (bt_collect kvs) ''content-type'' = Some ''application/problem+json''"
    by (simp_all add: bt_get_collect kvs_def)
  ultimately show ?thesis
    unfolding hdr
    by (simp add: sanitized_problem_response_def Let_def sanitize_request_id_idem)
qed

end
