(* ===== verification/Hardened_Pipeline.thy ===== *)
theory Hardened_Pipeline
  imports Header_Admission
begin

text \<open>
  The hardened stage pipeline of \<^verbatim>\<open>src/src/rust/src/hardening.rs\<close>: every request hook and
  every finalizer of a stage runs in a task of its own, joined under the deadline of the request.

  The tasks belong to the tokio package. A \<open>join_handle\<close> is what the code uses of one: awaiting it,
  awaiting it with \<open>timeout_at\<close> (\<^const>\<open>None\<close> when the deadline passes first), and aborting it and
  waiting for its end. Each of them acts on a world \<open>'w\<close>, which holds whatever the tasks touch.
\<close>

section \<open>Tasks\<close>

datatype lifecycle_failure_kind = Panic | Cancelled | DeadlineExceeded

datatype join_error = JoinPanic | JoinCancelled

definition is_panic :: "join_error \<Rightarrow> bool" where
  "is_panic e \<longleftrightarrow> e = JoinPanic"

record ('a, 'w) join_handle =
  jh_await :: "'w \<Rightarrow> (join_error, 'a) result \<times> 'w"
  jh_timeout_at :: "instant \<Rightarrow> 'w \<Rightarrow> (join_error, 'a) result option \<times> 'w"
  jh_abort_await :: "'w \<Rightarrow> 'w"

definition classify_join_error :: "join_error \<Rightarrow> lifecycle_failure_kind" where
  "classify_join_error e = (if is_panic e then Panic else Cancelled)"

definition map_join_error ::
    "(join_error, 'a) result \<Rightarrow> (lifecycle_failure_kind, 'a) result" where
  "map_join_error r = (case r of Inl e \<Rightarrow> Inl (classify_join_error e) | Inr a \<Rightarrow> Inr a)"

definition join_with_deadline ::
    "('a, 'w) join_handle \<Rightarrow> instant option \<Rightarrow> 'w \<Rightarrow> (lifecycle_failure_kind, 'a) result \<times> 'w" where
  "join_with_deadline task deadline w =
     (case deadline of
        Some d \<Rightarrow>
          (case jh_timeout_at task d w of
             (Some joined, w1) \<Rightarrow> (map_join_error joined, w1)
           | (None, w1) \<Rightarrow> (Inl DeadlineExceeded, jh_abort_await task w1))
      | None \<Rightarrow> (case jh_await task w of (joined, w1) \<Rightarrow> (map_join_error joined, w1)))"

text \<open>\<open>as_millis\<close> is a \<open>u128\<close> that is clamped into \<open>u64\<close>; both clocks are read once.\<close>

definition monotonic_deadline :: "u64 option \<Rightarrow> nat \<Rightarrow> instant \<Rightarrow> instant option" where
  "monotonic_deadline deadline_unix_ms wall_ms now =
     (case deadline_unix_ms of
        None \<Rightarrow> None
      | Some d \<Rightarrow>
          let now_wall_ms = (if wall_ms < 2 ^ 64 then of_nat wall_ms else - 1 :: u64);
              remaining_ms = saturating_sub d now_wall_ms
          in Some (now + unat remaining_ms * 1000000))"

section \<open>The pipeline\<close>

datatype finalizer_failure_mode = FailOpen | FailClosed

datatype finalizer_outcome = Succeeded | Failed lifecycle_failure_kind

record finalizer_event =
  fe_stage :: string
  fe_outcome :: finalizer_outcome

record hardened_pipeline_config_error =
  hpe_code :: string

text \<open>A handler with its hooks spawned as tasks.\<close>

record ('j, 'w) task_handler =
  th_name :: string
  th_request :: "'j stage_input \<Rightarrow> ('j stage_decision, 'w) join_handle"
  th_response :: "'j stage_input \<Rightarrow> stage_response \<Rightarrow> (stage_response, 'w) join_handle"

record ('j, 'w) hardened_stage =
  hs_handler :: "('j, 'w) task_handler"
  hs_finalizer_failure_mode :: finalizer_failure_mode

type_synonym ('j, 'w) hardened_pipeline = "('j, 'w) hardened_stage list"
type_synonym ('j, 'w) hardened_entered =
  "(('j, 'w) task_handler \<times> 'j stage_input \<times> finalizer_failure_mode) list"

record hardened_execution =
  he_response :: stage_response
  he_finalizers :: "finalizer_event list"

definition max_hardened_stages :: nat where "max_hardened_stages = 64"

definition hardened_new :: "('j, 'w) hardened_pipeline" where
  "hardened_new = []"

definition try_with_stage ::
    "('j, 'w) hardened_pipeline \<Rightarrow> ('j, 'w) task_handler \<Rightarrow> finalizer_failure_mode \<Rightarrow>
     (hardened_pipeline_config_error, ('j, 'w) hardened_pipeline) result" where
  "try_with_stage stages handler mode =
     (if length stages \<ge> max_hardened_stages then Inl \<lparr>hpe_code = ''stage_count_exceeded''\<rparr>
      else Inr (stages @ [\<lparr>hs_handler = handler, hs_finalizer_failure_mode = mode\<rparr>]))"

definition run_stage_request ::
    "('j, 'w) task_handler \<Rightarrow> 'j stage_input \<Rightarrow> instant option \<Rightarrow> 'w \<Rightarrow>
     (lifecycle_failure_kind, 'j stage_decision) result \<times> 'w" where
  "run_stage_request stage i deadline w = join_with_deadline (th_request stage i) deadline w"

definition run_finalizer ::
    "('j, 'w) task_handler \<Rightarrow> 'j stage_input \<Rightarrow> stage_response \<Rightarrow> instant option \<Rightarrow> 'w \<Rightarrow>
     (lifecycle_failure_kind, stage_response) result \<times> 'w" where
  "run_finalizer stage i response deadline w =
     join_with_deadline (th_response stage i response) deadline w"

fun unwind_hardened_loop ::
    "'j json_codec \<Rightarrow> instant option \<Rightarrow> ('j, 'w) hardened_entered \<Rightarrow> stage_response \<Rightarrow>
     finalizer_event list \<Rightarrow> bool \<Rightarrow> 'w \<Rightarrow> hardened_execution \<times> 'w" where
  "unwind_hardened_loop jc deadline [] response finalizers terminal_failure w =
     (\<lparr>he_response = response, he_finalizers = finalizers\<rparr>, w)"
| "unwind_hardened_loop jc deadline ((stage, i, failure_mode) # es) response finalizers
       terminal_failure w =
     (case run_finalizer stage i response deadline w of
        (Inr next_response, w') \<Rightarrow>
          unwind_hardened_loop jc deadline es
            (if \<not> terminal_failure then next_response else response)
            (finalizers @ [\<lparr>fe_stage = th_name stage, fe_outcome = Succeeded\<rparr>])
            terminal_failure w'
      | (Inl kind, w') \<Rightarrow>
          (let closes = (failure_mode = FailClosed \<and> \<not> terminal_failure) in
           unwind_hardened_loop jc deadline es
             (if closes then sanitized_problem_response jc 500 ''finalizer_failure''
                (Some (rc_request_id (si_context i))) [] else response)
             (finalizers @ [\<lparr>fe_stage = th_name stage, fe_outcome = Failed kind\<rparr>])
             (closes \<or> terminal_failure) w'))"

definition unwind_hardened ::
    "'j json_codec \<Rightarrow> ('j, 'w) hardened_entered \<Rightarrow> stage_response \<Rightarrow> instant option \<Rightarrow> 'w \<Rightarrow>
     hardened_execution \<times> 'w" where
  "unwind_hardened jc entered response deadline w =
     unwind_hardened_loop jc deadline (rev entered) response [] False w"

definition failure_code :: "lifecycle_failure_kind \<Rightarrow> string" where
  "failure_code kind =
     (case kind of
        Panic \<Rightarrow> ''stage_panic''
      | Cancelled \<Rightarrow> ''stage_cancelled''
      | DeadlineExceeded \<Rightarrow> ''stage_deadline_exceeded'')"

definition attributes_invalid_response :: "'j json_codec \<Rightarrow> 'j stage_input \<Rightarrow> stage_response" where
  "attributes_invalid_response jc i =
     sanitized_problem_response jc 500 ''stage_attributes_invalid''
       (Some (rc_request_id (si_context i))) []"

fun execute_hardened_loop ::
    "'j json_codec \<Rightarrow> ('j, 'w) route_handler \<Rightarrow> instant option \<Rightarrow> ('j, 'w) hardened_pipeline \<Rightarrow>
     ('j, 'w) hardened_entered \<Rightarrow> 'j stage_input \<Rightarrow> 'w \<Rightarrow> hardened_execution \<times> 'w" where
  "execute_hardened_loop jc handler deadline [] entered i w =
     (case handler i w of (response, w') \<Rightarrow> unwind_hardened jc entered response deadline w')"
| "execute_hardened_loop jc handler deadline (s # stages) entered i w =
     (let stage = hs_handler s; mode = hs_finalizer_failure_mode s in
      case run_stage_request stage i deadline w of
        (Inr (Continue n), w') \<Rightarrow>
          (if isl (validate_stage_attributes jc (si_attributes n)) then
             unwind_hardened jc (entered @ [(stage, n, mode)]) (attributes_invalid_response jc n)
               deadline w'
           else execute_hardened_loop jc handler deadline stages (entered @ [(stage, n, mode)]) n w')
      | (Inr (Respond response), w') \<Rightarrow>
          unwind_hardened jc (entered @ [(stage, i, mode)]) response deadline w'
      | (Inr (Reject rejection), w') \<Rightarrow>
          unwind_hardened jc (entered @ [(stage, i, mode)])
            (sanitized_problem_response jc (sj_status rejection) (sj_code rejection)
               (Some (rc_request_id (si_context i))) (sj_headers rejection)) deadline w'
      | (Inl kind, w') \<Rightarrow>
          (case unwind_hardened jc entered
              (sanitized_problem_response jc 500 (failure_code kind)
                 (Some (rc_request_id (si_context i))) []) deadline w' of
             (r, w'') \<Rightarrow>
               (r\<lparr>he_finalizers := he_finalizers r @
                   [\<lparr>fe_stage = th_name stage, fe_outcome = Failed kind\<rparr>]\<rparr>, w'')))"

definition execute_hardened ::
    "'j json_codec \<Rightarrow> ('j, 'w) hardened_pipeline \<Rightarrow> 'j stage_input \<Rightarrow> ('j, 'w) route_handler \<Rightarrow>
     nat \<Rightarrow> instant \<Rightarrow> 'w \<Rightarrow> hardened_execution \<times> 'w" where
  "execute_hardened jc stages i handler wall_ms now w =
     (let deadline = monotonic_deadline (rc_deadline_unix_ms (si_context i)) wall_ms now in
      if isl (validate_stage_attributes jc (si_attributes i)) then
        (\<lparr>he_response = attributes_invalid_response jc i, he_finalizers = []\<rparr>, w)
      else execute_hardened_loop jc handler deadline stages [] i w)"

section \<open>Every entered stage is finalised once\<close>

text \<open>
  The request phase on its own: the names of the stages that were entered, and the stage whose
  request hook failed, if one did.
\<close>

fun request_phase ::
    "'j json_codec \<Rightarrow> instant option \<Rightarrow> ('j, 'w) hardened_pipeline \<Rightarrow> 'j stage_input \<Rightarrow> 'w \<Rightarrow>
     string list \<times> (string \<times> lifecycle_failure_kind) option" where
  "request_phase jc deadline [] i w = ([], None)"
| "request_phase jc deadline (s # stages) i w =
     (let name = th_name (hs_handler s) in
      case run_stage_request (hs_handler s) i deadline w of
        (Inr (Continue n), w') \<Rightarrow>
          (if isl (validate_stage_attributes jc (si_attributes n)) then ([name], None)
           else case request_phase jc deadline stages n w' of (ns, f) \<Rightarrow> (name # ns, f))
      | (Inr _, w') \<Rightarrow> ([name], None)
      | (Inl kind, w') \<Rightarrow> ([], Some (name, kind)))"

definition entered_names :: "('j, 'w) hardened_entered \<Rightarrow> string list" where
  "entered_names entered = map (\<lambda>e. th_name (fst e)) entered"

lemma entered_names_simps [simp]:
  "entered_names [] = []" "entered_names (xs @ ys) = entered_names xs @ entered_names ys"
  "entered_names (e # xs) = th_name (fst e) # entered_names xs"
  "entered_names (rev xs) = rev (entered_names xs)"
  by (simp_all add: entered_names_def rev_map)

lemma unwind_hardened_loop_stages:
  "map fe_stage (he_finalizers (fst (unwind_hardened_loop jc deadline es response fs terminal w))) =
     map fe_stage fs @ entered_names es"
proof (induction es arbitrary: response fs terminal w)
  case Nil
  show ?case by simp
next
  case (Cons e es)
  obtain stage i mode where e: "e = (stage, i, mode)" by (cases e)
  obtain r w' where "run_finalizer stage i response deadline w = (r, w')" by fastforce
  then show ?case by (cases r) (simp_all add: e Cons.IH Let_def)
qed

lemma unwind_hardened_stages:
  "map fe_stage (he_finalizers (fst (unwind_hardened jc entered response deadline w))) =
     rev (entered_names entered)"
  by (simp add: unwind_hardened_def unwind_hardened_loop_stages)

lemma execute_hardened_loop_stages:
  "map fe_stage (he_finalizers (fst (execute_hardened_loop jc handler deadline stages entered i w))) =
     (case request_phase jc deadline stages i w of (ns, f) \<Rightarrow>
        rev (entered_names entered @ ns) @ (case f of None \<Rightarrow> [] | Some (n, _) \<Rightarrow> [n]))"
proof (induction stages arbitrary: entered i w)
  case Nil
  show ?case by (simp add: unwind_hardened_stages split: prod.splits)
next
  case (Cons s stages)
  obtain r w' where r: "run_stage_request (hs_handler s) i deadline w = (r, w')" by fastforce
  consider (fail) k where "r = Inl k" | (cont) n where "r = Inr (Continue n)"
    | (resp) x where "r = Inr (Respond x)" | (rej) j where "r = Inr (Reject j)"
    by (metis obj_sumE stage_decision.exhaust)
  then show ?case
  proof cases
    case (fail k)
    obtain x w'' where x: "unwind_hardened jc entered (sanitized_problem_response jc 500
        (failure_code k) (Some (rc_request_id (si_context i))) []) deadline w' = (x, w'')"
      by fastforce
    then have "map fe_stage (he_finalizers x) = rev (entered_names entered)"
      using unwind_hardened_stages [of jc entered] by (metis fst_conv)
    with fail r x show ?thesis by (simp add: Let_def)
  next
    case cont
    with r show ?thesis by (simp add: Let_def unwind_hardened_stages Cons.IH split: prod.splits)
  next
    case resp
    with r show ?thesis by (simp add: Let_def unwind_hardened_stages)
  next
    case rej
    with r show ?thesis by (simp add: Let_def unwind_hardened_stages)
  qed
qed

text \<open>
  C5. A hardened execution records exactly one finalizer event per entered stage, in reverse order
  of entry, followed by the one of the stage whose request hook failed if one did, whatever panics,
  is cancelled or runs past the deadline; a request with invalid attributes enters no stage.
\<close>

theorem hardened_finalizes_each_once:
  "map fe_stage (he_finalizers (fst (execute_hardened jc stages i handler wall_ms now w))) =
     (if isl (validate_stage_attributes jc (si_attributes i)) then []
      else case request_phase jc
             (monotonic_deadline (rc_deadline_unix_ms (si_context i)) wall_ms now) stages i w of
             (ns, f) \<Rightarrow> rev ns @ (case f of None \<Rightarrow> [] | Some (n, _) \<Rightarrow> [n]))"
  by (simp add: execute_hardened_def execute_hardened_loop_stages Let_def)

section \<open>Failing finalizers\<close>

text \<open>Finalizing while ignoring the failed finalizers.\<close>

fun lenient_unwind ::
    "instant option \<Rightarrow> ('j, 'w) hardened_entered \<Rightarrow> stage_response \<Rightarrow> 'w \<Rightarrow> stage_response" where
  "lenient_unwind deadline [] response w = response"
| "lenient_unwind deadline ((stage, i, mode) # es) response w =
     (case run_finalizer stage i response deadline w of
        (Inr r, w') \<Rightarrow> lenient_unwind deadline es r w'
      | (Inl kind, w') \<Rightarrow> lenient_unwind deadline es response w')"

definition closed_failure ::
    "(('j, 'w) task_handler \<times> 'j stage_input \<times> finalizer_failure_mode) \<times> finalizer_event \<Rightarrow> bool" where
  "closed_failure p \<longleftrightarrow> snd (snd (fst p)) = FailClosed \<and> fe_outcome (snd p) \<noteq> Succeeded"

lemma unwind_hardened_loop_finalizers:
  "\<exists>evs. length evs = length es \<and>
     he_finalizers (fst (unwind_hardened_loop jc deadline es response fs terminal w)) = fs @ evs"
proof (induction es arbitrary: response fs terminal w)
  case Nil
  show ?case by simp
next
  case (Cons e es)
  obtain stage i mode where e: "e = (stage, i, mode)" by (cases e)
  obtain r w' where r: "run_finalizer stage i response deadline w = (r, w')" by fastforce
  have *: "\<exists>evs. length evs = Suc (length es) \<and>
      he_finalizers (fst (unwind_hardened_loop jc deadline es resp (fs @ [ev]) t w')) = fs @ evs"
    for resp ev t
    using Cons.IH [of resp "fs @ [ev]" t w'] by (metis append.assoc append_Cons append_Nil length_Cons)
  show ?case by (cases r) (simp_all add: e r Let_def *)
qed

lemma unwind_terminal_response:
  "he_response (fst (unwind_hardened_loop jc deadline es response fs True w)) = response"
proof (induction es arbitrary: fs w)
  case Nil
  show ?case by simp
next
  case (Cons e es)
  obtain stage i mode where e: "e = (stage, i, mode)" by (cases e)
  obtain r w' where "run_finalizer stage i response deadline w = (r, w')" by fastforce
  then show ?case by (cases r) (simp_all add: e Cons.IH)
qed

lemma unwind_hardened_loop_response:
  assumes "he_finalizers (fst (unwind_hardened_loop jc deadline es response fs False w)) = fs @ evs"
  shows "he_response (fst (unwind_hardened_loop jc deadline es response fs False w)) =
    (case find closed_failure (zip es evs) of
       None \<Rightarrow> lenient_unwind deadline es response w
     | Some ((stage, i, mode), ev) \<Rightarrow>
         sanitized_problem_response jc 500 ''finalizer_failure''
           (Some (rc_request_id (si_context i))) [])"
  using assms
proof (induction es arbitrary: response fs w evs)
  case Nil
  then show ?case by simp
next
  case (Cons e es)
  obtain stage i mode where e: "e = (stage, i, mode)" by (cases e)
  obtain r w' where r: "run_finalizer stage i response deadline w = (r, w')" by fastforce
  have first: "\<exists>evs'. evs = ev # evs' \<and> he_finalizers (fst (unwind_hardened_loop jc deadline es resp
      (fs @ [ev]) t w')) = (fs @ [ev]) @ evs'"
    if "he_finalizers (fst (unwind_hardened_loop jc deadline es resp (fs @ [ev]) t w')) = fs @ evs"
    for resp ev t
    using that unwind_hardened_loop_finalizers [of es jc deadline resp "fs @ [ev]" t w'] by auto
  show ?case
  proof (cases r)
    case (Inr resp)
    let ?ev = "\<lparr>fe_stage = th_name stage, fe_outcome = Succeeded\<rparr>"
    from first [of resp ?ev False] Cons.prems Inr r obtain evs' where
      "evs = ?ev # evs'" "he_finalizers (fst (unwind_hardened_loop jc deadline es resp
        (fs @ [?ev]) False w')) = (fs @ [?ev]) @ evs'" by (auto simp: e)
    with Cons.IH [of resp "fs @ [?ev]" w' evs'] Inr r show ?thesis
      by (simp add: e closed_failure_def split: option.split)
  next
    case (Inl k)
    let ?ev = "\<lparr>fe_stage = th_name stage, fe_outcome = Failed k\<rparr>"
    show ?thesis
    proof (cases "mode = FailClosed")
      case True
      let ?resp = "sanitized_problem_response jc 500 ''finalizer_failure''
        (Some (rc_request_id (si_context i))) []"
      from Cons.prems Inl r True first [of ?resp ?ev True] obtain evs' where "evs = ?ev # evs'"
        by (auto simp: e)
      with Inl r True show ?thesis by (simp add: e closed_failure_def unwind_terminal_response)
    next
      case False
      from first [of response ?ev False] Cons.prems Inl r False obtain evs' where
        "evs = ?ev # evs'" "he_finalizers (fst (unwind_hardened_loop jc deadline es response
          (fs @ [?ev]) False w')) = (fs @ [?ev]) @ evs'" by (auto simp: e)
      with Cons.IH [of response "fs @ [?ev]" w' evs'] Inl r False show ?thesis
        by (simp add: e closed_failure_def split: option.split)
    qed
  qed
qed

text \<open>
  C6. The response after unwinding: when a finalizer of a fail-closed stage fails, the answer is
  the sanitised 500 problem of the first such stage, and no later finalizer can replace it; when
  none does, the failed (fail-open) finalizers are as if they had not been there.
\<close>

theorem hardened_fail_closed_sticks:
  "he_response (fst (unwind_hardened jc entered response deadline w)) =
    (case find closed_failure (zip (rev entered)
        (he_finalizers (fst (unwind_hardened jc entered response deadline w)))) of
       None \<Rightarrow> lenient_unwind deadline (rev entered) response w
     | Some ((stage, i, mode), ev) \<Rightarrow>
         sanitized_problem_response jc 500 ''finalizer_failure''
           (Some (rc_request_id (si_context i))) [])"
  unfolding unwind_hardened_def by (rule unwind_hardened_loop_response) simp

section \<open>Refinement of the plain pipeline\<close>

text \<open>
  A spawned handler stands for a plain one when its tasks finish within the deadline without a
  panic; a run is clean when every input handed on has valid attributes and nothing is rejected
  (rejections are answered with the sanitised document instead).
\<close>

definition runs_as ::
    "instant option \<Rightarrow> ('j, 'w) hardened_stage \<Rightarrow> ('j, 'w) stage_handler \<Rightarrow> bool" where
  "runs_as deadline s h \<longleftrightarrow>
     (\<forall>i w. run_stage_request (hs_handler s) i deadline w =
        (Inr (fst (sh_request h i w)), snd (sh_request h i w))) \<and>
     (\<forall>i r w. run_finalizer (hs_handler s) i r deadline w =
        (Inr (fst (sh_response h i r w)), snd (sh_response h i r w)))"

fun clean_run :: "'j json_codec \<Rightarrow> ('j, 'w) stage_pipeline \<Rightarrow> 'j stage_input \<Rightarrow> 'w \<Rightarrow> bool" where
  "clean_run jc [] i w = True"
| "clean_run jc (h # hs) i w =
     (case sh_request h i w of
        (Continue n, w') \<Rightarrow>
          \<not> isl (validate_stage_attributes jc (si_attributes n)) \<and> clean_run jc hs n w'
      | (Respond _, w') \<Rightarrow> True
      | (Reject _, w') \<Rightarrow> False)"

definition runs_as_entered ::
    "instant option \<Rightarrow> ('j, 'w) hardened_entered \<Rightarrow> ('j, 'w) entered_stages \<Rightarrow> bool" where
  "runs_as_entered deadline es ps \<longleftrightarrow>
     list_all2 (\<lambda>(th, i, mode) (h, j). i = j \<and>
       runs_as deadline \<lparr>hs_handler = th, hs_finalizer_failure_mode = mode\<rparr> h) es ps"

lemma unwind_hardened_refines:
  assumes "runs_as_entered deadline es ps"
  shows "he_response (fst (unwind_hardened_loop jc deadline es response fs False w)) =
           fst (unwind_loop ps response w) \<and>
         snd (unwind_hardened_loop jc deadline es response fs False w) =
           snd (unwind_loop ps response w)"
  using assms unfolding runs_as_entered_def
proof (induction es ps arbitrary: response fs w rule: list_all2_induct)
  case Nil
  show ?case by simp
next
  case (Cons e es p ps)
  obtain th i mode where e: "e = (th, i, mode)" by (cases e)
  with Cons.hyps(1) obtain h where p: "p = (h, i)"
    "runs_as deadline \<lparr>hs_handler = th, hs_finalizer_failure_mode = mode\<rparr> h" by (cases p) auto
  obtain r w' where r: "sh_response h i response w = (r, w')" by fastforce
  with p(2) have "run_finalizer th i response deadline w = (Inr r, w')" by (simp add: runs_as_def)
  then show ?case by (simp add: e p(1) r Cons.IH)
qed

lemma execute_hardened_loop_refines:
  assumes "list_all2 (runs_as deadline) stages hs" "clean_run jc hs i w"
    "runs_as_entered deadline es ps"
  shows "he_response (fst (execute_hardened_loop jc handler deadline stages es i w)) =
           fst (execute_loop jc handler hs ps i w) \<and>
         snd (execute_hardened_loop jc handler deadline stages es i w) =
           snd (execute_loop jc handler hs ps i w)"
  using assms
proof (induction stages hs arbitrary: i w es ps rule: list_all2_induct)
  case Nil
  then have "runs_as_entered deadline (rev es) (rev ps)" by (simp add: runs_as_entered_def)
  then show ?case
    by (simp add: unwind_hardened_def unwind_def unwind_hardened_refines split: prod.splits)
next
  case (Cons s stages h hs)
  obtain d w' where d: "sh_request h i w = (d, w')" by fastforce
  with Cons.hyps(1) have r: "run_stage_request (hs_handler s) i deadline w = (Inr d, w')"
    by (simp add: runs_as_def)
  have snoc: "runs_as_entered deadline
      (es @ [(hs_handler s, n, hs_finalizer_failure_mode s)]) (ps @ [(h, n)])" for n
    using Cons.prems(2) Cons.hyps(1)
    by (auto simp: runs_as_entered_def runs_as_def intro: list_all2_appendI)
  have rsnoc: "runs_as_entered deadline
      ((hs_handler s, n, hs_finalizer_failure_mode s) # rev es) ((h, n) # rev ps)" for n
    using Cons.prems(2) Cons.hyps(1) by (auto simp: runs_as_entered_def runs_as_def)
  show ?case
  proof (cases d)
    case (Continue n)
    with Cons.prems(1) d r snoc [of n] Cons.IH show ?thesis by (simp add: Let_def)
  next
    case (Respond x)
    with d r rsnoc [of i] show ?thesis
      by (simp add: Let_def unwind_hardened_def unwind_def unwind_hardened_refines
          del: unwind_hardened_loop.simps unwind_loop.simps)
  next
    case (Reject j)
    with Cons.prems(1) d show ?thesis by simp
  qed
qed

text \<open>
  C7. Where no task fails and the run is clean, the hardened pipeline gives the response and the
  effects of the plain pipeline of the same handlers.
\<close>

theorem hardened_refines_plain:
  assumes "list_all2 (runs_as (monotonic_deadline (rc_deadline_unix_ms (si_context i)) wall_ms now))
      stages hs"
    and "\<not> isl (validate_stage_attributes jc (si_attributes i))" and "clean_run jc hs i w"
  shows "he_response (fst (execute_hardened jc stages i handler wall_ms now w)) =
           fst (execute jc hs i handler w) \<and>
         snd (execute_hardened jc stages i handler wall_ms now w) =
           snd (execute jc hs i handler w)"
  using execute_hardened_loop_refines [OF assms(1,3), of "[]" "[]"] assms(2)
  by (simp add: execute_hardened_def execute_def runs_as_entered_def Let_def)

text \<open>A task that completes at once, and a plain handler spawned that way.\<close>

definition ready_task :: "('w \<Rightarrow> 'a \<times> 'w) \<Rightarrow> ('a, 'w) join_handle" where
  "ready_task f = \<lparr>jh_await = (\<lambda>w. (Inr (fst (f w)), snd (f w))),
     jh_timeout_at = (\<lambda>_ w. (Some (Inr (fst (f w))), snd (f w))), jh_abort_await = (\<lambda>w. w)\<rparr>"

definition spawn_handler :: "('j, 'w) stage_handler \<Rightarrow> ('j, 'w) task_handler" where
  "spawn_handler h = \<lparr>th_name = sh_name h, th_request = (\<lambda>i. ready_task (sh_request h i)),
     th_response = (\<lambda>i r. ready_task (sh_response h i r))\<rparr>"

lemma spawn_handler_runs_as:
  "runs_as deadline \<lparr>hs_handler = spawn_handler h, hs_finalizer_failure_mode = mode\<rparr> h"
  by (auto simp: runs_as_def run_stage_request_def run_finalizer_def join_with_deadline_def
      ready_task_def spawn_handler_def map_join_error_def split: option.splits)

theorem hardened_refines_plain_witness:
  "snd (execute_hardened unit_codec
     [\<lparr>hs_handler = spawn_handler counting_stage, hs_finalizer_failure_mode = FailClosed\<rparr>,
      \<lparr>hs_handler = spawn_handler counting_stage, hs_finalizer_failure_mode = FailOpen\<rparr>]
     sample_input (\<lambda>i w. (response_empty 200, w + 10)) 5 7 0) = 12"
proof -
  have "clean_run unit_codec [counting_stage, counting_stage] sample_input 0"
    by (simp add: counting_stage_def sample_input_def stage_input_new_def validate_stage_attributes_def)
  moreover have "\<not> isl (validate_stage_attributes unit_codec (si_attributes sample_input))"
    by (simp add: sample_input_def stage_input_new_def validate_stage_attributes_def)
  ultimately show ?thesis
    using hardened_refines_plain [of sample_input 5 7
      "[\<lparr>hs_handler = spawn_handler counting_stage, hs_finalizer_failure_mode = FailClosed\<rparr>,
        \<lparr>hs_handler = spawn_handler counting_stage, hs_finalizer_failure_mode = FailOpen\<rparr>]"
      "[counting_stage, counting_stage]" unit_codec 0 "\<lambda>i w. (response_empty 200, w + 10)"]
    by (simp add: spawn_handler_runs_as execute_def unwind_def counting_stage_def
        default_response_def)
qed

end
