(* ===== verification/Shutdown.thy ===== *)
theory Shutdown
  imports Request_Types
begin

text \<open>
  \<^verbatim>\<open>src/src/rust/src/shutdown.rs\<close>: admission of requests while a server drains.

  The coordinator is lock free: two atomics (the phase and the number of active requests) and a
  \<open>Notify\<close>. All accesses are sequentially consistent, so an execution is an interleaving of the
  threads' single accesses. Each thread is a program counter (\<open>thread\<close>), one constructor per point
  between two accesses of the source; \<open>thread_step\<close> is one access, and \<open>shutdown_step\<close> lets any
  thread make its next one.

  \<open>Notify\<close> is the tokio package's: the parameter \<open>notify_ops\<close>, with its documented guarantee
  (\<open>notify_laws\<close>) that a \<open>Notified\<close> future receives every \<open>notify_waiters\<close> that comes after its
  creation. The atomics are words of their width.
\<close>

section \<open>Data\<close>

datatype shutdown_phase = Running | Draining | Forced

definition phase_running :: u8 where "phase_running = 0"
definition phase_draining :: u8 where "phase_draining = 1"
definition phase_forced :: u8 where "phase_forced = 2"

lemmas phase_defs = phase_running_def phase_draining_def phase_forced_def

text \<open>\<^const>\<open>None\<close> is the panic of \<open>unreachable!\<close>.\<close>

definition phase_from_raw :: "u8 \<Rightarrow> shutdown_phase option" where
  "phase_from_raw raw =
     (if raw = phase_running then Some Running
      else if raw = phase_draining then Some Draining
      else if raw = phase_forced then Some Forced
      else None)"

record ('n, 't) notify_ops =
  nf_new :: "'n"
  nf_notified :: "'n \<Rightarrow> 't \<times> 'n"
  nf_notify_waiters :: "'n \<Rightarrow> 'n"
  nf_ready :: "'n \<Rightarrow> 't \<Rightarrow> bool"

record 'n shutdown_inner =
  sd_phase :: u8
  sd_active_requests :: u64
  sd_changed :: "'n"
  sd_drain_timeout :: duration
  sd_retry_after :: duration

record shutdown_rejection =
  sx_status :: u16
  sx_code :: string
  sx_message :: string
  sx_headers :: headers

datatype drain_outcome =
    Drained (active_at_start: u64)
  | TimedOut (remaining: u64)
  | ForcedOut (remaining: u64)

section \<open>Construction and the rejection\<close>

definition default_drain_timeout :: duration where "default_drain_timeout = 5 * 1000000000"
definition default_retry_after :: duration where "default_retry_after = 5 * 1000000000"
definition shutdown_http_status :: u16 where "shutdown_http_status = 429"

text \<open>\<^const>\<open>None\<close> is the panic of the assertion.\<close>

definition with_retry_after ::
    "('n, 't) notify_ops \<Rightarrow> duration \<Rightarrow> duration \<Rightarrow> 'n shutdown_inner option" where
  "with_retry_after ops drain_timeout retry_after =
     (if retry_after = 0 then None
      else Some \<lparr>sd_phase = phase_running, sd_active_requests = 0, sd_changed = nf_new ops,
                 sd_drain_timeout = drain_timeout, sd_retry_after = retry_after\<rparr>)"

definition coordinator_new :: "('n, 't) notify_ops \<Rightarrow> duration \<Rightarrow> 'n shutdown_inner option" where
  "coordinator_new ops drain_timeout = with_retry_after ops drain_timeout default_retry_after"

definition coordinator_default :: "('n, 't) notify_ops \<Rightarrow> 'n shutdown_inner option" where
  "coordinator_default ops = coordinator_new ops default_drain_timeout"

definition rejection :: "'n shutdown_inner \<Rightarrow> shutdown_rejection" where
  "rejection s =
     (let whole_seconds = of_nat (sd_retry_after s div 1000000000) :: u64;
          subsec_nanos = sd_retry_after s mod 1000000000;
          retry_after_seconds = max (saturating_add whole_seconds (if subsec_nanos \<noteq> 0 then 1 else 0)) 1
      in \<lparr>sx_status = shutdown_http_status, sx_code = ''service_draining'',
          sx_message = ''service is draining and is not accepting new requests'',
          sx_headers = bt_collect [(''retry-after'', show_word retry_after_seconds)]\<rparr>)"

section \<open>Threads\<close>

datatype 't thread =
    Idle
  \<comment> \<open>\<open>begin_request\<close>: before the increment, before the second check, before and after the release\<close>
  | BrAdd | BrRecheck | BrRelease | BrNotify | BrRejected
  \<comment> \<open>a live guard, its release, and its end\<close>
  | Admitted | GuardNotify | Finished
  \<comment> \<open>\<open>start_draining\<close> and \<open>force_shutdown\<close> after their access to the phase, with what they return\<close>
  | SdNotify | SdReturned bool | FsNotify bool | FsReturned bool
  \<comment> \<open>\<open>drain\<close>\<close>
  | DrNotify | DrReadActive | DrReadPhase u64
  | DrLoopActive u64 | DrLoopPhase u64 | DrRegister u64
  | DrActive2 u64 "'t" | DrPhase2 u64 "'t" | DrAwait u64 "'t"
  | DrFinal u64 | DrForcedRead | DrTimedOutRead | DrForceSwap u64 | DrForceNotify u64
  | DrDone drain_outcome
  | Panicked

text \<open>What the environment decides: which operation an idle thread calls, and whether a timer fires.\<close>

datatype choice = CallBegin | CallStartDraining | CallForce | CallDrain | Proceed | TimerFires

definition load_phase :: "'n shutdown_inner \<Rightarrow> shutdown_phase option" where
  "load_phase s = phase_from_raw (sd_phase s)"

definition is_accepting_requests :: "'n shutdown_inner \<Rightarrow> bool option" where
  "is_accepting_requests s = map_option (\<lambda>ph. ph = Running) (load_phase s)"

definition on_phase ::
    "'n shutdown_inner \<Rightarrow> (shutdown_phase \<Rightarrow> 't thread) \<Rightarrow> 'n shutdown_inner \<times> 't thread" where
  "on_phase s k = (s, case load_phase s of None \<Rightarrow> Panicked | Some ph \<Rightarrow> k ph)"

definition notify_all ::
    "('n, 't) notify_ops \<Rightarrow> 'n shutdown_inner \<Rightarrow> 'n shutdown_inner" where
  "notify_all ops s = s\<lparr>sd_changed := nf_notify_waiters ops (sd_changed s)\<rparr>"

text \<open>\<open>release_request\<close>: the decrement, then the thread that comes next (the assertion can panic).\<close>

definition release_request ::
    "'n shutdown_inner \<Rightarrow> 't thread \<Rightarrow> 't thread \<Rightarrow> 'n shutdown_inner \<times> 't thread" where
  "release_request s notify_next done_next =
     (let previous = sd_active_requests s;
          s' = s\<lparr>sd_active_requests := previous - 1\<rparr>
      in (s', if previous = 0 then Panicked else if previous \<le> 1 then notify_next else done_next))"

text \<open>The \<open>compare_exchange\<close> and the \<open>swap\<close> on the phase, with what they return.\<close>

definition cas_draining :: "'n shutdown_inner \<Rightarrow> 'n shutdown_inner \<times> bool" where
  "cas_draining s =
     (if sd_phase s = phase_running then (s\<lparr>sd_phase := phase_draining\<rparr>, True) else (s, False))"

definition swap_forced :: "'n shutdown_inner \<Rightarrow> 'n shutdown_inner \<times> bool" where
  "swap_forced s = (s\<lparr>sd_phase := phase_forced\<rparr>, sd_phase s \<noteq> phase_forced)"

fun begin_request_step ::
    "('n, 't) notify_ops \<Rightarrow> 'n shutdown_inner \<Rightarrow> 't thread \<Rightarrow> ('n shutdown_inner \<times> 't thread) option" where
  "begin_request_step ops s Idle =
     Some (on_phase s (\<lambda>ph. if ph \<noteq> Running then BrRejected else BrAdd))"
| "begin_request_step ops s BrAdd =
     Some (s\<lparr>sd_active_requests := sd_active_requests s + 1\<rparr>, BrRecheck)"
| "begin_request_step ops s BrRecheck =
     Some (on_phase s (\<lambda>ph. if ph = Running then Admitted else BrRelease))"
| "begin_request_step ops s BrRelease = Some (release_request s BrNotify BrRejected)"
| "begin_request_step ops s BrNotify = Some (notify_all ops s, BrRejected)"
| "begin_request_step ops s _ = None"

fun guard_step ::
    "('n, 't) notify_ops \<Rightarrow> 'n shutdown_inner \<Rightarrow> 't thread \<Rightarrow> ('n shutdown_inner \<times> 't thread) option" where
  "guard_step ops s Admitted = Some (release_request s GuardNotify Finished)"
| "guard_step ops s GuardNotify = Some (notify_all ops s, Finished)"
| "guard_step ops s _ = None"

fun start_draining_step ::
    "('n, 't) notify_ops \<Rightarrow> 'n shutdown_inner \<Rightarrow> 't thread \<Rightarrow> ('n shutdown_inner \<times> 't thread) option" where
  "start_draining_step ops s Idle =
     (case cas_draining s of (s', changed) \<Rightarrow> Some (s', if changed then SdNotify else SdReturned False))"
| "start_draining_step ops s SdNotify = Some (notify_all ops s, SdReturned True)"
| "start_draining_step ops s _ = None"

fun force_shutdown_step ::
    "('n, 't) notify_ops \<Rightarrow> 'n shutdown_inner \<Rightarrow> 't thread \<Rightarrow> ('n shutdown_inner \<times> 't thread) option" where
  "force_shutdown_step ops s Idle = (case swap_forced s of (s', first) \<Rightarrow> Some (s', FsNotify first))"
| "force_shutdown_step ops s (FsNotify first) = Some (notify_all ops s, FsReturned first)"
| "force_shutdown_step ops s _ = None"

fun drain_step ::
    "('n, 't) notify_ops \<Rightarrow> bool \<Rightarrow> 'n shutdown_inner \<Rightarrow> 't thread \<Rightarrow>
     ('n shutdown_inner \<times> 't thread) option" where
  "drain_step ops timer s Idle =
     (case cas_draining s of (s', changed) \<Rightarrow> Some (s', if changed then DrNotify else DrReadActive))"
| "drain_step ops timer s DrNotify = Some (notify_all ops s, DrReadActive)"
| "drain_step ops timer s DrReadActive = Some (s, DrReadPhase (sd_active_requests s))"
| "drain_step ops timer s (DrReadPhase n) =
     Some (on_phase s (\<lambda>ph. if ph = Forced then DrDone (ForcedOut n)
       else if n = 0 then DrDone (Drained n) else DrLoopActive n))"
| "drain_step ops timer s (DrLoopActive n) =
     Some (s, if sd_active_requests s = 0 then DrFinal n else DrLoopPhase n)"
| "drain_step ops timer s (DrLoopPhase n) =
     Some (on_phase s (\<lambda>ph. if ph = Forced then DrFinal n else DrRegister n))"
| "drain_step ops timer s (DrRegister n) =
     (case nf_notified ops (sd_changed s) of (t, c) \<Rightarrow> Some (s\<lparr>sd_changed := c\<rparr>, DrActive2 n t))"
| "drain_step ops timer s (DrActive2 n t) =
     Some (s, if sd_active_requests s = 0 then DrFinal n else DrPhase2 n t)"
| "drain_step ops timer s (DrPhase2 n t) =
     Some (on_phase s (\<lambda>ph. if ph = Forced then DrFinal n else DrAwait n t))"
| "drain_step ops timer s (DrAwait n t) =
     (if timer then Some (s, DrTimedOutRead)
      else if nf_ready ops (sd_changed s) t then Some (s, DrLoopActive n) else None)"
| "drain_step ops timer s (DrFinal n) =
     Some (s, if sd_active_requests s = 0 then DrDone (Drained n) else DrForcedRead)"
| "drain_step ops timer s DrForcedRead = Some (s, DrDone (ForcedOut (sd_active_requests s)))"
| "drain_step ops timer s DrTimedOutRead = Some (s, DrForceSwap (sd_active_requests s))"
| "drain_step ops timer s (DrForceSwap r) =
     (case swap_forced s of (s', _) \<Rightarrow> Some (s', DrForceNotify r))"
| "drain_step ops timer s (DrForceNotify r) = Some (notify_all ops s, DrDone (TimedOut r))"
| "drain_step ops timer s _ = None"

definition thread_step ::
    "('n, 't) notify_ops \<Rightarrow> choice \<Rightarrow> 'n shutdown_inner \<Rightarrow> 't thread \<Rightarrow>
     ('n shutdown_inner \<times> 't thread) option" where
  "thread_step ops c s th =
     (if th = Idle then
        (case c of
           CallBegin \<Rightarrow> begin_request_step ops s Idle
         | CallStartDraining \<Rightarrow> start_draining_step ops s Idle
         | CallForce \<Rightarrow> force_shutdown_step ops s Idle
         | CallDrain \<Rightarrow> drain_step ops False s Idle
         | _ \<Rightarrow> None)
      else
        (case begin_request_step ops s th of
           Some r \<Rightarrow> Some r
         | None \<Rightarrow>
             (case guard_step ops s th of
                Some r \<Rightarrow> Some r
              | None \<Rightarrow>
                  (case start_draining_step ops s th of
                     Some r \<Rightarrow> Some r
                   | None \<Rightarrow>
                       (case force_shutdown_step ops s th of
                          Some r \<Rightarrow> Some r
                        | None \<Rightarrow> drain_step ops (c = TimerFires) s th)))))"

type_synonym ('n, 't) system = "'n shutdown_inner \<times> 't thread list"

inductive shutdown_step ::
    "('n, 't) notify_ops \<Rightarrow> ('n, 't) system \<Rightarrow> ('n, 't) system \<Rightarrow> bool"
  for ops :: "('n, 't) notify_ops" where
  "i < length ths \<Longrightarrow> thread_step ops c s (ths ! i) = Some (s', th') \<Longrightarrow>
   shutdown_step ops (s, ths) (s', ths[i := th'])"

inductive shutdown_reachable ::
    "('n, 't) notify_ops \<Rightarrow> nat \<Rightarrow> ('n, 't) system \<Rightarrow> bool"
  for ops :: "('n, 't) notify_ops" and n :: nat where
  start: "with_retry_after ops drain_timeout retry_after = Some s \<Longrightarrow>
    shutdown_reachable ops n (s, replicate n Idle)"
| step: "shutdown_reachable ops n sys \<Longrightarrow> shutdown_step ops sys sys' \<Longrightarrow>
    shutdown_reachable ops n sys'"

inductive_cases shutdown_stepE: "shutdown_step ops sys sys'"

definition notify_laws :: "('n, 't) notify_ops \<Rightarrow> ('n \<Rightarrow> 't \<Rightarrow> bool) \<Rightarrow> bool" where
  "notify_laws ops issued \<longleftrightarrow>
     (\<forall>n. issued (snd (nf_notified ops n)) (fst (nf_notified ops n))) \<and>
     (\<forall>n t. issued n t \<longrightarrow> issued (snd (nf_notified ops n)) t \<and> issued (nf_notify_waiters ops n) t) \<and>
     (\<forall>n t. issued n t \<longrightarrow> nf_ready ops (nf_notify_waiters ops n) t) \<and>
     (\<forall>n t. nf_ready ops n t \<longrightarrow>
        nf_ready ops (snd (nf_notified ops n)) t \<and> nf_ready ops (nf_notify_waiters ops n) t)"

section \<open>One access at a time\<close>

text \<open>Threads that the counter counts, and threads that run after draining has begun.\<close>

definition counted :: "'t thread \<Rightarrow> bool" where
  "counted th \<longleftrightarrow> th \<in> {BrRecheck, BrRelease, Admitted}"

definition after_drain_start :: "'t thread \<Rightarrow> bool" where
  "after_drain_start th \<longleftrightarrow>
     (case th of Idle \<Rightarrow> False | BrAdd \<Rightarrow> False | BrRecheck \<Rightarrow> False | BrRelease \<Rightarrow> False
      | BrNotify \<Rightarrow> False | BrRejected \<Rightarrow> False | Admitted \<Rightarrow> False | GuardNotify \<Rightarrow> False
      | Finished \<Rightarrow> False | Panicked \<Rightarrow> False | _ \<Rightarrow> True)"

definition saw_empty :: "'t thread \<Rightarrow> bool" where
  "saw_empty th \<longleftrightarrow>
     (case th of DrReadPhase n \<Rightarrow> n = 0 | DrDone r \<Rightarrow> (\<exists>n. r = Drained n) | _ \<Rightarrow> False)"

definition phase_ok :: "u8 \<Rightarrow> bool" where
  "phase_ok raw \<longleftrightarrow> raw \<in> {phase_running, phase_draining, phase_forced}"

lemmas step_defs = on_phase_def load_phase_def notify_all_def release_request_def
  cas_draining_def swap_forced_def thread_step_def Let_def

lemmas thread_kinds = counted_def after_drain_start_def saw_empty_def

lemma phase_distinct [simp]:
  "phase_running \<noteq> phase_draining" "phase_running \<noteq> phase_forced" "phase_draining \<noteq> phase_forced"
  "phase_draining \<noteq> phase_running" "phase_forced \<noteq> phase_running" "phase_forced \<noteq> phase_draining"
  by (simp_all add: phase_defs)

lemma phase_from_raw_simps [simp]:
  "phase_from_raw phase_running = Some Running" "phase_from_raw phase_draining = Some Draining"
  "phase_from_raw phase_forced = Some Forced"
  "phase_from_raw raw = Some Running \<longleftrightarrow> raw = phase_running"
  "phase_from_raw raw = Some Forced \<longleftrightarrow> raw = phase_forced"
  "phase_from_raw raw = None \<longleftrightarrow> \<not> phase_ok raw"
  by (auto simp: phase_from_raw_def phase_ok_def)

lemma step_phase:
  assumes "thread_step ops c s th = Some (s', th')"
  shows "sd_phase s' = sd_phase s \<or> sd_phase s = phase_running \<and> sd_phase s' = phase_draining \<or>
    sd_phase s' = phase_forced"
  using assms by (cases th) (auto simp: step_defs split: choice.splits if_splits prod.splits)

lemma step_active:
  assumes "thread_step ops c s th = Some (s', th')" "th' \<noteq> Panicked"
  shows "sd_active_requests s' + (if counted th then 1 else 0) =
    sd_active_requests s + (if counted th' then 1 else 0)"
  using assms
  by (cases th) (auto simp: step_defs counted_def split: choice.splits if_splits prod.splits option.splits)

lemma step_panics:
  assumes "thread_step ops c s th = Some (s', Panicked)"
  shows "\<not> phase_ok (sd_phase s) \<or> counted th \<and> sd_active_requests s = 0"
  using assms
  by (cases th) (auto simp: step_defs counted_def split: choice.splits if_splits prod.splits option.splits)

lemma step_admits:
  assumes "thread_step ops c s th = Some (s', Admitted)"
  shows "sd_phase s = phase_running \<and> s' = s"
  using assms
  by (cases th) (auto simp: step_defs split: choice.splits if_splits prod.splits option.splits)

lemma step_after_drain_start:
  assumes "thread_step ops c s th = Some (s', th')" "after_drain_start th'"
  shows "after_drain_start th \<or> sd_phase s' \<noteq> phase_running"
  using assms
  by (cases th) (auto simp: step_defs after_drain_start_def
      split: choice.splits if_splits prod.splits option.splits)

lemma step_saw_empty:
  assumes "thread_step ops c s th = Some (s', th')" "saw_empty th'"
  shows "saw_empty th \<or> after_drain_start th \<and> sd_active_requests s = 0 \<and> s' = s"
  using assms
  by (cases th) (auto simp: step_defs thread_kinds
      split: choice.splits if_splits prod.splits option.splits)

section \<open>The invariant of a system of threads\<close>

definition count_of :: "'t thread list \<Rightarrow> nat" where
  "count_of ths = length (filter counted ths)"

definition system_ok :: "nat \<Rightarrow> ('n, 't) system \<Rightarrow> bool" where
  "system_ok n sys \<longleftrightarrow>
     (let s = fst sys; ths = snd sys in
      length ths = n \<and> phase_ok (sd_phase s) \<and> Panicked \<notin> set ths \<and>
      sd_active_requests s = of_nat (count_of ths) \<and>
      ((\<exists>th \<in> set ths. after_drain_start th) \<longrightarrow> sd_phase s \<noteq> phase_running) \<and>
      ((\<exists>th \<in> set ths. saw_empty th) \<longrightarrow> Admitted \<notin> set ths))"

lemma count_of_update:
  "i < length ths \<Longrightarrow> count_of (ths[i := th]) + (if counted (ths ! i) then 1 else 0) =
     count_of ths + (if counted th then 1 else 0)"
proof (induction ths arbitrary: i)
  case Nil
  then show ?case by simp
next
  case (Cons x xs)
  then show ?case by (cases i) (auto simp: count_of_def)
qed

lemma count_of_le: "count_of ths \<le> length ths"
  by (simp add: count_of_def)

lemma count_of_zero: "count_of ths = 0 \<longleftrightarrow> (\<forall>th \<in> set ths. \<not> counted th)"
  by (auto simp: count_of_def filter_empty_conv)

lemma after_drain_saw: "saw_empty th \<Longrightarrow> after_drain_start th"
  by (cases th) (simp_all add: thread_kinds)

lemma active_zero_iff:
  assumes "system_ok n (s, ths)" "n < 2 ^ 64"
  shows "sd_active_requests s = 0 \<longleftrightarrow> count_of ths = 0"
proof -
  have "count_of ths < 2 ^ 64"
    using assms count_of_le [of ths] by (simp add: system_ok_def)
  then have "unat (of_nat (count_of ths) :: u64) = count_of ths" by (simp add: unat_of_nat)
  with assms(1) show ?thesis by (auto simp: system_ok_def)
qed

lemma system_ok_step:
  assumes "system_ok n (s, ths)" "n < 2 ^ 64" "i < length ths"
    and step: "thread_step ops c s (ths ! i) = Some (s', th')"
  shows "system_ok n (s', ths[i := th'])"
proof -
  let ?ths = "ths[i := th']"
  have inv: "length ths = n" "phase_ok (sd_phase s)" "Panicked \<notin> set ths"
    "sd_active_requests s = of_nat (count_of ths)"
    "\<And>th. th \<in> set ths \<Longrightarrow> after_drain_start th \<Longrightarrow> sd_phase s \<noteq> phase_running"
    "\<And>th. th \<in> set ths \<Longrightarrow> saw_empty th \<Longrightarrow> Admitted \<notin> set ths"
    using assms(1) by (auto simp: system_ok_def)
  have thi: "ths ! i \<in> set ths" using assms(3) by simp
  have sub: "set ?ths \<subseteq> insert th' (set ths)" by (rule set_update_subset_insert)
  have phase: "phase_ok (sd_phase s')" using step_phase [OF step] inv(2) by (auto simp: phase_ok_def)
  have "th' \<noteq> Panicked"
  proof
    assume "th' = Panicked"
    with step_panics [of ops c s "ths ! i" s'] step inv(2) have "counted (ths ! i)" "sd_active_requests s = 0"
      by auto
    with active_zero_iff [OF assms(1,2)] thi show False by (auto simp: count_of_zero)
  qed
  moreover from this have "sd_active_requests s' = of_nat (count_of ?ths)"
    using step_active [OF step] inv(4)
      arg_cong [OF count_of_update [OF assms(3), of th'], of "of_nat :: nat \<Rightarrow> u64"]
    by (simp split: if_splits) (metis add_right_cancel add.commute)
  moreover have "sd_phase s' \<noteq> phase_running" if "th \<in> set ?ths" "after_drain_start th" for th
    using that sub inv(5) thi step_after_drain_start [OF step] step_phase [OF step] by auto
  moreover have "Admitted \<notin> set ?ths" if th: "th \<in> set ?ths" "saw_empty th" for th
  proof
    assume "Admitted \<in> set ?ths"
    then consider "th' = Admitted" | "Admitted \<in> set ths" using sub by auto
    then show False
    proof cases
      case 1
      with step_admits [of ops c s "ths ! i" s'] step have "sd_phase s = phase_running" by blast
      moreover have "th \<in> set ths" using th 1 sub by (auto simp: saw_empty_def)
      ultimately show False using inv(5) after_drain_saw [OF th(2)] by blast
    next
      case 2
      then have none: "\<not> saw_empty x" if "x \<in> set ths" for x using inv(6) that by blast
      with th sub have "saw_empty th'" by auto
      with step_saw_empty [OF step] none thi have "sd_active_requests s = 0" by blast
      with active_zero_iff [OF assms(1,2)] 2 show False by (auto simp: count_of_zero counted_def)
    qed
  qed
  ultimately show ?thesis using phase inv(1,3) sub unfolding system_ok_def Let_def by auto
qed

lemma reachable_ok:
  assumes "shutdown_reachable ops n sys" "n < 2 ^ 64"
  shows "system_ok n sys"
  using assms(1)
proof (induction rule: shutdown_reachable.induct)
  case (start dt ra s)
  then show ?case
    by (auto simp: system_ok_def with_retry_after_def phase_ok_def count_of_def counted_def
        after_drain_start_def saw_empty_def split: if_splits)
next
  case (step sys sys')
  from step.hyps(2) step.IH show ?case
    by (cases rule: shutdown_step.cases) (auto intro: system_ok_step [OF _ assms(2)])
qed

lemma reachable_steps:
  "(shutdown_step ops)\<^sup>*\<^sup>* sys sys' \<Longrightarrow> shutdown_reachable ops n sys \<Longrightarrow> shutdown_reachable ops n sys'"
  by (induction rule: rtranclp_induct) (auto intro: shutdown_reachable.step)

lemma drained_stays:
  "(shutdown_step ops)\<^sup>*\<^sup>* sys sys' \<Longrightarrow> DrDone (Drained k) \<in> set (snd sys) \<Longrightarrow> DrDone (Drained k) \<in> set (snd sys')"
proof (induction rule: rtranclp_induct)
  case (step y z)
  from step.hyps(2) step.IH [OF step.prems] show ?case
  proof (cases rule: shutdown_step.cases)
    case (1 i ths c s s' th')
    assume "DrDone (Drained k) \<in> set (snd y)"
    then obtain j where j: "j < length ths" "ths ! j = DrDone (Drained k)"
      using 1(1) by (auto simp: in_set_conv_nth)
    have "i \<noteq> j" using 1(4) j(2) by (auto simp: thread_step_def)
    with j 1(2) show ?thesis by (metis length_list_update nth_list_update_neq nth_mem snd_conv)
  qed
qed

lemma drained_empty:
  assumes "shutdown_reachable ops n (s, ths)" "n < 2 ^ 64" "DrDone (Drained k) \<in> set ths"
  shows "Admitted \<notin> set ths \<and> sd_phase s \<noteq> phase_running"
  using reachable_ok [OF assms(1,2)] assms(3) by (force simp: system_ok_def thread_kinds)

text \<open>
  C8. However the threads of a server interleave, once a drain has reported that it is drained no
  request is admitted any more: no thread holds a guard, in that state and in every state that can
  follow.
\<close>

theorem drained_means_empty:
  assumes "shutdown_reachable ops n (s, ths)" and "n < 2 ^ 64" and "DrDone (Drained k) \<in> set ths"
    and "(shutdown_step ops)\<^sup>*\<^sup>* (s, ths) (s', ths')"
  shows "Admitted \<notin> set ths' \<and> sd_phase s' \<noteq> phase_running"
proof (rule drained_empty)
  show "shutdown_reachable ops n (s', ths')" by (rule reachable_steps [OF assms(4,1)])
  show "DrDone (Drained k) \<in> set ths'" using drained_stays [OF assms(4)] assms(3) by simp
qed (rule assms(2))

text \<open>
  C9. In every interleaving the counter of active requests is exactly the number of threads between
  their increment and their release, so it never underflows, the phase is always one of the three
  that are written, and no thread panics.
\<close>

theorem active_requests_exact:
  assumes "shutdown_reachable ops n (s, ths)" and "n < 2 ^ 64"
  shows "unat (sd_active_requests s) = length (filter counted ths) \<and> Panicked \<notin> set ths \<and>
    load_phase s \<noteq> None"
proof -
  have ok: "system_ok n (s, ths)" by (rule reachable_ok [OF assms])
  moreover have "count_of ths < 2 ^ 64"
    using ok assms(2) count_of_le [of ths] by (simp add: system_ok_def)
  ultimately show ?thesis
    by (simp add: system_ok_def count_of_def unat_of_nat load_phase_def)
qed

section \<open>No wake-up is lost\<close>

definition will_notify :: "'t thread \<Rightarrow> bool" where
  "will_notify th \<longleftrightarrow>
     (case th of BrNotify \<Rightarrow> True | GuardNotify \<Rightarrow> True | SdNotify \<Rightarrow> True | FsNotify _ \<Rightarrow> True
      | DrNotify \<Rightarrow> True | DrForceNotify _ \<Rightarrow> True | _ \<Rightarrow> False)"

lemma step_notifies:
  assumes "thread_step ops c s th = Some (s', th')" "will_notify th"
  shows "s' = notify_all ops s"
  using assms by (cases th) (auto simp: thread_step_def will_notify_def)

lemma step_changed:
  assumes "thread_step ops c s th = Some (s', th')"
  shows "sd_changed s' \<in> {sd_changed s, snd (nf_notified ops (sd_changed s)),
    nf_notify_waiters ops (sd_changed s)}"
  using assms
  by (cases th) (auto simp: step_defs split: choice.splits if_splits prod.splits option.splits)

lemma step_empties:
  assumes "thread_step ops c s th = Some (s', th')" "th' \<noteq> Panicked"
    and "sd_active_requests s' = 0" "sd_active_requests s \<noteq> 0" "sd_active_requests s \<noteq> - 1"
  shows "will_notify th'"
proof -
  have le1: "x \<le> 1 \<longleftrightarrow> x = 0 \<or> x = 1" for x :: u64
    by (metis le_less word_gt_0_no word_le_0_iff word_less_1 zero_less_one)
  have neg: "x + 1 = 0 \<longleftrightarrow> x = - 1" for x :: u64 by (simp add: eq_neg_iff_add_eq_0)
  from assms show ?thesis
    by (cases th) (auto simp: step_defs will_notify_def neg le1
        split: choice.splits if_splits prod.splits option.splits)
qed

lemma step_forces:
  assumes "thread_step ops c s th = Some (s', th')"
    and "sd_phase s' = phase_forced" "sd_phase s \<noteq> phase_forced"
  shows "will_notify th'"
  using assms
  by (cases th) (auto simp: step_defs will_notify_def split: choice.splits if_splits prod.splits option.splits)

lemma step_registers:
  assumes "thread_step ops c s th = Some (s', DrActive2 n t)"
  shows "nf_notified ops (sd_changed s) = (t, sd_changed s')"
  using assms
  by (cases th) (auto simp: step_defs split: choice.splits if_splits prod.splits option.splits)

lemma step_rechecks:
  assumes "thread_step ops c s th = Some (s', DrPhase2 n t)"
  shows "th = DrActive2 n t \<and> sd_active_requests s \<noteq> 0 \<and> s' = s"
  using assms
  by (cases th) (auto simp: step_defs split: choice.splits if_splits prod.splits option.splits)

lemma step_awaits:
  assumes "thread_step ops c s th = Some (s', DrAwait n t)"
  shows "th = DrPhase2 n t \<and> sd_phase s \<noteq> phase_forced \<and> s' = s"
  using assms
  by (cases th) (auto simp: step_defs split: choice.splits if_splits prod.splits option.splits)

text \<open>
  What holds of each thread of a drain that has created its \<open>Notified\<close> future: the future is issued,
  and whatever the thread has checked since can only have changed if a notification has reached the
  future or is about to.
\<close>

definition signalled :: "('n, 't) notify_ops \<Rightarrow> ('n, 't) system \<Rightarrow> 't \<Rightarrow> bool" where
  "signalled ops sys t \<longleftrightarrow>
     nf_ready ops (sd_changed (fst sys)) t \<or> (\<exists>th \<in> set (snd sys). will_notify th)"

definition watch_ok ::
    "('n, 't) notify_ops \<Rightarrow> ('n \<Rightarrow> 't \<Rightarrow> bool) \<Rightarrow> ('n, 't) system \<Rightarrow> 't thread \<Rightarrow> bool" where
  "watch_ok ops issued sys th \<longleftrightarrow>
     (let s = fst sys in
      case th of
        DrActive2 n t \<Rightarrow> issued (sd_changed s) t
      | DrPhase2 n t \<Rightarrow> issued (sd_changed s) t \<and> (sd_active_requests s = 0 \<longrightarrow> signalled ops sys t)
      | DrAwait n t \<Rightarrow> issued (sd_changed s) t \<and>
          (sd_active_requests s = 0 \<or> sd_phase s = phase_forced \<longrightarrow> signalled ops sys t)
      | _ \<Rightarrow> True)"

lemma issued_step:
  assumes "notify_laws ops issued" "issued (sd_changed s) t" "thread_step ops c s th = Some (s', th')"
  shows "issued (sd_changed s') t"
  using step_changed [OF assms(3)] assms(1,2) by (auto simp: notify_laws_def)

lemma signalled_step:
  assumes "notify_laws ops issued" "issued (sd_changed s) t" "i < length ths"
    and step: "thread_step ops c s (ths ! i) = Some (s', th')"
    and "signalled ops (s, ths) t"
  shows "signalled ops (s', ths[i := th']) t"
proof (cases "will_notify (ths ! i)")
  case True
  then have "s' = notify_all ops s" by (rule step_notifies [OF step])
  with assms(1,2) show ?thesis by (simp add: signalled_def notify_all_def notify_laws_def)
next
  case False
  from assms(5) consider "nf_ready ops (sd_changed s) t" | j where "j < length ths" "will_notify (ths ! j)"
    by (auto simp: signalled_def in_set_conv_nth)
  then show ?thesis
  proof cases
    case 1
    then show ?thesis
      using step_changed [OF step] assms(1) by (auto simp: signalled_def notify_laws_def)
  next
    case 2
    with False have "i \<noteq> j" by auto
    with 2 have "will_notify (ths[i := th'] ! j)" "j < length (ths[i := th'])" by simp_all
    then show ?thesis unfolding signalled_def by (metis nth_mem snd_conv)
  qed
qed

lemma watch_step_other:
  assumes laws: "notify_laws ops issued" and ok: "system_ok n (s, ths)" "n < 2 ^ 64 - 1"
    and i: "i < length ths" and step: "thread_step ops c s (ths ! i) = Some (s', th')"
    and th: "watch_ok ops issued (s, ths) th"
  shows "watch_ok ops issued (s', ths[i := th']) th"
proof -
  have new: "th' \<in> set (ths[i := th'])" using i by (rule set_update_memI)
  have "n < 2 ^ 64" using ok(2) by simp
  with system_ok_step [OF ok(1) _ i step] have "th' \<noteq> Panicked" using new by (auto simp: system_ok_def)
  moreover have "sd_active_requests s \<noteq> - 1"
  proof
    assume "sd_active_requests s = - 1"
    then have "of_nat (count_of ths) = (- 1 :: u64)" using ok(1) by (simp add: system_ok_def)
    moreover have "unat (- 1 :: u64) = 2 ^ 64 - 1"
      by (simp add: unsigned_minus_1_eq_mask mask_eq_exp_minus_1)
    ultimately have "unat (of_nat (count_of ths) :: u64) = 2 ^ 64 - 1" by simp
    moreover have "count_of ths < 2 ^ 64 - 1"
      using ok count_of_le [of ths] by (simp add: system_ok_def)
    ultimately show False by (simp add: unat_of_nat)
  qed
  ultimately have zero: "sd_active_requests s = 0 \<or> will_notify th'" if "sd_active_requests s' = 0"
    using step_empties [OF step] that by blast
  have forced: "sd_phase s = phase_forced \<or> will_notify th'" if "sd_phase s' = phase_forced"
    using step_forces [OF step] that by blast
  have sig: "signalled ops (s', ths[i := th']) t"
    if "issued (sd_changed s) t" "signalled ops (s, ths) t \<or> will_notify th'" for t
    using that signalled_step [OF laws that(1) i step] new by (auto simp: signalled_def)
  show ?thesis
    using th sig zero forced issued_step [OF laws _ step]
    by (cases th) (auto simp: watch_ok_def)
qed

lemma watch_step_self:
  assumes laws: "notify_laws ops issued" and i: "i < length ths"
    and step: "thread_step ops c s (ths ! i) = Some (s', th')"
    and th: "watch_ok ops issued (s, ths) (ths ! i)"
  shows "watch_ok ops issued (s', ths[i := th']) th'"
proof (cases th')
  case (DrActive2 n t)
  with step_registers [of ops c s "ths ! i" s' n t] step
  have "nf_notified ops (sd_changed s) = (t, sd_changed s')" by simp
  with laws DrActive2 show ?thesis
    unfolding notify_laws_def watch_ok_def by (simp add: Let_def) (metis fst_conv snd_conv)
next
  case (DrPhase2 n t)
  with step_rechecks [of ops c s "ths ! i" s' n t] step th show ?thesis by (simp add: watch_ok_def)
next
  case (DrAwait n t)
  with step_awaits [of ops c s "ths ! i" s' n t] step
  have prev: "ths ! i = DrPhase2 n t" "sd_phase s \<noteq> phase_forced" "s' = s" by simp_all
  with th have "issued (sd_changed s) t" "sd_active_requests s = 0 \<longrightarrow> signalled ops (s, ths) t"
    by (simp_all add: watch_ok_def)
  with prev DrAwait signalled_step [OF laws _ i step] show ?thesis by (simp add: watch_ok_def)
qed (simp_all add: watch_ok_def)

lemma reachable_watch_ok:
  assumes "shutdown_reachable ops n sys" "n < 2 ^ 64 - 1" "notify_laws ops issued"
  shows "\<forall>th \<in> set (snd sys). watch_ok ops issued sys th"
  using assms(1)
proof (induction rule: shutdown_reachable.induct)
  case (start dt ra s)
  then show ?case by (simp add: watch_ok_def)
next
  case (step sys sys')
  have "system_ok n sys" using reachable_ok [OF step.hyps(1)] assms(2) by simp
  with step.hyps(2) step.IH show ?case
  proof (cases rule: shutdown_step.cases)
    case (1 i ths c s s' th')
    have "watch_ok ops issued sys' th" if "th \<in> set (ths[i := th'])" for th
    proof (cases "th = th'")
      case True
      then show ?thesis using 1 step.IH watch_step_self [OF assms(3) 1(3,4)] by simp
    next
      case False
      with that have "th \<in> set ths" by (meson insertE set_update_subset_insert subsetD)
      then show ?thesis
        using 1 step.IH \<open>system_ok n sys\<close> watch_step_other [OF assms(3) _ assms(2) 1(3,4)] by simp
    qed
    with 1(2) show ?thesis by simp
  qed
qed

text \<open>
  C10. No wake-up is lost: whenever a drain sleeps although the last request is gone or the shutdown
  has been forced, its future has been notified already, or another thread stands right before the
  notification that will reach it.
\<close>

theorem drain_wakeup_not_lost:
  assumes "shutdown_reachable ops n (s, ths)" and "n < 2 ^ 64 - 1" and "notify_laws ops issued"
    and "DrAwait k t \<in> set ths" and "sd_active_requests s = 0 \<or> sd_phase s = phase_forced"
  shows "nf_ready ops (sd_changed s) t \<or> (\<exists>th \<in> set ths. will_notify th)"
  using reachable_watch_ok [OF assms(1-3)] assms(4,5)
  by (force simp: watch_ok_def signalled_def)

section \<open>Schedules\<close>

text \<open>Runs of given threads in a given order, with the generation counter as the notifier.\<close>

fun run_schedule ::
    "('n, 't) notify_ops \<Rightarrow> (nat \<times> choice) list \<Rightarrow> ('n, 't) system \<Rightarrow> ('n, 't) system option" where
  "run_schedule ops [] sys = Some sys"
| "run_schedule ops ((i, c) # sched) (s, ths) =
     (if i < length ths then
        (case thread_step ops c s (ths ! i) of
           Some (s', th') \<Rightarrow> run_schedule ops sched (s', ths[i := th'])
         | None \<Rightarrow> None)
      else None)"

lemma run_schedule_steps:
  "run_schedule ops sched sys = Some sys' \<Longrightarrow> (shutdown_step ops)\<^sup>*\<^sup>* sys sys'"
proof (induction ops sched sys rule: run_schedule.induct)
  case (1 ops sys)
  then show ?case by simp
next
  case (2 ops i c sched s ths)
  then obtain s1 th' where st: "i < length ths" "thread_step ops c s (ths ! i) = Some (s1, th')"
      "run_schedule ops sched (s1, ths[i := th']) = Some sys'"
    by (auto split: if_splits option.splits)
  then have "shutdown_step ops (s, ths) (s1, ths[i := th'])" by (intro shutdown_step.intros)
  with 2(1) st show ?case by (simp add: converse_rtranclp_into_rtranclp)
qed

definition generation_notify :: "(nat, nat) notify_ops" where
  "generation_notify = \<lparr>nf_new = 0, nf_notified = (\<lambda>n. (n, n)), nf_notify_waiters = Suc,
     nf_ready = (\<lambda>n t. t < n)\<rparr>"

lemma generation_notify_laws: "notify_laws generation_notify (\<lambda>n t. t \<le> n)"
  by (auto simp: notify_laws_def generation_notify_def)

definition fresh_coordinator :: "nat shutdown_inner" where
  "fresh_coordinator = \<lparr>sd_phase = phase_running, sd_active_requests = 0, sd_changed = 0,
     sd_drain_timeout = default_drain_timeout, sd_retry_after = default_retry_after\<rparr>"

lemma fresh_reachable: "shutdown_reachable generation_notify n (fresh_coordinator, replicate n Idle)"
  by (rule shutdown_reachable.start [of _ default_drain_timeout default_retry_after])
    (simp add: with_retry_after_def fresh_coordinator_def default_retry_after_def
      generation_notify_def)

lemmas schedule_eval = step_defs phase_defs phase_from_raw_def fresh_coordinator_def
  generation_notify_def counted_def will_notify_def

lemma run_schedule_reachable:
  "run_schedule generation_notify sched (fresh_coordinator, replicate n Idle) = Some sys \<Longrightarrow>
   shutdown_reachable generation_notify n sys"
  by (rule reachable_steps [OF run_schedule_steps fresh_reachable])

text \<open>A request that passed its first check, a drain of the empty server, and the request's end.\<close>

theorem drained_means_empty_witness:
  "\<exists>s ths s' ths'. run_schedule generation_notify
       [(1, CallBegin), (0, CallDrain), (0, Proceed), (0, Proceed), (0, Proceed)]
       (fresh_coordinator, replicate 2 Idle) = Some (s, ths) \<and>
     DrDone (Drained 0) \<in> set ths \<and>
     run_schedule generation_notify [(1, Proceed), (1, Proceed)] (s, ths) = Some (s', ths') \<and>
     ths' = [DrDone (Drained 0), BrRelease] \<and> Admitted \<notin> set ths' \<and> sd_phase s' \<noteq> phase_running"
proof -
  let ?s = "fresh_coordinator\<lparr>sd_phase := phase_draining, sd_changed := 1\<rparr>"
  let ?s' = "fresh_coordinator\<lparr>sd_phase := phase_draining, sd_changed := 1, sd_active_requests := 1\<rparr>"
  have a: "run_schedule generation_notify
      [(1, CallBegin), (0, CallDrain), (0, Proceed), (0, Proceed), (0, Proceed)]
      (fresh_coordinator, replicate 2 Idle) = Some (?s, [DrDone (Drained 0), BrAdd])"
    by (simp add: schedule_eval numeral_2_eq_2)
  have b: "run_schedule generation_notify [(1, Proceed), (1, Proceed)]
      (?s, [DrDone (Drained 0), BrAdd]) = Some (?s', [DrDone (Drained 0), BrRelease])"
    by (simp add: schedule_eval)
  from drained_means_empty [OF run_schedule_reachable [OF a] _ _ run_schedule_steps [OF b], of 0] a b
  show ?thesis by auto
qed

theorem active_requests_exact_witness:
  "\<exists>s ths. run_schedule generation_notify
       [(0, CallBegin), (0, Proceed), (0, Proceed), (1, CallBegin), (1, Proceed)]
       (fresh_coordinator, replicate 2 Idle) = Some (s, ths) \<and>
     ths = [Admitted, BrRecheck] \<and> unat (sd_active_requests s) = 2"
proof -
  let ?s = "fresh_coordinator\<lparr>sd_active_requests := 2\<rparr>"
  have a: "run_schedule generation_notify
      [(0, CallBegin), (0, Proceed), (0, Proceed), (1, CallBegin), (1, Proceed)]
      (fresh_coordinator, replicate 2 Idle) = Some (?s, [Admitted, BrRecheck])"
    by (simp add: schedule_eval numeral_2_eq_2)
  with active_requests_exact [OF run_schedule_reachable [OF a]] show ?thesis
    by (auto simp: counted_def)
qed

theorem drain_wakeup_not_lost_witness:
  "\<exists>s. run_schedule generation_notify
       [(1, CallBegin), (1, Proceed), (1, Proceed), (0, CallDrain), (0, Proceed), (0, Proceed),
        (0, Proceed), (0, Proceed), (0, Proceed), (0, Proceed), (0, Proceed), (0, Proceed),
        (1, Proceed)]
       (fresh_coordinator, replicate 2 Idle) = Some (s, [DrAwait 1 1, GuardNotify]) \<and>
     (nf_ready generation_notify (sd_changed s) 1 \<or>
      (\<exists>th \<in> set [DrAwait 1 (1 :: nat), GuardNotify]. will_notify th))"
proof -
  let ?s = "fresh_coordinator\<lparr>sd_phase := phase_draining, sd_changed := 1\<rparr>"
  have a: "run_schedule generation_notify
       [(1, CallBegin), (1, Proceed), (1, Proceed), (0, CallDrain), (0, Proceed), (0, Proceed),
        (0, Proceed), (0, Proceed), (0, Proceed), (0, Proceed), (0, Proceed), (0, Proceed),
        (1, Proceed)]
       (fresh_coordinator, replicate 2 Idle) = Some (?s, [DrAwait 1 1, GuardNotify])"
    by (simp add: schedule_eval numeral_2_eq_2)
  have "nf_ready generation_notify (sd_changed ?s) 1 \<or>
      (\<exists>th \<in> set [DrAwait 1 (1 :: nat), GuardNotify]. will_notify th)"
    by (rule drain_wakeup_not_lost [OF run_schedule_reachable [OF a] _ generation_notify_laws])
      (simp_all add: fresh_coordinator_def)
  with a show ?thesis by auto
qed

text \<open>
  The outcome \<open>Forced\<close> does not imply that the shutdown was forced: the wait ends because the last
  request is gone, a request that passed its first check before the drain raises the counter for a
  moment, and the second read of the counter takes that for a forced end.
\<close>

theorem drain_reports_forced_unforced:
  "\<exists>s. run_schedule generation_notify
       [(1, CallBegin), (1, Proceed), (1, Proceed), (2, CallBegin),
        (0, CallDrain), (0, Proceed), (0, Proceed), (0, Proceed),
        (1, Proceed), (0, Proceed), (2, Proceed), (0, Proceed), (0, Proceed)]
       (fresh_coordinator, replicate 3 Idle) =
       Some (s, [DrDone (ForcedOut 1), GuardNotify, BrRecheck]) \<and>
     load_phase s = Some Draining"
  by (simp add: schedule_eval numeral_3_eq_3)

section \<open>The rejection\<close>

text \<open>
  A draining server answers 429 with the whole number of seconds that its retry period rounds
  up to, never zero.
\<close>

theorem rejection_rounds_up:
  assumes "sd_retry_after s < 2 ^ 64 * 1000000000 - 1000000000" and "0 < sd_retry_after s"
  shows "\<exists>n. sx_status (rejection s) = 429 \<and>
    bt_get (sx_headers (rejection s)) ''retry-after'' = Some (show_nat n) \<and>
    sd_retry_after s \<le> n * 1000000000 \<and> n * 1000000000 < sd_retry_after s + 1000000000"
proof -
  let ?r = "sd_retry_after s"
  let ?w = "of_nat (?r div 1000000000) :: u64"
  have lt: "Suc (?r div 1000000000) < 2 ^ 64" using assms(1) by (simp add: less_mult_imp_div_less)
  then have w: "unat ?w = ?r div 1000000000" by (simp add: unat_of_nat)
  define n where "n = ?r div 1000000000 + (if ?r mod 1000000000 \<noteq> 0 then 1 else 0)"
  have pos: "0 < n" using assms(2) by (auto simp: n_def div_eq_0_iff mod_eq_0_iff_dvd)
  have "unat (saturating_add ?w (if ?r mod 1000000000 \<noteq> 0 then 1 else 0)) = n"
    using lt w by (simp add: unat_saturating_add n_def)
  then have u: "unat (max (saturating_add ?w (if ?r mod 1000000000 \<noteq> 0 then 1 else 0)) 1) = n"
    using pos by (simp add: max_def word_le_nat_alt)
  obtain q m where qm: "?r = q * 1000000000 + m" "m < 1000000000"
    by (metis div_mult_mod_eq mod_less_divisor zero_less_numeral)
  then have "?r \<le> n * 1000000000 \<and> n * 1000000000 < ?r + 1000000000" by (simp add: n_def)
  moreover have "bt_get (sx_headers (rejection s)) ''retry-after'' = Some (show_nat n)"
    unfolding rejection_def Let_def shutdown_rejection.simps bt_get_collect show_word_def u by simp
  ultimately show ?thesis by (auto simp: rejection_def shutdown_http_status_def Let_def)
qed

theorem rejection_rounds_up_witness:
  "\<exists>n. bt_get (sx_headers (rejection (fresh_coordinator\<lparr>sd_retry_after := 1500000000\<rparr>)))
      ''retry-after'' = Some (show_nat n) \<and> n = 2"
proof -
  from rejection_rounds_up [of "fresh_coordinator\<lparr>sd_retry_after := 1500000000\<rparr>"]
  obtain n where n: "bt_get (sx_headers (rejection (fresh_coordinator\<lparr>sd_retry_after := 1500000000\<rparr>)))
      ''retry-after'' = Some (show_nat n)" "1500000000 \<le> n * 1000000000" "n * 1000000000 < 2500000000"
    by auto
  then have "n = 2" by simp
  with n show ?thesis by blast
qed

end
