(* ===== verification/Middleware_Order.thy ===== *)
theory Middleware_Order
  imports Prelude
begin

text \<open>
  \<^verbatim>\<open>src/src/rust/src/middleware_order.rs\<close>: the reviewed stage orders and their
  validators, and the rate-limit posture of each class of operations.
\<close>

section \<open>Stages and reviewed orders\<close>

datatype middleware_stage =
    PanicBoundary | Deadline | RequestId | TraceContext | TrustedProxy | TransportSecurity |
    PayloadLimit | AnonymousFloodGuard | Authentication | PrincipalRateLimit |
    Authorization | Idempotency | QuotaAdmission | Handler | ResponseCompression |
    SecurityHeaders | TelemetryFinalize

definition stage_as_str :: "middleware_stage \<Rightarrow> string" where
  "stage_as_str s =
     (case s of
        PanicBoundary \<Rightarrow> ''panic-boundary''
      | Deadline \<Rightarrow> ''deadline''
      | RequestId \<Rightarrow> ''request-id''
      | TraceContext \<Rightarrow> ''trace-context''
      | TrustedProxy \<Rightarrow> ''trusted-proxy''
      | TransportSecurity \<Rightarrow> ''transport-security''
      | PayloadLimit \<Rightarrow> ''payload-limit''
      | AnonymousFloodGuard \<Rightarrow> ''anonymous-flood-guard''
      | Authentication \<Rightarrow> ''authentication''
      | PrincipalRateLimit \<Rightarrow> ''principal-rate-limit''
      | Authorization \<Rightarrow> ''authorization''
      | Idempotency \<Rightarrow> ''idempotency''
      | QuotaAdmission \<Rightarrow> ''quota-admission''
      | Handler \<Rightarrow> ''handler''
      | ResponseCompression \<Rightarrow> ''response-compression''
      | SecurityHeaders \<Rightarrow> ''security-headers''
      | TelemetryFinalize \<Rightarrow> ''telemetry-finalize'')"

definition default_middleware_order :: "middleware_stage list" where
  "default_middleware_order =
     [PanicBoundary, Deadline, RequestId, TraceContext, TrustedProxy, TransportSecurity,
      PayloadLimit, AnonymousFloodGuard, Authentication, PrincipalRateLimit, Authorization,
      Idempotency, Handler, ResponseCompression, SecurityHeaders, TelemetryFinalize]"

definition billable_quota_middleware_order :: "middleware_stage list" where
  "billable_quota_middleware_order =
     [PanicBoundary, Deadline, RequestId, TraceContext, TrustedProxy, TransportSecurity,
      PayloadLimit, AnonymousFloodGuard, Authentication, PrincipalRateLimit, Authorization,
      Idempotency, QuotaAdmission, Handler, ResponseCompression, SecurityHeaders,
      TelemetryFinalize]"

section \<open>Postures\<close>

datatype rate_limit_failure_mode = FailOpenMode | FailClosedMode | LocalOnly

datatype rate_limit_consistency = Strict | Bounded | Advisory

datatype operation_class =
    HealthRead | PublicRead | AuthAttempt | AuthRecovery | Mutation | PaymentOrLedgerWrite
  | JobAdmission

record rate_limit_posture =
  po_consistency :: rate_limit_consistency
  po_failure_mode :: rate_limit_failure_mode
  po_edge_may_deny :: bool
  po_coordinator_required :: bool

definition posture_of :: "operation_class \<Rightarrow> rate_limit_posture" where
  "posture_of c =
     (case c of
        HealthRead \<Rightarrow> \<lparr>po_consistency = Advisory, po_failure_mode = FailOpenMode,
          po_edge_may_deny = False, po_coordinator_required = False\<rparr>
      | PublicRead \<Rightarrow> \<lparr>po_consistency = Bounded, po_failure_mode = LocalOnly,
          po_edge_may_deny = True, po_coordinator_required = False\<rparr>
      | AuthAttempt \<Rightarrow> \<lparr>po_consistency = Strict, po_failure_mode = FailClosedMode,
          po_edge_may_deny = True, po_coordinator_required = True\<rparr>
      | _ \<Rightarrow> \<lparr>po_consistency = Strict, po_failure_mode = FailClosedMode,
          po_edge_may_deny = False, po_coordinator_required = True\<rparr>)"

section \<open>Validation\<close>

record order_violation =
  ov_code :: string
  ov_message :: string

record order_rule =
  or_first :: middleware_stage
  or_second :: middleware_stage
  or_code :: string

definition order_rules :: "order_rule list" where
  "order_rules =
     [\<lparr>or_first = RequestId, or_second = TraceContext, or_code = ''request-id-before-trace''\<rparr>,
      \<lparr>or_first = TraceContext, or_second = TrustedProxy, or_code = ''trace-before-proxy-policy''\<rparr>,
      \<lparr>or_first = TrustedProxy, or_second = TransportSecurity, or_code = ''proxy-before-transport-policy''\<rparr>,
      \<lparr>or_first = TrustedProxy, or_second = AnonymousFloodGuard, or_code = ''trusted-proxy-before-anonymous-identity''\<rparr>,
      \<lparr>or_first = PayloadLimit, or_second = Authentication, or_code = ''payload-limit-before-authentication''\<rparr>,
      \<lparr>or_first = AnonymousFloodGuard, or_second = Authentication, or_code = ''anonymous-guard-before-authentication''\<rparr>,
      \<lparr>or_first = Authentication, or_second = PrincipalRateLimit, or_code = ''authentication-before-principal-rate-limit''\<rparr>,
      \<lparr>or_first = PrincipalRateLimit, or_second = Authorization, or_code = ''principal-rate-limit-before-authorization''\<rparr>,
      \<lparr>or_first = Authorization, or_second = Handler, or_code = ''authorization-before-handler''\<rparr>,
      \<lparr>or_first = Handler, or_second = ResponseCompression, or_code = ''handler-before-response-compression''\<rparr>,
      \<lparr>or_first = SecurityHeaders, or_second = TelemetryFinalize, or_code = ''security-headers-before-telemetry-finalize''\<rparr>]"

definition quota_order_rules :: "order_rule list" where
  "quota_order_rules =
     [\<lparr>or_first = Authorization, or_second = Idempotency, or_code = ''authorization-before-idempotency''\<rparr>,
      \<lparr>or_first = Idempotency, or_second = QuotaAdmission, or_code = ''idempotency-before-quota-admission''\<rparr>,
      \<lparr>or_first = QuotaAdmission, or_second = Handler, or_code = ''quota-admission-before-handler''\<rparr>]"

text \<open>\<open>iter().position(|x| *x == a)\<close> and \<open>windows(2)\<close>.\<close>

fun position_of :: "'a \<Rightarrow> 'a list \<Rightarrow> nat option" where
  "position_of a [] = None"
| "position_of a (x # xs) = (if x = a then Some 0 else map_option Suc (position_of a xs))"

fun windows2 :: "'a list \<Rightarrow> ('a \<times> 'a) list" where
  "windows2 (x # y # xs) = (x, y) # windows2 (y # xs)"
| "windows2 _ = []"

definition require_first_stage ::
    "middleware_stage list \<Rightarrow> middleware_stage \<Rightarrow> string \<Rightarrow> order_violation option" where
  "require_first_stage stages expected code =
     then_some ((case stages of [] \<Rightarrow> None | s # _ \<Rightarrow> Some s) \<noteq> Some expected)
       \<lparr>ov_code = code,
        ov_message = ''the outer panic boundary must observe every downstream failure''\<rparr>"

definition require_before ::
    "middleware_stage list \<Rightarrow> middleware_stage \<Rightarrow> middleware_stage \<Rightarrow> string \<Rightarrow>
     order_violation option" where
  "require_before stages first second code =
     then_some
       (\<not> (case (position_of first stages, position_of second stages) of
             (Some left, Some right) \<Rightarrow> left < right
           | _ \<Rightarrow> False))
       \<lparr>ov_code = code,
        ov_message = ''required middleware stages are missing or out of order''\<rparr>"

definition duplicate_violations :: "middleware_stage list \<Rightarrow> order_violation list" where
  "duplicate_violations stages =
     List.map_filter (\<lambda>(index, stage).
        then_some (stage \<in> set (take index stages))
          \<lparr>ov_code = ''duplicate-stage'',
           ov_message = ''middleware stages must occur exactly once''\<rparr>) (enum_list stages)"

definition rule_violations :: "middleware_stage list \<Rightarrow> order_rule list \<Rightarrow> order_violation list" where
  "rule_violations stages rules =
     List.map_filter (\<lambda>r. require_before stages (or_first r) (or_second r) (or_code r)) rules"

definition window_violations ::
    "middleware_stage list \<Rightarrow> middleware_stage list \<Rightarrow> order_violation list" where
  "window_violations stages order =
     List.map_filter (\<lambda>(a, b). require_before stages a b ''reviewed-stage-order'') (windows2 order)"

definition validate_middleware_order :: "middleware_stage list \<Rightarrow> order_violation list" where
  "validate_middleware_order stages =
     duplicate_violations stages @
     map (\<lambda>_. \<lparr>ov_code = ''missing-stage'',
       ov_message = ''every reviewed middleware stage must be present exactly once''\<rparr>)
       (filter (\<lambda>expected. expected \<notin> set stages) default_middleware_order) @
     opt_list (require_first_stage stages PanicBoundary ''panic-boundary-must-be-first'') @
     rule_violations stages order_rules @
     window_violations stages default_middleware_order"

definition validate_billable_quota_middleware_order ::
    "middleware_stage list \<Rightarrow> order_violation list" where
  "validate_billable_quota_middleware_order stages =
     duplicate_violations stages @
     map (\<lambda>_. \<lparr>ov_code = ''missing-stage'',
       ov_message =
         ''every reviewed billable-quota middleware stage must be present exactly once''\<rparr>)
       (filter (\<lambda>expected. expected \<notin> set stages) billable_quota_middleware_order) @
     opt_list (require_first_stage stages PanicBoundary ''panic-boundary-must-be-first'') @
     rule_violations stages order_rules @
     rule_violations stages quota_order_rules @
     window_violations stages billable_quota_middleware_order"

section \<open>Positions\<close>

lemma position_of_None [simp]: "position_of a xs = None \<longleftrightarrow> a \<notin> set xs"
  by (induction xs) auto

lemma position_of_nth:
  "position_of a xs = Some i \<Longrightarrow> i < length xs \<and> xs ! i = a"
  by (induction xs arbitrary: i) (auto split: if_splits)

lemma position_of_Some:
  assumes "distinct xs" "i < length xs"
  shows "position_of (xs ! i) xs = Some i"
  using assms by (induction xs arbitrary: i) (auto simp: nth_Cons split: nat.splits)

text \<open>\<open>before xs a b\<close> holds where \<open>require_before\<close> raises nothing.\<close>

definition before_in :: "'a list \<Rightarrow> 'a \<Rightarrow> 'a \<Rightarrow> bool" where
  "before_in xs a b \<longleftrightarrow> (\<exists>i j. position_of a xs = Some i \<and> position_of b xs = Some j \<and> i < j)"

lemma require_before_None:
  "require_before stages a b code = None \<longleftrightarrow> before_in stages a b"
  by (cases "position_of a stages"; cases "position_of b stages")
    (auto simp: require_before_def before_in_def simp del: position_of_None)

lemma map_filter_empty: "List.map_filter f xs = [] \<longleftrightarrow> (\<forall>x \<in> set xs. f x = None)"
  by (induction xs) (auto simp: List.map_filter_simps split: option.splits)

lemma duplicate_violations_empty: "duplicate_violations stages = [] \<longleftrightarrow> distinct stages"
proof -
  have "duplicate_violations stages = [] \<longleftrightarrow>
      (\<forall>i < length stages. stages ! i \<notin> set (take i stages))"
    by (auto simp: duplicate_violations_def map_filter_empty set_enum_list)
  also have "\<dots> \<longleftrightarrow> distinct stages"
    by (auto simp: distinct_conv_nth in_set_conv_nth) (metis linorder_neqE_nat)
  finally show ?thesis .
qed

lemma windows2_sorted:
  assumes "set ys \<subseteq> set xs" "\<forall>(a, b) \<in> set (windows2 ys). before_in xs a b"
  shows "sorted_wrt (<) (map (\<lambda>a. the (position_of a xs)) ys)"
  using assms
proof (induction ys rule: windows2.induct)
  case (1 x y ys)
  then have "sorted_wrt (<) (map (\<lambda>a. the (position_of a xs)) (y # ys))"
    "the (position_of x xs) < the (position_of y xs)" by (auto simp: before_in_def)
  then show ?case by auto
qed auto

text \<open>
  A list without repetitions in which the elements of \<open>ys\<close> stand in the order of \<open>ys\<close> is \<open>ys\<close>
  once the other elements are removed.
\<close>

lemma filter_eq_by_position:
  assumes "distinct xs" "set ys \<subseteq> set xs" "\<forall>(a, b) \<in> set (windows2 ys). before_in xs a b"
  shows "filter (\<lambda>x. x \<in> set ys) xs = ys"
proof -
  let ?pos = "\<lambda>a. the (position_of a xs)"
  have ys: "sorted_wrt (<) (map ?pos ys)" by (rule windows2_sorted [OF assms(2,3)])
  have pos: "map ?pos xs = [0..<length xs]"
    using assms(1) by (intro nth_equalityI) (simp_all add: position_of_Some)
  then have "sorted_wrt (<) (map ?pos xs)" by simp
  then have fs: "sorted_wrt (<) (map ?pos (filter (\<lambda>x. x \<in> set ys) xs))"
    by (simp add: sorted_wrt_map sorted_wrt_filter)
  have inj: "inj_on ?pos (set xs)"
    using pos assms(1) by (metis distinct_map distinct_upt)
  show ?thesis
  proof (rule map_sorted_distinct_set_unique [of ?pos])
    show "inj_on ?pos (set (filter (\<lambda>x. x \<in> set ys) xs) \<union> set ys)"
      using inj assms(2) by (auto intro: inj_on_subset)
    show "sorted (map ?pos (filter (\<lambda>x. x \<in> set ys) xs))" "distinct (map ?pos (filter (\<lambda>x. x \<in> set ys) xs))"
      "sorted (map ?pos ys)" "distinct (map ?pos ys)"
      using fs ys by (auto simp: strict_sorted_iff)
    show "set (filter (\<lambda>x. x \<in> set ys) xs) = set ys" using assms(2) by auto
  qed
qed

text \<open>Conversely, the elements of such a list stand in that order.\<close>

lemma filter_eq_appendD:
  "filter p xs = us @ ws \<Longrightarrow> \<exists>u v. xs = u @ v \<and> filter p u = us \<and> filter p v = ws"
proof (induction xs arbitrary: us)
  case Nil
  then show ?case by simp
next
  case (Cons x xs)
  show ?case
  proof (cases "us = []")
    case True
    with Cons.prems show ?thesis by (intro exI [of _ "[]"] exI [of _ "x # xs"]) simp
  next
    case False
    with Cons.prems have "filter p xs = (if p x then tl us else us) @ ws" "p x \<Longrightarrow> us = x # tl us"
      by (cases us; auto)+
    with Cons.IH [of "if p x then tl us else us"] obtain u v where
      "xs = u @ v" "filter p u = (if p x then tl us else us)" "filter p v = ws" by blast
    then show ?thesis using \<open>p x \<Longrightarrow> us = x # tl us\<close>
      by (intro exI [of _ "x # u"] exI [of _ v]) auto
  qed
qed

lemma before_in_filter:
  assumes "distinct xs" "filter p xs = us @ a # vs" "b \<in> set vs"
  shows "before_in xs a b"
proof -
  from assms(2) obtain u v where uv: "xs = u @ a # v" "filter p v = vs"
  proof -
    from filter_eq_appendD [OF assms(2)] obtain u w where
      w: "xs = u @ w" "filter p w = a # vs" by blast
    from filter_eq_ConsD [OF w(2)] obtain u' v where "w = u' @ a # v" "vs = filter p v" by blast
    with w(1) that [of "u @ u'" v] show ?thesis by simp
  qed
  with assms(3) have "b \<in> set v" by auto
  then obtain j where j: "j < length v" "v ! j = b" by (auto simp: in_set_conv_nth)
  have "position_of a xs = Some (length u)"
    using position_of_Some [OF assms(1), of "length u"] by (simp add: uv)
  moreover have "position_of b xs = Some (Suc (length u) + j)"
    using position_of_Some [OF assms(1), of "Suc (length u) + j"] j by (simp add: uv nth_append)
  ultimately show ?thesis by (auto simp: before_in_def)
qed

lemma before_in_of_filter:
  assumes "distinct xs" "before_in (filter p xs) a b"
  shows "before_in xs a b"
proof -
  let ?ys = "filter p xs"
  from assms(2) obtain i j where ij: "position_of a ?ys = Some i" "position_of b ?ys = Some j" "i < j"
    by (auto simp: before_in_def)
  then have "i < length ?ys" "?ys ! i = a" "j < length ?ys" "?ys ! j = b"
    using position_of_nth by fastforce+
  then have "?ys = take i ?ys @ a # drop (Suc i) ?ys" "b \<in> set (drop (Suc i) ?ys)"
    using ij(3) by (auto simp: id_take_nth_drop in_set_conv_nth intro!: exI [of _ "j - Suc i"])
  then show ?thesis by (rule before_in_filter [OF assms(1)])
qed

section \<open>What the validators accept\<close>

lemma rule_violations_empty:
  "rule_violations stages rules = [] \<longleftrightarrow>
     (\<forall>r \<in> set rules. before_in stages (or_first r) (or_second r))"
  by (simp add: rule_violations_def map_filter_empty require_before_None)

lemma window_violations_empty:
  "window_violations stages order = [] \<longleftrightarrow>
     (\<forall>(a, b) \<in> set (windows2 order). before_in stages a b)"
  by (auto simp: window_violations_def map_filter_empty require_before_None)

lemma require_first_stage_None:
  "require_first_stage stages s code = None \<longleftrightarrow> stages \<noteq> [] \<and> hd stages = s"
  by (cases stages) (auto simp: require_first_stage_def)

lemma reviewed_rules_hold:
  "\<forall>r \<in> set order_rules. before_in default_middleware_order (or_first r) (or_second r)"
  by (simp add: order_rules_def before_in_def default_middleware_order_def)

lemma reviewed_windows_hold:
  "\<forall>(a, b) \<in> set (windows2 default_middleware_order). before_in default_middleware_order a b"
  by (simp add: before_in_def default_middleware_order_def)

lemma set_default_order: "s \<in> set default_middleware_order \<longleftrightarrow> s \<noteq> QuotaAdmission"
  by (cases s) (simp_all add: default_middleware_order_def)

lemma set_billable_order: "s \<in> set billable_quota_middleware_order"
  by (cases s) (simp_all add: billable_quota_middleware_order_def)

text \<open>
  The validator of the billable profile accepts its reviewed order and no other sequence of
  stages.
\<close>

theorem validate_billable_exact:
  "validate_billable_quota_middleware_order stages = [] \<longleftrightarrow>
     stages = billable_quota_middleware_order"
proof
  assume "validate_billable_quota_middleware_order stages = []"
  then have "distinct stages" "set billable_quota_middleware_order \<subseteq> set stages"
    "\<forall>(a, b) \<in> set (windows2 billable_quota_middleware_order). before_in stages a b"
    by (auto simp: validate_billable_quota_middleware_order_def duplicate_violations_empty
        window_violations_empty filter_empty_conv)
  from filter_eq_by_position [OF this] show "stages = billable_quota_middleware_order"
    by (simp add: set_billable_order)
next
  assume "stages = billable_quota_middleware_order"
  moreover have "validate_billable_quota_middleware_order billable_quota_middleware_order = []"
    unfolding validate_billable_quota_middleware_order_def
    by (simp add: duplicate_violations_empty rule_violations_empty window_violations_empty
        require_first_stage_None before_in_def order_rules_def quota_order_rules_def
        billable_quota_middleware_order_def)
  ultimately show "validate_billable_quota_middleware_order stages = []" by simp
qed

text \<open>
  The validator of the reference profile accepts exactly the sequences without repetitions that
  are the reviewed order once the quota admission is taken out, and that do not begin with it: the
  quota admission itself may stand anywhere behind the first stage, even behind the handler.
\<close>

theorem validate_reference_exact:
  "validate_middleware_order stages = [] \<longleftrightarrow>
     distinct stages \<and> filter (\<lambda>s. s \<noteq> QuotaAdmission) stages = default_middleware_order \<and>
     hd stages \<noteq> QuotaAdmission"
proof
  assume "validate_middleware_order stages = []"
  then have ok: "distinct stages" "set default_middleware_order \<subseteq> set stages"
    "\<forall>(a, b) \<in> set (windows2 default_middleware_order). before_in stages a b"
    and "hd stages = PanicBoundary"
    by (auto simp: validate_middleware_order_def duplicate_violations_empty
        window_violations_empty filter_empty_conv require_first_stage_None)
  with filter_eq_by_position [OF ok] show "distinct stages \<and>
      filter (\<lambda>s. s \<noteq> QuotaAdmission) stages = default_middleware_order \<and>
      hd stages \<noteq> QuotaAdmission"
    by (simp add: set_default_order)
next
  assume a: "distinct stages \<and> filter (\<lambda>s. s \<noteq> QuotaAdmission) stages = default_middleware_order \<and>
      hd stages \<noteq> QuotaAdmission"
  then have before: "before_in stages x y" if "before_in default_middleware_order x y" for x y
    using that by (metis before_in_of_filter)
  have "set default_middleware_order \<subseteq> set stages" using a by (metis filter_is_subset)
  moreover have "stages \<noteq> []" using a by (auto simp: default_middleware_order_def)
  moreover have "hd stages = PanicBoundary"
    using a \<open>stages \<noteq> []\<close> by (cases stages) (auto simp: default_middleware_order_def)
  ultimately show "validate_middleware_order stages = []"
    using a before reviewed_rules_hold reviewed_windows_hold
    by (fastforce simp: validate_middleware_order_def duplicate_violations_empty
        rule_violations_empty window_violations_empty require_first_stage_None filter_empty_conv)
qed

end
