(* ===== verification/Composition.thy ===== *)
theory Composition
  imports Ordered_Map
begin

text \<open>
  \<^verbatim>\<open>src/src/rust/src/composition.rs\<close>: consumer-authored ordering policies and their
  validation.

  The code iterates over hash sets and hash maps, whose order the standard library leaves open: the
  orders are the arguments \<open>pe\<close> (edges) and \<open>pn\<close> (names), of which \<open>hash_order\<close> says that they
  enumerate a set without repetition. \<open>dbg\<close> is the text of a string under \<open>Debug\<close>.
  A panic (of \<open>expect\<close> or of an overflowing subtraction) is \<^const>\<open>None\<close>.
\<close>

section \<open>Data\<close>

datatype order_issue_severity = SevError | SevAdvisory

record middleware_ordering_rule =
  mr_before :: string
  mr_after :: string
  mr_code :: string
  mr_message :: string
  mr_severity :: order_issue_severity
  mr_require_both :: bool

definition rule_before :: "string \<Rightarrow> string \<Rightarrow> string \<Rightarrow> string \<Rightarrow> middleware_ordering_rule" where
  "rule_before b a code message =
     \<lparr>mr_before = b, mr_after = a, mr_code = code, mr_message = message, mr_severity = SevError,
      mr_require_both = False\<rparr>"

definition rule_advisory :: "middleware_ordering_rule \<Rightarrow> middleware_ordering_rule" where
  "rule_advisory r = r\<lparr>mr_severity := SevAdvisory\<rparr>"

definition rule_require_both :: "middleware_ordering_rule \<Rightarrow> middleware_ordering_rule" where
  "rule_require_both r = r\<lparr>mr_require_both := True\<rparr>"

record middleware_order_policy =
  mp_required :: "string list"
  mp_forbidden :: "string list"
  mp_unique :: "string list"
  mp_first :: "string option"
  mp_rules :: "middleware_ordering_rule list"

definition policy_new :: middleware_order_policy where
  "policy_new = \<lparr>mp_required = [], mp_forbidden = [], mp_unique = [], mp_first = None, mp_rules = []\<rparr>"

definition policy_require :: "middleware_order_policy \<Rightarrow> string \<Rightarrow> middleware_order_policy" where
  "policy_require p stage = p\<lparr>mp_required := mp_required p @ [stage]\<rparr>"

definition policy_forbid :: "middleware_order_policy \<Rightarrow> string \<Rightarrow> middleware_order_policy" where
  "policy_forbid p stage = p\<lparr>mp_forbidden := mp_forbidden p @ [stage]\<rparr>"

definition policy_unique :: "middleware_order_policy \<Rightarrow> string \<Rightarrow> middleware_order_policy" where
  "policy_unique p stage = p\<lparr>mp_unique := mp_unique p @ [stage]\<rparr>"

definition policy_require_first :: "middleware_order_policy \<Rightarrow> string \<Rightarrow> middleware_order_policy" where
  "policy_require_first p stage = p\<lparr>mp_first := Some stage\<rparr>"

definition policy_rule ::
    "middleware_order_policy \<Rightarrow> middleware_ordering_rule \<Rightarrow> middleware_order_policy" where
  "policy_rule p rule = p\<lparr>mp_rules := mp_rules p @ [rule]\<rparr>"

record middleware_composition_plan =
  cp_stages :: "string list"
  cp_policy :: middleware_order_policy

definition plan_new :: middleware_composition_plan where
  "plan_new = \<lparr>cp_stages = [], cp_policy = policy_new\<rparr>"

definition plan_stage :: "middleware_composition_plan \<Rightarrow> string \<Rightarrow> middleware_composition_plan" where
  "plan_stage p stage = p\<lparr>cp_stages := cp_stages p @ [stage]\<rparr>"

definition plan_with_policy ::
    "middleware_composition_plan \<Rightarrow> middleware_order_policy \<Rightarrow> middleware_composition_plan" where
  "plan_with_policy p policy = p\<lparr>cp_policy := policy\<rparr>"

record middleware_order_issue =
  mi_code :: string
  mi_message :: string
  mi_severity :: order_issue_severity
  mi_stage :: "string option"

definition error_issue :: "string \<Rightarrow> string \<Rightarrow> string option \<Rightarrow> middleware_order_issue" where
  "error_issue code message stage =
     \<lparr>mi_code = code, mi_message = message, mi_severity = SevError, mi_stage = stage\<rparr>"

section \<open>The shape of a policy\<close>

definition blank :: "string \<Rightarrow> bool" where
  "blank s \<longleftrightarrow> trim s = []"

definition valid_order_rule :: "middleware_ordering_rule \<Rightarrow> bool" where
  "valid_order_rule r \<longleftrightarrow>
     \<not> blank (mr_before r) \<and> \<not> blank (mr_after r) \<and> \<not> blank (mr_code r) \<and> \<not> blank (mr_message r) \<and>
     mr_before r \<noteq> mr_after r"

definition contradictory_stages :: "middleware_order_policy \<Rightarrow> string list" where
  "contradictory_stages p =
     (let required = filter (\<lambda>s. \<not> blank s) (mp_required p);
          forbidden = filter (\<lambda>s. \<not> blank s) (mp_forbidden p);
          both = filter (\<lambda>s. s \<in> set forbidden) required;
          first = (case opt_filter (\<lambda>s. \<not> blank s) (mp_first p) of
                     Some f \<Rightarrow> if f \<in> set forbidden then [f] else []
                   | None \<Rightarrow> [])
      in sort (remdups (both @ first)))"

definition validate_policy_shape ::
    "(string \<Rightarrow> string) \<Rightarrow> middleware_order_policy \<Rightarrow> middleware_order_issue list" where
  "validate_policy_shape dbg p =
     List.map_filter (\<lambda>stage. then_some (blank stage)
        (error_issue ''blank-policy-stage-name''
           ''consumer middleware policy stage names must not be blank'' (Some stage)))
       (mp_required p @ mp_forbidden p @ mp_unique p) @
     opt_list (Option.bind (mp_first p) (\<lambda>stage. then_some (blank stage)
        (error_issue ''blank-policy-stage-name''
           ''consumer middleware policy first-stage name must not be blank'' (Some stage)))) @
     List.map_filter (\<lambda>r. then_some (\<not> valid_order_rule r)
        (error_issue ''invalid-order-rule''
           (''order rules require non-empty, distinct before/after names, '' @
            ''a non-empty code, and a non-empty message'') None)) (mp_rules p) @
     map (\<lambda>stage. error_issue ''contradictory-stage-policy''
        (''consumer middleware policy both requires/places and forbids stage '' @ dbg stage)
        (Some stage)) (contradictory_stages p)"

section \<open>Cycles among the active rules\<close>

type_synonym edge = "string \<times> string"
type_synonym indegrees = "(string, nat) btree_map"
type_synonym adjacency = "string \<rightharpoonup> string list"

definition active_edges ::
    "(edge list \<Rightarrow> edge list) \<Rightarrow> string list \<Rightarrow> middleware_order_policy \<Rightarrow> edge list" where
  "active_edges pe names p =
     pe (map (\<lambda>r. (mr_before r, mr_after r))
       (filter (\<lambda>r. valid_order_rule r \<and> mr_before r \<in> set names \<and> mr_after r \<in> set names)
         (mp_rules p)))"

definition add_edge :: "edge \<Rightarrow> adjacency \<times> indegrees \<Rightarrow> adjacency \<times> indegrees" where
  "add_edge e g =
     (let b = fst e; a = snd e; adj = fst g;
          ind = bt_or_insert b 0 (snd g);
          ind = bt_modify a Suc (bt_or_insert a 0 ind)
      in (adj(b \<mapsto> (case adj b of None \<Rightarrow> [] | Some ns \<Rightarrow> ns) @ [a]), ind))"

definition build_graph :: "edge list \<Rightarrow> adjacency \<times> indegrees" where
  "build_graph es = foldl (\<lambda>g e. add_edge e g) (Map.empty, []) es"

text \<open>The inner loop over the targets of a popped stage.\<close>

fun relax :: "string list \<Rightarrow> string list \<Rightarrow> indegrees \<Rightarrow> (string list \<times> indegrees) option" where
  "relax [] queue ind = Some (queue, ind)"
| "relax (after # rest) queue ind =
     (case bt_get ind after of
        None \<Rightarrow> None
      | Some degree \<Rightarrow>
          if degree = 0 then None
          else relax rest (if degree - 1 = 0 then queue @ [after] else queue)
                 (bt_modify after (\<lambda>d. d - 1) ind))"

definition positive :: "indegrees \<Rightarrow> nat" where
  "positive ind = length (filter (\<lambda>e. 0 < snd e) ind)"

lemma positive_modify:
  "positive (bt_modify k (\<lambda>d. d - 1) ind) \<le> positive ind"
  "bt_get ind k = Some (Suc 0) \<Longrightarrow> positive (bt_modify k (\<lambda>d. d - 1) ind) < positive ind"
proof -
  show le: "positive (bt_modify k (\<lambda>d. d - 1) m) \<le> positive m" for m
    by (induction m) (auto simp: positive_def bt_modify_def)
  show "bt_get ind k = Some (Suc 0) \<Longrightarrow> positive (bt_modify k (\<lambda>d. d - 1) ind) < positive ind"
  proof (induction ind)
    case Nil
    then show ?case by simp
  next
    case (Cons e ind)
    then show ?case using le [of ind]
      by (cases e) (auto simp: positive_def bt_modify_def bt_get_def less_Suc_eq_le split: if_splits)
  qed
qed

lemma relax_measure:
  "relax next queue ind = Some (queue', ind') \<Longrightarrow>
   length queue' + positive ind' \<le> length queue + positive ind"
proof (induction "next" queue ind rule: relax.induct)
  case (1 queue ind)
  then show ?case by simp
next
  case (2 after rest queue ind)
  then obtain d where d: "bt_get ind after = Some d" "d \<noteq> 0"
      "relax rest (if d - 1 = 0 then queue @ [after] else queue)
         (bt_modify after (\<lambda>d. d - 1) ind) = Some (queue', ind')"
    by (auto split: option.splits if_splits)
  then have IH: "length queue' + positive ind' \<le>
      length (if d - 1 = 0 then queue @ [after] else queue) +
      positive (bt_modify after (\<lambda>d. d - 1) ind)"
    using "2.IH" by simp
  show ?case
  proof (cases "d = 1")
    case True
    with IH positive_modify(2) [of ind after] d(1) show ?thesis by simp
  next
    case False
    with d(2) IH positive_modify(1) [of after ind] show ?thesis by simp
  qed
qed

text \<open>The \<open>while let\<close> loop over the queue, with the number of stages visited.\<close>

function kahn :: "adjacency \<Rightarrow> string list \<Rightarrow> indegrees \<Rightarrow> nat \<Rightarrow> (nat \<times> indegrees) option" where
  "kahn adj [] ind visited = Some (visited, ind)"
| "kahn adj (stage # queue) ind visited =
     (case relax (case adj stage of None \<Rightarrow> [] | Some ns \<Rightarrow> ns) queue ind of
        None \<Rightarrow> None
      | Some (queue', ind') \<Rightarrow> kahn adj queue' ind' (Suc visited))"
  by pat_completeness auto
termination
  by (relation "measure (\<lambda>(adj, queue, ind, visited). length queue + positive ind)")
    (auto dest!: relax_measure)

definition debug_list :: "(string \<Rightarrow> string) \<Rightarrow> string list \<Rightarrow> string" where
  "debug_list dbg xs = ''['' @ join_with '', '' (map dbg xs) @ '']''"

definition active_order_cycle_issue ::
    "(edge list \<Rightarrow> edge list) \<Rightarrow> (string list \<Rightarrow> string list) \<Rightarrow> (string \<Rightarrow> string) \<Rightarrow> string list \<Rightarrow>
     middleware_order_policy \<Rightarrow> middleware_order_issue option option" where
  "active_order_cycle_issue pe pn dbg names p =
     (let es = active_edges pe names p in
      if es = [] then Some None
      else
        (case build_graph es of (adj, ind) \<Rightarrow>
           (let queue = pn (map fst (filter (\<lambda>e. snd e = 0) ind)) in
            case kahn adj queue ind 0 of
              None \<Rightarrow> None
            | Some (visited, ind') \<Rightarrow>
                if visited = length ind' then Some None
                else
                  let cycle_candidates = sort (map fst (filter (\<lambda>e. 0 < snd e) ind'))
                  in Some (Some (error_issue ''consumer-order-cycle''
                       (''active consumer middleware ordering rules contain a cycle involving '' @
                        debug_list dbg cycle_candidates) None)))))"

section \<open>Validation\<close>

definition positions_of :: "string list \<Rightarrow> string \<rightharpoonup> nat list" where
  "positions_of names =
     foldl (\<lambda>m (i, name). m(name \<mapsto> (case m name of None \<Rightarrow> [] | Some is \<Rightarrow> is) @ [i]))
       Map.empty (enum_list names)"

definition rule_issue ::
    "(string \<rightharpoonup> nat list) \<Rightarrow> middleware_ordering_rule \<Rightarrow> middleware_order_issue option" where
  "rule_issue positions r =
     (let b = Option.bind (positions (mr_before r)) (\<lambda>is. if is = [] then None else Some (last is));
          a = Option.bind (positions (mr_after r)) (\<lambda>is. if is = [] then None else Some (hd is));
          issue = Some \<lparr>mi_code = mr_code r, mi_message = mr_message r, mi_severity = mr_severity r,
                        mi_stage = None\<rparr>
      in case (b, a) of
           (Some left, Some right) \<Rightarrow> if left < right then None else issue
         | _ \<Rightarrow> if mr_require_both r then issue else None)"

definition validate_consumer_middleware_order ::
    "(edge list \<Rightarrow> edge list) \<Rightarrow> (string list \<Rightarrow> string list) \<Rightarrow> (string \<Rightarrow> string) \<Rightarrow> string list \<Rightarrow>
     middleware_order_policy \<Rightarrow> middleware_order_issue list option" where
  "validate_consumer_middleware_order pe pn dbg names p =
     (let positions = positions_of names;
          required = List.map_filter (\<lambda>stage. then_some (stage \<notin> set names)
            (error_issue ''required-stage-missing''
               (''consumer policy requires middleware stage '' @ dbg stage) (Some stage)))
            (filter (\<lambda>s. \<not> blank s) (mp_required p));
          forbidden = List.map_filter (\<lambda>stage. then_some (stage \<in> set names)
            (error_issue ''forbidden-stage-present''
               (''consumer policy forbids middleware stage '' @ dbg stage) (Some stage)))
            (filter (\<lambda>s. \<not> blank s) (mp_forbidden p));
          unique = List.map_filter (\<lambda>stage. then_some
            (case positions stage of None \<Rightarrow> False | Some indexes \<Rightarrow> 1 < length indexes)
            (error_issue ''consumer-unique-stage-duplicated''
               (''consumer policy requires stage '' @ dbg stage @ '' to occur at most once'')
               (Some stage)))
            (filter (\<lambda>s. \<not> blank s) (mp_unique p));
          first = opt_list (Option.bind (opt_filter (\<lambda>s. \<not> blank s) (mp_first p))
            (\<lambda>stage. then_some ((case names of [] \<Rightarrow> None | n # _ \<Rightarrow> Some n) \<noteq> Some stage)
               (error_issue ''consumer-first-stage-mismatch''
                  (''consumer policy requires '' @ dbg stage @ '' to be the first stage'')
                  (Some stage))));
          order = List.map_filter (rule_issue positions) (filter valid_order_rule (mp_rules p))
      in case active_order_cycle_issue pe pn dbg names p of
           None \<Rightarrow> None
         | Some cycle \<Rightarrow>
             Some (validate_policy_shape dbg p @ required @ forbidden @ unique @ first @ order @
               opt_list cycle))"

definition validate_plan_shape :: "middleware_composition_plan \<Rightarrow> middleware_order_issue list" where
  "validate_plan_shape plan =
     List.map_filter (\<lambda>stage. then_some (blank stage)
       (error_issue ''blank-stage-name'' ''middleware stage names must not be blank'' (Some stage)))
       (cp_stages plan)"

definition validate_declared_middleware_plan ::
    "(edge list \<Rightarrow> edge list) \<Rightarrow> (string list \<Rightarrow> string list) \<Rightarrow> (string \<Rightarrow> string) \<Rightarrow>
     middleware_composition_plan \<Rightarrow> middleware_order_issue list option" where
  "validate_declared_middleware_plan pe pn dbg plan =
     map_option (\<lambda>issues. validate_plan_shape plan @ issues)
       (validate_consumer_middleware_order pe pn dbg (cp_stages plan) (cp_policy plan))"

definition validate_runtime_middleware_plan ::
    "(edge list \<Rightarrow> edge list) \<Rightarrow> (string list \<Rightarrow> string list) \<Rightarrow> (string \<Rightarrow> string) \<Rightarrow> string list \<Rightarrow>
     middleware_composition_plan \<Rightarrow> middleware_order_issue list option" where
  "validate_runtime_middleware_plan pe pn dbg actual plan =
     map_option (\<lambda>issues. validate_plan_shape plan @ issues @
         opt_list (then_some (actual \<noteq> cp_stages plan)
           (error_issue ''runtime-stage-plan-mismatch''
              (''runtime middleware stages '' @ debug_list dbg actual @
               '' do not match declared stages '' @ debug_list dbg (cp_stages plan)) None)))
       (validate_consumer_middleware_order pe pn dbg actual (cp_policy plan))"

definition hash_order :: "('a list \<Rightarrow> 'a list) \<Rightarrow> bool" where
  "hash_order h \<longleftrightarrow> (\<forall>xs. set (h xs) = set xs \<and> distinct (h xs))"

section \<open>The graph that is built\<close>

definition nodes :: "edge set \<Rightarrow> string set" where
  "nodes E = fst ` E \<union> snd ` E"

definition preds :: "edge set \<Rightarrow> string \<Rightarrow> string set" where
  "preds E n = {u. (u, n) \<in> E}"

text \<open>\<open>degrees E done ind\<close>: the map holds, for every node, its predecessors that are not done yet.\<close>

definition degrees :: "edge set \<Rightarrow> string set \<Rightarrow> indegrees \<Rightarrow> bool" where
  "degrees E V ind \<longleftrightarrow> distinct (map fst ind) \<and>
     (\<forall>n. bt_get ind n = then_some (n \<in> nodes E) (card (preds E n - V)))"

lemma finite_preds: "finite E \<Longrightarrow> finite (preds E n)"
  by (rule finite_subset [of _ "fst ` E"]) (force simp: preds_def)+

lemma preds_insert: "preds (insert (b, a) E) n = (if n = a then insert b (preds E n) else preds E n)"
  by (auto simp: preds_def)

lemma build_graph_snoc: "build_graph (es @ [e]) = add_edge e (build_graph es)"
  by (simp add: build_graph_def)

lemma build_graph_correct:
  "distinct es \<Longrightarrow> bt_ok (snd (build_graph es)) \<and> degrees (set es) {} (snd (build_graph es)) \<and>
     (\<forall>b. (case fst (build_graph es) b of None \<Rightarrow> [] | Some ns \<Rightarrow> ns) =
        map snd (filter (\<lambda>e. fst e = b) es))"
proof (induction es rule: rev_induct)
  case Nil
  show ?case by (simp add: build_graph_def degrees_def nodes_def)
next
  case (snoc e es)
  obtain b a where e: "e = (b, a)" by (cases e)
  obtain adj ind where g: "build_graph es = (adj, ind)" by fastforce
  let ?E = "set es"
  from snoc g have ok: "bt_ok ind" and deg: "\<And>n. bt_get ind n = then_some (n \<in> nodes ?E) (card (preds ?E n))"
    and adj: "\<And>c. (case adj c of None \<Rightarrow> [] | Some ns \<Rightarrow> ns) = map snd (filter (\<lambda>e. fst e = c) es)"
    by (simp_all add: degrees_def)
  let ?ind = "bt_modify a Suc (bt_or_insert a 0 (bt_or_insert b 0 ind))"
  have new: "b \<notin> preds ?E a" using snoc.prems by (auto simp: preds_def e)
  have empty: "card (preds ?E n) = 0" if "n \<notin> nodes ?E" for n
  proof -
    have "preds ?E n = {}" using that by (force simp: preds_def nodes_def)
    then show ?thesis by simp
  qed
  have "bt_get ?ind n = then_some (n \<in> nodes (set (es @ [e]))) (card (preds (set (es @ [e])) n))" for n
    using ok deg [of n] deg [of a] deg [of b] new empty [of n] empty [of a] finite_preds [of ?E a]
    by (auto simp: bt_get_modify bt_or_insert_get e preds_insert nodes_def then_some_def)
  moreover have "bt_ok ?ind"
    using ok by (simp add: bt_ok_def [of "bt_modify a Suc _"]) (simp add: bt_ok_def [symmetric])
  ultimately show ?case
    using adj ok by (auto simp: build_graph_snoc g add_edge_def e degrees_def Let_def bt_ok_distinct)
qed

section \<open>The loop computes a topological order of what it visits\<close>

lemma relax_correct:
  assumes "distinct ns" "\<And>n. n \<in> set ns \<Longrightarrow> \<exists>d > 0. bt_get ind n = Some d" "distinct (map fst ind)"
  shows "\<exists>ind'. relax ns queue ind = Some (queue @ filter (\<lambda>n. bt_get ind n = Some 1) ns, ind') \<and>
    map fst ind' = map fst ind \<and>
    (\<forall>n. bt_get ind' n = (if n \<in> set ns then map_option (\<lambda>d. d - 1) (bt_get ind n) else bt_get ind n))"
  using assms
proof (induction ns arbitrary: queue ind)
  case Nil
  then show ?case by simp
next
  case (Cons a ns)
  from Cons.prems(2) [of a] obtain d where d: "bt_get ind a = Some d" "0 < d" by auto
  let ?ind = "bt_modify a (\<lambda>d. d - 1) ind"
  let ?queue = "if d - 1 = 0 then queue @ [a] else queue"
  have get: "bt_get ?ind n = bt_get ind n" if "n \<in> set ns" for n
    using that Cons.prems(1) by (auto simp: bt_get_modify)
  have "\<exists>ind'. relax ns ?queue ?ind = Some (?queue @ filter (\<lambda>n. bt_get ?ind n = Some 1) ns, ind') \<and>
      map fst ind' = map fst ?ind \<and> (\<forall>n. bt_get ind' n =
        (if n \<in> set ns then map_option (\<lambda>d. d - 1) (bt_get ?ind n) else bt_get ?ind n))"
    by (rule Cons.IH) (use Cons.prems get in auto)
  then obtain ind' where ind': "relax ns ?queue ?ind =
      Some (?queue @ filter (\<lambda>n. bt_get ?ind n = Some 1) ns, ind')"
    "map fst ind' = map fst ind" "\<forall>n. bt_get ind' n =
        (if n \<in> set ns then map_option (\<lambda>d. d - 1) (bt_get ?ind n) else bt_get ?ind n)"
    by auto
  have "filter (\<lambda>n. bt_get ?ind n = Some 1) ns = filter (\<lambda>n. bt_get ind n = Some 1) ns"
    by (rule filter_cong [OF refl]) (simp only: get)
  moreover have "d = 1 \<longleftrightarrow> d - 1 = 0" using d(2) by auto
  moreover have "bt_get ind' n = (if n \<in> set (a # ns)
      then map_option (\<lambda>d. d - 1) (bt_get ind n) else bt_get ind n)" for n
    using ind'(3) Cons.prems(1) by (auto simp: bt_get_modify)
  ultimately show ?case using d ind'(1,2) by (intro exI [of _ ind']) (auto simp: split: if_splits)
qed

fun topological :: "edge set \<Rightarrow> string list \<Rightarrow> bool" where
  "topological E [] = True"
| "topological E (x # V) = (preds E x \<subseteq> set V \<and> topological E V)"

definition kahn_inv :: "edge set \<Rightarrow> string list \<Rightarrow> string list \<Rightarrow> indegrees \<Rightarrow> bool" where
  "kahn_inv E V queue ind \<longleftrightarrow>
     degrees E (set V) ind \<and> distinct (V @ queue) \<and> topological E V \<and>
     set (V @ queue) = {n \<in> nodes E. preds E n \<subseteq> set V}"

lemma degree_zero:
  assumes "finite E" "degrees E V ind"
  shows "bt_get ind n = Some 0 \<longleftrightarrow> n \<in> nodes E \<and> preds E n \<subseteq> V"
  using assms finite_preds [OF assms(1), of n] by (auto simp: degrees_def)

lemma kahn_step:
  assumes E: "finite E" and inv: "kahn_inv E V (x # queue) ind"
    and adj: "distinct ns" "set ns = {n. (x, n) \<in> E}"
  shows "\<exists>queue' ind'. relax ns queue ind = Some (queue', ind') \<and> kahn_inv E (x # V) queue' ind' \<and>
    length ind' = length ind"
proof -
  have deg: "degrees E (set V) ind" and dist: "distinct (V @ x # queue)"
    and seen: "set (V @ x # queue) = {n \<in> nodes E. preds E n \<subseteq> set V}"
    using inv by (simp_all add: kahn_inv_def)
  have get: "bt_get ind n = then_some (n \<in> nodes E) (card (preds E n - set V))" for n
    using deg by (simp add: degrees_def)
  have node: "n \<in> nodes E" "x \<in> preds E n" if "n \<in> set ns" for n
    using that adj(2) by (force simp: nodes_def preds_def)+
  have card_drop: "card (preds E n - set V) = Suc (card (preds E n - set (x # V)))" if "n \<in> set ns" for n
  proof -
    have "x \<notin> set V" using dist by simp
    with node(2) [OF that] have "preds E n - set V = insert x (preds E n - set (x # V))" by auto
    moreover have "card (insert x (preds E n - set (x # V))) = Suc (card (preds E n - set (x # V)))"
      using finite_preds [OF E, of n] by (intro card_insert_disjoint) simp_all
    ultimately show ?thesis by (rule ssubst)
  qed
  have keep: "preds E n - set V = preds E n - set (x # V)" if "n \<notin> set ns" for n
    using that adj(2) by (auto simp: preds_def)
  have "\<exists>ind'. relax ns queue ind = Some (queue @ filter (\<lambda>n. bt_get ind n = Some 1) ns, ind') \<and>
      map fst ind' = map fst ind \<and> (\<forall>n. bt_get ind' n =
        (if n \<in> set ns then map_option (\<lambda>d. d - 1) (bt_get ind n) else bt_get ind n))"
    using adj(1) deg node by (intro relax_correct) (auto simp: get card_drop degrees_def)
  then obtain ind' where ind': "relax ns queue ind =
      Some (queue @ filter (\<lambda>n. bt_get ind n = Some 1) ns, ind')"
    "map fst ind' = map fst ind" "\<And>n. bt_get ind' n =
      (if n \<in> set ns then map_option (\<lambda>d. d - 1) (bt_get ind n) else bt_get ind n)" by blast
  let ?new = "filter (\<lambda>n. bt_get ind n = Some 1) ns"
  have deg': "degrees E (set (x # V)) ind'"
    unfolding degrees_def
  proof
    show "distinct (map fst ind')" using ind'(2) deg by (simp add: degrees_def)
    show "\<forall>n. bt_get ind' n = then_some (n \<in> nodes E) (card (preds E n - set (x # V)))"
    proof
      fix n
      show "bt_get ind' n = then_some (n \<in> nodes E) (card (preds E n - set (x # V)))"
      proof (cases "n \<in> set ns")
        case True
        then show ?thesis by (simp only: ind'(3) get card_drop node then_some_simps) simp
      next
        case False
        then show ?thesis by (simp only: ind'(3) get keep [OF False] if_False)
      qed
    qed
  qed
  have new: "n \<in> set ?new \<longleftrightarrow> n \<in> set ns \<and> preds E n \<subseteq> set (x # V)" for n
    using finite_preds [OF E, of n] node [of n] card_drop [of n] by (auto simp: get)
  have notin: "n \<notin> set (V @ x # queue)" if "n \<in> set ns" for n
  proof
    assume "n \<in> set (V @ x # queue)"
    with seen have "preds E n \<subseteq> set V" by blast
    with node(2) [OF that] dist show False by auto
  qed
  have "distinct ((x # V) @ queue @ ?new)"
    using dist adj(1) notin by (auto simp: new)
  moreover have "set ((x # V) @ queue @ ?new) = {n \<in> nodes E. preds E n \<subseteq> set (x # V)}"
  proof (intro set_eqI iffI)
    fix n assume "n \<in> set ((x # V) @ queue @ ?new)"
    then consider "n \<in> set (V @ x # queue)" | "n \<in> set ?new" by auto
    then show "n \<in> {n \<in> nodes E. preds E n \<subseteq> set (x # V)}"
      using seen new node(1) by cases auto
  next
    fix n assume n: "n \<in> {n \<in> nodes E. preds E n \<subseteq> set (x # V)}"
    show "n \<in> set ((x # V) @ queue @ ?new)"
    proof (cases "n \<in> set ns")
      case True
      with n new show ?thesis by simp
    next
      case False
      with n keep [OF False] have "n \<in> {n \<in> nodes E. preds E n \<subseteq> set V}" by blast
      with seen show ?thesis by auto
    qed
  qed
  moreover have "topological E (x # V)" using inv seen by (auto simp: kahn_inv_def)
  ultimately have "kahn_inv E (x # V) (queue @ ?new) ind'" using deg' by (simp add: kahn_inv_def)
  moreover have "length ind' = length ind" using arg_cong [OF ind'(2), of length] by simp
  ultimately show ?thesis using ind'(1) by blast
qed

lemma kahn_correct:
  assumes "finite E" "kahn_inv E V queue ind"
    and "\<And>b. distinct (case adj b of None \<Rightarrow> [] | Some ns \<Rightarrow> ns)"
    and "\<And>b. set (case adj b of None \<Rightarrow> [] | Some ns \<Rightarrow> ns) = {n. (b, n) \<in> E}"
  shows "\<exists>V' ind'. kahn adj queue ind (length V) = Some (length V', ind') \<and> kahn_inv E V' [] ind' \<and>
    length ind' = length ind"
  using assms(2)
proof (induction "length queue + positive ind" arbitrary: V queue ind rule: less_induct)
  case less
  show ?case
  proof (cases queue)
    case Nil
    with less.prems show ?thesis by auto
  next
    case (Cons x rest)
    let ?ns = "case adj x of None \<Rightarrow> [] | Some ns \<Rightarrow> ns"
    from kahn_step [OF assms(1) _ assms(3,4), of V x rest ind] less.prems Cons
    obtain queue' ind' where st: "relax ?ns rest ind = Some (queue', ind')"
      "kahn_inv E (x # V) queue' ind'" "length ind' = length ind" by auto
    from relax_measure [OF st(1)] Cons have "length queue' + positive ind' < length queue + positive ind"
      by simp
    from less.hyps [OF this st(2)] st(1,3) Cons show ?thesis by auto
  qed
qed

section \<open>Cycle detection is exact\<close>

lemma topological_acyclic:
  assumes "topological E V" "distinct V" "nodes E \<subseteq> set V"
  shows "acyclic E"
proof -
  have edge: "\<exists>us vs. V = us @ b # vs \<and> a \<in> set vs" if "(a, b) \<in> E" "b \<in> set V" "topological E V" for a b V
    using that
  proof (induction V)
    case Nil
    then show ?case by simp
  next
    case (Cons x V)
    show ?case
    proof (cases "x = b")
      case True
      with Cons.prems show ?thesis
        by (intro exI [of _ "[]"] exI [of _ V]) (auto simp: preds_def)
    next
      case False
      with Cons obtain us vs where "V = us @ b # vs" "a \<in> set vs" by auto
      then show ?thesis by (intro exI [of _ "x # us"] exI [of _ vs]) simp
    qed
  qed
  let ?after = "\<lambda>a. length (takeWhile (\<lambda>y. y \<noteq> a) V)"
  have "?after b < ?after a" if "(a, b) \<in> E" for a b
  proof -
    have "b \<in> set V" using that assms(3) by (force simp: nodes_def)
    from edge [OF that this assms(1)] obtain us vs where V: "V = us @ b # vs" "a \<in> set vs" by blast
    with assms(2) have ab: "\<And>y. y \<in> set us \<Longrightarrow> y \<noteq> b" "\<And>y. y \<in> set us \<Longrightarrow> y \<noteq> a" "a \<noteq> b" by auto
    from takeWhile_append2 [of us "\<lambda>y. y \<noteq> b" "b # vs"] takeWhile_append2 [of us "\<lambda>y. y \<noteq> a" "b # vs"]
    show ?thesis using ab by (simp add: V(1))
  qed
  then have "E\<inverse> \<subseteq> measure ?after" by (intro subrelI) (simp only: converse_iff in_measure)
  then have "wf (E\<inverse>)" by (rule wf_subset [OF wf_measure])
  from wf_acyclic [OF this] show ?thesis by (simp only: acyclic_converse)
qed

lemma stuck_cyclic:
  assumes "finite E" "S \<noteq> {}" "S \<subseteq> nodes E" "\<And>n. n \<in> S \<Longrightarrow> preds E n \<inter> S \<noteq> {}"
  shows "\<not> acyclic E"
proof
  assume "acyclic E"
  with assms(1) have "wf E" by (rule finite_acyclic_wf)
  then obtain m where "m \<in> S" "\<And>y. (y, m) \<in> E \<Longrightarrow> y \<notin> S" using assms(2) by (metis wf_eq_minimal ex_in_conv)
  with assms(4) [of m] show False by (auto simp: preds_def)
qed

lemma kahn_final:
  assumes "finite E" "kahn_inv E V [] ind"
  shows "length V = length ind \<longleftrightarrow> acyclic E"
proof -
  have keys: "fst ` set ind = nodes E"
  proof -
    have "n \<in> fst ` set ind \<longleftrightarrow> n \<in> nodes E" for n
      using assms(2) bt_get_None_iff [of ind n] by (auto simp: kahn_inv_def degrees_def)
    then show ?thesis by blast
  qed
  have V: "set V = {n \<in> nodes E. preds E n \<subseteq> set V}" "distinct V" "topological E V"
    "distinct (map fst ind)" using assms(2) by (auto simp: kahn_inv_def degrees_def)
  have len: "length ind = card (nodes E)" "length V = card (set V)"
    using V(2,4) keys by (metis distinct_card length_map list.set_map, simp add: distinct_card)
  have fin: "finite (nodes E)" using assms(1) by (simp add: nodes_def)
  show ?thesis
  proof (cases "set V = nodes E")
    case True
    with len V(2,3) show ?thesis by (simp add: topological_acyclic)
  next
    case False
    have "set V \<subset> nodes E" using False V(1) by blast
    then have "card (set V) < card (nodes E)" by (rule psubset_card_mono [OF fin])
    moreover have "\<not> acyclic E"
    proof (rule stuck_cyclic [OF assms(1), of "nodes E - set V"])
      show "nodes E - set V \<noteq> {}" using \<open>set V \<subset> nodes E\<close> by blast
      show "preds E n \<inter> (nodes E - set V) \<noteq> {}" if "n \<in> nodes E - set V" for n
      proof -
        have "\<not> preds E n \<subseteq> set V" using that V(1) by blast
        then obtain u where "u \<in> preds E n" "u \<notin> set V" by blast
        moreover then have "u \<in> nodes E" by (force simp: preds_def nodes_def)
        ultimately show ?thesis by blast
      qed
    qed simp
    ultimately show ?thesis using len by simp
  qed
qed

definition active_relation :: "string list \<Rightarrow> middleware_order_policy \<Rightarrow> edge set" where
  "active_relation names p =
     set (map (\<lambda>r. (mr_before r, mr_after r))
       (filter (\<lambda>r. valid_order_rule r \<and> mr_before r \<in> set names \<and> mr_after r \<in> set names)
         (mp_rules p)))"

lemma set_active_edges:
  "hash_order pe \<Longrightarrow> set (active_edges pe names p) = active_relation names p \<and>
     distinct (active_edges pe names p)"
  by (auto simp: hash_order_def active_edges_def active_relation_def)

lemma kahn_run:
  assumes "hash_order pn" "distinct es" "build_graph es = (adj, ind)"
  shows "\<exists>visited ind'. kahn adj (pn (map fst (filter (\<lambda>e. snd e = 0) ind))) ind 0 = Some (visited, ind') \<and>
    (visited = length ind' \<longleftrightarrow> acyclic (set es))"
proof -
  let ?queue = "pn (map fst (filter (\<lambda>e. snd e = 0) ind))"
  have g: "bt_ok ind" "degrees (set es) {} ind"
    "\<And>b. (case adj b of None \<Rightarrow> [] | Some ns \<Rightarrow> ns) = map snd (filter (\<lambda>e. fst e = b) es)"
    using build_graph_correct [OF assms(2)] assms(3) by simp_all
  have q: "set ?queue = fst ` {e \<in> set ind. snd e = 0}" "distinct ?queue"
    using assms(1) unfolding hash_order_def by auto
  have "n \<in> set ?queue \<longleftrightarrow> bt_get ind n = Some 0" for n
    unfolding q(1) bt_get_iff [OF g(1)] by force
  then have "n \<in> set ?queue \<longleftrightarrow> n \<in> nodes (set es) \<and> preds (set es) n \<subseteq> {}" for n
    using degree_zero [OF _ g(2), of n] by simp
  then have "kahn_inv (set es) [] ?queue ind" using g(2) q(2) by (auto simp: kahn_inv_def)
  moreover have "distinct (case adj b of None \<Rightarrow> [] | Some ns \<Rightarrow> ns)" for b
    unfolding g(3) using assms(2) by (auto simp: distinct_map inj_on_def)
  moreover have "set (case adj b of None \<Rightarrow> [] | Some ns \<Rightarrow> ns) = {n. (b, n) \<in> set es}" for b
    unfolding g(3) by force
  ultimately obtain V' ind' where "kahn adj ?queue ind (length []) = Some (length V', ind')"
    "kahn_inv (set es) V' [] ind'"
    using kahn_correct [of "set es" "[]" ?queue ind adj] by auto
  with kahn_final [of "set es" V' ind'] show ?thesis by auto
qed

lemma cycle_exact:
  assumes "hash_order pe" and "hash_order pn"
  shows "(\<exists>r. active_order_cycle_issue pe pn dbg names p = Some r) \<and>
    (active_order_cycle_issue pe pn dbg names p = Some None \<longleftrightarrow> acyclic (active_relation names p))"
proof (cases "active_edges pe names p = []")
  case True
  with set_active_edges [OF assms(1), of names p] have "active_relation names p = {}" by simp
  with True show ?thesis by (simp add: active_order_cycle_issue_def acyclic_def)
next
  case False
  obtain adj ind where g: "build_graph (active_edges pe names p) = (adj, ind)" by fastforce
  from kahn_run [OF assms(2) _ g] set_active_edges [OF assms(1), of names p] False g
  show ?thesis by (auto simp: active_order_cycle_issue_def Let_def)
qed

text \<open>
  C11. The cycle check never panics and, whatever the iteration order of the hash tables, reports a
  cycle exactly when the active ordering rules (well formed, both stages present) have one.
\<close>

theorem cycle_detection_exact:
  assumes "hash_order pe" and "hash_order pn"
  shows "(\<exists>r. active_order_cycle_issue pe pn dbg names p = Some r) \<and>
    (active_order_cycle_issue pe pn dbg names p = Some None \<longleftrightarrow> acyclic (active_relation names p))"
  by (rule cycle_exact [OF assms])

definition sample_cycle :: middleware_order_policy where
  "sample_cycle = policy_rule (policy_rule policy_new (rule_before ''a'' ''b'' ''r1'' ''m''))
     (rule_before ''b'' ''a'' ''r2'' ''m'')"

lemma hash_order_remdups: "hash_order remdups"
  by (simp add: hash_order_def)

lemma not_blank_ascii:
  "\<not> blank ''a''" "\<not> blank ''b''" "\<not> blank ''m''" "\<not> blank ''r1''" "\<not> blank ''r2''"
  by (simp_all add: blank_def trim_visible visible_def)

theorem cycle_detection_exact_witness:
  "active_order_cycle_issue remdups remdups id [''a'', ''b''] sample_cycle \<noteq> Some None \<and>
   active_order_cycle_issue remdups remdups id [''a''] sample_cycle = Some None"
proof -
  have r: "active_relation [''a'', ''b''] sample_cycle = {(''a'', ''b''), (''b'', ''a'')}"
    "active_relation [''a''] sample_cycle = {}"
    using not_blank_ascii
    by (auto simp: active_relation_def sample_cycle_def policy_rule_def policy_new_def
        rule_before_def valid_order_rule_def)
  have "(''a'', ''a'') \<in> {(''a'', ''b''), (''b'', ''a'')}\<^sup>+"
    by (rule trancl_into_trancl [of _ "''b''"]) auto
  then have "\<not> acyclic {(''a'', ''b''), (''b'', ''a'')}" by (auto simp: acyclic_def)
  with r cycle_detection_exact [OF hash_order_remdups hash_order_remdups, of id]
  show ?thesis by (simp add: acyclic_def)
qed

section \<open>What a policy accepts\<close>

definition policy_well_formed :: "middleware_order_policy \<Rightarrow> bool" where
  "policy_well_formed p \<longleftrightarrow>
     list_all (\<lambda>s. \<not> blank s) (mp_required p @ mp_forbidden p @ mp_unique p @ opt_list (mp_first p)) \<and>
     list_all valid_order_rule (mp_rules p) \<and>
     set (mp_required p @ opt_list (mp_first p)) \<inter> set (mp_forbidden p) = {}"

text \<open>Every occurrence of one stage stands before every occurrence of the other.\<close>

definition all_before :: "string list \<Rightarrow> string \<Rightarrow> string \<Rightarrow> bool" where
  "all_before names b a \<longleftrightarrow>
     (\<forall>i < length names. \<forall>j < length names. names ! i = b \<longrightarrow> names ! j = a \<longrightarrow> i < j)"

definition rule_holds :: "string list \<Rightarrow> middleware_ordering_rule \<Rightarrow> bool" where
  "rule_holds names r \<longleftrightarrow> all_before names (mr_before r) (mr_after r) \<and>
     (mr_require_both r \<longrightarrow> mr_before r \<in> set names \<and> mr_after r \<in> set names)"

definition satisfies :: "string list \<Rightarrow> middleware_order_policy \<Rightarrow> bool" where
  "satisfies names p \<longleftrightarrow>
     set (mp_required p) \<subseteq> set names \<and> set (mp_forbidden p) \<inter> set names = {} \<and>
     list_all (\<lambda>s. count_list names s \<le> 1) (mp_unique p) \<and>
     (case mp_first p of None \<Rightarrow> True | Some f \<Rightarrow> names \<noteq> [] \<and> hd names = f) \<and>
     list_all (rule_holds names) (mp_rules p)"

lemma map_filter_Nil: "List.map_filter f xs = [] \<longleftrightarrow> list_all (\<lambda>x. f x = None) xs"
  by (induction xs) (auto simp: List.map_filter_simps split: option.splits)

lemma contradictory_stages_empty:
  "contradictory_stages p = [] \<longleftrightarrow>
     (\<forall>s \<in> set (mp_required p @ opt_list (mp_first p)). \<not> blank s \<longrightarrow> s \<notin> set (mp_forbidden p))"
proof -
  have "set (contradictory_stages p) = {s \<in> set (mp_required p @ opt_list (mp_first p)).
      \<not> blank s \<and> s \<in> set (mp_forbidden p)}"
    by (cases "mp_first p") (auto simp: contradictory_stages_def Let_def opt_filter_def)
  then have "contradictory_stages p = [] \<longleftrightarrow> {s \<in> set (mp_required p @ opt_list (mp_first p)).
      \<not> blank s \<and> s \<in> set (mp_forbidden p)} = {}" by (metis set_empty)
  then show ?thesis by blast
qed

lemma validate_policy_shape_empty:
  "validate_policy_shape dbg p = [] \<longleftrightarrow> policy_well_formed p"
  by (cases "mp_first p")
    (auto simp: validate_policy_shape_def policy_well_formed_def map_filter_Nil
      contradictory_stages_empty list_all_iff)

text \<open>The indices of a name, ascending.\<close>

definition indices :: "string list \<Rightarrow> string \<Rightarrow> nat list" where
  "indices names name = filter (\<lambda>i. names ! i = name) [0..<length names]"

lemma enum_list_snoc: "enum_list (xs @ [x]) = enum_list xs @ [(length xs, x)]"
  by (simp add: enum_list_def)

lemma indices_snoc:
  "indices (names @ [n]) name = indices names name @ (if n = name then [length names] else [])"
proof -
  have "filter (\<lambda>i. (names @ [n]) ! i = name) [0..<length names] =
      filter (\<lambda>i. names ! i = name) [0..<length names]"
    by (rule filter_cong) (simp_all add: nth_append)
  then show ?thesis by (simp add: indices_def nth_append)
qed

lemma positions_of_indices:
  "positions_of names name = (if name \<in> set names then Some (indices names name) else None)"
proof (induction names rule: rev_induct)
  case Nil
  show ?case by (simp add: positions_of_def enum_list_def)
next
  case (snoc n names)
  have empty: "indices names n = []" if "n \<notin> set names"
    using that by (auto simp: indices_def filter_empty_conv)
  have "positions_of (names @ [n]) =
      (positions_of names)(n \<mapsto> (case positions_of names n of None \<Rightarrow> [] | Some is \<Rightarrow> is) @ [length names])"
    by (simp add: positions_of_def enum_list_snoc)
  with snoc empty show ?case by (auto simp: indices_snoc fun_upd_def)
qed

lemma set_indices: "set (indices names name) = {i. i < length names \<and> names ! i = name}"
  by (auto simp: indices_def)

lemma indices_sorted: "sorted (indices names name)"
  by (simp add: indices_def sorted_wrt_filter)

lemma indices_Nil: "indices names name = [] \<longleftrightarrow> name \<notin> set names"
  by (auto simp: indices_def filter_empty_conv in_set_conv_nth)

lemma length_indices: "length (indices names name) = count_list names name"
proof (induction names rule: rev_induct)
  case Nil
  show ?case by (simp add: indices_def)
next
  case (snoc n names)
  then show ?case by (simp add: indices_snoc)
qed

lemma last_less_hd:
  assumes "sorted xs" "sorted ys" "xs \<noteq> []" "ys \<noteq> []"
  shows "last xs < hd ys \<longleftrightarrow> (\<forall>x \<in> set xs. \<forall>y \<in> set ys. x < (y :: nat))"
proof
  assume lt: "last xs < hd ys"
  have "x \<le> last xs" if "x \<in> set xs" for x
    using that assms(1,3) by (metis append_butlast_last_id in_set_conv_nth last_conv_nth
        length_pos_if_in_set less_Suc_eq_le Suc_pred' sorted_nth_mono diff_less zero_less_one)
  moreover have "hd ys \<le> y" if "y \<in> set ys" for y
    using that assms(2,4) by (cases ys) auto
  ultimately show "\<forall>x \<in> set xs. \<forall>y \<in> set ys. x < y" using lt by fastforce
qed (use assms in auto)

lemma rule_issue_None: "rule_issue (positions_of names) r = None \<longleftrightarrow> rule_holds names r"
proof (cases "mr_before r \<in> set names \<and> mr_after r \<in> set names")
  case True
  let ?b = "indices names (mr_before r)" and ?a = "indices names (mr_after r)"
  from True have ne: "?b \<noteq> []" "?a \<noteq> []" by (simp_all add: indices_Nil)
  have "rule_issue (positions_of names) r = None \<longleftrightarrow> last ?b < hd ?a"
    using True ne by (simp add: rule_issue_def positions_of_indices Let_def)
  also have "\<dots> \<longleftrightarrow> all_before names (mr_before r) (mr_after r)"
    unfolding last_less_hd [OF indices_sorted indices_sorted ne] by (auto simp: set_indices all_before_def)
  finally show ?thesis using True by (simp add: rule_holds_def)
next
  case False
  then have "all_before names (mr_before r) (mr_after r)" unfolding all_before_def by (metis nth_mem)
  with False show ?thesis
    by (auto simp: rule_issue_def positions_of_indices rule_holds_def indices_Nil Let_def
        split: option.splits)
qed

lemma satisfied_rules_acyclic:
  assumes "list_all (rule_holds names) (mp_rules p)"
  shows "acyclic (active_relation names p)"
proof -
  let ?pos = "\<lambda>s. LEAST i. i < length names \<and> names ! i = s"
  have "?pos b < ?pos a" if "(b, a) \<in> active_relation names p" for a b
  proof -
    from that assms have ab: "all_before names b a" "b \<in> set names" "a \<in> set names"
      by (auto simp: active_relation_def list_all_iff rule_holds_def)
    have "?pos s < length names \<and> names ! ?pos s = s" if "s \<in> set names" for s
    proof -
      from that obtain i where "i < length names \<and> names ! i = s" by (auto simp: in_set_conv_nth)
      then show ?thesis by (rule LeastI)
    qed
    with ab show ?thesis unfolding all_before_def by blast
  qed
  then have "active_relation names p \<subseteq> measure ?pos" by auto
  then show ?thesis by (intro wf_acyclic wf_subset [OF wf_measure])
qed

lemma consumer_accepts:
  assumes "hash_order pe" and "hash_order pn"
  shows "validate_consumer_middleware_order pe pn dbg names p = Some [] \<longleftrightarrow>
    policy_well_formed p \<and> satisfies names p"
proof (cases "policy_well_formed p")
  case False
  then show ?thesis
    by (auto simp: validate_consumer_middleware_order_def Let_def validate_policy_shape_empty
        split: option.splits)
next
  case True
  then have nb: "list_all (\<lambda>s. \<not> blank s) (mp_required p)" "list_all (\<lambda>s. \<not> blank s) (mp_forbidden p)"
    "list_all (\<lambda>s. \<not> blank s) (mp_unique p)" "\<And>f. mp_first p = Some f \<Longrightarrow> \<not> blank f"
    "list_all valid_order_rule (mp_rules p)"
    by (auto simp: policy_well_formed_def)
  then have keep: "filter (\<lambda>s. \<not> blank s) (mp_required p) = mp_required p"
    "filter (\<lambda>s. \<not> blank s) (mp_forbidden p) = mp_forbidden p"
    "filter (\<lambda>s. \<not> blank s) (mp_unique p) = mp_unique p"
    "filter valid_order_rule (mp_rules p) = mp_rules p"
    "opt_filter (\<lambda>s. \<not> blank s) (mp_first p) = mp_first p"
    by (auto simp: list_all_iff filter_id_conv opt_filter_def split: option.splits)
  obtain c where c: "active_order_cycle_issue pe pn dbg names p = Some c"
    "c = None \<longleftrightarrow> acyclic (active_relation names p)"
    using cycle_exact [OF assms, of dbg names p] by auto
  have shape: "validate_policy_shape dbg p = []" using True by (simp add: validate_policy_shape_empty)
  have first: "Option.bind (mp_first p) (\<lambda>stage. then_some
      ((case names of [] \<Rightarrow> None | n # _ \<Rightarrow> Some n) \<noteq> Some stage) (issue stage)) = None \<longleftrightarrow>
      (case mp_first p of None \<Rightarrow> True | Some f \<Rightarrow> names \<noteq> [] \<and> hd names = f)"
    for issue :: "string \<Rightarrow> middleware_order_issue"
    by (cases "mp_first p"; cases names) auto
  have unique: "(case positions_of names s of None \<Rightarrow> False | Some is \<Rightarrow> 1 < length is) \<longleftrightarrow>
      \<not> count_list names s \<le> 1" for s
    by (auto simp: positions_of_indices length_indices count_list_0_iff)
  have "validate_consumer_middleware_order pe pn dbg names p = Some [] \<longleftrightarrow> satisfies names p \<and> c = None"
    unfolding validate_consumer_middleware_order_def Let_def keep c(1) shape option.case append_Nil
      option.inject append_is_Nil_conv opt_list_simps(4) first unique map_filter_Nil satisfies_def
      rule_issue_None
    by (auto simp: list_all_iff)
  moreover have "satisfies names p \<Longrightarrow> c = None"
    using satisfied_rules_acyclic [of names p] c(2) by (simp add: satisfies_def)
  ultimately show ?thesis using True by blast
qed

text \<open>
  A policy raises no issue on a sequence of stages exactly when it is well formed (no blank
  name, no malformed rule, nothing both wanted and forbidden) and the sequence satisfies it: the
  required stages are there, the forbidden ones are not, the unique ones occur at most once, the
  first one is first, and for each rule every occurrence of the earlier stage precedes every
  occurrence of the later one. In particular the empty policy accepts every sequence.
\<close>

theorem consumer_validation_exact:
  assumes "hash_order pe" and "hash_order pn"
  shows "validate_consumer_middleware_order pe pn dbg names p = Some [] \<longleftrightarrow>
    policy_well_formed p \<and> satisfies names p"
  by (rule consumer_accepts [OF assms])

definition sample_policy :: middleware_order_policy where
  "sample_policy = policy_rule (policy_require policy_new ''b'') (rule_before ''a'' ''b'' ''r1'' ''m'')"

theorem consumer_validation_exact_witness:
  "validate_consumer_middleware_order remdups remdups id [''a'', ''b''] sample_policy = Some [] \<and>
   validate_consumer_middleware_order remdups remdups id [''b'', ''a''] sample_policy \<noteq> Some [] \<and>
   validate_consumer_middleware_order remdups remdups id [''b'', ''a''] policy_new = Some []"
proof -
  have "policy_well_formed sample_policy" "policy_well_formed policy_new"
    using not_blank_ascii by (simp_all add: policy_well_formed_def sample_policy_def policy_rule_def
        policy_require_def policy_new_def rule_before_def valid_order_rule_def)
  moreover have "satisfies [''a'', ''b''] sample_policy" "satisfies [''b'', ''a''] policy_new"
    "\<not> satisfies [''b'', ''a''] sample_policy"
    by (auto simp: satisfies_def sample_policy_def policy_rule_def policy_require_def policy_new_def
        rule_before_def rule_holds_def all_before_def less_Suc_eq)
  ultimately show ?thesis
    using consumer_validation_exact [OF hash_order_remdups hash_order_remdups, of id] by simp
qed

text \<open>
  A running pipeline is accepted by its plan exactly when its stages are the declared ones, none
  of them blank, and the plan's policy accepts them.
\<close>

theorem runtime_plan_exact:
  assumes "hash_order pe" and "hash_order pn"
  shows "validate_runtime_middleware_plan pe pn dbg actual plan = Some [] \<longleftrightarrow>
    actual = cp_stages plan \<and> list_all (\<lambda>s. \<not> blank s) actual \<and>
    policy_well_formed (cp_policy plan) \<and> satisfies actual (cp_policy plan)"
  using consumer_accepts [OF assms, of dbg actual "cp_policy plan"]
  by (auto simp: validate_runtime_middleware_plan_def validate_plan_shape_def map_filter_Nil)

theorem runtime_plan_exact_witness:
  "validate_runtime_middleware_plan remdups remdups id [''a'', ''b'']
     (plan_with_policy (plan_stage (plan_stage plan_new ''a'') ''b'') policy_new) = Some [] \<and>
   validate_runtime_middleware_plan remdups remdups id [''b'']
     (plan_with_policy (plan_stage (plan_stage plan_new ''a'') ''b'') policy_new) \<noteq> Some []"
  using runtime_plan_exact [OF hash_order_remdups hash_order_remdups, of id] not_blank_ascii
  by (auto simp: plan_with_policy_def plan_stage_def plan_new_def policy_new_def
      policy_well_formed_def satisfies_def)

end
