(* ===== verification/Security.thy ===== *)
theory Security
  imports Header_Admission
begin

text \<open>
  The security stages: CORS and CSRF of \<^verbatim>\<open>src/src/rust/src/security.rs\<close>, and Fetch Metadata
  of \<^verbatim>\<open>src/src/rust/src/hardening.rs\<close>. A stage is the pair of its hooks as a
  \<open>stage_handler\<close>; none of the three touches the world. A \<open>BTreeSet\<close> is the ascending list of its
  elements.

  The locale \<open>gate_stage\<close> is the contract the three share: a gate either hands on exactly the input
  it received, and then its condition holds, or it ends the request phase.
\<close>

section \<open>CORS\<close>

record cors_policy =
  co_allowed_origins :: "string list"
  co_allowed_methods :: "string list"
  co_allowed_headers :: "string list"
  co_allow_credentials :: bool
  co_max_age_seconds :: "u64 option"

definition origin_allowed :: "cors_policy \<Rightarrow> string \<Rightarrow> bool" where
  "origin_allowed p origin \<longleftrightarrow> origin \<in> set (co_allowed_origins p)"

definition method_allowed :: "cors_policy \<Rightarrow> string \<Rightarrow> bool" where
  "method_allowed p m \<longleftrightarrow> list_ex (\<lambda>a. eq_ignore_ascii_case a m) (co_allowed_methods p)"

definition header_allowed :: "cors_policy \<Rightarrow> string \<Rightarrow> bool" where
  "header_allowed p h \<longleftrightarrow> list_ex (\<lambda>a. eq_ignore_ascii_case a h) (co_allowed_headers p)"

definition parse_comma_list :: "string \<Rightarrow> string list" where
  "parse_comma_list v =
     map to_ascii_lowercase (filter (\<lambda>s. s \<noteq> []) (map trim (split_on (CHR '','') v)))"

definition merge_vary :: "headers \<Rightarrow> string list \<Rightarrow> headers" where
  "merge_vary hs names =
     (let existing = (case bt_get hs ''vary'' of
            Some v \<Rightarrow> bt_collect (map (\<lambda>s. (to_ascii_lowercase s, s))
              (filter (\<lambda>s. s \<noteq> []) (map trim (split_on (CHR '','') v))))
          | None \<Rightarrow> []);
          values = foldl (\<lambda>m name. bt_or_insert (to_ascii_lowercase name) name m) existing names
      in if values \<noteq> [] then bt_insert ''vary'' (join_with '', '' (map snd values)) hs else hs)"

definition apply_cors_headers :: "cors_policy \<Rightarrow> string \<Rightarrow> headers \<Rightarrow> headers" where
  "apply_cors_headers p origin hs =
     (let hs = bt_insert ''access-control-allow-origin'' origin hs;
          hs = (if co_allow_credentials p
                then bt_insert ''access-control-allow-credentials'' ''true'' hs else hs)
      in merge_vary hs [''origin''])"

definition cors_preflight_response :: "cors_policy \<Rightarrow> string \<Rightarrow> stage_response" where
  "cors_preflight_response p origin =
     (let response = response_empty 204;
          hs = apply_cors_headers p origin (sr_headers response);
          hs = bt_insert ''access-control-allow-methods''
                 (join_with '', '' (map to_ascii_uppercase (co_allowed_methods p))) hs;
          hs = (if co_allowed_headers p \<noteq> []
                then bt_insert ''access-control-allow-headers''
                       (join_with '', '' (map to_ascii_lowercase (co_allowed_headers p))) hs
                else hs);
          hs = (case co_max_age_seconds p of
                  Some age \<Rightarrow> bt_insert ''access-control-max-age'' (show_word age) hs
                | None \<Rightarrow> hs);
          hs = merge_vary hs
                 [''origin'', ''access-control-request-method'', ''access-control-request-headers'']
      in response\<lparr>sr_headers := hs\<rparr>)"

definition cors_request :: "cors_policy \<Rightarrow> 'j stage_input \<Rightarrow> 'j stage_decision" where
  "cors_request p i =
     (let hs = rq_headers (si_request i) in
      case find_header hs ''origin'' of
        None \<Rightarrow> Continue i
      | Some origin \<Rightarrow>
          if \<not> origin_allowed p origin then
            Reject (rejection_new 403 ''cors_origin_denied'' ''request origin is not allowed'')
          else
            (let requested = find_header hs ''access-control-request-method'';
                 is_preflight = (eq_ignore_ascii_case (rq_method (si_request i)) ''OPTIONS'' \<and>
                   requested \<noteq> None)
             in if \<not> is_preflight then Continue i
                else
                  (let requested_method = (case requested of Some m \<Rightarrow> m | None \<Rightarrow> []) in
                   if \<not> method_allowed p requested_method then
                     Reject (rejection_new 403 ''cors_method_denied''
                       ''requested CORS method is not allowed'')
                   else
                     (let requested_headers =
                        (case find_header hs ''access-control-request-headers'' of
                           Some v \<Rightarrow> parse_comma_list v | None \<Rightarrow> [])
                      in if list_ex (\<lambda>name. \<not> header_allowed p name) requested_headers then
                           Reject (rejection_new 403 ''cors_header_denied''
                             ''requested CORS header is not allowed'')
                         else Respond (cors_preflight_response p origin)))))"

definition cors_response ::
    "cors_policy \<Rightarrow> 'j stage_input \<Rightarrow> stage_response \<Rightarrow> stage_response" where
  "cors_response p i response =
     (case find_header (rq_headers (si_request i)) ''origin'' of
        Some origin \<Rightarrow>
          if origin_allowed p origin
          then response\<lparr>sr_headers := apply_cors_headers p origin (sr_headers response)\<rparr>
          else response
      | None \<Rightarrow> response)"

definition cors_stage :: "cors_policy \<Rightarrow> ('j, 'w) stage_handler" where
  "cors_stage p =
     \<lparr>sh_name = ''cors'', sh_request = (\<lambda>i w. (cors_request p i, w)),
      sh_response = (\<lambda>i r w. (cors_response p i r, w))\<rparr>"

section \<open>CSRF\<close>

definition max_csrf_cookie_pairs :: nat where "max_csrf_cookie_pairs = 64"
definition max_csrf_cookie_header_bytes :: nat where "max_csrf_cookie_header_bytes = 16 * 1024"
definition max_csrf_cookie_name_bytes :: nat where "max_csrf_cookie_name_bytes = 128"
definition max_csrf_cookie_value_bytes :: nat where "max_csrf_cookie_value_bytes = 4 * 1024"

record csrf_policy =
  cs_trusted_origins :: "string list"
  cs_token_cookie_name :: string
  cs_token_header_name :: string
  cs_protected_cookie_names :: "string list"
  cs_unsafe_methods :: "string list"

definition default_unsafe_methods :: "string list" where
  "default_unsafe_methods = bs_collect [''POST'', ''PUT'', ''PATCH'', ''DELETE'']"

definition csrf_policy_default :: csrf_policy where
  "csrf_policy_default =
     \<lparr>cs_trusted_origins = [], cs_token_cookie_name = ''ores_csrf'',
      cs_token_header_name = ''x-ores-csrf-token'', cs_protected_cookie_names = [],
      cs_unsafe_methods = default_unsafe_methods\<rparr>"

definition is_unsafe_method :: "csrf_policy \<Rightarrow> string \<Rightarrow> bool" where
  "is_unsafe_method p m \<longleftrightarrow> list_ex (\<lambda>u. eq_ignore_ascii_case u m) (cs_unsafe_methods p)"

definition is_cookie_name_byte :: "char \<Rightarrow> bool" where
  "is_cookie_name_byte c \<longleftrightarrow>
     is_ascii_alphanumeric c \<or> code_of c = 39 \<or> code_of c = 96 \<or> c \<in> set ''!#$%&*+-.^_|~''"

definition is_forbidden_cookie_value_byte :: "char \<Rightarrow> bool" where
  "is_forbidden_cookie_value_byte c \<longleftrightarrow>
     code_of c = 0 \<or> code_of c = 13 \<or> code_of c = 10 \<or> code_of c < 32 \<or> code_of c = 127"

fun parse_cookie_loop ::
    "string list \<Rightarrow> nat \<Rightarrow> (string, string) btree_map \<Rightarrow>
     (string, (string, string) btree_map) result" where
  "parse_cookie_loop [] n cookies = Inr cookies"
| "parse_cookie_loop (raw_part # parts) n cookies =
     (let part = trim raw_part in
      if part = [] then parse_cookie_loop parts n cookies
      else if n + 1 > max_csrf_cookie_pairs then Inl ''csrf_cookie_count_exceeded''
      else
        (case split_once (CHR ''='') part of
           None \<Rightarrow> Inl ''csrf_cookie_invalid''
         | Some (raw_name, raw_value) \<Rightarrow>
             (let name = trim raw_name; v = trim raw_value in
              if name = [] \<or> length name > max_csrf_cookie_name_bytes \<or>
                 \<not> list_all is_cookie_name_byte name \<or>
                 length v > max_csrf_cookie_value_bytes \<or>
                 list_ex is_forbidden_cookie_value_byte v
              then Inl ''csrf_cookie_invalid''
              else if bt_contains_key cookies name then Inl ''csrf_cookie_ambiguous''
              else parse_cookie_loop parts (n + 1) (bt_insert name v cookies))))"

definition parse_cookie_header :: "string \<Rightarrow> (string, (string, string) btree_map) result" where
  "parse_cookie_header v =
     (if length v > max_csrf_cookie_header_bytes then Inl ''csrf_cookie_header_too_large''
      else parse_cookie_loop (split_on (CHR '';'') v) 0 [])"

definition uses_protected_cookie :: "csrf_policy \<Rightarrow> (string, string) btree_map \<Rightarrow> bool" where
  "uses_protected_cookie p cookies \<longleftrightarrow>
     (if cookies = [] then False
      else if cs_protected_cookie_names p = [] then True
      else list_ex (\<lambda>name. bt_contains_key cookies name) (cs_protected_cookie_names p))"

definition csrf_request :: "csrf_policy \<Rightarrow> 'j stage_input \<Rightarrow> 'j stage_decision" where
  "csrf_request p i =
     (let hs = rq_headers (si_request i) in
      if \<not> is_unsafe_method p (rq_method (si_request i)) then Continue i
      else
        (case (case find_header hs ''cookie'' of
                 None \<Rightarrow> Inr []
               | Some raw \<Rightarrow> parse_cookie_header raw) of
           Inl code \<Rightarrow> Reject (rejection_new 400 code ''cookie header is invalid or ambiguous'')
         | Inr cookies \<Rightarrow>
             if \<not> uses_protected_cookie p cookies then Continue i
             else
               (case find_header hs ''origin'' of
                  None \<Rightarrow> Reject (rejection_new 403 ''csrf_origin_required''
                    ''unsafe cookie-authenticated requests require an origin'')
                | Some origin \<Rightarrow>
                    if origin \<notin> set (cs_trusted_origins p) then
                      Reject (rejection_new 403 ''csrf_origin_denied''
                        ''request origin is not trusted'')
                    else
                      (let cookie_token = bt_get cookies (cs_token_cookie_name p);
                           header_token = find_header hs (cs_token_header_name p)
                       in if cookie_token = None \<or> header_token = None \<or>
                             cookie_token \<noteq> header_token \<or> header_token = Some []
                          then Reject (rejection_new 403 ''csrf_token_invalid''
                                 ''CSRF token validation failed'')
                          else Continue i))))"

definition csrf_stage :: "csrf_policy \<Rightarrow> ('j, 'w) stage_handler" where
  "csrf_stage p =
     \<lparr>sh_name = ''csrf'', sh_request = (\<lambda>i w. (csrf_request p i, w)), sh_response = default_response\<rparr>"

section \<open>Fetch Metadata\<close>

record fetch_metadata_policy =
  fm_enabled :: bool
  fm_allow_missing :: bool
  fm_allow_same_site :: bool
  fm_unsafe_methods :: "string list"

definition fetch_metadata_policy_default :: fetch_metadata_policy where
  "fetch_metadata_policy_default =
     \<lparr>fm_enabled = True, fm_allow_missing = True, fm_allow_same_site = True,
      fm_unsafe_methods = default_unsafe_methods\<rparr>"

definition fm_unsafe_method :: "fetch_metadata_policy \<Rightarrow> string \<Rightarrow> bool" where
  "fm_unsafe_method p m \<longleftrightarrow> list_ex (\<lambda>u. eq_ignore_ascii_case u m) (fm_unsafe_methods p)"

definition valid_fetch_token :: "string \<Rightarrow> bool" where
  "valid_fetch_token v \<longleftrightarrow>
     v \<noteq> [] \<and> length v \<le> 32 \<and>
     list_all (\<lambda>c. is_ascii_lowercase c \<or> is_ascii_digit c \<or> c = CHR ''-'') v"

definition closed_fetch_headers :: "(string \<times> string list option) list" where
  "closed_fetch_headers =
     [(''sec-fetch-site'', Some [''same-origin'', ''same-site'', ''cross-site'', ''none'']),
      (''sec-fetch-mode'', Some [''cors'', ''navigate'', ''no-cors'', ''same-origin'', ''websocket''])]"

definition fetch_header_invalid :: "headers \<Rightarrow> string \<times> string list option \<Rightarrow> bool" where
  "fetch_header_invalid hs nv \<longleftrightarrow>
     (case find_header hs (fst nv) of
        None \<Rightarrow> False
      | Some v \<Rightarrow> \<not> valid_fetch_token v \<or>
          (case snd nv of None \<Rightarrow> False | Some vs \<Rightarrow> v \<notin> set vs))"

definition fetch_metadata_request ::
    "fetch_metadata_policy \<Rightarrow> 'j stage_input \<Rightarrow> 'j stage_decision" where
  "fetch_metadata_request p i =
     (let hs = rq_headers (si_request i);
          invalid = Reject (rejection_new 403 ''fetch_metadata_invalid''
            ''Fetch Metadata policy rejected the request'')
      in if \<not> fm_enabled p then Continue i
         else if list_ex (fetch_header_invalid hs) closed_fetch_headers then invalid
         else if (case find_header hs ''sec-fetch-dest'' of
                    None \<Rightarrow> False | Some v \<Rightarrow> \<not> valid_fetch_token v) then invalid
         else if (case find_header hs ''sec-fetch-user'' of
                    None \<Rightarrow> False | Some v \<Rightarrow> v \<noteq> ''?1'') then invalid
         else if \<not> fm_unsafe_method p (rq_method (si_request i)) \<or> find_header hs ''cookie'' = None
         then Continue i
         else
           (case find_header hs ''sec-fetch-site'' of
              None \<Rightarrow>
                if fm_allow_missing p then Continue i
                else Reject (rejection_new 403 ''fetch_metadata_required''
                       ''Fetch Metadata is required for this request'')
            | Some site \<Rightarrow>
                if site = ''cross-site'' then
                  Reject (rejection_new 403 ''fetch_metadata_cross_site_denied''
                    ''Cross-site ambient-credential mutation denied'')
                else if site = ''same-site'' \<and> \<not> fm_allow_same_site p then
                  Reject (rejection_new 403 ''fetch_metadata_same_site_denied''
                    ''Same-site ambient-credential mutation denied'')
                else Continue i))"

definition fetch_metadata_stage :: "fetch_metadata_policy \<Rightarrow> ('j, 'w) stage_handler" where
  "fetch_metadata_stage p =
     \<lparr>sh_name = ''fetch-metadata'', sh_request = (\<lambda>i w. (fetch_metadata_request p i, w)),
      sh_response = default_response\<rparr>"

section \<open>The contract of a gate\<close>

locale gate_stage =
  fixes stage :: "('j, 'w) stage_handler"
    and pass :: "'j stage_input \<Rightarrow> bool"
  assumes continue_unchanged: "sh_request stage i w = (Continue n, w') \<Longrightarrow> n = i \<and> w' = w \<and> pass i"
begin

lemma blocks: "\<not> pass i \<Longrightarrow> short_circuits (stage # stages) i w"
  using continue_unchanged [of i w] by (auto split: prod.splits stage_decision.splits)

lemma hands_on:
  "short_circuits (stage # stages) i w \<or> short_circuits (stage # stages) i w = short_circuits stages i w"
  using continue_unchanged [of i w] by (auto split: prod.splits stage_decision.splits)

lemma short_circuits_behind: "short_circuits stages i w \<Longrightarrow> short_circuits (stage # stages) i w"
  using hands_on by blast

end

text \<open>A stack of gates ends the request phase as soon as the condition of one of them fails.\<close>

lemma gates_block:
  assumes "list_all (\<lambda>g. gate_stage (fst g) (snd g)) gates" "list_ex (\<lambda>g. \<not> snd g i) gates"
  shows "short_circuits (map fst gates) i w"
  using assms
proof (induction gates)
  case Nil
  then show ?case by simp
next
  case (Cons g gates)
  then have g: "gate_stage (fst g) (snd g)" by simp
  show ?case
  proof (cases "snd g i")
    case True
    with Cons have "short_circuits (map fst gates) i w" by simp
    then show ?thesis using gate_stage.short_circuits_behind [OF g] by simp
  next
    case False
    then show ?thesis using gate_stage.blocks [OF g] by simp
  qed
qed

section \<open>What the gates let pass\<close>

definition cors_pass :: "cors_policy \<Rightarrow> 'j stage_input \<Rightarrow> bool" where
  "cors_pass p i \<longleftrightarrow>
     (case find_header (rq_headers (si_request i)) ''origin'' of
        None \<Rightarrow> True | Some origin \<Rightarrow> origin_allowed p origin)"

definition request_cookies :: "'j stage_input \<Rightarrow> (string, (string, string) btree_map) result" where
  "request_cookies i =
     (case find_header (rq_headers (si_request i)) ''cookie'' of
        None \<Rightarrow> Inr [] | Some raw \<Rightarrow> parse_cookie_header raw)"

text \<open>The double-submit condition: a trusted origin, and one nonempty token in cookie and header.\<close>

definition csrf_proof :: "csrf_policy \<Rightarrow> (string, string) btree_map \<Rightarrow> 'j stage_input \<Rightarrow> bool" where
  "csrf_proof p cookies i \<longleftrightarrow>
     (\<exists>origin token. find_header (rq_headers (si_request i)) ''origin'' = Some origin \<and>
        origin \<in> set (cs_trusted_origins p) \<and> token \<noteq> [] \<and>
        bt_get cookies (cs_token_cookie_name p) = Some token \<and>
        find_header (rq_headers (si_request i)) (cs_token_header_name p) = Some token)"

definition csrf_pass :: "csrf_policy \<Rightarrow> 'j stage_input \<Rightarrow> bool" where
  "csrf_pass p i \<longleftrightarrow>
     \<not> is_unsafe_method p (rq_method (si_request i)) \<or>
     (case request_cookies i of
        Inl e \<Rightarrow> False
      | Inr cookies \<Rightarrow> \<not> uses_protected_cookie p cookies \<or> csrf_proof p cookies i)"

text \<open>The headers are well formed, and a state-changing request with cookies is not cross-site.\<close>

definition fetch_headers_ok :: "headers \<Rightarrow> bool" where
  "fetch_headers_ok hs \<longleftrightarrow>
     list_all (\<lambda>nv. \<not> fetch_header_invalid hs nv) closed_fetch_headers \<and>
     (\<forall>v. find_header hs ''sec-fetch-dest'' = Some v \<longrightarrow> valid_fetch_token v) \<and>
     (\<forall>v. find_header hs ''sec-fetch-user'' = Some v \<longrightarrow> v = ''?1'')"

definition fetch_site_ok :: "fetch_metadata_policy \<Rightarrow> headers \<Rightarrow> bool" where
  "fetch_site_ok p hs \<longleftrightarrow>
     (case find_header hs ''sec-fetch-site'' of
        None \<Rightarrow> fm_allow_missing p
      | Some site \<Rightarrow> site \<noteq> ''cross-site'' \<and> (site = ''same-site'' \<longrightarrow> fm_allow_same_site p))"

definition fetch_metadata_pass :: "fetch_metadata_policy \<Rightarrow> 'j stage_input \<Rightarrow> bool" where
  "fetch_metadata_pass p i \<longleftrightarrow>
     (let hs = rq_headers (si_request i) in
      fm_enabled p \<longrightarrow> fetch_headers_ok hs \<and>
        (fm_unsafe_method p (rq_method (si_request i)) \<longrightarrow> find_header hs ''cookie'' \<noteq> None \<longrightarrow>
           fetch_site_ok p hs))"

lemma cors_request_continue:
  "cors_request p i = Continue n \<Longrightarrow> n = i \<and> cors_pass p i"
  by (auto simp: cors_request_def cors_pass_def Let_def split: option.splits if_splits)

lemma csrf_request_exact:
  "csrf_request p i = Continue n \<longleftrightarrow> n = i \<and> csrf_pass p i"
proof (cases "request_cookies i")
  case (Inl e)
  then show ?thesis
    by (auto simp: csrf_request_def csrf_pass_def Let_def simp flip: request_cookies_def)
next
  case (Inr cookies)
  let ?hs = "rq_headers (si_request i)"
  have "csrf_request p i = Continue n \<longleftrightarrow> n = i \<and> csrf_proof p cookies i"
    if "is_unsafe_method p (rq_method (si_request i))" "uses_protected_cookie p cookies"
    using that Inr
    by (cases "find_header ?hs ''origin''"; cases "bt_get cookies (cs_token_cookie_name p)";
        cases "find_header ?hs (cs_token_header_name p)")
      (auto simp: csrf_request_def csrf_proof_def Let_def simp flip: request_cookies_def)
  moreover have "csrf_request p i = Continue i"
    if "\<not> is_unsafe_method p (rq_method (si_request i)) \<or> \<not> uses_protected_cookie p cookies"
    using that Inr by (auto simp: csrf_request_def Let_def simp flip: request_cookies_def)
  ultimately show ?thesis
    using Inr by (cases "is_unsafe_method p (rq_method (si_request i))";
        cases "uses_protected_cookie p cookies") (auto simp: csrf_pass_def)
qed

lemma fetch_metadata_request_exact:
  "fetch_metadata_request p i = Continue n \<longleftrightarrow> n = i \<and> fetch_metadata_pass p i"
  by (auto simp: fetch_metadata_request_def fetch_metadata_pass_def fetch_headers_ok_def
      fetch_site_ok_def list_all_iff list_ex_iff Let_def split: option.splits)

interpretation cors: gate_stage "cors_stage p" "cors_pass p" for p
  by unfold_locales (auto simp: cors_stage_def dest: cors_request_continue)

interpretation csrf: gate_stage "csrf_stage p" "csrf_pass p" for p
  by unfold_locales (auto simp: csrf_stage_def csrf_request_exact)

interpretation fetch_metadata: gate_stage "fetch_metadata_stage p" "fetch_metadata_pass p" for p
  by unfold_locales (auto simp: fetch_metadata_stage_def fetch_metadata_request_exact)

section \<open>Cookies\<close>

definition cookie_pair_ok :: "string \<times> string \<Rightarrow> bool" where
  "cookie_pair_ok c \<longleftrightarrow>
     fst c \<noteq> [] \<and> length (fst c) \<le> max_csrf_cookie_name_bytes \<and> list_all is_cookie_name_byte (fst c) \<and>
     length (snd c) \<le> max_csrf_cookie_value_bytes \<and>
     list_all (\<lambda>b. visible b \<and> b \<noteq> CHR '';'') (snd c)"

definition show_cookies :: "(string \<times> string) list \<Rightarrow> string" where
  "show_cookies cs = join_with ''; '' (map (\<lambda>c. fst c @ ''='' @ snd c) cs)"

lemma cookie_name_byte_visible: "is_cookie_name_byte c \<Longrightarrow> visible c \<and> c \<noteq> CHR ''='' \<and> c \<noteq> CHR '';''"
  by (auto simp: is_cookie_name_byte_def visible_def ascii_defs)

lemma cookie_pair_parts:
  assumes "cookie_pair_ok c"
  shows "trim (fst c) = fst c" "trim (snd c) = snd c" "trim (fst c @ ''='' @ snd c) = fst c @ ''='' @ snd c"
    "CHR ''='' \<notin> set (fst c)" "CHR '';'' \<notin> set (fst c @ ''='' @ snd c)"
    "\<not> list_ex is_forbidden_cookie_value_byte (snd c)"
proof -
  have n: "list_all visible (fst c)" "list_all visible (snd c)" "visible (CHR ''='')"
    using assms cookie_name_byte_visible by (auto simp: cookie_pair_ok_def list_all_iff visible_def)
  then show "trim (fst c) = fst c" "trim (snd c) = snd c"
    "trim (fst c @ ''='' @ snd c) = fst c @ ''='' @ snd c"
    by (auto intro!: trim_all_visible simp: list_all_iff)
  show "CHR ''='' \<notin> set (fst c)" "CHR '';'' \<notin> set (fst c @ ''='' @ snd c)"
    using assms cookie_name_byte_visible by (auto simp: cookie_pair_ok_def list_all_iff)
  show "\<not> list_ex is_forbidden_cookie_value_byte (snd c)"
    using n(2) by (auto simp: list_all_iff list_ex_iff visible_def is_forbidden_cookie_value_byte_def)
qed

lemma parse_cookie_step:
  assumes "cookie_pair_ok c" "n < max_csrf_cookie_pairs" "fst c \<notin> fst ` set m"
    and "trim part = fst c @ ''='' @ snd c"
  shows "parse_cookie_loop (part # parts) n m =
    parse_cookie_loop parts (Suc n) (bt_insert (fst c) (snd c) m)"
  using assms cookie_pair_parts [OF assms(1)] split_once_append [of "CHR ''=''" "fst c" "snd c"]
  by (cases c) (simp add: cookie_pair_ok_def bt_contains_key_iff Let_def)

lemma parse_cookie_loop_ok:
  assumes "list_all2 (\<lambda>part c. trim part = fst c @ ''='' @ snd c \<and> cookie_pair_ok c) parts cs"
    and "distinct (map fst cs)" "n + length cs \<le> max_csrf_cookie_pairs"
    and "fst ` set cs \<inter> fst ` set m = {}"
  shows "parse_cookie_loop parts n m = Inr (bt_extend m cs)"
  using assms
proof (induction parts cs arbitrary: n m rule: list_all2_induct)
  case Nil
  show ?case by (simp add: bt_extend_def)
next
  case (Cons part parts c cs)
  have "parse_cookie_loop (part # parts) n m =
      parse_cookie_loop parts (Suc n) (bt_insert (fst c) (snd c) m)"
    using Cons.prems Cons.hyps(1) by (intro parse_cookie_step) auto
  also have "\<dots> = Inr (bt_extend (bt_insert (fst c) (snd c) m) cs)"
    using Cons.prems by (intro Cons.IH) auto
  finally show ?case by (simp add: bt_extend_def)
qed

lemma parse_show_cookies:
  assumes "list_all cookie_pair_ok cs" and "distinct (map fst cs)"
    and "length cs \<le> max_csrf_cookie_pairs"
    and "length (show_cookies cs) \<le> max_csrf_cookie_header_bytes"
  shows "parse_cookie_header (show_cookies cs) = Inr (bt_collect cs)"
proof (cases cs)
  case Nil
  then show ?thesis
    by (simp add: parse_cookie_header_def show_cookies_def bt_collect_def bt_extend_def)
next
  case (Cons c rest)
  let ?pieces = "map (\<lambda>c. fst c @ ''='' @ snd c) cs"
  let ?parts = "(fst c @ ''='' @ snd c) # map (\<lambda>c. CHR '' '' # fst c @ ''='' @ snd c) rest"
  have "CHR '';'' \<notin> set x" if "x \<in> set ?pieces" for x
    using that assms(1) cookie_pair_parts(5) by (fastforce simp: list_all_iff)
  then have split: "split_on (CHR '';'') (show_cookies cs) = ?parts"
    using split_on_join [of ?pieces "CHR '';''" "CHR '' ''"] by (simp add: show_cookies_def Cons)
  have "trim (CHR '' '' # fst d @ ''='' @ snd d) = fst d @ ''='' @ snd d" if "cookie_pair_ok d" for d
    using cookie_pair_parts(3) [OF that] by (simp add: trim_space)
  with assms(1) cookie_pair_parts(3)
  have "list_all2 (\<lambda>part c. trim part = fst c @ ''='' @ snd c \<and> cookie_pair_ok c) ?parts cs"
    by (auto simp: Cons list_all_iff list.rel_map intro!: list.rel_refl_strong)
  with assms(2-4) show ?thesis
    by (simp add: parse_cookie_header_def split parse_cookie_loop_ok bt_collect_def del: parse_cookie_loop.simps)
qed

text \<open>
  C12. The CSRF parser reads back the cookies a browser sends: for at most 64 pairs with distinct
  well-formed names and values of visible characters without a semicolon, in a header of at most
  16 KiB, it returns exactly these pairs.
\<close>

theorem cookie_header_round_trip:
  assumes "list_all cookie_pair_ok cs" and "distinct (map fst cs)"
    and "length cs \<le> max_csrf_cookie_pairs"
    and "length (show_cookies cs) \<le> max_csrf_cookie_header_bytes"
  shows "parse_cookie_header (show_cookies cs) = Inr (bt_collect cs)"
  by (rule parse_show_cookies [OF assms])

definition sample_cookies :: "(string \<times> string) list" where
  "sample_cookies = [(''ores_csrf'', ''t0k''), (''sid'', ''42'')]"

lemma sample_cookies_ok:
  "list_all cookie_pair_ok sample_cookies" "distinct (map fst sample_cookies)"
  "length sample_cookies \<le> max_csrf_cookie_pairs"
  "show_cookies sample_cookies = ''ores_csrf=t0k; sid=42''"
  "length (show_cookies sample_cookies) \<le> max_csrf_cookie_header_bytes"
  "bt_collect sample_cookies = sample_cookies"
  by (simp_all add: sample_cookies_def cookie_pair_ok_def show_cookies_def is_cookie_name_byte_def
      ascii_defs visible_def max_csrf_cookie_pairs_def max_csrf_cookie_header_bytes_def
      max_csrf_cookie_name_bytes_def max_csrf_cookie_value_bytes_def bt_collect_def bt_extend_def)

theorem cookie_header_round_trip_witness:
  "parse_cookie_header ''ores_csrf=t0k; sid=42'' = Inr [(''ores_csrf'', ''t0k''), (''sid'', ''42'')]"
  using cookie_header_round_trip [OF sample_cookies_ok(1-3,5)]
  by (simp add: sample_cookies_ok(4,6)) (simp add: sample_cookies_def)

text \<open>
  C13. The CSRF stage lets a request through, unchanged, exactly when its method is safe, or it
  carries no protected cookie, or it comes from a trusted origin with one nonempty token both in the
  token cookie and in the token header; a malformed or ambiguous cookie header never passes.
\<close>

theorem csrf_stage_exact:
  "fst (sh_request (csrf_stage p) i w) = Continue n \<longleftrightarrow>
     n = i \<and>
     (is_unsafe_method p (rq_method (si_request i)) \<longrightarrow>
        (case request_cookies i of
           Inl e \<Rightarrow> False
         | Inr cookies \<Rightarrow> uses_protected_cookie p cookies \<longrightarrow> csrf_proof p cookies i))"
  using csrf_request_exact [of p i n]
  by (auto simp: csrf_stage_def csrf_pass_def split: sum.splits)

definition csrf_sample_policy :: csrf_policy where
  "csrf_sample_policy = csrf_policy_default\<lparr>cs_trusted_origins := [''https://app'']\<rparr>"

definition csrf_sample_input :: "string \<Rightarrow> unit stage_input" where
  "csrf_sample_input token = sample_input\<lparr>si_request := sample_request\<lparr>rq_headers :=
     [(''cookie'', ''ores_csrf=t0k; sid=42''), (''origin'', ''https://app''),
      (''x-ores-csrf-token'', token)]\<rparr>\<rparr>"

lemmas header_eval = find_header_def eq_ignore_ascii_case_def to_ascii_lowercase_def lower_char_def
  is_ascii_uppercase_def

lemma csrf_sample_headers:
  "find_header (rq_headers (si_request (csrf_sample_input token))) ''cookie'' =
     Some ''ores_csrf=t0k; sid=42''"
  "find_header (rq_headers (si_request (csrf_sample_input token))) ''origin'' = Some ''https://app''"
  "find_header (rq_headers (si_request (csrf_sample_input token))) ''x-ores-csrf-token'' = Some token"
  by (simp_all add: csrf_sample_input_def header_eval)

lemma csrf_sample_cookies: "request_cookies (csrf_sample_input token) = Inr sample_cookies"
  using parse_show_cookies [OF sample_cookies_ok(1-3,5)]
  by (simp add: request_cookies_def csrf_sample_headers sample_cookies_ok(4,6))

lemma csrf_sample_facts:
  "is_unsafe_method csrf_sample_policy (rq_method (si_request (csrf_sample_input t)))"
  "uses_protected_cookie csrf_sample_policy sample_cookies"
  "csrf_proof csrf_sample_policy sample_cookies (csrf_sample_input t) \<longleftrightarrow> t = ''t0k''"
proof -
  have pol: "cs_token_header_name csrf_sample_policy = ''x-ores-csrf-token''"
    "cs_token_cookie_name csrf_sample_policy = ''ores_csrf''"
    "cs_trusted_origins csrf_sample_policy = [''https://app'']"
    "cs_protected_cookie_names csrf_sample_policy = []"
    by (simp_all add: csrf_sample_policy_def csrf_policy_default_def)
  show "is_unsafe_method csrf_sample_policy (rq_method (si_request (csrf_sample_input t)))"
    by (simp add: is_unsafe_method_def csrf_sample_policy_def csrf_policy_default_def
        default_unsafe_methods_def bs_collect_def bs_insert_def csrf_sample_input_def
        sample_input_def stage_input_new_def sample_request_def eq_ignore_ascii_case_def)
  show "uses_protected_cookie csrf_sample_policy sample_cookies"
    by (simp add: uses_protected_cookie_def pol sample_cookies_def)
  show "csrf_proof csrf_sample_policy sample_cookies (csrf_sample_input t) \<longleftrightarrow> t = ''t0k''"
    by (auto simp: csrf_proof_def pol csrf_sample_headers sample_cookies_def bt_get_def)
qed

theorem csrf_stage_exact_witness:
  "fst (sh_request (csrf_stage csrf_sample_policy) (csrf_sample_input ''t0k'') ()) =
     Continue (csrf_sample_input ''t0k'') \<and>
   fst (sh_request (csrf_stage csrf_sample_policy) (csrf_sample_input ''forged'') ()) \<noteq>
     Continue (csrf_sample_input ''forged'')"
  using csrf_stage_exact [of csrf_sample_policy "csrf_sample_input ''t0k''" "()"]
    csrf_stage_exact [of csrf_sample_policy "csrf_sample_input ''forged''" "()"]
  by (simp add: csrf_sample_cookies csrf_sample_facts)

section \<open>CORS response headers\<close>

text \<open>The names listed in a comma-separated header, and what may stand between the commas.\<close>

definition vary_names :: "headers \<Rightarrow> string set" where
  "vary_names hs = (case bt_get hs ''vary'' of None \<Rightarrow> {} | Some v \<Rightarrow> set (parse_comma_list v))"

definition list_token :: "string \<Rightarrow> bool" where
  "list_token s \<longleftrightarrow> s \<noteq> [] \<and> trim s = s \<and> CHR '','' \<notin> set s"

lemma parse_comma_join:
  assumes "list_all list_token xs"
  shows "parse_comma_list (join_with '', '' xs) = map to_ascii_lowercase xs"
proof (cases xs)
  case Nil
  then show ?thesis by (simp add: parse_comma_list_def)
next
  case (Cons x rest)
  have "split_on (CHR '','') (join_with '', '' xs) = x # map (Cons (CHR '' '')) rest"
    using split_on_join [of xs "CHR '',''" "CHR '' ''"] assms
    by (auto simp: Cons list_all_iff list_token_def)
  moreover have "map trim (map (Cons (CHR '' '')) rest) = rest" "trim x = x"
    using assms by (auto simp: Cons list_all_iff list_token_def trim_space intro: map_idI)
  ultimately have "map trim (split_on (CHR '','') (join_with '', '' xs)) = xs" by (simp add: Cons)
  moreover have "filter (\<lambda>s. s \<noteq> []) xs = xs"
    using assms by (auto simp: list_all_iff list_token_def filter_id_conv)
  ultimately show ?thesis by (simp add: parse_comma_list_def)
qed

definition vary_map_ok :: "(string, string) btree_map \<Rightarrow> bool" where
  "vary_map_ok m \<longleftrightarrow> bt_ok m \<and> (\<forall>e \<in> set m. fst e = to_ascii_lowercase (snd e) \<and> list_token (snd e))"

lemma vary_map_ok_insert:
  "vary_map_ok m \<Longrightarrow> list_token s \<Longrightarrow> vary_map_ok (bt_insert (to_ascii_lowercase s) s m)"
  using set_bt_insert_subset [of "to_ascii_lowercase s" s m] by (auto simp: vary_map_ok_def)

lemma vary_map_collect:
  assumes "list_all list_token ss" "vary_map_ok m"
  shows "vary_map_ok (bt_extend m (map (\<lambda>s. (to_ascii_lowercase s, s)) ss)) \<and>
    fst ` set (bt_extend m (map (\<lambda>s. (to_ascii_lowercase s, s)) ss)) =
      fst ` set m \<union> to_ascii_lowercase ` set ss"
  using assms
proof (induction ss arbitrary: m)
  case Nil
  then show ?case by (simp add: bt_extend_def)
next
  case (Cons s ss)
  from Cons.IH [OF _ vary_map_ok_insert [OF Cons.prems(2)], of s] Cons.prems(1)
  show ?case by (simp add: bt_extend_def)
qed

lemma vary_map_or_insert:
  assumes "list_all list_token names" "vary_map_ok m"
  shows "vary_map_ok (foldl (\<lambda>m name. bt_or_insert (to_ascii_lowercase name) name m) m names) \<and>
    fst ` set (foldl (\<lambda>m name. bt_or_insert (to_ascii_lowercase name) name m) m names) =
      fst ` set m \<union> to_ascii_lowercase ` set names"
  using assms
proof (induction names arbitrary: m)
  case Nil
  then show ?case by simp
next
  case (Cons s names)
  let ?m = "bt_or_insert (to_ascii_lowercase s) s m"
  have "vary_map_ok ?m \<and> fst ` set ?m = insert (to_ascii_lowercase s) (fst ` set m)"
  proof (cases "bt_get m (to_ascii_lowercase s)")
    case None
    then show ?thesis
      using Cons.prems(1) vary_map_ok_insert [OF Cons.prems(2), of s] by (simp add: bt_or_insert_def)
  next
    case (Some v)
    then have "to_ascii_lowercase s \<in> fst ` set m" using bt_get_None_iff by (metis option.distinct(1))
    with Some Cons.prems(2) show ?thesis by (simp add: bt_or_insert_def insert_absorb)
  qed
  with Cons.IH [of ?m] Cons.prems(1) show ?case by simp
qed

lemma merge_vary_get_other:
  "bt_ok hs \<Longrightarrow> name \<noteq> ''vary'' \<Longrightarrow> bt_get (merge_vary hs names) name = bt_get hs name"
  by (simp add: merge_vary_def Let_def bt_get_insert)

lemma merge_vary_names:
  assumes "bt_ok hs" "list_all list_token names"
  shows "vary_names (merge_vary hs names) = vary_names hs \<union> to_ascii_lowercase ` set names"
proof -
  define ss where "ss = (case bt_get hs ''vary'' of None \<Rightarrow> []
      | Some v \<Rightarrow> filter (\<lambda>s. s \<noteq> []) (map trim (split_on (CHR '','') v)))"
  define existing where "existing = bt_extend [] (map (\<lambda>s. (to_ascii_lowercase s, s)) ss)"
  define vs where "vs = foldl (\<lambda>m name. bt_or_insert (to_ascii_lowercase name) name m) existing names"
  have "list_token s" if "s \<in> set ss" for s
    using that split_on_pieces [of _ "CHR '',''"] set_trim
    by (fastforce simp: ss_def list_token_def split: option.splits)
  then have ss: "list_all list_token ss" by (simp add: list_all_iff)
  have names: "vary_names hs = to_ascii_lowercase ` set ss"
    by (auto simp: vary_names_def ss_def parse_comma_list_def split: option.splits)
  have "vary_map_ok []" by (simp add: vary_map_ok_def)
  from vary_map_collect [OF ss this]
  have ex: "vary_map_ok existing" "fst ` set existing = vary_names hs"
    by (simp_all add: existing_def names)
  from vary_map_or_insert [OF assms(2) ex(1)]
  have vs: "vary_map_ok vs" "fst ` set vs = vary_names hs \<union> to_ascii_lowercase ` set names"
    by (simp_all add: vs_def ex(2))
  have merge: "merge_vary hs names =
      (if vs \<noteq> [] then bt_insert ''vary'' (join_with '', '' (map snd vs)) hs else hs)"
    by (simp add: merge_vary_def Let_def vs_def existing_def ss_def bt_collect_def bt_extend_def
        split: option.splits)
  show ?thesis
  proof (cases "vs = []")
    case True
    then have "merge_vary hs names = hs" unfolding merge by simp
    with True vs(2) show ?thesis by simp
  next
    case False
    have "list_all list_token (map snd vs)" using vs(1) by (auto simp: vary_map_ok_def list_all_iff)
    then have "vary_names (merge_vary hs names) = to_ascii_lowercase ` snd ` set vs"
      using False assms(1) by (simp add: merge vary_names_def bt_get_insert parse_comma_join image_image)
    also have "\<dots> = fst ` set vs" using vs(1) by (force simp: vary_map_ok_def image_image)
    finally show ?thesis using vs(2) by simp
  qed
qed

lemma origin_token: "list_all list_token [''origin'']"
  by (simp add: list_token_def trim_visible visible_def)

text \<open>
  On the way back the CORS stage grants exactly the request's own origin, and only when the
  policy allows it: it then overwrites whatever grant the response carried, keeps every name the
  response varies on and adds the origin to them; for any other origin it leaves the response alone.
\<close>

theorem cors_response_exact:
  assumes "find_header (rq_headers (si_request i)) ''origin'' = Some origin"
    and "bt_ok (sr_headers r)"
  shows "(origin_allowed p origin \<longrightarrow>
      bt_get (sr_headers (cors_response p i r)) ''access-control-allow-origin'' = Some origin \<and>
      vary_names (sr_headers (cors_response p i r)) = insert ''origin'' (vary_names (sr_headers r))) \<and>
    (\<not> origin_allowed p origin \<longrightarrow> cors_response p i r = r)"
proof -
  let ?hs = "bt_insert ''access-control-allow-origin'' origin (sr_headers r)"
  let ?hs' = "if co_allow_credentials p
      then bt_insert ''access-control-allow-credentials'' ''true'' ?hs else ?hs"
  have ok: "bt_ok ?hs'" using assms(2) by simp
  have get: "bt_get ?hs' ''access-control-allow-origin'' = Some origin"
    "bt_get ?hs' ''vary'' = bt_get (sr_headers r) ''vary''"
    using assms(2) by (simp_all add: bt_get_insert)
  have "to_ascii_lowercase ''origin'' = ''origin''"
    by (simp add: to_ascii_lowercase_def lower_char_def is_ascii_uppercase_def)
  then have "vary_names (merge_vary ?hs' [''origin'']) = insert ''origin'' (vary_names (sr_headers r))"
    using merge_vary_names [OF ok origin_token] get(2) by (simp add: vary_names_def)
  moreover have "bt_get (merge_vary ?hs' [''origin'']) ''access-control-allow-origin'' = Some origin"
    using merge_vary_get_other [OF ok, of "''access-control-allow-origin''"] get(1) by simp
  ultimately show ?thesis
    using assms(1) by (simp add: cors_response_def apply_cors_headers_def Let_def)
qed

definition cors_sample_policy :: cors_policy where
  "cors_sample_policy = \<lparr>co_allowed_origins = [''https://app''], co_allowed_methods = [''GET''],
     co_allowed_headers = [], co_allow_credentials = True, co_max_age_seconds = None\<rparr>"

theorem cors_response_exact_witness:
  "bt_get (sr_headers (cors_response cors_sample_policy (csrf_sample_input ''t0k'')
     (response_empty 200))) ''access-control-allow-origin'' = Some ''https://app''"
  using cors_response_exact [of "csrf_sample_input ''t0k''" "''https://app''" "response_empty 200"
      cors_sample_policy]
  by (simp add: csrf_sample_headers response_empty_def origin_allowed_def cors_sample_policy_def)

end
