(* ===== verification/Net.thy ===== *)
theory Net
  imports Prelude
begin

text \<open>
  \<^verbatim>\<open>src/src/rust/src/net.rs\<close>: CIDR blocks, and what it uses of \<open>std::net\<close>: the parser of
  \<open>IpAddr\<close> (dotted decimal without leading zeros; colon-separated hexadecimal groups with one \<open>::\<close>
  and an embedded IPv4 address at the end) and its \<open>Display\<close>.
\<close>

unbundle bit_operations_syntax

datatype ip_addr = V4 u32 | V6 u128

section \<open>Parsing addresses\<close>

text \<open>A parser consumes a prefix of the text; a parser that fails consumes nothing.\<close>

type_synonym 'a ip_parser = "string \<Rightarrow> ('a \<times> string) option"

definition read_given_char :: "char \<Rightarrow> unit ip_parser" where
  "read_given_char c s = (case s of x # rest \<Rightarrow> if x = c then Some ((), rest) else None | [] \<Rightarrow> None)"

definition to_digit :: "nat \<Rightarrow> char \<Rightarrow> nat option" where
  "to_digit radix c =
     (let d = (if is_ascii_digit c then Some (code_of c - 48)
               else if is_ascii_lowercase c then Some (code_of c - 97 + 10)
               else if is_ascii_uppercase c then Some (code_of c - 65 + 10)
               else None)
      in opt_filter (\<lambda>n. n < radix) d)"

fun read_digits :: "nat \<Rightarrow> nat \<Rightarrow> nat \<Rightarrow> nat \<Rightarrow> string \<Rightarrow> (nat \<times> nat \<times> string) option" where
  "read_digits radix max_digits acc n [] = Some (acc, n, [])"
| "read_digits radix max_digits acc n (c # s) =
     (case to_digit radix c of
        None \<Rightarrow> Some (acc, n, c # s)
      | Some d \<Rightarrow> if n + 1 > max_digits then None
                 else read_digits radix max_digits (acc * radix + d) (n + 1) s)"

definition read_number :: "nat \<Rightarrow> nat \<Rightarrow> bool \<Rightarrow> nat \<Rightarrow> nat ip_parser" where
  "read_number radix max_digits allow_zero_prefix bound s =
     (let has_leading_zero = (case s of c # _ \<Rightarrow> c = CHR ''0'' | [] \<Rightarrow> False) in
      case read_digits radix max_digits 0 0 s of
        None \<Rightarrow> None
      | Some (v, digit_count, rest) \<Rightarrow>
          if digit_count = 0 then None
          else if \<not> allow_zero_prefix \<and> has_leading_zero \<and> digit_count > 1 then None
          else if v < bound then Some (v, rest) else None)"

definition read_separator :: "char \<Rightarrow> nat \<Rightarrow> 'a ip_parser \<Rightarrow> 'a ip_parser" where
  "read_separator sep index inner s =
     (if index > 0 then
        (case read_given_char sep s of None \<Rightarrow> None | Some (_, rest) \<Rightarrow> inner rest)
      else inner s)"

fun read_ipv4_groups :: "nat list \<Rightarrow> nat list \<Rightarrow> nat list ip_parser" where
  "read_ipv4_groups [] acc s = Some (acc, s)"
| "read_ipv4_groups (i # is) acc s =
     (case read_separator (CHR ''.'') i (read_number 10 3 False 256) s of
        None \<Rightarrow> None
      | Some (v, rest) \<Rightarrow> read_ipv4_groups is (acc @ [v]) rest)"

definition read_ipv4_addr :: "nat list ip_parser" where
  "read_ipv4_addr s = read_ipv4_groups [0, 1, 2, 3] [] s"

text \<open>The groups read, whether they ended in an IPv4 address, and the rest of the text.\<close>

fun read_ipv6_groups :: "nat \<Rightarrow> nat list \<Rightarrow> nat list \<Rightarrow> string \<Rightarrow> nat list \<times> bool \<times> string" where
  "read_ipv6_groups limit [] acc s = (acc, False, s)"
| "read_ipv6_groups limit (i # is) acc s =
     (case (if i < limit - 1 then read_separator (CHR '':'') i read_ipv4_addr s else None) of
        Some ([a, b, c, d], rest) \<Rightarrow> (acc @ [a * 256 + b, c * 256 + d], True, rest)
      | _ \<Rightarrow>
          (case read_separator (CHR '':'') i (read_number 16 4 True 65536) s of
             Some (g, rest) \<Rightarrow> read_ipv6_groups limit is (acc @ [g]) rest
           | None \<Rightarrow> (acc, False, s)))"

definition read_ipv6_addr :: "nat list ip_parser" where
  "read_ipv6_addr s =
     (case read_ipv6_groups 8 [0..<8] [] s of (head, head_ipv4, rest) \<Rightarrow>
        if length head = 8 then Some (head, rest)
        else if head_ipv4 then None
        else
          (case rest of
             a # b # rest' \<Rightarrow>
               if a = CHR '':'' \<and> b = CHR '':'' then
                 (let limit = 8 - (length head + 1) in
                  case read_ipv6_groups limit [0..<limit] [] rest' of (tail, _, rest'') \<Rightarrow>
                    Some (head @ replicate (8 - length head - length tail) 0 @ tail, rest''))
               else None
           | _ \<Rightarrow> None))"

definition word_of_groups :: "nat \<Rightarrow> nat list \<Rightarrow> 'a::len word" where
  "word_of_groups base gs = of_nat (foldl (\<lambda>acc g. acc * base + g) 0 gs)"

definition parse_ip_addr :: "string \<Rightarrow> ip_addr option" where
  "parse_ip_addr s =
     (case read_ipv4_addr s of
        Some (gs, rest) \<Rightarrow> if rest = [] then Some (V4 (word_of_groups 256 gs)) else None
      | None \<Rightarrow>
          (case read_ipv6_addr s of
             Some (gs, rest) \<Rightarrow> if rest = [] then Some (V6 (word_of_groups 65536 gs)) else None
           | None \<Rightarrow> None))"

text \<open>\<open>parse\<close> to an unsigned integer: an optional plus sign and at least one decimal digit.\<close>

fun digits_value :: "nat \<Rightarrow> string \<Rightarrow> nat option" where
  "digits_value acc [] = Some acc"
| "digits_value acc (c # s) =
     (case to_digit 10 c of None \<Rightarrow> None | Some d \<Rightarrow> digits_value (acc * 10 + d) s)"

definition parse_unsigned :: "nat \<Rightarrow> string \<Rightarrow> nat option" where
  "parse_unsigned bound s =
     (let digits = (case s of c # rest \<Rightarrow> if c = CHR ''+'' then rest else s | [] \<Rightarrow> []) in
      if digits = [] then None
      else opt_filter (\<lambda>n. n < bound) (digits_value 0 digits))"

definition parse_u8 :: "string \<Rightarrow> u8 option" where
  "parse_u8 s = map_option of_nat (parse_unsigned 256 s)"

section \<open>Printing addresses\<close>

definition ipv4_octets :: "u32 \<Rightarrow> u8 list" where
  "ipv4_octets ip = map (\<lambda>i. ucast (drop_bit (24 - 8 * i) ip)) [0..<4]"

definition ipv4_from_octets :: "u8 list \<Rightarrow> u32" where
  "ipv4_from_octets os = word_of_groups 256 (map unat os)"

definition ipv6_octets :: "u128 \<Rightarrow> u8 list" where
  "ipv6_octets ip = map (\<lambda>i. ucast (drop_bit (120 - 8 * i) ip)) [0..<16]"

definition ipv6_from_octets :: "u8 list \<Rightarrow> u128" where
  "ipv6_from_octets os = word_of_groups 256 (map unat os)"

definition show_ipv4 :: "u32 \<Rightarrow> string" where
  "show_ipv4 ip = join_with ''.'' (map show_word (ipv4_octets ip))"

fun show_hex_nat :: "nat \<Rightarrow> string" where
  "show_hex_nat n =
     (let d = n mod 16; c = [char_of (if d < 10 then 48 + d else 87 + d)] in
      if n div 16 = 0 then c else show_hex_nat (n div 16) @ c)"

declare show_hex_nat.simps [simp del]

definition ipv6_segments :: "u128 \<Rightarrow> nat list" where
  "ipv6_segments ip = map (\<lambda>i. unat (drop_bit (112 - 16 * i) ip) mod 65536) [0..<8]"

text \<open>The first longest run of zero segments: its start and its length.\<close>

fun longest_zero_run ::
    "(nat \<times> nat) list \<Rightarrow> nat \<times> nat \<Rightarrow> nat \<times> nat \<Rightarrow> nat \<times> nat" where
  "longest_zero_run [] current longest = longest"
| "longest_zero_run ((i, seg) # segs) current longest =
     (if seg = 0 then
        (let start = (if snd current = 0 then i else fst current);
             current' = (start, snd current + 1);
             longest' = (if snd current' > snd longest then current' else longest)
         in longest_zero_run segs current' longest')
      else longest_zero_run segs (0, 0) longest)"

definition show_ipv6 :: "u128 \<Rightarrow> string" where
  "show_ipv6 ip =
     (let segments = ipv6_segments ip in
      if take 6 segments = [0, 0, 0, 0, 0, 65535] then ''::ffff:'' @ show_ipv4 (ucast ip)
      else
        (case longest_zero_run (enum_list segments) (0, 0) (0, 0) of (start, len) \<Rightarrow>
           let part = (\<lambda>gs. join_with '':'' (map show_hex_nat gs)) in
           if len > 1 then part (take start segments) @ ''::'' @ part (drop (start + len) segments)
           else part segments))"

section \<open>CIDR blocks\<close>

definition parse_cidr :: "string \<Rightarrow> (ip_addr \<times> u8) option" where
  "parse_cidr v =
     (case split_once (CHR ''/'') v of
        None \<Rightarrow> None
      | Some (network, prefix_bits) \<Rightarrow>
          (case parse_ip_addr network of
             None \<Rightarrow> None
           | Some ip \<Rightarrow>
               (case parse_u8 prefix_bits of
                  None \<Rightarrow> None
                | Some p \<Rightarrow>
                    (let valid = (case ip of V4 _ \<Rightarrow> p \<le> 32 | V6 _ \<Rightarrow> p \<le> 128)
                     in then_some valid (ip, p)))))"

definition valid_cidr :: "string \<Rightarrow> bool" where
  "valid_cidr v \<longleftrightarrow> parse_cidr v \<noteq> None"

definition masked_v4 :: "u32 \<Rightarrow> u8 \<Rightarrow> u32" where
  "masked_v4 ip prefix_bits =
     (if prefix_bits = 0 then 0 else ip AND push_bit (unat (32 - prefix_bits)) (- 1))"

definition masked_v6 :: "u128 \<Rightarrow> u8 \<Rightarrow> u128" where
  "masked_v6 ip prefix_bits =
     (if prefix_bits = 0 then 0 else ip AND push_bit (unat (128 - prefix_bits)) (- 1))"

definition cidr_contains :: "string \<Rightarrow> ip_addr \<Rightarrow> bool" where
  "cidr_contains v ip \<longleftrightarrow>
     (case parse_cidr v of
        None \<Rightarrow> False
      | Some (network, prefix_bits) \<Rightarrow>
          (case (network, ip) of
             (V4 n, V4 a) \<Rightarrow> masked_v4 n prefix_bits = masked_v4 a prefix_bits
           | (V6 n, V6 a) \<Rightarrow> masked_v6 n prefix_bits = masked_v6 a prefix_bits
           | _ \<Rightarrow> False))"

section \<open>Membership is agreement on the leading bits\<close>

lemma masked_eq_iff:
  fixes a b :: "'a::len word"
  shows "a AND NOT (mask n) = b AND NOT (mask n) \<longleftrightarrow> drop_bit n a = drop_bit n b"
proof
  assume eq: "a AND NOT (mask n) = b AND NOT (mask n)"
  have drop: "drop_bit n (x AND NOT (mask n)) = drop_bit n x" for x :: "'a word"
    by (rule bit_word_eqI) (auto simp: bit_simps dest: bit_imp_le_length)
  show "drop_bit n a = drop_bit n b" using drop [of a] drop [of b] by (simp only: eq)
next
  assume eq: "drop_bit n a = drop_bit n b"
  have "bit a i = bit b i" if "n \<le> i" for i
    using arg_cong [OF eq, of "\<lambda>w. bit w (i - n)"] that by (simp add: bit_simps)
  then show "a AND NOT (mask n) = b AND NOT (mask n)"
    by (intro bit_word_eqI) (auto simp: bit_simps)
qed

lemma unat_sub_prefix:
  fixes p :: u8
  shows "p \<le> 32 \<Longrightarrow> unat (32 - p) = 32 - unat p" and "p \<le> 128 \<Longrightarrow> unat (128 - p) = 128 - unat p"
  by (simp_all add: unat_sub)

lemma drop_bit_all: "LENGTH('a) \<le> n \<Longrightarrow> drop_bit n (w :: 'a::len word) = 0"
  by (intro bit_word_eqI) (auto simp: bit_simps dest: bit_imp_le_length)

lemma masked_v4_eq:
  "p \<le> 32 \<Longrightarrow> masked_v4 a p = masked_v4 b p \<longleftrightarrow> drop_bit (32 - unat p) a = drop_bit (32 - unat p) b"
  by (cases "p = 0") (simp_all add: masked_v4_def masked_eq_iff unat_sub_prefix drop_bit_all)

lemma masked_v6_eq:
  "p \<le> 128 \<Longrightarrow> masked_v6 a p = masked_v6 b p \<longleftrightarrow> drop_bit (128 - unat p) a = drop_bit (128 - unat p) b"
  by (cases "p = 0") (simp_all add: masked_v6_def masked_eq_iff unat_sub_prefix drop_bit_all)

lemma parse_cidr_bound:
  "parse_cidr v = Some (V4 n, p) \<Longrightarrow> p \<le> 32" "parse_cidr v = Some (V6 m, p) \<Longrightarrow> p \<le> 128"
  by (auto simp: parse_cidr_def Let_def split: option.splits prod.splits)

text \<open>
  An address lies in a CIDR block exactly when the block parses, is of the same family, and
  agrees with the address on its leading prefix bits; a block that does not parse contains nothing.
\<close>

theorem cidr_contains_exact:
  "cidr_contains v ip \<longleftrightarrow>
     (case (parse_cidr v, ip) of
        (Some (V4 n, p), V4 a) \<Rightarrow> drop_bit (32 - unat p) n = drop_bit (32 - unat p) a
      | (Some (V6 n, p), V6 a) \<Rightarrow> drop_bit (128 - unat p) n = drop_bit (128 - unat p) a
      | _ \<Rightarrow> False)"
  using parse_cidr_bound [of v]
  by (auto simp: cidr_contains_def masked_v4_eq masked_v6_eq split: option.splits ip_addr.splits)

end
