(* ===== verification/Rate_Limit.thy ===== *)
theory Rate_Limit
  imports Request_Types Middleware_Order Net
begin

text \<open>
  \<^verbatim>\<open>src/src/rust/src/rate_limit.rs\<close>: the vocabulary of rate limiting, and the derivation of
  the principal a request is counted under.

  The keyed hash is the hmac package's; what the code calls of it is the parameter \<open>hmac_ops\<close>. A
  \<open>f64\<close> stays abstract here (\<open>'f\<close>): this module only passes it on.
\<close>

section \<open>Vocabulary\<close>

datatype rate_limit_algorithm = TokenBucket | SlidingWindowCounter | FixedWindow | Concurrency

definition algorithm_as_str :: "rate_limit_algorithm \<Rightarrow> string" where
  "algorithm_as_str a =
     (case a of
        TokenBucket \<Rightarrow> ''token-bucket''
      | SlidingWindowCounter \<Rightarrow> ''sliding-window-counter''
      | FixedWindow \<Rightarrow> ''fixed-window''
      | Concurrency \<Rightarrow> ''concurrency'')"

datatype rate_limit_layer =
    CloudflareEdge | KubernetesIngress | ServiceMesh | ApplicationLayer | AuthorizationLayer

definition layer_as_str :: "rate_limit_layer \<Rightarrow> string" where
  "layer_as_str l =
     (case l of
        CloudflareEdge \<Rightarrow> ''cloudflare-edge''
      | KubernetesIngress \<Rightarrow> ''kubernetes-ingress''
      | ServiceMesh \<Rightarrow> ''service-mesh''
      | ApplicationLayer \<Rightarrow> ''application''
      | AuthorizationLayer \<Rightarrow> ''authorization'')"

datatype key_derivation_mode = EphemeralHmacSha256 | ExternalHmacSha256

datatype rate_limit_signal =
    SigIp | SigIpPrefix | SigUser | SigSubject | SigEmail | SigTenant | SigOrganization
  | SigSession | SigDevice | SigApiKey | SigRoute | SigMethod

definition is_edge_safe :: "rate_limit_signal \<Rightarrow> bool" where
  "is_edge_safe s \<longleftrightarrow>
     (case s of SigIp \<Rightarrow> True | SigIpPrefix \<Rightarrow> True | SigRoute \<Rightarrow> True | SigMethod \<Rightarrow> True | _ \<Rightarrow> False)"

definition is_principal_signal :: "rate_limit_signal \<Rightarrow> bool" where
  "is_principal_signal s \<longleftrightarrow> (case s of SigRoute \<Rightarrow> False | SigMethod \<Rightarrow> False | _ \<Rightarrow> True)"

definition signal_tag :: "rate_limit_signal \<Rightarrow> string" where
  "signal_tag s =
     (case s of
        SigIp \<Rightarrow> ''ip''
      | SigIpPrefix \<Rightarrow> ''ip-prefix''
      | SigUser \<Rightarrow> ''user''
      | SigSubject \<Rightarrow> ''subject''
      | SigEmail \<Rightarrow> ''email''
      | SigTenant \<Rightarrow> ''tenant''
      | SigOrganization \<Rightarrow> ''organization''
      | SigSession \<Rightarrow> ''session''
      | SigDevice \<Rightarrow> ''device''
      | SigApiKey \<Rightarrow> ''api-key''
      | SigRoute \<Rightarrow> ''route''
      | SigMethod \<Rightarrow> ''method'')"

datatype decision_kind = Allowed | Denied | DegradedAllowed | DegradedDenied

definition kind_is_allowed :: "decision_kind \<Rightarrow> bool" where
  "kind_is_allowed k \<longleftrightarrow>
     (case k of Allowed \<Rightarrow> True | DegradedAllowed \<Rightarrow> True | Denied \<Rightarrow> False | DegradedDenied \<Rightarrow> False)"

definition kind_as_str :: "decision_kind \<Rightarrow> string" where
  "kind_as_str k =
     (case k of
        Allowed \<Rightarrow> ''allowed''
      | Denied \<Rightarrow> ''denied''
      | DegradedAllowed \<Rightarrow> ''degraded-allowed''
      | DegradedDenied \<Rightarrow> ''degraded-denied'')"

datatype decision_source =
    LocalMemory | Redis | CloudflareCache | KubernetesIngressSource | ServiceMeshSource
  | AuthorizationSource | UnknownSource

record rate_limit_principal =
  rp_digest :: string
  rp_key_version :: string

record 'f rate_limit_request =
  lr_principal :: rate_limit_principal
  lr_policy_id :: string
  lr_algorithm :: rate_limit_algorithm
  lr_layer :: rate_limit_layer
  lr_capacity :: u32
  lr_refill_per_second :: "'f"
  lr_window_ms :: u64
  lr_cost :: u32

record rate_limit_decision =
  ld_kind :: decision_kind
  ld_source :: decision_source
  ld_policy_id :: string
  ld_layer :: rate_limit_layer
  ld_algorithm :: rate_limit_algorithm
  ld_limit :: u32
  ld_remaining :: u32
  ld_retry_after_ms :: "u64 option"
  ld_reset_after_ms :: "u64 option"
  ld_reason_code :: "string option"

definition decision_is_allowed :: "rate_limit_decision \<Rightarrow> bool" where
  "decision_is_allowed d \<longleftrightarrow> kind_is_allowed (ld_kind d)"

definition decision_legacy ::
    "'f rate_limit_request \<Rightarrow> bool \<Rightarrow> decision_source \<Rightarrow> rate_limit_decision" where
  "decision_legacy request allowed source =
     \<lparr>ld_kind = (if allowed then Allowed else Denied), ld_source = source,
      ld_policy_id = lr_policy_id request, ld_layer = lr_layer request,
      ld_algorithm = lr_algorithm request, ld_limit = lr_capacity request,
      ld_remaining = (if allowed then saturating_sub (lr_capacity request) (lr_cost request) else 0),
      ld_retry_after_ms = then_some (\<not> allowed) 1000, ld_reset_after_ms = None,
      ld_reason_code = None\<rparr>"

definition decision_degraded ::
    "'f rate_limit_request \<Rightarrow> bool \<Rightarrow> decision_source \<Rightarrow> string \<Rightarrow> rate_limit_decision" where
  "decision_degraded request allowed source reason_code =
     \<lparr>ld_kind = (if allowed then DegradedAllowed else DegradedDenied), ld_source = source,
      ld_policy_id = lr_policy_id request, ld_layer = lr_layer request,
      ld_algorithm = lr_algorithm request, ld_limit = lr_capacity request, ld_remaining = 0,
      ld_retry_after_ms = then_some (\<not> allowed) 1000, ld_reset_after_ms = None,
      ld_reason_code = Some reason_code\<rparr>"

section \<open>Canonical material\<close>

text \<open>\<open>to_be_bytes\<close> of the length as a \<open>u64\<close>, then the bytes themselves.\<close>

definition be_bytes :: "nat \<Rightarrow> bytes" where
  "be_bytes n = map (\<lambda>i. char_of (unat (of_nat n :: u64) div 256 ^ (7 - i) mod 256)) [0..<8]"

definition update_vec_length_prefixed :: "bytes \<Rightarrow> bytes \<Rightarrow> bytes" where
  "update_vec_length_prefixed target v = target @ be_bytes (length v) @ v"

section \<open>Key derivation\<close>

record 'm hmac_ops =
  hm_new_from_slice :: "bytes \<Rightarrow> 'm option"
  hm_update :: "'m \<Rightarrow> bytes \<Rightarrow> 'm"
  hm_finalize :: "'m \<Rightarrow> bytes"

type_synonym key_deriver =
  "string \<Rightarrow> string \<Rightarrow> bytes \<Rightarrow> (integration_error, rate_limit_principal) result"

definition hmac_key_deriver_new :: "bytes \<Rightarrow> (integration_error, bytes) result" where
  "hmac_key_deriver_new secret =
     (if length secret < 32 then
        Inl \<lparr>ie_code = ''rate_limit_hmac_key_too_short'',
             ie_message = ''rate-limit HMAC keys must contain at least 32 bytes''\<rparr>
      else Inr secret)"

text \<open>\<open>write!(digest, "{byte:02x}")\<close>.\<close>

definition hex_digit :: "nat \<Rightarrow> char" where
  "hex_digit d = char_of (if d < 10 then 48 + d else 87 + d)"

definition hex_bytes :: "bytes \<Rightarrow> string" where
  "hex_bytes bs = concat (map (\<lambda>b. [hex_digit (code_of b div 16), hex_digit (code_of b mod 16)]) bs)"

definition update_length_prefixed :: "'m hmac_ops \<Rightarrow> 'm \<Rightarrow> bytes \<Rightarrow> 'm" where
  "update_length_prefixed ops mac v = hm_update ops (hm_update ops mac (be_bytes (length v))) v"

definition hmac_derive :: "'m hmac_ops \<Rightarrow> bytes \<Rightarrow> key_deriver" where
  "hmac_derive ops secret namespace key_version canonical_material =
     (case hm_new_from_slice ops secret of
        None \<Rightarrow> Inl \<lparr>ie_code = ''rate_limit_hmac_initialization_failed'',
                   ie_message = ''rate-limit key derivation could not initialize''\<rparr>
      | Some mac \<Rightarrow>
          (let mac = update_length_prefixed ops mac namespace;
               mac = update_length_prefixed ops mac key_version;
               mac = update_length_prefixed ops mac canonical_material
           in Inr \<lparr>rp_digest = hex_bytes (hm_finalize ops mac), rp_key_version = key_version\<rparr>))"

definition unavailable_derive :: key_deriver where
  "unavailable_derive namespace key_version canonical_material =
     Inl \<lparr>ie_code = ''rate_limit_hmac_key_unavailable'',
          ie_message = ''a stable external rate-limit HMAC key was not installed''\<rparr>"

section \<open>Signals of a request\<close>

definition claim :: "auth_decision \<Rightarrow> string list \<Rightarrow> string option" where
  "claim auth names =
     opt_filter (\<lambda>v. trim v \<noteq> [])
       (case List.map_filter (\<lambda>name. bt_get (ad_claims auth) name) names of
          [] \<Rightarrow> None | v # _ \<Rightarrow> Some v)"

definition ip_prefix :: "string \<Rightarrow> string option" where
  "ip_prefix v =
     (case parse_ip_addr v of
        None \<Rightarrow> None
      | Some (V4 ip) \<Rightarrow>
          Some (show_ipv4 (ipv4_from_octets ((ipv4_octets ip)[3 := 0])) @ ''/24'')
      | Some (V6 ip) \<Rightarrow>
          (let octets = ipv6_octets ip in
           Some (show_ipv6 (ipv6_from_octets (take 7 octets @ map (\<lambda>_. 0) (drop 7 octets))) @
             ''/56'')))"

definition signal_value ::
    "rate_limit_signal \<Rightarrow> request_context \<Rightarrow> request_metadata \<Rightarrow> auth_decision \<Rightarrow> string option \<Rightarrow>
     string option" where
  "signal_value s context request auth client_ip =
     (case s of
        SigIp \<Rightarrow> client_ip
      | SigIpPrefix \<Rightarrow> Option.bind client_ip ip_prefix
      | SigUser \<Rightarrow> rc_user_id context
      | SigSubject \<Rightarrow> rc_user_id context
      | SigEmail \<Rightarrow>
          map_option (\<lambda>v. to_ascii_lowercase (trim v)) (claim auth [''email'', ''email_address''])
      | SigTenant \<Rightarrow> rc_tenant_id context
      | SigOrganization \<Rightarrow> claim auth [''organization_id'', ''org_id'']
      | SigSession \<Rightarrow> claim auth [''session_id'', ''sid'']
      | SigDevice \<Rightarrow> claim auth [''device_id'']
      | SigApiKey \<Rightarrow> claim auth [''api_key_id'', ''client_id'']
      | SigRoute \<Rightarrow> Some (rq_path request)
      | SigMethod \<Rightarrow> Some (to_ascii_uppercase (rq_method request)))"

text \<open>The loop over the signals: the material so far, and whether a principal has been seen.\<close>

fun canonical_loop ::
    "(rate_limit_signal \<Rightarrow> string option) \<Rightarrow> rate_limit_signal list \<Rightarrow> bytes \<Rightarrow> bool \<Rightarrow> bytes \<times> bool" where
  "canonical_loop value_of [] canonical has_principal = (canonical, has_principal)"
| "canonical_loop value_of (s # signals) canonical has_principal =
     (let v = value_of s;
          has_principal' = (is_principal_signal s \<and> v \<noteq> None \<or> has_principal);
          canonical = update_vec_length_prefixed canonical (signal_tag s);
          canonical = update_vec_length_prefixed canonical
            (case v of Some x \<Rightarrow> x | None \<Rightarrow> ''<missing>'')
      in canonical_loop value_of signals canonical has_principal')"

definition derive_rate_limit_principal ::
    "key_deriver \<Rightarrow> string \<Rightarrow> string \<Rightarrow> rate_limit_signal list \<Rightarrow> request_context \<Rightarrow> request_metadata \<Rightarrow>
     auth_decision \<Rightarrow> string option \<Rightarrow> (integration_error, rate_limit_principal) result" where
  "derive_rate_limit_principal deriver namespace key_version signals context request auth client_ip =
     (case canonical_loop (\<lambda>s. signal_value s context request auth client_ip) signals [] False of
        (canonical, has_principal) \<Rightarrow>
          if \<not> has_principal then
            Inl \<lparr>ie_code = ''rate_limit_principal_unavailable'',
                 ie_message = ''no configured principal signal was available for rate limiting''\<rparr>
          else deriver namespace key_version canonical)"

section \<open>Length prefixes make the material unambiguous\<close>

lemma length_be_bytes [simp]: "length (be_bytes n) = 8"
  by (simp add: be_bytes_def)

text \<open>The number a big-endian sequence of bytes stands for.\<close>

definition be_value :: "bytes \<Rightarrow> nat" where
  "be_value bs = foldl (\<lambda>acc b. acc * 256 + code_of b) 0 bs"

lemma upt_8: "[0..<8] = [0, 1, 2, 3, 4, 5, 6, 7 :: nat]"
  by (simp add: upt_rec)

lemma be_value_bytes:
  assumes "n < 2 ^ 64"
  shows "be_value (be_bytes n) = n"
proof -
  have n: "unat (of_nat n :: u64) = n" using assms by (simp add: unat_of_nat)
  define D where "D k = n div 256 ^ k" for k :: nat
  have step: "D (Suc k) * 256 + D k mod 256 = D k" for k
    unfolding D_def power_Suc2 div_mult2_eq by (rule div_mult_mod_eq)
  have d6: "D 7 * 256 + D 6 mod 256 = D 6" using step [of 6] by simp
  have d5: "D 6 * 256 + D 5 mod 256 = D 5" using step [of 5] by simp
  have d4: "D 5 * 256 + D 4 mod 256 = D 4" using step [of 4] by simp
  have d3: "D 4 * 256 + D 3 mod 256 = D 3" using step [of 3] by simp
  have d2: "D 3 * 256 + D 2 mod 256 = D 2" using step [of 2] by simp
  have d1: "D 2 * 256 + D 1 mod 256 = D 1" using step [of 1] by (simp add: numeral_2_eq_2)
  have d0: "D 1 * 256 + D 0 mod 256 = D 0" using step [of 0] by simp
  have top: "D 7 mod 256 = D 7"
    unfolding D_def using assms by (intro mod_less less_mult_imp_div_less) simp
  have "be_value (be_bytes n) =
      ((((((D 7 mod 256 * 256 + D 6 mod 256) * 256 + D 5 mod 256) * 256 + D 4 mod 256) * 256 +
      D 3 mod 256) * 256 + D 2 mod 256) * 256 + D 1 mod 256) * 256 + D 0 mod 256"
    by (simp add: be_value_def be_bytes_def n upt_8 D_def)
  also have "\<dots> = n" unfolding top d6 d5 d4 d3 d2 d1 d0 by (simp add: D_def)
  finally show ?thesis .
qed

lemma length_prefixed_inj:
  assumes "be_bytes (length a) @ a @ x = be_bytes (length b) @ b @ y"
    and "length a < 2 ^ 64" "length b < 2 ^ 64"
  shows "a = b \<and> x = y"
proof -
  from assms(1) have eq: "be_bytes (length a) = be_bytes (length b)" "a @ x = b @ y" by simp_all
  have "length a = length b"
    using arg_cong [OF eq(1), of be_value] be_value_bytes assms(2,3) by simp
  with eq(2) show ?thesis by simp
qed

text \<open>What a missing value is written as.\<close>

definition shown :: "string option \<Rightarrow> string" where
  "shown v = (case v of Some x \<Rightarrow> x | None \<Rightarrow> ''<missing>'')"

definition field_bytes :: "bytes \<Rightarrow> bytes" where
  "field_bytes v = be_bytes (length v) @ v"

definition signal_bytes :: "(rate_limit_signal \<Rightarrow> string option) \<Rightarrow> rate_limit_signal \<Rightarrow> bytes" where
  "signal_bytes value_of s = field_bytes (signal_tag s) @ field_bytes (shown (value_of s))"

lemma canonical_loop_eq:
  "canonical_loop value_of signals c h =
     (c @ concat (map (signal_bytes value_of) signals),
      h \<or> list_ex (\<lambda>s. is_principal_signal s \<and> value_of s \<noteq> None) signals)"
  by (induction signals arbitrary: c h)
    (auto simp: update_vec_length_prefixed_def signal_bytes_def field_bytes_def shown_def Let_def)

lemma field_bytes_inj:
  "field_bytes a @ x = field_bytes b @ y \<Longrightarrow> length a < 2 ^ 64 \<Longrightarrow> length b < 2 ^ 64 \<Longrightarrow> a = b \<and> x = y"
  using length_prefixed_inj [of a x b y] by (simp add: field_bytes_def)

lemma field_bytes_not_Nil [simp]: "field_bytes a \<noteq> []"
  by (simp add: field_bytes_def be_bytes_def)

lemma length_signal_tag: "length (signal_tag s) < 2 ^ 64"
  by (cases s) (simp_all add: signal_tag_def)

lemma signal_tag_inj: "signal_tag s = signal_tag t \<Longrightarrow> s = t"
  by (cases s; cases t) (simp_all add: signal_tag_def)

lemma signal_bytes_inj:
  assumes "list_all (\<lambda>s. length (shown (v1 s)) < 2 ^ 64) s1" "list_all (\<lambda>s. length (shown (v2 s)) < 2 ^ 64) s2"
    and "concat (map (signal_bytes v1) s1) = concat (map (signal_bytes v2) s2)"
  shows "s1 = s2 \<and> list_all (\<lambda>s. shown (v1 s) = shown (v2 s)) s1"
  using assms
proof (induction s1 arbitrary: s2)
  case Nil
  then show ?case by (cases s2) (simp_all add: signal_bytes_def)
next
  case (Cons a s1)
  show ?case
  proof (cases s2)
    case Nil
    with Cons.prems(3) show ?thesis by (simp add: signal_bytes_def)
  next
    case (Cons b s2')
    let ?x = "concat (map (signal_bytes v1) s1)" and ?y = "concat (map (signal_bytes v2) s2')"
    have "concat (map (signal_bytes v1) (a # s1)) = concat (map (signal_bytes v2) (b # s2'))"
      using Cons.prems(3) Cons by simp
    then have
      "field_bytes (signal_tag a) @ field_bytes (shown (v1 a)) @ ?x =
       field_bytes (signal_tag b) @ field_bytes (shown (v2 b)) @ ?y"
      by (simp only: signal_bytes_def list.map concat.simps append_assoc)
    from field_bytes_inj [OF this length_signal_tag length_signal_tag]
    have "a = b" and rest: "field_bytes (shown (v1 a)) @ ?x = field_bytes (shown (v2 b)) @ ?y"
      using signal_tag_inj by blast+
    from field_bytes_inj [OF rest] Cons.prems(1,2) Cons
    have "shown (v1 a) = shown (v2 b)" "?x = ?y" by simp_all
    with Cons.IH [of s2'] Cons.prems(1,2) Cons \<open>a = b\<close> show ?thesis by auto
  qed
qed

text \<open>
  A principal is derived exactly when one of the configured identifying signals is present; the
  route and the method alone never suffice.
\<close>

theorem derive_needs_principal:
  "derive_rate_limit_principal deriver namespace key_version signals context request auth client_ip =
     (if list_ex (\<lambda>s. s \<noteq> SigRoute \<and> s \<noteq> SigMethod \<and>
           signal_value s context request auth client_ip \<noteq> None) signals
      then deriver namespace key_version
             (fst (canonical_loop (\<lambda>s. signal_value s context request auth client_ip) signals [] False))
      else Inl \<lparr>ie_code = ''rate_limit_principal_unavailable'',
                ie_message = ''no configured principal signal was available for rate limiting''\<rparr>)"
proof -
  have "is_principal_signal s \<longleftrightarrow> s \<noteq> SigRoute \<and> s \<noteq> SigMethod" for s
    by (cases s) (simp_all add: is_principal_signal_def)
  then show ?thesis by (simp add: derive_rate_limit_principal_def canonical_loop_eq conj_assoc)
qed

text \<open>
  What goes into the keyed hash for one principal. The hash of the package is a stream: how its input is
  cut into updates makes no difference to the digest.
\<close>

definition mac_streams :: "'m hmac_ops \<Rightarrow> bool" where
  "mac_streams ops \<longleftrightarrow>
     (\<forall>mac bs. hm_finalize ops (foldl (hm_update ops) mac bs) = hm_finalize ops (hm_update ops mac (concat bs)))"

definition hashed_input ::
    "string \<Rightarrow> string \<Rightarrow> (rate_limit_signal \<Rightarrow> string option) \<Rightarrow> rate_limit_signal list \<Rightarrow> bytes" where
  "hashed_input namespace key_version value_of signals =
     field_bytes namespace @ field_bytes key_version @
     field_bytes (concat (map (signal_bytes value_of) signals))"

lemma hmac_derive_eq:
  assumes "mac_streams ops" "hmac_derive ops secret namespace key_version material = Inr p"
  shows "\<exists>mac. hm_new_from_slice ops secret = Some mac \<and> rp_key_version p = key_version \<and>
    rp_digest p = hex_bytes (hm_finalize ops (hm_update ops mac
      (field_bytes namespace @ field_bytes key_version @ field_bytes material)))"
proof -
  from assms(2) obtain mac where mac: "hm_new_from_slice ops secret = Some mac" "rp_key_version p = key_version"
    and p: "rp_digest p = hex_bytes (hm_finalize ops (foldl (hm_update ops) mac
      [be_bytes (length namespace), namespace, be_bytes (length key_version), key_version,
       be_bytes (length material), material]))"
    by (auto simp: hmac_derive_def Let_def update_length_prefixed_def split: option.splits)
  from assms(1) mac p show ?thesis
    unfolding mac_streams_def by (simp add: field_bytes_def del: foldl_Cons)
qed

lemma shown_within:
  assumes "length (hashed_input namespace key_version value_of signals) < 2 ^ 64"
  shows "list_all (\<lambda>s. length (shown (value_of s)) < 2 ^ 64) signals"
proof -
  have "length (shown (value_of s)) \<le> length (concat (map (signal_bytes value_of) signals))" if "s \<in> set signals" for s
    using that by (induction signals) (auto simp: signal_bytes_def field_bytes_def)
  with assms show ?thesis by (fastforce simp: list_all_iff hashed_input_def field_bytes_def)
qed

lemma hashed_input_inj:
  assumes "length (hashed_input n1 k1 v1 s1) < 2 ^ 64" "length (hashed_input n2 k2 v2 s2) < 2 ^ 64"
    and "hashed_input n1 k1 v1 s1 = hashed_input n2 k2 v2 s2"
  shows "n1 = n2 \<and> k1 = k2 \<and> s1 = s2 \<and> list_all (\<lambda>s. shown (v1 s) = shown (v2 s)) s1"
proof -
  let ?m1 = "concat (map (signal_bytes v1) s1)" and ?m2 = "concat (map (signal_bytes v2) s2)"
  have short: "length n1 < 2 ^ 64" "length n2 < 2 ^ 64" "length k1 < 2 ^ 64" "length k2 < 2 ^ 64"
    "length ?m1 < 2 ^ 64" "length ?m2 < 2 ^ 64"
    using assms(1,2) by (simp_all add: hashed_input_def field_bytes_def)
  have "field_bytes n1 @ field_bytes k1 @ field_bytes ?m1 @ [] = field_bytes n2 @ field_bytes k2 @ field_bytes ?m2 @ []"
    using assms(3) by (simp add: hashed_input_def)
  from field_bytes_inj [OF this short(1,2)] have n: "n1 = n2"
    and rest: "field_bytes k1 @ field_bytes ?m1 @ [] = field_bytes k2 @ field_bytes ?m2 @ []" by blast+
  from field_bytes_inj [OF rest short(3,4)] have k: "k1 = k2"
    and m: "field_bytes ?m1 @ [] = field_bytes ?m2 @ []" by blast+
  from field_bytes_inj [OF m short(5,6)] have "?m1 = ?m2" by blast
  from signal_bytes_inj [OF shown_within [OF assms(1)] shown_within [OF assms(2)] this] n k show ?thesis by blast
qed

lemma hashed_input_cong:
  "list_all (\<lambda>s. shown (v1 s) = shown (v2 s)) signals \<Longrightarrow>
   hashed_input namespace key_version v1 signals = hashed_input namespace key_version v2 signals"
proof -
  assume "list_all (\<lambda>s. shown (v1 s) = shown (v2 s)) signals"
  then have "map (signal_bytes v1) signals = map (signal_bytes v2) signals"
    by (induction signals) (simp_all add: signal_bytes_def)
  then show ?thesis unfolding hashed_input_def by (rule arg_cong)
qed

text \<open>
  C14. The principals that two requests are counted under are the keyed hashes of two inputs, and these are
  equal exactly when both have the same namespace, the same key version and the same signals in the same
  order with the same values, a missing value counting as the marker \<open><missing>\<close>. No value can imitate the
  boundary of another, and two requests that differ share a principal only by a collision of the hash.
\<close>

theorem principal_material_unambiguous:
  assumes "mac_streams ops"
    and "derive_rate_limit_principal (hmac_derive ops secret) n1 k1 s1 c1 r1 a1 ip1 = Inr p1"
    and "derive_rate_limit_principal (hmac_derive ops secret) n2 k2 s2 c2 r2 a2 ip2 = Inr p2"
    and "length (hashed_input n1 k1 (\<lambda>s. signal_value s c1 r1 a1 ip1) s1) < 2 ^ 64"
    and "length (hashed_input n2 k2 (\<lambda>s. signal_value s c2 r2 a2 ip2) s2) < 2 ^ 64"
  shows "let i1 = hashed_input n1 k1 (\<lambda>s. signal_value s c1 r1 a1 ip1) s1;
      i2 = hashed_input n2 k2 (\<lambda>s. signal_value s c2 r2 a2 ip2) s2
    in \<exists>mac. hm_new_from_slice ops secret = Some mac \<and>
    rp_digest p1 = hex_bytes (hm_finalize ops (hm_update ops mac i1)) \<and> rp_key_version p1 = k1 \<and>
    rp_digest p2 = hex_bytes (hm_finalize ops (hm_update ops mac i2)) \<and> rp_key_version p2 = k2 \<and>
    (i1 = i2 \<longleftrightarrow> n1 = n2 \<and> k1 = k2 \<and> s1 = s2 \<and>
       list_all (\<lambda>s. shown (signal_value s c1 r1 a1 ip1) = shown (signal_value s c2 r2 a2 ip2)) s1)"
proof -
  have input: "\<exists>mac. hm_new_from_slice ops secret = Some mac \<and> rp_key_version p = k \<and>
      rp_digest p = hex_bytes (hm_finalize ops (hm_update ops mac (hashed_input n k (\<lambda>s. signal_value s c r a ip) s)))"
    if "derive_rate_limit_principal (hmac_derive ops secret) n k s c r a ip = Inr p" for n k s c r a ip p
  proof -
    from that have "hmac_derive ops secret n k (concat (map (signal_bytes (\<lambda>s. signal_value s c r a ip)) s)) = Inr p"
      by (auto simp: derive_rate_limit_principal_def canonical_loop_eq split: if_splits)
    from hmac_derive_eq [OF assms(1) this] show ?thesis by (simp add: hashed_input_def)
  qed
  have "hashed_input n1 k1 (\<lambda>s. signal_value s c1 r1 a1 ip1) s1 = hashed_input n2 k2 (\<lambda>s. signal_value s c2 r2 a2 ip2) s2 \<longleftrightarrow>
      n1 = n2 \<and> k1 = k2 \<and> s1 = s2 \<and>
      list_all (\<lambda>s. shown (signal_value s c1 r1 a1 ip1) = shown (signal_value s c2 r2 a2 ip2)) s1"
    using hashed_input_inj [OF assms(4,5)]
      hashed_input_cong [of "\<lambda>s. signal_value s c1 r1 a1 ip1" "\<lambda>s. signal_value s c2 r2 a2 ip2" s1 n1 k1] by auto
  moreover obtain mac where "hm_new_from_slice ops secret = Some mac" "rp_key_version p1 = k1"
    "rp_digest p1 = hex_bytes (hm_finalize ops (hm_update ops mac (hashed_input n1 k1 (\<lambda>s. signal_value s c1 r1 a1 ip1) s1)))"
    using input [OF assms(2)] by blast
  moreover from this(1) input [OF assms(3)] have "rp_key_version p2 = k2"
    "rp_digest p2 = hex_bytes (hm_finalize ops (hm_update ops mac (hashed_input n2 k2 (\<lambda>s. signal_value s c2 r2 a2 ip2) s2)))"
    by auto
  ultimately show ?thesis by (simp add: Let_def)
qed

text \<open>A hash that only records its input.\<close>

definition sample_hmac :: "bytes hmac_ops" where
  "sample_hmac = \<lparr>hm_new_from_slice = Some, hm_update = (@), hm_finalize = id\<rparr>"

lemma sample_hmac_streams: "mac_streams sample_hmac"
proof -
  have "foldl (@) mac bs = mac @ concat bs" for mac :: bytes and bs
    by (induction bs arbitrary: mac) simp_all
  then show ?thesis by (simp add: mac_streams_def sample_hmac_def)
qed

theorem principal_material_unambiguous_witness:
  "\<exists>p1 p2. derive_rate_limit_principal (hmac_derive sample_hmac ''k'') ''ns'' ''v1'' [SigIp]
      sample_context sample_request auth_decision_default (Some ''10.0.0.1'') = Inr p1 \<and>
    derive_rate_limit_principal (hmac_derive sample_hmac ''k'') ''other'' ''v1'' [SigIp]
      sample_context sample_request auth_decision_default (Some ''10.0.0.1'') = Inr p2 \<and>
    hashed_input ''ns'' ''v1'' (\<lambda>s. Some ''10.0.0.1'') [SigIp] \<noteq> hashed_input ''other'' ''v1'' (\<lambda>s. Some ''10.0.0.1'') [SigIp]"
proof -
  let ?d = "\<lambda>n. derive_rate_limit_principal (hmac_derive sample_hmac ''k'') n ''v1'' [SigIp]
    sample_context sample_request auth_decision_default (Some ''10.0.0.1'')"
  obtain p1 p2 where p: "?d ''ns'' = Inr p1" "?d ''other'' = Inr p2"
    by (simp add: derive_rate_limit_principal_def canonical_loop_eq hmac_derive_def sample_hmac_def
        signal_value_def is_principal_signal_def Let_def)
  have same: "hashed_input n ''v1'' (\<lambda>s. signal_value s sample_context sample_request auth_decision_default
      (Some ''10.0.0.1'')) [SigIp] = hashed_input n ''v1'' (\<lambda>s. Some ''10.0.0.1'') [SigIp]" for n
    by (simp add: hashed_input_def signal_bytes_def signal_value_def)
  have "length (hashed_input n ''v1'' (\<lambda>s. Some ''10.0.0.1'') [SigIp]) < 2 ^ 64" if "length n < 10" for n
    using that by (simp add: hashed_input_def field_bytes_def signal_bytes_def signal_tag_def shown_def)
  then show ?thesis
    using principal_material_unambiguous [OF sample_hmac_streams p] p by (auto simp: same Let_def)
qed

text \<open>
  The stand-in for a missing value is itself a possible value: a caller whose user id is that text
  is counted together with every anonymous caller from the same address.
\<close>

theorem missing_user_collides:
  "fst (canonical_loop (\<lambda>s. signal_value s (sample_context\<lparr>rc_user_id := Some ''<missing>''\<rparr>)
      sample_request auth_decision_default (Some ''127.0.0.1'')) [SigUser, SigIp] [] False) =
   fst (canonical_loop (\<lambda>s. signal_value s sample_context
      sample_request auth_decision_default (Some ''127.0.0.1'')) [SigUser, SigIp] [] False)"
  by (simp add: canonical_loop_eq signal_bytes_def signal_value_def shown_def sample_context_def)

end
