(* ===== verification/Float64.thy ===== *)
theory Float64
  imports Prelude Complex_Main
begin

text \<open>
  The floating-point numbers of the crate.

  A \<open>f64\<close> is a real number, an infinity or not a number; every operation rounds its exact result by
  the argument \<open>rnd\<close>. \<open>rounding rnd\<close> states what is used of IEEE 754: rounding is monotone, never
  gives a NaN, and is exact on the integers up to \<open>2 ^ 53\<close>. The sign of zero is not represented: no
  operation of this code can observe it.
\<close>

section \<open>Floating point\<close>

datatype f64 = Fin real | PosInf | NegInf | NaN

type_synonym rounding_fn = "real \<Rightarrow> f64"

fun fadd :: "rounding_fn \<Rightarrow> f64 \<Rightarrow> f64 \<Rightarrow> f64" where
  "fadd rnd (Fin a) (Fin b) = rnd (a + b)"
| "fadd rnd NaN _ = NaN"
| "fadd rnd _ NaN = NaN"
| "fadd rnd PosInf NegInf = NaN"
| "fadd rnd NegInf PosInf = NaN"
| "fadd rnd PosInf _ = PosInf"
| "fadd rnd _ PosInf = PosInf"
| "fadd rnd NegInf _ = NegInf"
| "fadd rnd _ NegInf = NegInf"

fun fneg :: "f64 \<Rightarrow> f64" where
  "fneg (Fin a) = Fin (- a)"
| "fneg PosInf = NegInf"
| "fneg NegInf = PosInf"
| "fneg NaN = NaN"

definition fsub :: "rounding_fn \<Rightarrow> f64 \<Rightarrow> f64 \<Rightarrow> f64" where
  "fsub rnd a b = fadd rnd a (fneg b)"

definition scaled_inf :: "bool \<Rightarrow> real \<Rightarrow> f64" where
  "scaled_inf positive b = (if b = 0 then NaN else if (b > 0) = positive then PosInf else NegInf)"

fun fmul :: "rounding_fn \<Rightarrow> f64 \<Rightarrow> f64 \<Rightarrow> f64" where
  "fmul rnd (Fin a) (Fin b) = rnd (a * b)"
| "fmul rnd NaN _ = NaN"
| "fmul rnd _ NaN = NaN"
| "fmul rnd PosInf (Fin b) = scaled_inf True b"
| "fmul rnd NegInf (Fin b) = scaled_inf False b"
| "fmul rnd (Fin a) PosInf = scaled_inf True a"
| "fmul rnd (Fin a) NegInf = scaled_inf False a"
| "fmul rnd PosInf PosInf = PosInf"
| "fmul rnd NegInf NegInf = PosInf"
| "fmul rnd PosInf NegInf = NegInf"
| "fmul rnd NegInf PosInf = NegInf"

fun fdiv :: "rounding_fn \<Rightarrow> f64 \<Rightarrow> f64 \<Rightarrow> f64" where
  "fdiv rnd (Fin a) (Fin b) = (if b = 0 then scaled_inf True a else rnd (a / b))"
| "fdiv rnd NaN _ = NaN"
| "fdiv rnd _ NaN = NaN"
| "fdiv rnd PosInf (Fin b) = (if b \<ge> 0 then PosInf else NegInf)"
| "fdiv rnd NegInf (Fin b) = (if b \<ge> 0 then NegInf else PosInf)"
| "fdiv rnd (Fin a) _ = rnd 0"
| "fdiv rnd _ _ = NaN"

fun fle :: "f64 \<Rightarrow> f64 \<Rightarrow> bool" where
  "fle NaN _ = False"
| "fle _ NaN = False"
| "fle NegInf _ = True"
| "fle _ PosInf = True"
| "fle (Fin a) (Fin b) = (a \<le> b)"
| "fle _ _ = False"

definition fmin :: "f64 \<Rightarrow> f64 \<Rightarrow> f64" where
  "fmin a b = (if a = NaN then b else if b = NaN then a else if fle a b then a else b)"

definition fmax :: "f64 \<Rightarrow> f64 \<Rightarrow> f64" where
  "fmax a b = (if a = NaN then b else if b = NaN then a else if fle a b then b else a)"

definition is_finite :: "f64 \<Rightarrow> bool" where
  "is_finite a \<longleftrightarrow> (case a of Fin _ \<Rightarrow> True | _ \<Rightarrow> False)"

fun ffloor :: "f64 \<Rightarrow> f64" where
  "ffloor (Fin a) = Fin (of_int \<lfloor>a\<rfloor>)"
| "ffloor x = x"

fun fceil :: "f64 \<Rightarrow> f64" where
  "fceil (Fin a) = Fin (of_int \<lceil>a\<rceil>)"
| "fceil x = x"

text \<open>\<open>as u32\<close> and \<open>as u64\<close> truncate and saturate; a NaN becomes zero.\<close>

definition saturating_cast :: "f64 \<Rightarrow> 'a::len word" where
  "saturating_cast x =
     (case x of
        Fin a \<Rightarrow> if a \<le> 0 then 0
          else if a \<ge> 2 ^ LENGTH('a) then - 1 else of_int \<lfloor>a\<rfloor>
      | PosInf \<Rightarrow> - 1
      | _ \<Rightarrow> 0)"

definition f64_from_u32 :: "u32 \<Rightarrow> f64" where
  "f64_from_u32 n = Fin (real (unat n))"

definition as_secs_f64 :: "rounding_fn \<Rightarrow> duration \<Rightarrow> f64" where
  "as_secs_f64 rnd d =
     fadd rnd (rnd (real (d div 1000000000))) (fdiv rnd (Fin (real (d mod 1000000000))) (Fin 1000000000))"

definition rounding :: "rounding_fn \<Rightarrow> bool" where
  "rounding rnd \<longleftrightarrow>
     (\<forall>a b. a \<le> b \<longrightarrow> fle (rnd a) (rnd b)) \<and> (\<forall>n::nat. n \<le> 2 ^ 53 \<longrightarrow> rnd (real n) = Fin (real n))"

section \<open>Rounding\<close>

lemma rounding_exact: "rounding Fin"
  by (simp add: rounding_def)

lemma rounding_nat: "rounding rnd \<Longrightarrow> n \<le> 2 ^ 53 \<Longrightarrow> rnd (real n) = Fin (real n)"
  by (simp add: rounding_def)

lemma rounding_mono: "rounding rnd \<Longrightarrow> a \<le> b \<Longrightarrow> fle (rnd a) (rnd b)"
  by (simp add: rounding_def)

lemma rounding_nonneg:
  assumes "rounding rnd" "0 \<le> a"
  shows "rnd a = PosInf \<or> (\<exists>t \<ge> 0. rnd a = Fin t)"
  using rounding_mono [OF assms] rounding_nat [OF assms(1), of 0] by (cases "rnd a") auto

lemma fmin_Fin: "fmin (Fin a) (Fin b) = Fin (min a b)"
  by (simp add: fmin_def min_def)

lemma fmax_Fin: "fmax (Fin a) (Fin b) = Fin (max a b)"
  by (simp add: fmax_def max_def)

text \<open>Nonnegative values: finite and nonnegative, or infinite.\<close>

definition nonneg :: "f64 \<Rightarrow> bool" where
  "nonneg x \<longleftrightarrow> x = PosInf \<or> (\<exists>t \<ge> 0. x = Fin t)"

lemma nonneg_simps [simp]:
  "nonneg PosInf" "nonneg (Fin t) \<longleftrightarrow> 0 \<le> t" "\<not> nonneg NegInf" "\<not> nonneg NaN"
  by (simp_all add: nonneg_def)

lemma nonneg_rnd: "rounding rnd \<Longrightarrow> 0 \<le> a \<Longrightarrow> nonneg (rnd a)"
  using rounding_nonneg [of rnd a] by (auto simp: nonneg_def)

lemma nonneg_add: "rounding rnd \<Longrightarrow> nonneg a \<Longrightarrow> nonneg b \<Longrightarrow> nonneg (fadd rnd a b)"
  by (cases a; cases b) (simp_all add: nonneg_rnd)

lemma nonneg_mul: "rounding rnd \<Longrightarrow> nonneg a \<Longrightarrow> 0 < b \<Longrightarrow> nonneg (fmul rnd a (Fin b))"
  by (cases a) (simp_all add: nonneg_rnd scaled_inf_def)

end
