(* ===== verification/Token_Bucket.thy ===== *)
theory Token_Bucket
  imports Rate_Limit Float64
begin

text \<open>
  The in-memory token bucket of \<^verbatim>\<open>src/src/rust/src/integrations.rs\<close>.

  The store is behind a mutex that every operation takes once. The clock is the argument \<open>now\<close>. The
  hash map of buckets is never iterated, so it is an ordered map here.
\<close>

section \<open>Buckets\<close>

record bucket =
  bk_tokens :: f64
  bk_last_refill :: instant
  bk_last_seen :: instant
  bk_generation :: u64

record bucket_store =
  st_buckets :: "(string, bucket) btree_map"
  st_recency :: "(string \<times> u64) list"
  st_next_generation :: u64

record bucket_bounds =
  tb_max_entries :: nat
  tb_ttl :: duration

record bucket_decision =
  bd_allowed :: bool
  bd_remaining :: u32
  bd_retry_after_ms :: "u64 option"
  bd_reset_after_ms :: "u64 option"

definition with_bounds :: "nat \<Rightarrow> duration \<Rightarrow> bucket_bounds \<times> bucket_store" where
  "with_bounds max_entries ttl =
     (\<lparr>tb_max_entries = max_entries, tb_ttl = ttl\<rparr>,
      \<lparr>st_buckets = [], st_recency = [], st_next_generation = 0\<rparr>)"

definition token_bucket_default :: "bucket_bounds \<times> bucket_store" where
  "token_bucket_default = with_bounds 10000 (30 * 1000000000)"

definition milliseconds_until :: "rounding_fn \<Rightarrow> f64 \<Rightarrow> f64 \<Rightarrow> u64" where
  "milliseconds_until rnd tokens refill_per_second =
     (if fle tokens (Fin 0) then 0
      else saturating_cast
        (fmin (fmax (fceil (fmul rnd (fdiv rnd tokens refill_per_second) (Fin 1000))) (Fin 1))
          (rnd (2 ^ 64 - 1))))"

fun purge_expired ::
    "instant \<Rightarrow> duration \<Rightarrow> (string \<times> u64) list \<Rightarrow> (string, bucket) btree_map \<Rightarrow>
     (string \<times> u64) list \<times> (string, bucket) btree_map" where
  "purge_expired now ttl [] buckets = ([], buckets)"
| "purge_expired now ttl ((key, generation) # recency) buckets =
     (case bt_get buckets key of
        None \<Rightarrow> purge_expired now ttl recency buckets
      | Some b \<Rightarrow>
          if bk_generation b \<noteq> generation then purge_expired now ttl recency buckets
          else if now - bk_last_seen b \<ge> ttl
          then purge_expired now ttl recency (bt_remove key buckets)
          else ((key, generation) # recency, buckets))"

fun evict_one ::
    "(string \<times> u64) list \<Rightarrow> (string, bucket) btree_map \<Rightarrow>
     bool \<times> (string \<times> u64) list \<times> (string, bucket) btree_map" where
  "evict_one [] buckets = (False, [], buckets)"
| "evict_one ((key, generation) # recency) buckets =
     (let is_live = (case bt_get buckets key of None \<Rightarrow> False | Some b \<Rightarrow> bk_generation b = generation)
      in if is_live then (True, recency, bt_remove key buckets) else evict_one recency buckets)"

lemma evict_one_shrinks:
  "evict_one recency buckets = (True, recency', buckets') \<Longrightarrow> length recency' < length recency"
  by (induction recency) (auto simp: Let_def split: if_splits)

text \<open>The loop that makes room for a new key; \<open>False\<close> when nothing can be evicted.\<close>

function make_room ::
    "nat \<Rightarrow> (string \<times> u64) list \<Rightarrow> (string, bucket) btree_map \<Rightarrow>
     bool \<times> (string \<times> u64) list \<times> (string, bucket) btree_map" where
  "make_room max_entries recency buckets =
     (if length buckets \<ge> max_entries then
        (case evict_one recency buckets of
           (True, recency', buckets') \<Rightarrow> make_room max_entries recency' buckets'
         | (False, recency', buckets') \<Rightarrow> (False, recency', buckets'))
      else (True, recency, buckets))"
  by pat_completeness auto
termination
  by (relation "measure (\<lambda>(n, recency, buckets). length recency)") (auto dest!: evict_one_shrinks [OF sym])

declare make_room.simps [simp del]

text \<open>Refilling and taking from one bucket.\<close>

definition take_tokens ::
    "rounding_fn \<Rightarrow> instant \<Rightarrow> u64 \<Rightarrow> u32 \<Rightarrow> f64 \<Rightarrow> u32 \<Rightarrow> bucket \<Rightarrow> bucket_decision \<times> bucket" where
  "take_tokens rnd now generation capacity refill_per_second cost0 b =
     (let elapsed = as_secs_f64 rnd (now - bk_last_refill b);
          tokens = fmin (fadd rnd (bk_tokens b) (fmul rnd elapsed refill_per_second))
                     (f64_from_u32 capacity);
          cost = f64_from_u32 cost0;
          allowed = fle cost tokens;
          tokens = (if allowed then fsub rnd tokens cost else tokens);
          remaining = saturating_cast
            (fmin (fmax (ffloor tokens) (Fin 0)) (f64_from_u32 (- 1)));
          retry_after_ms = (if allowed then None
            else Some (milliseconds_until rnd (fsub rnd cost tokens) refill_per_second));
          reset_after_ms = Some (milliseconds_until rnd
            (fsub rnd (f64_from_u32 capacity) tokens) refill_per_second)
      in (\<lparr>bd_allowed = allowed, bd_remaining = remaining, bd_retry_after_ms = retry_after_ms,
           bd_reset_after_ms = reset_after_ms\<rparr>,
          \<lparr>bk_tokens = tokens, bk_last_refill = now, bk_last_seen = now,
           bk_generation = generation\<rparr>))"

definition consume ::
    "rounding_fn \<Rightarrow> bucket_bounds \<Rightarrow> instant \<Rightarrow> string \<Rightarrow> u32 \<Rightarrow> f64 \<Rightarrow> u32 \<Rightarrow> bucket_store \<Rightarrow>
     (integration_error, bucket_decision) result \<times> bucket_store" where
  "consume rnd bounds now key capacity refill_per_second cost state0 =
     (if tb_max_entries bounds = 0 \<or> tb_ttl bounds = 0 then
        (Inl \<lparr>ie_code = ''rate_limit_local_cache_invalid'',
              ie_message = ''local rate-limit cache bounds must be positive''\<rparr>, state0)
      else if capacity = 0 \<or> cost = 0 \<or> cost > capacity \<or> \<not> is_finite refill_per_second \<or>
         fle refill_per_second (Fin 0) then
        (Inl \<lparr>ie_code = ''rate_limit_request_invalid'',
              ie_message = ''token-bucket capacity, cost, and refill must be positive''\<rparr>, state0)
      else
        (case purge_expired now (tb_ttl bounds) (st_recency state0) (st_buckets state0) of
           (recency, buckets) \<Rightarrow>
           (case (if bt_contains_key buckets key then (True, recency, buckets)
                  else make_room (tb_max_entries bounds) recency buckets) of
              (False, recency, buckets) \<Rightarrow>
                (Inl \<lparr>ie_code = ''rate_limit_local_cache_saturated'',
                      ie_message = ''local rate-limit cache could not evict an entry''\<rparr>,
                 state0\<lparr>st_recency := recency, st_buckets := buckets\<rparr>)
            | (True, recency, buckets) \<Rightarrow>
                (let generation = st_next_generation state0 + 1;
                     b = (case bt_get buckets key of
                            Some b \<Rightarrow> b
                          | None \<Rightarrow> \<lparr>bk_tokens = f64_from_u32 capacity, bk_last_refill = now,
                                    bk_last_seen = now, bk_generation = generation\<rparr>)
                 in case take_tokens rnd now generation capacity refill_per_second cost b of
                      (decision, b') \<Rightarrow>
                        (Inr decision,
                         \<lparr>st_buckets = bt_insert key b' buckets,
                          st_recency = recency @ [(key, generation)],
                          st_next_generation = generation\<rparr>)))))"

definition bucket_allow ::
    "rounding_fn \<Rightarrow> bucket_bounds \<Rightarrow> instant \<Rightarrow> string \<Rightarrow> u32 \<Rightarrow> f64 \<Rightarrow> bucket_store \<Rightarrow>
     bool \<times> bucket_store" where
  "bucket_allow rnd bounds now key capacity refill_per_second st =
     (case consume rnd bounds now key capacity refill_per_second 1 st of (r, st') \<Rightarrow>
        (case r of Inl _ \<Rightarrow> False | Inr decision \<Rightarrow> bd_allowed decision, st'))"

definition bucket_evaluate ::
    "rounding_fn \<Rightarrow> bucket_bounds \<Rightarrow> instant \<Rightarrow> f64 rate_limit_request \<Rightarrow> bucket_store \<Rightarrow>
     (integration_error, rate_limit_decision) result \<times> bucket_store" where
  "bucket_evaluate rnd bounds now request st =
     (if lr_algorithm request \<noteq> TokenBucket then
        (Inl \<lparr>ie_code = ''rate_limit_algorithm_unsupported_by_local_cache'',
              ie_message = ''the local fallback supports token-bucket policies only''\<rparr>, st)
      else
        (case consume rnd bounds now (rp_digest (lr_principal request)) (lr_capacity request)
            (lr_refill_per_second request) (lr_cost request) st of
           (Inl e, st') \<Rightarrow> (Inl e, st')
         | (Inr b, st') \<Rightarrow>
             (Inr \<lparr>ld_kind = (if bd_allowed b then Allowed else Denied), ld_source = LocalMemory,
                   ld_policy_id = lr_policy_id request, ld_layer = lr_layer request,
                   ld_algorithm = lr_algorithm request, ld_limit = lr_capacity request,
                   ld_remaining = bd_remaining b, ld_retry_after_ms = bd_retry_after_ms b,
                   ld_reset_after_ms = bd_reset_after_ms b, ld_reason_code = None\<rparr>, st')))"

section \<open>The store can always make room\<close>

text \<open>Every bucket has its current generation in the queue, whatever else the queue holds.\<close>

definition tracked :: "(string \<times> u64) list \<Rightarrow> (string, bucket) btree_map \<Rightarrow> bool" where
  "tracked recency buckets \<longleftrightarrow>
     bt_ok buckets \<and> (\<forall>e \<in> set buckets. (fst e, bk_generation (snd e)) \<in> set recency)"

lemma tracked_remove:
  assumes "tracked ((key, generation) # recency) buckets"
  shows "tracked recency (bt_remove key buckets)"
  using assms by (auto simp: tracked_def bt_remove_def bt_ok_filter)

lemma tracked_skip:
  assumes "tracked ((key, generation) # recency) buckets"
    and "\<And>b. bt_get buckets key = Some b \<Longrightarrow> bk_generation b \<noteq> generation"
  shows "tracked recency buckets"
  using assms by (fastforce simp: tracked_def bt_get_iff)

lemma set_bt_remove: "set (bt_remove k m) \<subseteq> set m"
  by (auto simp: bt_remove_def)

lemma purge_expired_tracked:
  "tracked recency buckets \<Longrightarrow> purge_expired now ttl recency buckets = (recency', buckets') \<Longrightarrow>
   tracked recency' buckets' \<and> set buckets' \<subseteq> set buckets \<and> length buckets' \<le> length buckets"
proof (induction recency arbitrary: buckets)
  case Nil
  then show ?case by simp
next
  case (Cons e recency)
  obtain key generation where e: "e = (key, generation)" by (cases e)
  show ?case
  proof (cases "bt_get buckets key")
    case None
    with Cons.prems e have "tracked recency buckets" by (auto intro: tracked_skip)
    with Cons.IH [of buckets] Cons.prems(2) e None show ?thesis by simp
  next
    case (Some b)
    show ?thesis
    proof (cases "bk_generation b = generation")
      case False
      with Cons.prems(1) e Some have "tracked recency buckets" by (auto intro: tracked_skip)
      with Cons.IH [of buckets] Cons.prems(2) e Some False show ?thesis by simp
    next
      case True
      have rm: "tracked recency (bt_remove key buckets)" "length (bt_remove key buckets) \<le> length buckets"
        using Cons.prems(1) e tracked_remove by (blast, simp add: bt_remove_def)
      show ?thesis
      proof (cases "ttl \<le> now - bk_last_seen b")
        case True
        with Cons.prems(2) e Some \<open>bk_generation b = generation\<close>
        have "purge_expired now ttl recency (bt_remove key buckets) = (recency', buckets')" by simp
        from Cons.IH [OF rm(1) this] rm(2) set_bt_remove [of key buckets] show ?thesis by auto
      next
        case False
        with Cons.prems e Some \<open>bk_generation b = generation\<close> show ?thesis by simp
      qed
    qed
  qed
qed

lemma evict_one_tracked:
  "tracked recency buckets \<Longrightarrow> buckets \<noteq> [] \<Longrightarrow>
   \<exists>recency' buckets'. evict_one recency buckets = (True, recency', buckets') \<and>
     tracked recency' buckets' \<and> set buckets' \<subseteq> set buckets \<and> Suc (length buckets') = length buckets"
proof (induction recency)
  case Nil
  then show ?case by (cases buckets) (force simp: tracked_def)+
next
  case (Cons e recency)
  obtain key generation where e: "e = (key, generation)" by (cases e)
  show ?case
  proof (cases "\<exists>b. bt_get buckets key = Some b \<and> bk_generation b = generation")
    case True
    then obtain b where b: "bt_get buckets key = Some b" "bk_generation b = generation" by blast
    have "bt_ok buckets" using Cons.prems(1) by (simp add: tracked_def)
    moreover from this b(1) have "key \<in> fst ` set buckets" by (force simp: bt_get_iff)
    ultimately have "Suc (length (bt_remove key buckets)) = length buckets" by (rule length_bt_remove)
    moreover have "tracked recency (bt_remove key buckets)"
      using Cons.prems(1) e by (auto intro: tracked_remove)
    ultimately show ?thesis using b e set_bt_remove [of key buckets] by (simp add: Let_def)
  next
    case False
    then have "tracked recency buckets" using Cons.prems(1) e by (auto intro: tracked_skip)
    moreover have "evict_one (e # recency) buckets = evict_one recency buckets"
      using False by (auto simp: e Let_def split: option.splits)
    ultimately show ?thesis using Cons.IH Cons.prems(2) by simp
  qed
qed

lemma make_room_tracked:
  assumes "tracked recency buckets" "0 < n"
  shows "\<exists>recency' buckets'. make_room n recency buckets = (True, recency', buckets') \<and>
    tracked recency' buckets' \<and> set buckets' \<subseteq> set buckets \<and> length buckets' < n"
  using assms(1)
proof (induction "length buckets" arbitrary: recency buckets)
  case 0
  then have "make_room n recency buckets = (True, recency, buckets)"
    using assms(2) by (simp add: make_room.simps [of n recency "[]"])
  with 0 assms(2) show ?case by simp
next
  case (Suc m)
  show ?case
  proof (cases "n \<le> length buckets")
    case False
    with Suc.prems show ?thesis by (simp add: make_room.simps [of n recency buckets])
  next
    case True
    have "buckets \<noteq> []" using Suc.hyps(2) by auto
    from evict_one_tracked [OF Suc.prems this] obtain recency1 buckets1 where
      ev: "evict_one recency buckets = (True, recency1, buckets1)" "tracked recency1 buckets1"
        "set buckets1 \<subseteq> set buckets" "Suc (length buckets1) = length buckets" by blast
    with Suc.hyps(1) [of buckets1 recency1] Suc.hyps(2) obtain recency' buckets' where
      "make_room n recency1 buckets1 = (True, recency', buckets')" "tracked recency' buckets'"
      "set buckets' \<subseteq> set buckets1" "length buckets' < n" by auto
    with ev True show ?thesis by (auto simp: make_room.simps [of n recency buckets])
  qed
qed

section \<open>Tokens stay within the capacity\<close>

definition tokens_in :: "real \<Rightarrow> f64 \<Rightarrow> bool" where
  "tokens_in c x \<longleftrightarrow> (\<exists>t. x = Fin t \<and> 0 \<le> t \<and> t \<le> c)"

lemma rounding_within:
  assumes "rounding rnd" "0 \<le> a" "a \<le> real n" "n \<le> 2 ^ 53"
  shows "tokens_in (real n) (rnd a)"
  using rounding_nonneg [OF assms(1,2)] rounding_mono [OF assms(1,3)] rounding_nat [OF assms(1,4)]
  by (auto simp: tokens_in_def)

lemma nonneg_secs: "rounding rnd \<Longrightarrow> nonneg (as_secs_f64 rnd d)"
  unfolding as_secs_f64_def by (intro nonneg_add) (simp_all add: nonneg_rnd)

lemma nonneg_min: "nonneg a \<Longrightarrow> 0 \<le> c \<Longrightarrow> tokens_in c (fmin a (Fin c))"
  by (auto simp: nonneg_def fmin_def tokens_in_def)

lemma u32_real_nonneg [simp]: "0 \<le> (unsigned (w :: u32) :: real)"
  using of_nat_0_le_iff [of "unat w", where 'a = real] by simp

lemma u32_small: "unat (c :: u32) \<le> 2 ^ 53"
  using unsigned_less [of c, where 'a = nat] by simp

lemma remaining_cast:
  assumes "0 \<le> u" "u \<le> real (unat capacity)"
  shows "unat (saturating_cast (fmin (fmax (ffloor (Fin u)) (Fin 0)) (f64_from_u32 (- 1))) :: u32)
    \<le> unat capacity"
proof -
  define v where "v = min (max (real_of_int \<lfloor>u\<rfloor>) 0) (real (unat (- 1 :: u32)))"
  have cast: "fmin (fmax (ffloor (Fin u)) (Fin 0)) (f64_from_u32 (- 1)) = Fin v"
    by (simp only: ffloor.simps f64_from_u32_def fmin_Fin fmax_Fin v_def)
  have fl: "real_of_int \<lfloor>u\<rfloor> \<le> real (unat capacity)" "0 \<le> \<lfloor>u\<rfloor>" using assms by linarith+
  have m1: "0 \<le> real (unat (- 1 :: u32))" by (rule of_nat_0_le_iff)
  have "0 \<le> \<lfloor>v\<rfloor>" using m1 unfolding v_def zero_le_floor by linarith
  then obtain n where n: "\<lfloor>v\<rfloor> = int n" using zero_le_imp_eq_int by blast
  have "n \<le> unat capacity" using fl n unfolding v_def by linarith
  moreover have "unat (of_int \<lfloor>v\<rfloor> :: u32) \<le> n" by (simp add: n unsigned_of_nat)
  ultimately have "unat (of_int \<lfloor>v\<rfloor> :: u32) \<le> unat capacity" by (rule order_trans [rotated])
  moreover have "v < 2 ^ LENGTH(32)"
  proof -
    have "real (unat (- 1 :: u32)) < 2 ^ 32" by (simp add: unsigned_minus_1_eq_mask mask_eq_exp_minus_1)
    then show ?thesis unfolding v_def by simp
  qed
  ultimately show ?thesis unfolding cast by (auto simp: saturating_cast_def)
qed

lemma take_tokens_within:
  assumes "rounding rnd" "nonneg (bk_tokens b)" "refill = Fin r" "0 < r" "cost \<le> capacity"
    and "take_tokens rnd now generation capacity refill cost b = (d, b')"
  shows "tokens_in (real (unat capacity)) (bk_tokens b')" and "bk_generation b' = generation"
    and "unat (bd_remaining d) \<le> unat capacity"
proof -
  let ?c = "real (unat capacity)"
  have c0: "0 \<le> ?c" by (rule of_nat_0_le_iff)
  define full where "full = fmin (fadd rnd (bk_tokens b)
      (fmul rnd (as_secs_f64 rnd (now - bk_last_refill b)) refill)) (f64_from_u32 capacity)"
  have "tokens_in ?c full"
    unfolding full_def f64_from_u32_def using assms(1-4)
    by (intro nonneg_min nonneg_add c0) (auto intro: nonneg_mul nonneg_secs)
  then obtain t where t: "full = Fin t" "0 \<le> t" "t \<le> ?c" by (auto simp: tokens_in_def)
  define left where "left = (if fle (f64_from_u32 cost) full then fsub rnd full (f64_from_u32 cost) else full)"
  have left: "tokens_in ?c left"
  proof (cases "fle (f64_from_u32 cost) full")
    case True
    then have "0 \<le> t - real (unat cost)" by (simp add: t f64_from_u32_def)
    moreover have "t - real (unat cost) \<le> ?c" using t(3) of_nat_0_le_iff [of "unat cost"] by linarith
    ultimately have "tokens_in ?c (rnd (t - real (unat cost)))"
      by (rule rounding_within [OF assms(1) _ _ u32_small])
    with True show ?thesis by (simp add: left_def t f64_from_u32_def fsub_def)
  next
    case False
    with t show ?thesis by (simp add: left_def tokens_in_def)
  qed
  have b': "bk_tokens b' = left" and gen: "bk_generation b' = generation"
    and rem: "bd_remaining d = saturating_cast (fmin (fmax (ffloor left) (Fin 0)) (f64_from_u32 (- 1)))"
    using assms(6) by (auto simp: take_tokens_def Let_def left_def full_def)
  show "tokens_in ?c (bk_tokens b')" "bk_generation b' = generation" using left b' gen by simp_all
  obtain u where u: "left = Fin u" "0 \<le> u" "u \<le> ?c" using left by (auto simp: tokens_in_def)
  show "unat (bd_remaining d) \<le> unat capacity" unfolding rem u(1) by (rule remaining_cast [OF u(2,3)])
qed


section \<open>Runs of the store\<close>

record bucket_call =
  bc_now :: instant
  bc_key :: string
  bc_capacity :: u32
  bc_refill :: f64
  bc_cost :: u32

fun consume_run ::
    "rounding_fn \<Rightarrow> bucket_bounds \<Rightarrow> bucket_call list \<Rightarrow> bucket_store \<Rightarrow>
     (integration_error, bucket_decision) result list \<times> bucket_store" where
  "consume_run rnd bounds [] st = ([], st)"
| "consume_run rnd bounds (c # cs) st =
     (case consume rnd bounds (bc_now c) (bc_key c) (bc_capacity c) (bc_refill c) (bc_cost c) st of
        (r, st1) \<Rightarrow> (case consume_run rnd bounds cs st1 of (rs, st2) \<Rightarrow> (r # rs, st2)))"

definition call_ok :: "bucket_call \<Rightarrow> bool" where
  "call_ok c \<longleftrightarrow> 0 < bc_cost c \<and> bc_cost c \<le> bc_capacity c \<and> (\<exists>r > 0. bc_refill c = Fin r)"

lemma call_ok_iff:
  "call_ok c \<longleftrightarrow> \<not> (bc_capacity c = 0 \<or> bc_cost c = 0 \<or> bc_cost c > bc_capacity c \<or>
     \<not> is_finite (bc_refill c) \<or> fle (bc_refill c) (Fin 0))"
  unfolding call_ok_def word_gt_0
  by (cases "bc_refill c") (auto simp: is_finite_def word_gt_0)

definition bucket_sane :: "bucket \<Rightarrow> bool" where
  "bucket_sane b \<longleftrightarrow> (\<exists>t \<ge> 0. bk_tokens b = Fin t) \<and> bk_last_seen b = bk_last_refill b"

definition store_inv :: "bucket_bounds \<Rightarrow> bucket_store \<Rightarrow> bool" where
  "store_inv bounds st \<longleftrightarrow>
     tracked (st_recency st) (st_buckets st) \<and> length (st_buckets st) \<le> tb_max_entries bounds \<and>
     (\<forall>e \<in> set (st_buckets st). bucket_sane (snd e))"

lemma store_inv_empty: "store_inv bounds (snd (with_bounds n ttl))"
  by (simp add: store_inv_def with_bounds_def tracked_def)

text \<open>What a call answers: an error exactly for an unusable request, else a decision within bounds.\<close>

definition answer_ok :: "bucket_call \<Rightarrow> (integration_error, bucket_decision) result \<Rightarrow> bool" where
  "answer_ok c r \<longleftrightarrow>
     (case r of
        Inl e \<Rightarrow> ie_code e = ''rate_limit_request_invalid'' \<and> \<not> call_ok c
      | Inr d \<Rightarrow> call_ok c \<and> bd_remaining d \<le> bc_capacity c \<and>
          (bd_retry_after_ms d = None) = bd_allowed d)"

lemma tracked_insert:
  assumes "tracked recency buckets"
  shows "tracked (recency @ [(key, bk_generation b)]) (bt_insert key b buckets)"
  using assms by (auto simp: tracked_def set_bt_insert)

definition usable :: "bucket_bounds \<Rightarrow> bool" where
  "usable bounds \<longleftrightarrow> 0 < tb_max_entries bounds \<and> 0 < tb_ttl bounds"

text \<open>The store a valid call works on, after purging and making room.\<close>

lemma room_for_key:
  assumes "store_inv bounds st" "usable bounds"
    and "purge_expired now (tb_ttl bounds) (st_recency st) (st_buckets st) = (recency, buckets)"
  obtains recency' buckets' where
    "(if bt_contains_key buckets key then (True, recency, buckets)
      else make_room (tb_max_entries bounds) recency buckets) = (True, recency', buckets')"
    and "tracked recency' buckets'" and "set buckets' \<subseteq> set (st_buckets st)"
    and "\<forall>b. length (bt_insert key b buckets') \<le> tb_max_entries bounds"
proof -
  have p: "tracked recency buckets" "set buckets \<subseteq> set (st_buckets st)"
      "length buckets \<le> tb_max_entries bounds"
    using purge_expired_tracked [OF _ assms(3)] assms(1) by (auto simp: store_inv_def)
  show thesis
  proof (cases "bt_contains_key buckets key")
    case True
    then have "\<forall>b. length (bt_insert key b buckets) \<le> tb_max_entries bounds"
      using p by (simp add: length_bt_insert_old tracked_def bt_contains_key_iff)
    with True p that show thesis by simp
  next
    case False
    obtain recency' buckets' where m:
      "make_room (tb_max_entries bounds) recency buckets = (True, recency', buckets')"
      "tracked recency' buckets'" "set buckets' \<subseteq> set buckets" "length buckets' < tb_max_entries bounds"
      using make_room_tracked [OF p(1)] assms(2) unfolding usable_def by blast
    have "\<forall>b. length (bt_insert key b buckets') \<le> tb_max_entries bounds"
      using m(4) by (auto intro: order_trans [OF length_bt_insert])
    with False m p that show thesis by simp
  qed
qed

lemma take_tokens_stamps:
  "take_tokens rnd now generation capacity refill cost b = (d, b') \<Longrightarrow>
   bk_last_refill b' = now \<and> bk_last_seen b' = now \<and> bk_generation b' = generation \<and>
   (bd_retry_after_ms d = None) = bd_allowed d"
  unfolding take_tokens_def Let_def by (drule sym) (simp split: if_split)

lemma consume_usable:
  assumes "usable bounds" "call_ok c"
    and "purge_expired (bc_now c) (tb_ttl bounds) (st_recency st) (st_buckets st) = (recency, buckets)"
    and "(if bt_contains_key buckets (bc_key c) then (True, recency, buckets)
      else make_room (tb_max_entries bounds) recency buckets) = (True, recency', buckets')"
    and "take_tokens rnd (bc_now c) (st_next_generation st + 1) (bc_capacity c) (bc_refill c) (bc_cost c)
      (case bt_get buckets' (bc_key c) of
         Some b \<Rightarrow> b
       | None \<Rightarrow> \<lparr>bk_tokens = f64_from_u32 (bc_capacity c), bk_last_refill = bc_now c,
           bk_last_seen = bc_now c, bk_generation = st_next_generation st + 1\<rparr>) = (d, b')"
  shows "consume rnd bounds (bc_now c) (bc_key c) (bc_capacity c) (bc_refill c) (bc_cost c) st =
    (Inr d, \<lparr>st_buckets = bt_insert (bc_key c) b' buckets',
       st_recency = recency' @ [(bc_key c, st_next_generation st + 1)],
       st_next_generation = st_next_generation st + 1\<rparr>)"
proof -
  have "\<not> (tb_max_entries bounds = 0 \<or> tb_ttl bounds = 0)" using assms(1) by (simp add: usable_def)
  then show ?thesis
    by (simp only: consume_def assms(2) [unfolded call_ok_iff] if_False assms(3-5) prod.case
        bool.case Let_def)
qed

lemma consume_invalid:
  assumes "usable bounds" "\<not> call_ok c"
  shows "consume rnd bounds (bc_now c) (bc_key c) (bc_capacity c) (bc_refill c) (bc_cost c) st =
    (Inl \<lparr>ie_code = ''rate_limit_request_invalid'',
       ie_message = ''token-bucket capacity, cost, and refill must be positive''\<rparr>, st)"
  using assms unfolding call_ok_iff consume_def usable_def by auto

lemma consume_sound:
  assumes "rounding rnd" "usable bounds" "store_inv bounds st"
    and "consume rnd bounds (bc_now c) (bc_key c) (bc_capacity c) (bc_refill c) (bc_cost c) st = (r, st')"
  shows "store_inv bounds st' \<and> answer_ok c r"
proof (cases "call_ok c")
  case False
  with consume_invalid [OF assms(2) False, of rnd st] assms(3,4) show ?thesis
    by (auto simp: answer_ok_def)
next
  case True
  obtain recency buckets where
    pg: "purge_expired (bc_now c) (tb_ttl bounds) (st_recency st) (st_buckets st) = (recency, buckets)"
    by fastforce
  let ?g = "st_next_generation st + 1"
  let ?new = "\<lparr>bk_tokens = f64_from_u32 (bc_capacity c), bk_last_refill = bc_now c,
    bk_last_seen = bc_now c, bk_generation = ?g\<rparr>"
  let ?take = "\<lambda>bs. take_tokens rnd (bc_now c) ?g (bc_capacity c) (bc_refill c) (bc_cost c)
    (case bt_get bs (bc_key c) of Some b \<Rightarrow> b | None \<Rightarrow> ?new)"
  obtain recency' buckets' where room:
    "(if bt_contains_key buckets (bc_key c) then (True, recency, buckets)
      else make_room (tb_max_entries bounds) recency buckets) = (True, recency', buckets')"
    "tracked recency' buckets'" "set buckets' \<subseteq> set (st_buckets st)"
    "\<forall>b. length (bt_insert (bc_key c) b buckets') \<le> tb_max_entries bounds"
    by (rule room_for_key [OF assms(3,2) pg])
  obtain d b' where tk: "?take buckets' = (d, b')" by (rule prod.exhaust)
  have st': "r = Inr d" "st' = \<lparr>st_buckets = bt_insert (bc_key c) b' buckets',
      st_recency = recency' @ [(bc_key c, ?g)], st_next_generation = ?g\<rparr>"
    using assms(4) consume_usable [OF assms(2) True pg room(1) tk] by auto
  obtain x where x: "bc_refill c = Fin x" "0 < x" "bc_cost c \<le> bc_capacity c"
    using True by (auto simp: call_ok_def)
  have "nonneg (bk_tokens (case bt_get buckets' (bc_key c) of Some b \<Rightarrow> b | None \<Rightarrow> ?new))"
  proof (cases "bt_get buckets' (bc_key c)")
    case None
    then show ?thesis by (simp add: f64_from_u32_def)
  next
    case (Some b)
    then have "(bc_key c, b) \<in> set (st_buckets st)" using room(2,3) by (auto simp: tracked_def bt_get_iff)
    then have "bucket_sane b" using assms(3) by (auto simp: store_inv_def)
    then have "\<exists>t \<ge> 0. bk_tokens b = Fin t" by (simp add: bucket_sane_def)
    with Some show ?thesis by auto
  qed
  note w = take_tokens_within [OF assms(1) this x tk]
  note stamps = take_tokens_stamps [OF tk]
  have "bucket_sane b'" using w(1) stamps by (auto simp: bucket_sane_def tokens_in_def)
  moreover have "tracked (recency' @ [(bc_key c, ?g)]) (bt_insert (bc_key c) b' buckets')"
    using tracked_insert [OF room(2), of "bc_key c" b'] stamps by simp
  moreover have "bt_ok buckets'" using room(2) by (simp add: tracked_def)
  ultimately have "store_inv bounds st'"
    using room(3,4) assms(3) unfolding store_inv_def st'
    by (auto simp: set_bt_insert; force)
  moreover have "answer_ok c r"
    using True w(3) stamps by (simp add: answer_ok_def st' word_le_nat_alt)
  ultimately show ?thesis ..
qed

lemma consume_run_sound:
  assumes "rounding rnd" "usable bounds"
  shows "store_inv bounds st \<Longrightarrow> consume_run rnd bounds cs st = (rs, st') \<Longrightarrow>
    store_inv bounds st' \<and> list_all2 answer_ok cs rs"
proof (induction cs arbitrary: st rs st')
  case Nil
  then show ?case by simp
next
  case (Cons c cs)
  obtain r st1 where c:
    "consume rnd bounds (bc_now c) (bc_key c) (bc_capacity c) (bc_refill c) (bc_cost c) st = (r, st1)"
    by (rule prod.exhaust)
  obtain rs1 st2 where cs: "consume_run rnd bounds cs st1 = (rs1, st2)" by (rule prod.exhaust)
  note step = consume_sound [OF assms Cons.prems(1) c]
  have "store_inv bounds st2 \<and> list_all2 answer_ok cs rs1"
    using Cons.IH [OF _ cs] step by blast
  with step Cons.prems(2) show ?case by (simp add: c cs) blast
qed

text \<open>
  C15. Whatever sequence of calls reaches a token bucket store with usable bounds, the store never
  holds more buckets than it may, no call fails because the store is saturated, the only error is
  the one for a request with an unusable capacity, cost or refill, and a decision never reports more
  tokens than the capacity and gives a retry time exactly when it denies.
\<close>

theorem token_bucket_bounded:
  assumes "rounding rnd" "0 < n" "0 < ttl"
    and "consume_run rnd (fst (with_bounds n ttl)) calls (snd (with_bounds n ttl)) = (results, st)"
  shows "length (st_buckets st) \<le> n \<and> list_all2 answer_ok calls results"
proof -
  have "usable (fst (with_bounds n ttl))" using assms(2,3) by (simp add: usable_def with_bounds_def)
  from consume_run_sound [OF assms(1) this store_inv_empty assms(4)] show ?thesis
    by (simp add: store_inv_def with_bounds_def)
qed

definition example_call :: "instant \<Rightarrow> string \<Rightarrow> u32 \<Rightarrow> bucket_call" where
  "example_call now key cost =
     \<lparr>bc_now = now, bc_key = key, bc_capacity = 5, bc_refill = Fin 2, bc_cost = cost\<rparr>"

theorem token_bucket_bounded_witness:
  "let calls = [example_call 0 ''a'' 3, example_call 7 ''b'' 5, example_call 9 ''a'' 3,
        example_call 10 ''a'' 6];
      run = consume_run Fin (fst (with_bounds 1 8)) calls (snd (with_bounds 1 8))
   in length (st_buckets (snd run)) \<le> 1 \<and> list_all2 answer_ok calls (fst run)"
  unfolding Let_def
  by (rule token_bucket_bounded [OF rounding_exact _ _ surjective_pairing]) simp_all

section \<open>The rate that is enforced\<close>

text \<open>
  The ideal bucket: the tokens available to a key at a time, a full bucket for a key without one.
\<close>

definition seconds :: "duration \<Rightarrow> real" where
  "seconds d = real d / 1000000000"

definition available ::
    "real \<Rightarrow> real \<Rightarrow> (string, bucket) btree_map \<Rightarrow> string \<Rightarrow> instant \<Rightarrow> real" where
  "available capacity refill buckets key now =
     (case bt_get buckets key of
        None \<Rightarrow> capacity
      | Some b \<Rightarrow>
          (case bk_tokens b of
             Fin t \<Rightarrow> min capacity (t + seconds (now - bk_last_refill b) * refill)
           | _ \<Rightarrow> capacity))"

lemma as_secs_exact: "as_secs_f64 Fin d = Fin (seconds d)"
proof -
  have "real d = real (1000000000 * (d div 1000000000) + d mod 1000000000)" by simp
  also have "\<dots> = 1000000000 * real (d div 1000000000) + real (d mod 1000000000)"
    by (simp only: of_nat_add of_nat_mult of_nat_numeral)
  finally show ?thesis by (simp add: as_secs_f64_def seconds_def field_simps)
qed

lemma take_tokens_exact:
  assumes "bk_tokens b = Fin t"
    and "take_tokens Fin now g capacity (Fin r) cost b = (d, b')"
  defines "full \<equiv> min (t + seconds (now - bk_last_refill b) * r) (real (unat capacity))"
  shows "bd_allowed d = (real (unat cost) \<le> full)"
    and "bk_tokens b' = Fin (full - (if bd_allowed d then real (unat cost) else 0))"
  using assms(2)
  by (auto simp: take_tokens_def Let_def assms(1) as_secs_exact f64_from_u32_def fmin_Fin fsub_def full_def)

lemma purge_expired_get:
  "bt_ok buckets \<Longrightarrow> purge_expired now ttl recency buckets = (recency', buckets') \<Longrightarrow>
   bt_get buckets' k = bt_get buckets k \<or>
   bt_get buckets' k = None \<and> (\<exists>b. bt_get buckets k = Some b \<and> ttl \<le> now - bk_last_seen b)"
proof (induction now ttl recency buckets rule: purge_expired.induct)
  case (1 now ttl buckets)
  then show ?case by simp
next
  case (2 now ttl key generation recency buckets)
  then show ?case
    by (auto simp: bt_get_remove split: option.splits if_splits)
qed

lemma purge_available:
  assumes "store_inv bounds st" "C \<le> seconds ttl * r" "0 < r"
    and "purge_expired now ttl (st_recency st) (st_buckets st) = (recency, buckets)"
  shows "available C r buckets k now = available C r (st_buckets st) k now"
proof -
  have ok: "bt_ok (st_buckets st)" using assms(1) by (simp add: store_inv_def tracked_def)
  consider "bt_get buckets k = bt_get (st_buckets st) k"
    | b where "bt_get buckets k = None" "bt_get (st_buckets st) k = Some b" "ttl \<le> now - bk_last_seen b"
    using purge_expired_get [OF ok assms(4), of k] by blast
  then show ?thesis
  proof cases
    case 1
    then show ?thesis by (simp add: available_def)
  next
    case 2
    then have "(k, b) \<in> set (st_buckets st)" using ok by (simp add: bt_get_iff)
    with assms(1) have "bucket_sane b" by (auto simp: store_inv_def)
    then obtain t where t: "0 \<le> t" "bk_tokens b = Fin t" "bk_last_seen b = bk_last_refill b"
      by (auto simp: bucket_sane_def)
    have "seconds ttl * r \<le> seconds (now - bk_last_refill b) * r"
      using 2(3) assms(3) t(3) by (simp add: seconds_def divide_right_mono)
    with assms(2) t(1) have "C \<le> t + seconds (now - bk_last_refill b) * r" by linarith
    with 2 t(2) show ?thesis by (simp add: available_def)
  qed
qed

lemma no_eviction:
  assumes "tracked recency buckets" "fst ` set buckets \<union> {key} \<subseteq> K" "finite K" "card K \<le> n"
  shows "(if bt_contains_key buckets key then (True, recency, buckets)
    else make_room n recency buckets) = (True, recency, buckets)"
proof (cases "bt_contains_key buckets key")
  case False
  have "length buckets = card (fst ` set buckets)"
    using bt_ok_distinct [of buckets] assms(1) distinct_card [of "map fst buckets"]
    by (simp add: tracked_def)
  also have "\<dots> < card (insert key (fst ` set buckets))"
    using False by (simp add: bt_contains_key_iff)
  also have "\<dots> \<le> card K" using assms(2,3) by (intro card_mono) auto
  finally have "length buckets < n" using assms(4) by simp
  then show ?thesis by (simp add: make_room.simps [of n recency buckets])
qed simp

text \<open>What a call takes from the ideal bucket of a key.\<close>

definition spent :: "string \<Rightarrow> bucket_call \<Rightarrow> (integration_error, bucket_decision) result \<Rightarrow> real" where
  "spent key c r =
     (if bc_key c = key
      then (case r of Inl _ \<Rightarrow> 0 | Inr d \<Rightarrow> if bd_allowed d then real (unat (bc_cost c)) else 0)
      else 0)"

lemma available_le: "available C r buckets k t \<le> C"
  by (auto simp: available_def split: option.splits f64.splits)

lemma available_step:
  assumes "usable bounds" "store_inv bounds st"
    and "fst ` set (st_buckets st) \<union> {bc_key c} \<subseteq> K" "finite K" "card K \<le> tb_max_entries bounds"
    and "0 < r" "real (unat cap) \<le> seconds (tb_ttl bounds) * r"
    and "bc_key c = k \<longrightarrow> bc_capacity c = cap \<and> bc_refill c = Fin r"
    and "consume Fin bounds (bc_now c) (bc_key c) (bc_capacity c) (bc_refill c) (bc_cost c) st = (res, st')"
  shows "available (real (unat cap)) r (st_buckets st') k (bc_now c) =
      available (real (unat cap)) r (st_buckets st) k (bc_now c) - spent k c res \<and>
    fst ` set (st_buckets st') \<subseteq> K"
proof (cases "call_ok c")
  case False
  with consume_invalid [OF assms(1) False, of Fin st] assms(3,9) show ?thesis by (auto simp: spent_def)
next
  case True
  obtain recency buckets where
    pg: "purge_expired (bc_now c) (tb_ttl bounds) (st_recency st) (st_buckets st) = (recency, buckets)"
    by (rule prod.exhaust)
  have p: "tracked recency buckets" "set buckets \<subseteq> set (st_buckets st)"
    using purge_expired_tracked [OF _ pg] assms(2) by (auto simp: store_inv_def)
  then have ok: "bt_ok buckets" by (simp add: tracked_def)
  have keys: "fst ` set buckets \<union> {bc_key c} \<subseteq> K" using p(2) assms(3) by blast
  let ?b = "case bt_get buckets (bc_key c) of Some b \<Rightarrow> b
    | None \<Rightarrow> \<lparr>bk_tokens = f64_from_u32 (bc_capacity c), bk_last_refill = bc_now c,
        bk_last_seen = bc_now c, bk_generation = st_next_generation st + 1\<rparr>"
  obtain d b' where tk: "take_tokens Fin (bc_now c) (st_next_generation st + 1) (bc_capacity c)
      (bc_refill c) (bc_cost c) ?b = (d, b')" by (rule prod.exhaust)
  have st': "res = Inr d" "st_buckets st' = bt_insert (bc_key c) b' buckets"
    using assms(9) consume_usable [OF assms(1) True pg no_eviction [OF p(1) keys assms(4,5)] tk] by auto
  note purged = purge_available [OF assms(2,7,6) pg]
  have "available (real (unat cap)) r (st_buckets st') k (bc_now c) =
    available (real (unat cap)) r buckets k (bc_now c) - spent k c res"
  proof (cases "bc_key c = k")
    case False
    then show ?thesis using ok by (simp add: st' available_def bt_get_insert spent_def)
  next
    case True
    then have cap: "bc_capacity c = cap" "bc_refill c = Fin r" using assms(8) by auto
    have "bucket_sane b" if "bt_get buckets k = Some b" for b
      using that assms(2) p(2) ok by (fastforce simp: store_inv_def bt_get_iff)
    then have "\<exists>t. bk_tokens ?b = Fin t"
      using True by (auto simp: bucket_sane_def f64_from_u32_def split: option.split)
    then obtain t where t: "bk_tokens ?b = Fin t" by blast
    have av: "available (real (unat cap)) r buckets k (bc_now c) =
        min (t + seconds (bc_now c - bk_last_refill ?b) * r) (real (unat cap))"
      using t True cap
      by (auto simp: available_def f64_from_u32_def seconds_def min.commute split: option.splits)
    note ex = take_tokens_exact [OF t [unfolded cap] tk [unfolded cap]]
    have sp: "spent k c res = (if bd_allowed d then real (unat (bc_cost c)) else 0)"
      using True by (simp add: spent_def st')
    have left: "bk_tokens b' = Fin (available (real (unat cap)) r buckets k (bc_now c) - spent k c res)"
      unfolding sp av [unfolded cap] by (rule ex(2))
    have "0 \<le> spent k c res" unfolding sp by simp
    then have "available (real (unat cap)) r buckets k (bc_now c) - spent k c res \<le> real (unat cap)"
      using available_le [of "real (unat cap)" r buckets k "bc_now c"] by linarith
    moreover have "bk_last_refill b' = bc_now c" using take_tokens_stamps [OF tk] by simp
    moreover have "bt_get (st_buckets st') k = Some b'" using True ok by (simp add: st' bt_get_insert)
    ultimately show ?thesis
      unfolding available_def [of _ _ "st_buckets st'"] by (simp add: left seconds_def)
  qed
  moreover have "fst ` set (st_buckets st') \<subseteq> K" using keys by (simp add: st')
  ultimately show ?thesis unfolding purged by blast
qed

lemma available_later:
  assumes "0 < r" "t0 \<le> t"
  shows "available C r buckets k t \<le> available C r buckets k t0 + seconds (t - t0) * r"
proof -
  have later: "seconds (t - l) * r \<le> seconds (t0 - l) * r + seconds (t - t0) * r" for l
  proof -
    have "seconds (t - l) \<le> seconds (t0 - l) + seconds (t - t0)"
      unfolding seconds_def using assms(2) by (simp add: add_divide_distrib [symmetric] divide_right_mono)
    then show ?thesis using assms(1) by (simp add: distrib_right [symmetric])
  qed
  have "0 \<le> seconds (t - t0) * r" using assms(1) by (simp add: seconds_def)
  with later show ?thesis
    by (auto simp: available_def min_def add.assoc split: option.splits f64.splits)
      (smt (verit) later)+
qed

lemma available_nonneg:
  assumes "store_inv bounds st" "0 < r" "0 \<le> C"
  shows "0 \<le> available C r (st_buckets st) k t"
proof (cases "bt_get (st_buckets st) k")
  case None
  with assms(3) show ?thesis by (simp add: available_def)
next
  case (Some b)
  then have "(k, b) \<in> set (st_buckets st)"
    using assms(1) by (simp add: store_inv_def tracked_def bt_get_iff)
  with assms(1) have "bucket_sane b" by (auto simp: store_inv_def)
  with Some assms(2,3) show ?thesis by (auto simp: available_def bucket_sane_def seconds_def)
qed

lemma consume_run_rate:
  assumes "usable bounds" "finite K" "card K \<le> tb_max_entries bounds"
    and "0 < r" "real (unat cap) \<le> seconds (tb_ttl bounds) * r"
  shows "store_inv bounds st \<Longrightarrow> fst ` set (st_buckets st) \<subseteq> K \<Longrightarrow> bc_key ` set cs \<subseteq> K \<Longrightarrow>
    (\<forall>c \<in> set cs. bc_key c = k \<longrightarrow> bc_capacity c = cap \<and> bc_refill c = Fin r) \<Longrightarrow>
    consume_run Fin bounds cs st = (rs, st') \<Longrightarrow>
    store_inv bounds st' \<and> fst ` set (st_buckets st') \<subseteq> K \<and>
    (\<forall>t0. sorted (t0 # map bc_now cs) \<longrightarrow>
       sum_list (map2 (spent k) cs rs) \<le> available (real (unat cap)) r (st_buckets st) k t0 +
         seconds (last (t0 # map bc_now cs) - t0) * r)"
proof (induction cs arbitrary: st rs st')
  case Nil
  have c0: "0 \<le> real (unat cap)" by (rule of_nat_0_le_iff)
  from Nil available_nonneg [OF _ assms(4) c0] show ?case by (auto simp: seconds_def)
next
  case (Cons c cs)
  obtain res st1 where c:
    "consume Fin bounds (bc_now c) (bc_key c) (bc_capacity c) (bc_refill c) (bc_cost c) st = (res, st1)"
    by (rule prod.exhaust)
  obtain rs1 st2 where cs: "consume_run Fin bounds cs st1 = (rs1, st2)" by (rule prod.exhaust)
  have out: "rs = res # rs1" "st' = st2" using Cons.prems(5) by (simp_all add: c cs)
  have inv1: "store_inv bounds st1"
    using consume_sound [OF rounding_exact assms(1) Cons.prems(1) c] by blast
  have keys: "fst ` set (st_buckets st) \<union> {bc_key c} \<subseteq> K" using Cons.prems(2,3) by auto
  have fixed: "bc_key c = k \<longrightarrow> bc_capacity c = cap \<and> bc_refill c = Fin r" using Cons.prems(4) by simp
  note step = available_step [OF assms(1) Cons.prems(1) keys assms(2-5) fixed c]
  have IH: "store_inv bounds st2 \<and> fst ` set (st_buckets st2) \<subseteq> K \<and>
    (\<forall>t0. sorted (t0 # map bc_now cs) \<longrightarrow>
       sum_list (map2 (spent k) cs rs1) \<le> available (real (unat cap)) r (st_buckets st1) k t0 +
         seconds (last (t0 # map bc_now cs) - t0) * r)"
    using Cons.prems(3,4) step by (intro Cons.IH [OF inv1 _ _ _ cs]) auto
  have "sum_list (map2 (spent k) (c # cs) rs) \<le> available (real (unat cap)) r (st_buckets st) k t0 +
      seconds (last (t0 # map bc_now (c # cs)) - t0) * r"
    if srt: "sorted (t0 # map bc_now (c # cs))" for t0
  proof -
    let ?l = "last (bc_now c # map bc_now cs)"
    have t: "t0 \<le> bc_now c" "bc_now c \<le> ?l" "sorted (bc_now c # map bc_now cs)"
      using srt by (auto simp: last_map)
    have "sum_list (map2 (spent k) cs rs1) \<le>
        available (real (unat cap)) r (st_buckets st1) k (bc_now c) + seconds (?l - bc_now c) * r"
      using IH t(3) by blast
    moreover note available_later [OF assms(4) t(1), of "real (unat cap)" "st_buckets st" k]
    moreover have "seconds (?l - t0) = seconds (?l - bc_now c) + seconds (bc_now c - t0)"
      using t(1,2) by (simp add: seconds_def add_divide_distrib [symmetric] del: last.simps)
    moreover have "last (t0 # map bc_now (c # cs)) = ?l" by simp
    ultimately show ?thesis using step by (simp add: out distrib_right del: last.simps)
  qed
  with IH out show ?case by blast
qed

text \<open>
  C16. Over exact arithmetic the store enforces its rate as long as it forgets no bucket early. Take any run
  of calls on any keys, no more distinct keys than the store may hold, so that none is evicted, in which one
  key is always asked for with the same capacity and refill, and the idle time is long enough to refill a
  bucket. Then in every stretch of that run whose calls come in the order of time the cost admitted for the
  key is at most the capacity plus what is refilled between the first and the last call of the stretch.
\<close>

theorem token_bucket_rate:
  assumes "consume_run Fin (fst (with_bounds n ttl)) before (snd (with_bounds n ttl)) = (rs0, st0)"
    and "consume_run Fin (fst (with_bounds n ttl)) stretch st0 = (rs, st)"
    and "stretch \<noteq> []" "sorted (map bc_now stretch)"
    and "card (bc_key ` set (before @ stretch)) \<le> n" "0 < ttl"
    and "\<forall>c \<in> set (before @ stretch). bc_key c = key \<longrightarrow> bc_capacity c = capacity \<and> bc_refill c = Fin r"
    and "0 < r" "real (unat capacity) \<le> seconds ttl * r"
  shows "sum_list (map2 (spent key) stretch rs) \<le>
    real (unat capacity) + seconds (bc_now (last stretch) - bc_now (hd stretch)) * r"
proof -
  let ?K = "bc_key ` set (before @ stretch)" and ?b = "fst (with_bounds n ttl)"
  have "0 < card ?K" using assms(3) by (simp add: card_gt_0_iff)
  then have u: "usable ?b" using assms(5,6) by (simp add: usable_def with_bounds_def)
  have K: "finite ?K" "card ?K \<le> tb_max_entries ?b" "real (unat capacity) \<le> seconds (tb_ttl ?b) * r"
    using assms(5,9) by (simp_all add: with_bounds_def)
  have "store_inv ?b st0 \<and> fst ` set (st_buckets st0) \<subseteq> ?K"
    using consume_run_rate [OF u K(1,2) assms(8) K(3) store_inv_empty _ _ _ assms(1), of key] assms(7)
    by (auto simp: with_bounds_def)
  then have st0: "store_inv ?b st0" "fst ` set (st_buckets st0) \<subseteq> ?K" by auto
  have srt: "sorted (bc_now (hd stretch) # map bc_now stretch)"
    using assms(3,4) by (cases stretch) auto
  have sub: "bc_key ` set stretch \<subseteq> ?K"
    "\<forall>c \<in> set stretch. bc_key c = key \<longrightarrow> bc_capacity c = capacity \<and> bc_refill c = Fin r"
    using assms(7) by auto
  have "sum_list (map2 (spent key) stretch rs) \<le>
      available (real (unat capacity)) r (st_buckets st0) key (bc_now (hd stretch)) +
      seconds (last (bc_now (hd stretch) # map bc_now stretch) - bc_now (hd stretch)) * r"
    using consume_run_rate [OF u K(1,2) assms(8) K(3) st0 sub assms(2)] srt by blast
  also have "last (bc_now (hd stretch) # map bc_now stretch) = bc_now (last stretch)"
    using assms(3) by (simp add: last_map)
  finally show ?thesis
    using available_le [of "real (unat capacity)" r "st_buckets st0" key "bc_now (hd stretch)"] by linarith
qed

theorem token_bucket_rate_witness:
  "let ttl = 3000000000;
       before = [example_call 0 ''a'' 3];
       stretch = [example_call 7 ''b'' 5, example_call 9 ''a'' 3, example_call 1000000007 ''a'' 1];
       run0 = consume_run Fin (fst (with_bounds 2 ttl)) before (snd (with_bounds 2 ttl));
       run = consume_run Fin (fst (with_bounds 2 ttl)) stretch (snd run0)
   in sum_list (map2 (spent ''a'') stretch (fst run)) \<le> real (unat (5 :: u32)) + seconds 1000000000 * 2"
proof -
  have "seconds (1000000007 - 7) = seconds 1000000000" by simp
  then show ?thesis unfolding Let_def
    using token_bucket_rate [where n = 2 and ttl = 3000000000 and before = "[example_call 0 ''a'' 3]"
        and stretch = "[example_call 7 ''b'' 5, example_call 9 ''a'' 3, example_call 1000000007 ''a'' 1]"
        and key = "''a''" and capacity = 5 and r = 2, OF surjective_pairing surjective_pairing]
    by (simp add: example_call_def seconds_def insert_commute del: consume_run.simps)
qed

end
