(* ===== verification/Rate_Limit_Policy.thy ===== *)
theory Rate_Limit_Policy
  imports Rate_Limit
begin

text \<open>
  \<^verbatim>\<open>src/src/rust/src/rate_limit_v2.rs\<close>: rate-limit policies of the second version, the audit
  policy of each operation class, and the validator with its list of violations. Decoding JSON into
  a policy is serde's; it is an argument of \<open>policy_from_json\<close>.
\<close>

section \<open>Policies\<close>

definition max_capacity :: u64 where "max_capacity = 1000000000"
definition max_window_ms :: u64 where "max_window_ms = 31 * 24 * 60 * 60 * 1000"
definition max_local_deny_cache_entries :: u32 where "max_local_deny_cache_entries = 10000"

datatype rate_limit_algorithm_v2 = TokenBucketV2 | SlidingWindowCounterV2 | FixedWindowV2 | Gcra | ConcurrencyV2

datatype enforcement_mode = DisabledMode | AuditMode | EnforceMode

record rate_limit_policy =
  rl_policy_id :: string
  rl_operation_class :: operation_class
  rl_algorithm :: rate_limit_algorithm_v2
  rl_consistency :: rate_limit_consistency
  rl_enforcement_mode :: enforcement_mode
  rl_failure_mode :: rate_limit_failure_mode
  rl_layer :: rate_limit_layer
  rl_capacity :: u64
  rl_window_ms :: "u64 option"
  rl_refill_tokens :: "u64 option"
  rl_refill_interval_ms :: "u64 option"
  rl_maximum_overshoot :: u64
  rl_local_deny_cache_entries :: u32
  rl_coordinator_required :: bool
  rl_key_version :: string

text \<open>The derived \<open>Debug\<close> prints the name of the variant.\<close>

definition operation_class_debug :: "operation_class \<Rightarrow> string" where
  "operation_class_debug c =
     (case c of
        HealthRead \<Rightarrow> ''HealthRead''
      | PublicRead \<Rightarrow> ''PublicRead''
      | AuthAttempt \<Rightarrow> ''AuthAttempt''
      | AuthRecovery \<Rightarrow> ''AuthRecovery''
      | Mutation \<Rightarrow> ''Mutation''
      | PaymentOrLedgerWrite \<Rightarrow> ''PaymentOrLedgerWrite''
      | JobAdmission \<Rightarrow> ''JobAdmission'')"

definition audit_for :: "operation_class \<Rightarrow> rate_limit_policy" where
  "audit_for c =
     (let posture = posture_of c; strict = (po_consistency posture = Strict)
      in \<lparr>rl_policy_id = to_ascii_lowercase (operation_class_debug c @ ''-audit-v2''),
          rl_operation_class = c,
          rl_algorithm = (if strict then Gcra else TokenBucketV2),
          rl_consistency = po_consistency posture,
          rl_enforcement_mode = AuditMode,
          rl_failure_mode = po_failure_mode posture,
          rl_layer = ApplicationLayer,
          rl_capacity = (if strict then 20 else 120),
          rl_window_ms = then_some strict 60000,
          rl_refill_tokens = then_some (\<not> strict) 120,
          rl_refill_interval_ms = then_some (\<not> strict) 60000,
          rl_maximum_overshoot = (if strict then 0 else 8),
          rl_local_deny_cache_entries = max_local_deny_cache_entries,
          rl_coordinator_required = po_coordinator_required posture,
          rl_key_version = ''v1''\<rparr>)"

section \<open>Validation\<close>

record policy_violation =
  pv_code :: string
  pv_path :: string
  pv_message :: string

definition policy_violation_new :: "string \<Rightarrow> string \<Rightarrow> string \<Rightarrow> policy_violation" where
  "policy_violation_new code path message = \<lparr>pv_code = code, pv_path = path, pv_message = message\<rparr>"

definition valid_identifier :: "string \<Rightarrow> bool" where
  "valid_identifier v \<longleftrightarrow>
     v \<noteq> [] \<and> length v \<le> 128 \<and>
     list_all (\<lambda>b. is_ascii_alphanumeric b \<or> b \<in> {CHR ''-'', CHR ''_'', CHR ''.''}) v"

definition require_positive :: "u64 option \<Rightarrow> string \<Rightarrow> string \<Rightarrow> policy_violation option" where
  "require_positive v path code =
     (if (case v of None \<Rightarrow> False | Some n \<Rightarrow> 0 < n \<and> n \<le> max_capacity) then None
      else Some (policy_violation_new code path ''field is required and must be a positive bounded integer''))"

definition require_bounded_duration :: "u64 option \<Rightarrow> string \<Rightarrow> string \<Rightarrow> policy_violation option" where
  "require_bounded_duration v path code =
     (if (case v of None \<Rightarrow> False | Some n \<Rightarrow> 0 < n \<and> n \<le> max_window_ms) then None
      else Some (policy_violation_new code path
        ''duration is required and must be between 1 millisecond and 31 days''))"

definition forbid :: "'a option \<Rightarrow> string \<Rightarrow> string \<Rightarrow> policy_violation option" where
  "forbid v path code =
     then_some (v \<noteq> None) (policy_violation_new code path ''field is not valid for the selected algorithm'')"

definition push_if :: "bool \<Rightarrow> string \<Rightarrow> string \<Rightarrow> string \<Rightarrow> policy_violation list" where
  "push_if b code path message = (if b then [policy_violation_new code path message] else [])"

definition identity_violations :: "rate_limit_policy \<Rightarrow> policy_violation list" where
  "identity_violations p =
     push_if (\<not> valid_identifier (rl_policy_id p)) ''policy-id-invalid'' ''policyId''
       ''policyId must be a non-empty ASCII token no longer than 128 bytes'' @
     push_if (\<not> valid_identifier (rl_key_version p)) ''key-version-invalid'' ''keyVersion''
       ''keyVersion must be a non-empty ASCII token no longer than 128 bytes'' @
     push_if (rl_capacity p = 0 \<or> rl_capacity p > max_capacity) ''capacity-out-of-range'' ''capacity''
       ''capacity must be between 1 and 1,000,000,000'' @
     push_if (rl_local_deny_cache_entries p > max_local_deny_cache_entries) ''local-cache-too-large''
       ''localDenyCacheEntries'' ''local denial cache must not exceed 10,000 entries''"

definition algorithm_violations :: "rate_limit_policy \<Rightarrow> policy_violation list" where
  "algorithm_violations p =
     List.map_filter id
       (case rl_algorithm p of
          TokenBucketV2 \<Rightarrow>
            [require_positive (rl_refill_tokens p) ''refillTokens'' ''token-bucket-refill-tokens-required'',
             require_bounded_duration (rl_refill_interval_ms p) ''refillIntervalMs''
               ''token-bucket-refill-interval-required'',
             forbid (rl_window_ms p) ''windowMs'' ''token-bucket-window-forbidden'']
        | ConcurrencyV2 \<Rightarrow>
            [forbid (rl_window_ms p) ''windowMs'' ''concurrency-window-forbidden'',
             forbid (rl_refill_tokens p) ''refillTokens'' ''concurrency-refill-tokens-forbidden'',
             forbid (rl_refill_interval_ms p) ''refillIntervalMs''
               ''concurrency-refill-interval-forbidden'']
        | _ \<Rightarrow>
            [require_bounded_duration (rl_window_ms p) ''windowMs'' ''window-required'',
             forbid (rl_refill_tokens p) ''refillTokens'' ''window-refill-tokens-forbidden'',
             forbid (rl_refill_interval_ms p) ''refillIntervalMs'' ''window-refill-interval-forbidden''])"

definition consistency_violations :: "rate_limit_policy \<Rightarrow> policy_violation list" where
  "consistency_violations p =
     (case rl_consistency p of
        Strict \<Rightarrow>
          push_if (rl_failure_mode p \<noteq> FailClosedMode) ''strict-must-fail-closed'' ''failureMode''
            ''strict consistency requires fail-closed backend behavior'' @
          push_if (\<not> rl_coordinator_required p) ''strict-requires-coordinator'' ''coordinatorRequired''
            ''strict consistency requires one atomic coordinator'' @
          push_if (rl_maximum_overshoot p \<noteq> 0) ''strict-overshoot-must-be-zero'' ''maximumOvershoot''
            ''strict consistency cannot declare local overshoot''
      | Bounded \<Rightarrow>
          push_if (rl_maximum_overshoot p = 0) ''bounded-overshoot-required'' ''maximumOvershoot''
            ''bounded consistency requires an explicit positive overshoot bound'' @
          push_if (rl_local_deny_cache_entries p = 0) ''bounded-cache-required'' ''localDenyCacheEntries''
            ''bounded consistency requires a finite local denial cache''
      | Advisory \<Rightarrow>
          push_if (rl_coordinator_required p) ''advisory-coordinator-forbidden'' ''coordinatorRequired''
            ''advisory policy cannot claim an authoritative coordinator'' @
          push_if (rl_failure_mode p = FailClosedMode) ''advisory-fail-closed-misleading'' ''failureMode''
            ''advisory policy must not present backend failure as global denial'')"

definition operation_violations :: "rate_limit_policy \<Rightarrow> policy_violation list" where
  "operation_violations p =
     (if po_consistency (posture_of (rl_operation_class p)) = Strict then
        push_if (rl_consistency p \<noteq> Strict) ''operation-requires-strict-consistency'' ''consistency''
          ''security-sensitive operation class requires strict consistency'' @
        push_if (rl_failure_mode p \<noteq> FailClosedMode) ''operation-requires-fail-closed'' ''failureMode''
          ''security-sensitive operation class requires fail-closed behavior'' @
        push_if (\<not> rl_coordinator_required p) ''operation-requires-coordinator'' ''coordinatorRequired''
          ''security-sensitive operation class requires an atomic coordinator''
      else [])"

definition layer_violations :: "rate_limit_policy \<Rightarrow> policy_violation list" where
  "layer_violations p =
     push_if (rl_layer p = AuthorizationLayer \<and>
         (rl_consistency p \<noteq> Strict \<or> rl_failure_mode p \<noteq> FailClosedMode \<or> \<not> rl_coordinator_required p))
       ''authorization-boundary-must-be-strict'' ''layer''
       ''authorization-layer limiting must be strict, coordinated, and fail closed'' @
     push_if (rl_layer p = CloudflareEdge \<and> rl_enforcement_mode p = EnforceMode \<and>
         \<not> po_edge_may_deny (posture_of (rl_operation_class p)))
       ''edge-denial-forbidden-for-operation'' ''enforcementMode''
       ''edge may observe this operation class but cannot own its denial decision''"

definition policy_validate :: "rate_limit_policy \<Rightarrow> policy_violation list" where
  "policy_validate p =
     identity_violations p @ algorithm_violations p @ consistency_violations p @
     operation_violations p @ layer_violations p"

datatype 'e policy_decode_error = JsonError 'e | ValidationError "policy_violation list"

definition policy_decode_error_display :: "('e \<Rightarrow> string) \<Rightarrow> 'e policy_decode_error \<Rightarrow> string" where
  "policy_decode_error_display show_error e =
     (case e of
        JsonError j \<Rightarrow> ''invalid rate-limit policy JSON: '' @ show_error j
      | ValidationError vs \<Rightarrow>
          ''rate-limit policy violated '' @ show_nat (length vs) @ '' invariant(s)'')"

definition policy_decode_error_source :: "'e policy_decode_error \<Rightarrow> 'e option" where
  "policy_decode_error_source e = (case e of JsonError j \<Rightarrow> Some j | ValidationError _ \<Rightarrow> None)"

definition policy_from_json ::
    "(string \<Rightarrow> ('e, rate_limit_policy) result) \<Rightarrow> string \<Rightarrow>
     ('e policy_decode_error, rate_limit_policy) result" where
  "policy_from_json decode s =
     (case decode s of
        Inl e \<Rightarrow> Inl (JsonError e)
      | Inr policy \<Rightarrow>
          (let violations = policy_validate policy
           in if violations = [] then Inr policy else Inl (ValidationError violations)))"

section \<open>What a valid policy is\<close>

definition within :: "u64 \<Rightarrow> u64 option \<Rightarrow> bool" where
  "within limit v \<longleftrightarrow> (\<exists>n. v = Some n \<and> 1 \<le> unat n \<and> unat n \<le> unat limit)"

text \<open>Which of the three numeric fields an algorithm needs; the others must be absent.\<close>

definition algorithm_shape :: "rate_limit_policy \<Rightarrow> bool" where
  "algorithm_shape p \<longleftrightarrow>
     (let refills = (rl_algorithm p = TokenBucketV2);
          windowed = (rl_algorithm p \<in> {SlidingWindowCounterV2, FixedWindowV2, Gcra})
      in (if refills then within max_capacity (rl_refill_tokens p) else rl_refill_tokens p = None) \<and>
         (if refills then within max_window_ms (rl_refill_interval_ms p)
          else rl_refill_interval_ms p = None) \<and>
         (if windowed then within max_window_ms (rl_window_ms p) else rl_window_ms p = None))"

text \<open>Strictly enforced: one coordinator, closed on failure, nothing let through beyond the capacity.\<close>

definition strictly_enforced :: "rate_limit_policy \<Rightarrow> bool" where
  "strictly_enforced p \<longleftrightarrow>
     rl_consistency p = Strict \<and> rl_failure_mode p = FailClosedMode \<and> rl_coordinator_required p \<and>
     rl_maximum_overshoot p = 0"

definition loosely_enforced :: "rate_limit_policy \<Rightarrow> bool" where
  "loosely_enforced p \<longleftrightarrow>
     rl_operation_class p \<in> {HealthRead, PublicRead} \<and> rl_layer p \<noteq> AuthorizationLayer \<and>
     (rl_consistency p = Bounded \<and> 0 < rl_maximum_overshoot p \<and> 0 < rl_local_deny_cache_entries p \<or>
      rl_consistency p = Advisory \<and> \<not> rl_coordinator_required p \<and> rl_failure_mode p \<noteq> FailClosedMode)"

lemma push_if_Nil [simp]: "push_if b c p m = [] \<longleftrightarrow> \<not> b"
  by (simp add: push_if_def)

lemma strict_class_iff:
  "po_consistency (posture_of c) = Strict \<longleftrightarrow> c \<notin> {HealthRead, PublicRead}"
  by (cases c) (simp_all add: posture_of_def)

lemma edge_class_iff: "po_edge_may_deny (posture_of c) \<longleftrightarrow> c \<in> {PublicRead, AuthAttempt}"
  by (cases c) (simp_all add: posture_of_def)

lemma requirement_simps [simp]:
  "require_positive v path code = None \<longleftrightarrow> within max_capacity v"
  "require_bounded_duration v path code = None \<longleftrightarrow> within max_window_ms v"
  "forbid w path code = None \<longleftrightarrow> w = None"
  by (auto simp: require_positive_def require_bounded_duration_def forbid_def within_def word_le_nat_alt
      word_less_nat_alt then_some_def split: option.splits)

lemma map_filter_id_Nil: "List.map_filter id xs = [] \<longleftrightarrow> list_all (\<lambda>x. x = None) xs"
  by (induction xs) (auto simp: List.map_filter_def)

lemma algorithm_violations_Nil: "algorithm_violations p = [] \<longleftrightarrow> algorithm_shape p"
  unfolding algorithm_violations_def map_filter_id_Nil
  by (cases "rl_algorithm p") (auto simp: algorithm_shape_def)

lemma enforcement_violations_Nil:
  "consistency_violations p = [] \<and> operation_violations p = [] \<and> layer_violations p = [] \<longleftrightarrow>
   (strictly_enforced p \<or> loosely_enforced p) \<and>
   (rl_layer p = CloudflareEdge \<and> rl_enforcement_mode p = EnforceMode \<longrightarrow>
      rl_operation_class p \<in> {PublicRead, AuthAttempt})"
  by (cases "rl_consistency p")
    (auto simp: consistency_violations_def operation_violations_def layer_violations_def
      strict_class_iff edge_class_iff strictly_enforced_def loosely_enforced_def word_gt_0)

lemma identity_violations_Nil:
  "identity_violations p = [] \<longleftrightarrow>
     valid_identifier (rl_policy_id p) \<and> valid_identifier (rl_key_version p) \<and>
     within max_capacity (Some (rl_capacity p)) \<and>
     rl_local_deny_cache_entries p \<le> max_local_deny_cache_entries"
proof -
  have "(rl_capacity p = 0 \<or> rl_capacity p > max_capacity) = (\<not> within max_capacity (Some (rl_capacity p)))"
    by (auto simp: within_def word_less_nat_alt unat_eq_zero not_less Suc_le_eq unat_gt_0)
  then show ?thesis unfolding identity_violations_def by (simp add: not_less)
qed

lemma policy_validate_Nil:
  "policy_validate p = [] \<longleftrightarrow>
     valid_identifier (rl_policy_id p) \<and> valid_identifier (rl_key_version p) \<and>
     within max_capacity (Some (rl_capacity p)) \<and>
     rl_local_deny_cache_entries p \<le> max_local_deny_cache_entries \<and>
     algorithm_shape p \<and> (strictly_enforced p \<or> loosely_enforced p) \<and>
     (rl_layer p = CloudflareEdge \<and> rl_enforcement_mode p = EnforceMode \<longrightarrow>
        rl_operation_class p \<in> {PublicRead, AuthAttempt})"
  by (simp only: policy_validate_def append_is_Nil_conv identity_violations_Nil
      algorithm_violations_Nil enforcement_violations_Nil conj_assoc)

text \<open>
  A policy raises no violation exactly when its identifiers are bounded ASCII tokens, its
  capacity and cache size lie in range, it carries the numeric fields of its algorithm and no
  others, and it is enforced strictly (one coordinator, closed on failure, no overshoot) or, only
  for health and public reads outside the authorization layer, loosely with the bounds its
  consistency needs; and it does not let the edge deny a class whose denials belong elsewhere.
  Decoding returns exactly the decoded policies that raise none.
\<close>

theorem policy_validate_exact:
  "(policy_validate p = [] \<longleftrightarrow>
     valid_identifier (rl_policy_id p) \<and> valid_identifier (rl_key_version p) \<and>
     1 \<le> unat (rl_capacity p) \<and> unat (rl_capacity p) \<le> 1000000000 \<and>
     unat (rl_local_deny_cache_entries p) \<le> 10000 \<and>
     algorithm_shape p \<and> (strictly_enforced p \<or> loosely_enforced p) \<and>
     \<not> (rl_layer p = CloudflareEdge \<and> rl_enforcement_mode p = EnforceMode \<and>
        rl_operation_class p \<notin> {PublicRead, AuthAttempt})) \<and>
   (policy_from_json decode s = Inr p \<longleftrightarrow> decode s = Inr p \<and> policy_validate p = [])"
  unfolding policy_validate_Nil
  by (auto simp: within_def max_capacity_def max_local_deny_cache_entries_def word_le_nat_alt
      policy_from_json_def Let_def policy_validate_Nil split: sum.splits if_splits)

text \<open>
  The audit policy of every operation class is valid, has the consistency, failure mode and
  coordination of the class, and stays valid when it is switched to another enforcement mode; the
  classes have different policy ids.
\<close>

theorem audit_for_valid:
  "policy_validate ((audit_for c)\<lparr>rl_enforcement_mode := m\<rparr>) = [] \<and>
   rl_consistency (audit_for c) = po_consistency (posture_of c) \<and>
   rl_failure_mode (audit_for c) = po_failure_mode (posture_of c) \<and>
   rl_coordinator_required (audit_for c) = po_coordinator_required (posture_of c) \<and>
   (rl_policy_id (audit_for c) = rl_policy_id (audit_for c') \<longleftrightarrow> c = c')"
proof -
  have "policy_validate ((audit_for c)\<lparr>rl_enforcement_mode := m\<rparr>) = []"
    unfolding policy_validate_Nil
    by (cases c) (simp_all add: audit_for_def posture_of_def operation_class_debug_def
        to_ascii_lowercase_def lower_char_def valid_identifier_def ascii_defs within_def
        max_capacity_def max_window_ms_def max_local_deny_cache_entries_def algorithm_shape_def
        strictly_enforced_def loosely_enforced_def)
  moreover have "rl_policy_id (audit_for c) = rl_policy_id (audit_for c') \<longleftrightarrow> c = c'"
    by (cases c; cases c') (simp_all add: audit_for_def operation_class_debug_def Let_def
        to_ascii_lowercase_def lower_char_def ascii_defs)
  ultimately show ?thesis by (simp add: audit_for_def Let_def)
qed

end
