(* ===== verification/Route_Matching.thy ===== *)
theory Route_Matching
  imports Prelude
begin

text \<open>
  What the two route tables of the crate share: the scan that keeps the matches with the best score,
  and the walk of a path template along a path. Each is a contract on the recursion equations of the
  loop, so that its meaning is proved once for both tables.
\<close>

section \<open>The best matches\<close>

text \<open>The matching rules no other matching rule beats, in the order of the table.\<close>

definition unbeaten :: "('r \<Rightarrow> 'k::linorder option) \<Rightarrow> 'r list \<Rightarrow> 'r \<Rightarrow> bool" where
  "unbeaten score rules r \<longleftrightarrow>
     (\<exists>s. score r = Some s \<and> (\<forall>r' \<in> set rules. \<forall>s'. score r' = Some s' \<longrightarrow> s' \<le> s))"

definition best_of :: "('r \<Rightarrow> 'k::linorder option) \<Rightarrow> 'r list \<Rightarrow> 'r list" where
  "best_of score rules = filter (unbeaten score rules) rules"

lemma best_of_Nil: "best_of score rules = [] \<longleftrightarrow> (\<nexists>r. r \<in> set rules \<and> score r \<noteq> None)"
proof
  assume empty: "best_of score rules = []"
  show "\<nexists>r. r \<in> set rules \<and> score r \<noteq> None"
  proof
    assume ex: "\<exists>r. r \<in> set rules \<and> score r \<noteq> None"
    let ?S = "(\<lambda>r. the (score r)) ` {r \<in> set rules. score r \<noteq> None}"
    have S: "finite ?S" "?S \<noteq> {}" using ex by auto
    from Max_in [OF S] obtain r where r: "r \<in> set rules" "score r = Some (Max ?S)" by force
    have "s' \<le> Max ?S" if "r' \<in> set rules" "score r' = Some s'" for r' s'
      using that by (intro Max_ge [OF S(1)]) force
    with r have "r \<in> set rules" "unbeaten score rules r" by (auto simp: unbeaten_def)
    with empty show False by (auto simp: best_of_def filter_empty_conv)
  qed
qed (auto simp: best_of_def unbeaten_def filter_empty_conv)

text \<open>What the scan knows of the rules it has passed.\<close>

definition scanned :: "('r \<Rightarrow> 'k::linorder option) \<Rightarrow> 'r list \<Rightarrow> 'k option \<Rightarrow> 'r list \<Rightarrow> bool" where
  "scanned score seen best matches \<longleftrightarrow>
     matches = filter (\<lambda>r. best \<noteq> None \<and> score r = best) seen \<and>
     (\<forall>r \<in> set seen. \<forall>s. score r = Some s \<longrightarrow> (\<exists>b. best = Some b \<and> s \<le> b)) \<and>
     (best \<noteq> None \<longrightarrow> (\<exists>r \<in> set seen. score r = best))"

lemma scanned_best:
  assumes "scanned score seen best matches"
  shows "matches = best_of score seen"
proof -
  have "unbeaten score seen r \<longleftrightarrow> best \<noteq> None \<and> score r = best" if "r \<in> set seen" for r
  proof (cases best)
    case None
    with assms that show ?thesis by (auto simp: scanned_def unbeaten_def)
  next
    case (Some b)
    with assms obtain r0 where r0: "r0 \<in> set seen" "score r0 = Some b" by (auto simp: scanned_def)
    have le: "s \<le> b" if "r' \<in> set seen" "score r' = Some s" for r' s
      using assms that Some by (auto simp: scanned_def)
    then show ?thesis
      using r0 that Some unfolding unbeaten_def by (auto, metis order_antisym)
  qed
  then show ?thesis using assms by (auto simp: scanned_def best_of_def intro: filter_cong)
qed

lemma scanned_step:
  assumes "scanned score seen best matches"
  shows "score r = None \<Longrightarrow> scanned score (seen @ [r]) best matches"
    and "score r = Some s \<Longrightarrow> best = None \<Longrightarrow> scanned score (seen @ [r]) (Some s) (matches @ [r])"
    and "score r = Some s \<Longrightarrow> best = Some b \<Longrightarrow> b < s \<Longrightarrow> scanned score (seen @ [r]) (Some s) [r]"
    and "score r = Some s \<Longrightarrow> best = Some s \<Longrightarrow> scanned score (seen @ [r]) best (matches @ [r])"
    and "score r = Some s \<Longrightarrow> best = Some b \<Longrightarrow> s < b \<Longrightarrow> scanned score (seen @ [r]) best matches"
  using assms by (auto simp: scanned_def filter_empty_conv dest: order_less_le_trans)

locale best_scan =
  fixes score :: "'r \<Rightarrow> 'k::linorder option"
    and loop :: "'r list \<Rightarrow> 'k option \<Rightarrow> 'r list \<Rightarrow> 'r list"
  assumes loop_Nil: "loop [] best matches = matches"
    and loop_None: "score r = None \<Longrightarrow> loop (r # rules) best matches = loop rules best matches"
    and loop_first: "score r = Some s \<Longrightarrow> loop (r # rules) None matches = loop rules (Some s) (matches @ [r])"
    and loop_Some: "score r = Some s \<Longrightarrow> loop (r # rules) (Some b) matches =
      (if b < s then loop rules (Some s) [r] else if s = b then loop rules (Some b) (matches @ [r])
       else loop rules (Some b) matches)"
begin

lemma loop_scanned: "scanned score seen best matches \<Longrightarrow> loop rules best matches = best_of score (seen @ rules)"
proof (induction rules arbitrary: seen best matches)
  case Nil
  then show ?case by (simp add: loop_Nil scanned_best)
next
  case (Cons r rules)
  note step = scanned_step [OF Cons.prems, of r]
  note IH = Cons.IH [of "seen @ [r]", simplified]
  show ?case
  proof (cases "score r")
    case None
    with IH step(1) show ?thesis by (simp add: loop_None)
  next
    case (Some s)
    then show ?thesis
      using IH step(2-5) [of s]
      by (cases best; cases "s < the best"; cases "s = the best") (auto simp: loop_first loop_Some not_less)
  qed
qed

lemma scan_best: "loop rules None [] = best_of score rules"
  using loop_scanned [of "[]" None "[]" rules] by (simp add: scanned_def)

end

section \<open>Templates and paths\<close>

text \<open>A template whose last segment is a star matches what follows the others, whatever it is.\<close>

definition segments_match :: "('a \<Rightarrow> 'b \<Rightarrow> bool) \<Rightarrow> 'a \<Rightarrow> 'a list \<Rightarrow> 'b list \<Rightarrow> bool" where
  "segments_match segment_ok star ts ps \<longleftrightarrow>
     (if ts \<noteq> [] \<and> last ts = star
      then length (butlast ts) \<le> length ps \<and> list_all2 segment_ok (butlast ts) (take (length (butlast ts)) ps)
      else list_all2 segment_ok ts ps)"

lemma segments_match_simps:
  "segments_match ok star [] ps \<longleftrightarrow> ps = []"
  "segments_match ok star (t # ts) ps \<longleftrightarrow>
     ts = [] \<and> t = star \<or> (\<exists>q qs. ps = q # qs \<and> ok t q \<and> segments_match ok star ts qs) \<and> \<not> (ts = [] \<and> t = star)"
proof -
  show "segments_match ok star [] ps \<longleftrightarrow> ps = []" by (simp add: segments_match_def)
  show "segments_match ok star (t # ts) ps \<longleftrightarrow> ts = [] \<and> t = star \<or>
      (\<exists>q qs. ps = q # qs \<and> ok t q \<and> segments_match ok star ts qs) \<and> \<not> (ts = [] \<and> t = star)"
    by (cases ts rule: rev_cases; cases ps) (auto simp: segments_match_def butlast_append)
qed

text \<open>The walk along the numbered segments of a template; the last argument counts the segments consumed.\<close>

locale template_walk =
  fixes segment_ok :: "'a \<Rightarrow> 'b \<Rightarrow> bool" and star :: 'a
    and walk :: "nat \<Rightarrow> 'b list \<Rightarrow> (nat \<times> 'a) list \<Rightarrow> nat \<Rightarrow> bool"
  assumes walk_Nil: "walk n path [] i \<longleftrightarrow> i = length path"
    and walk_Cons: "walk n path ((k, t) # rest) i \<longleftrightarrow>
      t = star \<and> k + 1 = n \<or> i < length path \<and> segment_ok t (path ! i) \<and> walk n path rest (i + 1)"
begin

lemma walk_spec:
  "i \<le> length ps \<Longrightarrow> n = k + length ts \<Longrightarrow>
   walk n ps (zip [k..<n] ts) i = segments_match segment_ok star ts (drop i ps)"
proof (induction ts arbitrary: i k)
  case Nil
  then show ?case by (auto simp: segments_match_simps walk_Nil)
next
  case (Cons t ts)
  from Cons.prems(2) have "k < n" by simp
  then have up: "[k..<n] = k # [Suc k..<n]" by (rule upt_conv_Cons)
  have n: "k + 1 = n \<longleftrightarrow> ts = []" using Cons.prems(2) by auto
  show ?case
  proof (cases "i < length ps")
    case True
    then have d: "drop i ps = ps ! i # drop (Suc i) ps" by (simp add: Cons_nth_drop_Suc)
    have "walk n ps (zip [Suc k..<n] ts) (i + 1) = segments_match segment_ok star ts (drop (Suc i) ps)"
      using Cons.IH [of "Suc i" "Suc k"] Cons.prems(2) True by (simp del: upt_Suc)
    with True show ?thesis
      unfolding up zip_Cons_Cons walk_Cons n d segments_match_simps by auto
  next
    case False
    then show ?thesis
      unfolding up zip_Cons_Cons walk_Cons n segments_match_simps by auto
  qed
qed

lemma walk_all: "walk (length ts) ps (enum_list ts) 0 = segments_match segment_ok star ts ps"
  using walk_spec [of 0 ps "length ts" 0 ts] by (simp add: enum_list_def)

end

lemma path_before_query:
  "(case split_once c path of None \<Rightarrow> path | Some (a, b) \<Rightarrow> a) = takeWhile (\<lambda>x. x \<noteq> c) path"
  by (induction path) (auto split: option.splits)

end
