(* ===== verification/Route_Table.thy ===== *)
theory Route_Table
  imports Rate_Limit_Policy Route_Matching
begin

text \<open>
  \<^verbatim>\<open>src/src/rust/src/rate_limit_routes.rs\<close>: which rate-limit policy a request falls under. Route
  selectors and their validation, path templates, the score of a match, and the resolution of a
  request against a table of rules. Scores are 32-bit words: their sums wrap around as in a release
  build.
\<close>

section \<open>Tables\<close>

record route_selector =
  se_methods :: "string list"
  se_path_template :: "string option"
  se_operation_id :: "string option"

record route_rule =
  ru_selector :: route_selector
  ru_policy :: rate_limit_policy

record route_table =
  ta_default_policy :: "rate_limit_policy option"
  ta_routes :: "route_rule list"

record route_request =
  qr_method :: string
  qr_path :: string
  qr_route_template :: "string option"
  qr_operation_id :: "string option"

datatype policy_source = RouteSource | DefaultSource

record resolved_policy =
  rs_policy :: rate_limit_policy
  rs_source :: policy_source

record route_violation =
  rv_code :: string
  rv_path :: string
  rv_message :: string

datatype resolution_error = Ambiguous
  (am_method: string) (am_path: string) (am_operation_id: "string option") (am_policy_ids: "string list")

section \<open>Path templates\<close>

definition trim_matches :: "char \<Rightarrow> string \<Rightarrow> string" where
  "trim_matches c s = rev (dropWhile (\<lambda>x. x = c) (rev (dropWhile (\<lambda>x. x = c) s)))"

definition path_segments :: "string \<Rightarrow> string list" where
  "path_segments path = (if path = ''/'' then [] else split_on CHR ''/'' (trim_matches CHR ''/'' path))"

definition is_parameter_segment :: "string \<Rightarrow> bool" where
  "is_parameter_segment s \<longleftrightarrow>
     starts_with ''{'' s \<and> ends_with ''}'' s \<and> 2 < length s \<or> starts_with '':'' s \<and> 1 < length s"

definition static_segment_count :: "string \<Rightarrow> u32" where
  "static_segment_count template =
     of_nat (length (filter (\<lambda>s. \<not> is_parameter_segment s \<and> s \<noteq> ''*'') (path_segments template)))"

fun template_segments_loop :: "nat \<Rightarrow> (nat \<times> string) list \<Rightarrow> (string, unit) result" where
  "template_segments_loop n [] = Inr ()"
| "template_segments_loop n ((index, segment) # rest) =
     (if segment = [] then Inl ''empty-path-segment''
      else if segment = ''*'' \<and> index + 1 \<noteq> n then Inl ''catch-all-must-be-terminal''
      else if starts_with ''{'' segment \<and> (\<not> ends_with ''}'' segment \<or> length segment \<le> 2)
      then Inl ''invalid-path-parameter''
      else if starts_with '':'' segment \<and> length segment = 1 then Inl ''invalid-path-parameter''
      else template_segments_loop n rest)"

definition validate_path_template :: "string \<Rightarrow> (string, unit) result" where
  "validate_path_template template =
     (if \<not> starts_with ''/'' template \<or> CHR ''?'' \<in> set template \<or> CHR ''#'' \<in> set template
      then Inl ''invalid-path-template''
      else if 1 < length template \<and> ends_with ''/'' template then Inl ''non-canonical-path-template''
      else (let segments = path_segments template
            in template_segments_loop (length segments) (enum_list segments)))"

text \<open>The loop over the template's segments; \<open>path_index\<close> counts the segments consumed.\<close>

fun template_matches_loop :: "nat \<Rightarrow> string list \<Rightarrow> (nat \<times> string) list \<Rightarrow> nat \<Rightarrow> bool" where
  "template_matches_loop n path [] path_index = (path_index = length path)"
| "template_matches_loop n path ((template_index, segment) # rest) path_index =
     (if segment = ''*'' \<and> template_index + 1 = n then True
      else if path_index \<ge> length path then False
      else if \<not> is_parameter_segment segment \<and> segment \<noteq> path ! path_index then False
      else template_matches_loop n path rest (path_index + 1))"

definition path_template_matches :: "string \<Rightarrow> string \<Rightarrow> bool" where
  "path_template_matches template request_path =
     (let path = (case split_once CHR ''?'' request_path of None \<Rightarrow> request_path | Some (a, _) \<Rightarrow> a);
          template_segments = path_segments template
      in template_matches_loop (length template_segments) (path_segments path)
           (enum_list template_segments) 0)"

section \<open>Selectors\<close>

definition method_violations :: "string list \<Rightarrow> nat \<Rightarrow> string \<Rightarrow> route_violation list" where
  "method_violations seen index m =
     (if m = [] \<or> \<not> list_all (\<lambda>b. is_ascii_uppercase b \<or> b = CHR ''-'') m then
        [\<lparr>rv_code = ''invalid-http-method'', rv_path = ''selector.methods['' @ show_nat index @ '']'',
          rv_message = ''HTTP methods must be canonical uppercase ASCII tokens''\<rparr>] else []) @
     (if m \<in> set seen then
        [\<lparr>rv_code = ''duplicate-http-method'', rv_path = ''selector.methods['' @ show_nat index @ '']'',
          rv_message = ''HTTP method may appear only once in a selector''\<rparr>] else [])"

fun methods_loop :: "string list \<Rightarrow> (nat \<times> string) list \<Rightarrow> route_violation list" where
  "methods_loop seen [] = []"
| "methods_loop seen ((index, m) # rest) = method_violations seen index m @ methods_loop (m # seen) rest"

definition operation_id_invalid :: "string \<Rightarrow> bool" where
  "operation_id_invalid v \<longleftrightarrow>
     v = [] \<or> 160 < length v \<or>
     \<not> list_all (\<lambda>b. is_ascii_alphanumeric b \<or>
         b \<in> {CHR ''-'', CHR ''_'', CHR ''.'', CHR '':'', CHR ''/''}) v"

definition selector_validate :: "route_selector \<Rightarrow> route_violation list" where
  "selector_validate s =
     (if se_methods s = [] \<and> se_path_template s = None \<and> se_operation_id s = None then
        [\<lparr>rv_code = ''empty-route-selector'', rv_path = ''selector'',
          rv_message = ''route selector must constrain method, path_template, or operation_id''\<rparr>] else []) @
     methods_loop [] (enum_list (se_methods s)) @
     (case se_path_template s of
        None \<Rightarrow> []
      | Some template \<Rightarrow>
          (case validate_path_template template of
             Inr _ \<Rightarrow> []
           | Inl code \<Rightarrow>
               [\<lparr>rv_code = code, rv_path = ''selector.path_template'',
                 rv_message = ''path_template must be an absolute normalized route template''\<rparr>])) @
     (if (case se_operation_id s of None \<Rightarrow> False | Some v \<Rightarrow> operation_id_invalid v) then
        [\<lparr>rv_code = ''invalid-operation-id'', rv_path = ''selector.operation_id'',
          rv_message = ''operation_id must be a bounded stable ASCII identifier''\<rparr>] else [])"

definition match_score :: "route_selector \<Rightarrow> route_request \<Rightarrow> u32 option" where
  "match_score s rq =
     (if se_methods s \<noteq> [] \<and> \<not> list_ex (\<lambda>m. eq_ignore_ascii_case m (qr_method rq)) (se_methods s) then None
      else if (case se_operation_id s of None \<Rightarrow> False | Some v \<Rightarrow> qr_operation_id rq \<noteq> Some v) then None
      else
        (let score = (if se_methods s \<noteq> [] then 1 else 0);
             score = (if se_operation_id s \<noteq> None then score + 10000 else score)
         in case se_path_template s of
              None \<Rightarrow> Some score
            | Some template \<Rightarrow>
                (let registered_template_match = (qr_route_template rq = Some template)
                 in if \<not> registered_template_match \<and> \<not> path_template_matches template (qr_path rq) then None
                    else
                      (let score = score + 100; score = score + static_segment_count template * 10
                       in Some (if registered_template_match then score + 5 else score)))))"

section \<open>Resolution\<close>

definition canonical_selector_key ::
    "route_selector \<Rightarrow> string list \<times> string option \<times> string option" where
  "canonical_selector_key s = (sort (se_methods s), se_path_template s, se_operation_id s)"

definition append_policy_violations :: "string \<Rightarrow> policy_violation list \<Rightarrow> route_violation list" where
  "append_policy_violations pre vs =
     map (\<lambda>v. \<lparr>rv_code = pv_code v, rv_path = pre @ ''.'' @ pv_path v, rv_message = pv_message v\<rparr>) vs"

fun table_rules_loop ::
    "(string list \<times> string option \<times> string option) list \<Rightarrow> (nat \<times> route_rule) list \<Rightarrow>
     route_violation list" where
  "table_rules_loop seen [] = []"
| "table_rules_loop seen ((index, rule) # rest) =
     (let pre = ''routes['' @ show_nat index @ '']'';
          key = canonical_selector_key (ru_selector rule)
      in map (\<lambda>v. v\<lparr>rv_path := pre @ ''.'' @ rv_path v\<rparr>) (selector_validate (ru_selector rule)) @
         append_policy_violations (pre @ ''.policy'') (policy_validate (ru_policy rule)) @
         (if key \<in> set seen then
            [\<lparr>rv_code = ''duplicate-route-selector'', rv_path = pre @ ''.selector'',
              rv_message = ''identical route selectors are ambiguous and must be combined''\<rparr>] else []) @
         table_rules_loop (key # seen) rest)"

definition table_validate :: "route_table \<Rightarrow> route_violation list" where
  "table_validate t =
     (case ta_default_policy t of
        None \<Rightarrow> []
      | Some policy \<Rightarrow> append_policy_violations ''default_policy'' (policy_validate policy)) @
     table_rules_loop [] (enum_list (ta_routes t))"

fun resolve_loop ::
    "route_request \<Rightarrow> route_rule list \<Rightarrow> u32 option \<Rightarrow> route_rule list \<Rightarrow> route_rule list" where
  "resolve_loop rq [] best_score matches = matches"
| "resolve_loop rq (rule # rules) best_score matches =
     (case match_score (ru_selector rule) rq of
        None \<Rightarrow> resolve_loop rq rules best_score matches
      | Some score \<Rightarrow>
          (case best_score of
             None \<Rightarrow> resolve_loop rq rules (Some score) (matches @ [rule])
           | Some current \<Rightarrow>
               if score > current then resolve_loop rq rules (Some score) [rule]
               else if score = current then resolve_loop rq rules best_score (matches @ [rule])
               else resolve_loop rq rules best_score matches))"

definition resolve ::
    "route_table \<Rightarrow> route_request \<Rightarrow> (resolution_error, resolved_policy option) result" where
  "resolve t rq =
     (case resolve_loop rq (ta_routes t) None [] of
        [] \<Rightarrow> Inr (map_option (\<lambda>policy. \<lparr>rs_policy = policy, rs_source = DefaultSource\<rparr>)
                (ta_default_policy t))
      | [rule] \<Rightarrow> Inr (Some \<lparr>rs_policy = ru_policy rule, rs_source = RouteSource\<rparr>)
      | many \<Rightarrow> Inl (Ambiguous (qr_method rq) (qr_path rq) (qr_operation_id rq)
                  (map (\<lambda>rule. rl_policy_id (ru_policy rule)) many)))"

section \<open>The best matches\<close>

definition rule_score :: "route_request \<Rightarrow> route_rule \<Rightarrow> u32 option" where
  "rule_score rq r = match_score (ru_selector r) rq"

definition best_rules :: "route_request \<Rightarrow> route_rule list \<Rightarrow> route_rule list" where
  "best_rules rq rules = best_of (rule_score rq) rules"

interpretation route_scan: best_scan "rule_score rq" "resolve_loop rq" for rq
  by unfold_locales (auto simp: rule_score_def)

lemma resolve_best:
  "resolve_loop rq (ta_routes t) None [] = best_rules rq (ta_routes t)"
  unfolding best_rules_def by (rule route_scan.scan_best)

text \<open>
  A request resolves to the policy of a route exactly when that rule is the only one among the
  matching rules that no other beats; to the default policy, or to nothing without one, exactly when
  no rule matches; and to an error exactly when several rules share the best score, which it names in
  the order of the table.
\<close>

theorem resolve_exact:
  "(resolve t rq = Inr (Some \<lparr>rs_policy = p, rs_source = RouteSource\<rparr>) \<longleftrightarrow>
      (\<exists>r. best_rules rq (ta_routes t) = [r] \<and> ru_policy r = p)) \<and>
   (resolve t rq = Inr (Some \<lparr>rs_policy = p, rs_source = DefaultSource\<rparr>) \<longleftrightarrow>
      (\<nexists>r. r \<in> set (ta_routes t) \<and> rule_score rq r \<noteq> None) \<and> ta_default_policy t = Some p) \<and>
   (resolve t rq = Inr None \<longleftrightarrow>
      (\<nexists>r. r \<in> set (ta_routes t) \<and> rule_score rq r \<noteq> None) \<and> ta_default_policy t = None) \<and>
   (resolve t rq = Inl e \<longleftrightarrow>
      2 \<le> length (best_rules rq (ta_routes t)) \<and>
      e = Ambiguous (qr_method rq) (qr_path rq) (qr_operation_id rq)
        (map (\<lambda>r. rl_policy_id (ru_policy r)) (best_rules rq (ta_routes t))))"
proof -
  have none: "(\<nexists>r. r \<in> set (ta_routes t) \<and> rule_score rq r \<noteq> None) \<longleftrightarrow> best_rules rq (ta_routes t) = []"
    by (simp add: best_rules_def best_of_Nil)
  show ?thesis
    unfolding none resolve_def resolve_best
    by (cases "ta_default_policy t") (auto split: list.splits)
qed

section \<open>Which paths a template matches\<close>

definition segment_ok :: "string \<Rightarrow> string \<Rightarrow> bool" where
  "segment_ok t p \<longleftrightarrow> is_parameter_segment t \<or> t = p"

interpretation route_template: template_walk segment_ok "''*''" template_matches_loop
  by unfold_locales (auto simp: segment_ok_def not_le)

text \<open>
  A path template matches a path exactly when, the query cut off, their segments agree one by
  one, a parameter agreeing with any segment; a star at the end stands for any number of segments,
  none included.
\<close>

theorem path_template_matches_exact:
  "path_template_matches template path \<longleftrightarrow>
     segments_match segment_ok ''*'' (path_segments template) (path_segments (takeWhile (\<lambda>c. c \<noteq> CHR ''?'') path))"
  by (simp only: path_template_matches_def Let_def path_before_query route_template.walk_all)

section \<open>Operation ids win\<close>

definition static_segments :: "route_selector \<Rightarrow> nat" where
  "static_segments s =
     (case se_path_template s of
        None \<Rightarrow> 0
      | Some t \<Rightarrow> length (filter (\<lambda>x. \<not> is_parameter_segment x \<and> x \<noteq> ''*'') (path_segments t)))"

definition score_value :: "route_selector \<Rightarrow> route_request \<Rightarrow> nat" where
  "score_value s rq =
     (if se_methods s = [] then 0 else 1) + (if se_operation_id s = None then 0 else 10000) +
     (if se_path_template s = None then 0
      else 100 + 10 * static_segments s + (if qr_route_template rq = se_path_template s then 5 else 0))"

lemma match_score_value:
  assumes "match_score s rq = Some v" "static_segments s < 990"
  shows "unat v = score_value s rq"
proof -
  have "v = of_nat (score_value s rq)"
    using assms(1)
    by (auto simp: match_score_def score_value_def static_segments_def static_segment_count_def Let_def
        split: if_splits option.splits)
  moreover have "score_value s rq < 2 ^ 32" using assms(2) by (simp add: score_value_def)
  ultimately show ?thesis by (simp add: unsigned_of_nat take_bit_nat_eq_self)
qed

text \<open>
  While the templates of a table have fewer than 990 literal segments, a rule that names the
  operation of a request is never overridden by a rule that does not: if some rule with an operation
  id matches, the policy a request resolves to is that of a rule with this operation id.
\<close>

theorem operation_id_wins:
  assumes "\<forall>r \<in> set (ta_routes t). static_segments (ru_selector r) < 990"
    and "r \<in> set (ta_routes t)" "se_operation_id (ru_selector r) \<noteq> None"
    and "match_score (ru_selector r) rq \<noteq> None"
    and "resolve t rq = Inr res"
  shows "\<exists>r' \<in> set (ta_routes t). res = Some \<lparr>rs_policy = ru_policy r', rs_source = RouteSource\<rparr> \<and>
    se_operation_id (ru_selector r') \<noteq> None \<and> se_operation_id (ru_selector r') = qr_operation_id rq"
proof -
  from assms(4) obtain v where v: "rule_score rq r = Some v" by (auto simp: rule_score_def)
  then have "best_rules rq (ta_routes t) \<noteq> []" using assms(2) by (auto simp: best_rules_def best_of_Nil)
  then obtain r' where r': "best_rules rq (ta_routes t) = [r']"
      "res = Some \<lparr>rs_policy = ru_policy r', rs_source = RouteSource\<rparr>"
    using assms(5) by (auto simp: resolve_def resolve_best split: list.splits)
  then have "r' \<in> set (best_rules rq (ta_routes t))" by simp
  then obtain v' where v': "r' \<in> set (ta_routes t)" "rule_score rq r' = Some v'" "v \<le> v'"
    using assms(2) v by (auto simp: best_rules_def best_of_def unbeaten_def)
  have "unat v = score_value (ru_selector r) rq" "unat v' = score_value (ru_selector r') rq"
    using assms(1,2) v v'(1,2) by (auto intro: match_score_value simp: rule_score_def)
  then have "score_value (ru_selector r) rq \<le> score_value (ru_selector r') rq"
    using v'(3) by (simp add: word_le_nat_alt)
  moreover have "score_value (ru_selector r') rq < 10000"
    if "se_operation_id (ru_selector r') = None"
    using that assms(1) v'(1) by (fastforce simp: score_value_def)
  moreover have "10000 \<le> score_value (ru_selector r) rq" using assms(3) by (auto simp: score_value_def)
  ultimately have op: "se_operation_id (ru_selector r') \<noteq> None" by fastforce
  moreover have "se_operation_id (ru_selector r') = qr_operation_id rq"
    using op v'(2) by (auto simp: rule_score_def match_score_def split: if_splits)
  ultimately show ?thesis using r'(2) v'(1) by blast
qed

definition sample_table :: route_table where
  "sample_table = \<lparr>ta_default_policy = None,
     ta_routes =
       [\<lparr>ru_selector = \<lparr>se_methods = [], se_path_template = Some ''/a'', se_operation_id = None\<rparr>,
         ru_policy = audit_for PublicRead\<rparr>,
        \<lparr>ru_selector = \<lparr>se_methods = [], se_path_template = None, se_operation_id = Some ''pay''\<rparr>,
         ru_policy = audit_for Mutation\<rparr>]\<rparr>"

definition sample_route_request :: route_request where
  "sample_route_request =
     \<lparr>qr_method = ''GET'', qr_path = ''/a'', qr_route_template = None, qr_operation_id = Some ''pay''\<rparr>"

lemma sample_table_resolves:
  "resolve sample_table sample_route_request =
     Inr (Some \<lparr>rs_policy = audit_for Mutation, rs_source = RouteSource\<rparr>)"
  by (simp add: resolve_def sample_table_def sample_route_request_def match_score_def
      path_template_matches_def path_segments_def trim_matches_def enum_list_def
      static_segment_count_def is_parameter_segment_def starts_with_def)

theorem operation_id_wins_witness:
  "\<exists>r' \<in> set (ta_routes sample_table). ru_policy r' = audit_for Mutation \<and>
     se_operation_id (ru_selector r') = Some ''pay''"
proof -
  have "\<forall>r \<in> set (ta_routes sample_table). static_segments (ru_selector r) < 990"
    by (simp add: sample_table_def static_segments_def path_segments_def trim_matches_def)
  from operation_id_wins [OF this _ _ _ sample_table_resolves, of "ta_routes sample_table ! 1"]
  show ?thesis
    by (simp add: sample_table_def sample_route_request_def match_score_def)
qed

section \<open>Valid tables\<close>

lemma methods_loop_Nil:
  "methods_loop seen (zip [k..<k + length ms] ms) = [] \<longleftrightarrow>
   distinct ms \<and> set ms \<inter> set seen = {} \<and>
   list_all (\<lambda>m. m \<noteq> [] \<and> list_all (\<lambda>b. is_ascii_uppercase b \<or> b = CHR ''-'') m) ms"
proof (induction ms arbitrary: seen k)
  case Nil
  show ?case by simp
next
  case (Cons m ms)
  have "[k..<k + length (m # ms)] = k # [Suc k..<Suc k + length ms]" by (simp add: upt_conv_Cons del: upt_Suc)
  with Cons.IH [of "m # seen" "Suc k"] show ?case by (auto simp: method_violations_def)
qed

lemma table_rules_loop_Nil:
  "table_rules_loop seen (zip [k..<k + length rs] rs) = [] \<longleftrightarrow>
   distinct (map (canonical_selector_key \<circ> ru_selector) rs) \<and>
   (canonical_selector_key \<circ> ru_selector) ` set rs \<inter> set seen = {} \<and>
   list_all (\<lambda>r. selector_validate (ru_selector r) = [] \<and> policy_validate (ru_policy r) = []) rs"
proof (induction rs arbitrary: seen k)
  case Nil
  show ?case by simp
next
  case (Cons r rs)
  have "[k..<k + length (r # rs)] = k # [Suc k..<Suc k + length rs]" by (simp add: upt_conv_Cons del: upt_Suc)
  with Cons.IH [of "canonical_selector_key (ru_selector r) # seen" "Suc k"] show ?case
    by (auto simp: append_policy_violations_def Let_def)
qed

lemma selector_validate_Nil:
  "selector_validate s = [] \<longleftrightarrow>
   (se_methods s \<noteq> [] \<or> se_path_template s \<noteq> None \<or> se_operation_id s \<noteq> None) \<and>
   distinct (se_methods s) \<and>
   list_all (\<lambda>m. m \<noteq> [] \<and> list_all (\<lambda>b. is_ascii_uppercase b \<or> b = CHR ''-'') m) (se_methods s) \<and>
   (\<forall>t. se_path_template s = Some t \<longrightarrow> validate_path_template t = Inr ()) \<and>
   (\<forall>v. se_operation_id s = Some v \<longrightarrow> \<not> operation_id_invalid v)"
  using methods_loop_Nil [of "[]" 0 "se_methods s"]
  by (auto simp: selector_validate_def enum_list_def split: option.splits sum.splits)

lemma table_validate_Nil:
  "table_validate t = [] \<longleftrightarrow>
   (\<forall>p. ta_default_policy t = Some p \<longrightarrow> policy_validate p = []) \<and>
   distinct (map (canonical_selector_key \<circ> ru_selector) (ta_routes t)) \<and>
   list_all (\<lambda>r. selector_validate (ru_selector r) = [] \<and> policy_validate (ru_policy r) = []) (ta_routes t)"
  using table_rules_loop_Nil [of "[]" 0 "ta_routes t"]
  by (auto simp: table_validate_def enum_list_def append_policy_violations_def split: option.splits)

end
