(* ===== verification/Config.thy ===== *)
theory Config
  imports Rate_Limit Float64
begin

text \<open>
  \<^verbatim>\<open>src/src/rust/src/config.rs\<close>: the configuration of a middleware stack, its defaults, and its
  validation by lists of independent rules.
\<close>

section \<open>The configuration\<close>

definition contract_version :: string where "contract_version = ''1.0.0''"

definition all_capabilities :: "string list" where
  "all_capabilities =
     [''request-context'', ''panic-recovery'', ''request-id'', ''trace-context'', ''structured-logging'',
      ''metrics-red'', ''deadline-timeout'', ''payload-limit'', ''rate-limit'', ''auth'', ''sync-observer'',
      ''json'', ''headers'', ''compression'', ''tls-policy'', ''security-headers'', ''idempotency'',
      ''ip-policy'', ''cache-etag'', ''content-negotiation'', ''fault-injection'', ''test-auth-bypass'',
      ''schema-capture'']"

definition max_local_rate_limit_entries :: nat where "max_local_rate_limit_entries = 10000"
definition default_ip_rate_limit_capacity :: u32 where "default_ip_rate_limit_capacity = 5"
definition default_ip_rate_limit_refill_per_second :: f64 where
  "default_ip_rate_limit_refill_per_second = Fin 5"

datatype runtime_environment = Development | Test | Staging | Production

datatype integration_mode = DisabledIntegration | Http | Embedded

record stack_rate_limit =
  sr_enabled :: bool
  sr_capacity :: u32
  sr_refill_per_second :: f64
  sr_key_by :: "rate_limit_signal list"
  sr_policy_id :: string
  sr_algorithm :: rate_limit_algorithm
  sr_layer :: rate_limit_layer
  sr_failure_mode :: rate_limit_failure_mode
  sr_window_ms :: u64
  sr_local_cache_max_entries :: nat
  sr_local_cache_ttl_ms :: u64
  sr_key_namespace :: string
  sr_key_version :: string
  sr_key_derivation :: key_derivation_mode

record compression_policy =
  cp_enabled :: bool
  cp_minimum_bytes :: nat
  cp_algorithms :: "string list"

record tls_policy =
  tls_mode :: string
  tls_require_https :: bool
  tls_strict_forwarded_headers :: bool
  tls_trusted_proxy_cidrs :: "string list"

record security_header_policy =
  sh_enabled :: bool
  sh_hsts_max_age_seconds :: u64
  sh_content_security_policy :: "string option"
  sh_frame_options :: string

record idempotency_policy =
  ip_enabled :: bool
  ip_header_name :: string
  ip_ttl_seconds :: u64
  ip_required_methods :: "string list"

record fault_injection_policy =
  fi_enabled :: bool
  fi_latency_ms :: u64
  fi_error_rate :: f64
  fi_drop_rate :: f64

record test_auth_bypass_policy =
  tb_enabled :: bool
  tb_header_name :: string
  tb_allowed_cidrs :: "string list"

record middleware_settings =
  ms_request_id_header :: string
  ms_trace_header :: string
  ms_timeout_ms :: u64
  ms_max_body_bytes :: nat
  ms_context_registry_max_entries :: nat
  ms_context_registry_ttl_ms :: u64
  ms_rate_limit :: stack_rate_limit
  ms_compression :: compression_policy
  ms_tls :: tls_policy
  ms_security_headers :: security_header_policy
  ms_idempotency :: idempotency_policy
  ms_fault_injection :: fault_injection_policy
  ms_test_auth_bypass :: test_auth_bypass_policy
  ms_content_representations :: "string list"

record shared_auth_integration =
  sa_mode :: integration_mode
  sa_issuer :: "string option"
  sa_audience :: "string option"
  sa_jwks_uri :: "string option"
  sa_introspection_url :: "string option"
  sa_fail_open :: bool

record opto_sync_integration =
  os_mode :: integration_mode
  os_endpoint :: "string option"
  os_outbox_topic :: "string option"
  os_fail_open :: bool

record ores_otel_integration =
  oo_enabled :: bool
  oo_service_name :: string
  oo_exporter_endpoint :: "string option"
  oo_propagators :: "string list"

record middleware_integrations =
  mi_shared_auth :: shared_auth_integration
  mi_opto_sync :: opto_sync_integration
  mi_ores_otel :: ores_otel_integration

record middleware_config =
  mc_contract_version :: string
  mc_environment :: runtime_environment
  mc_required_capabilities :: "string list"
  mc_settings :: middleware_settings
  mc_integrations :: middleware_integrations

text \<open>The values serde fills in for absent fields of the rate-limit policy.\<close>

definition default_rate_limit_policy_id :: string where "default_rate_limit_policy_id = ''default''"
definition default_rate_limit_window_ms :: u64 where "default_rate_limit_window_ms = 1000"
definition default_rate_limit_local_cache_max_entries :: nat where
  "default_rate_limit_local_cache_max_entries = max_local_rate_limit_entries"
definition default_rate_limit_local_cache_ttl_ms :: u64 where
  "default_rate_limit_local_cache_ttl_ms = 30000"
definition default_rate_limit_key_namespace :: string where
  "default_rate_limit_key_namespace = ''ores-middleware''"
definition default_rate_limit_key_version :: string where "default_rate_limit_key_version = ''v1''"

definition is_production :: "middleware_config \<Rightarrow> bool" where
  "is_production c \<longleftrightarrow> mc_environment c = Production"

section \<open>Rules\<close>

record validation_issue =
  vi_path :: string
  vi_code :: string
  vi_message :: string

type_synonym config_rule = "middleware_config \<Rightarrow> validation_issue option"

definition validation_issue_new :: "string \<Rightarrow> string \<Rightarrow> string \<Rightarrow> validation_issue" where
  "validation_issue_new path code message = \<lparr>vi_path = path, vi_code = code, vi_message = message\<rparr>"

definition issue_if :: "bool \<Rightarrow> string \<Rightarrow> string \<Rightarrow> string \<Rightarrow> validation_issue option" where
  "issue_if failed path code message = then_some failed (validation_issue_new path code message)"

definition run_rules :: "config_rule list \<Rightarrow> middleware_config \<Rightarrow> validation_issue list" where
  "run_rules rules c = List.map_filter (\<lambda>rule. rule c) rules"

definition config_rules :: "config_rule list" where
  "config_rules =
     [\<lambda>c. issue_if (mc_contract_version c \<noteq> contract_version) ''/contractVersion''
        ''unsupported_version'' (''expected '' @ contract_version),
      \<lambda>c. issue_if (ms_timeout_ms (mc_settings c) = 0) ''/settings/timeoutMs'' ''range''
        ''timeout must be positive'',
      \<lambda>c. issue_if (ms_max_body_bytes (mc_settings c) = 0) ''/settings/maxBodyBytes'' ''range''
        ''body limit must be positive'']"

definition within_unit :: "f64 \<Rightarrow> bool" where
  "within_unit x \<longleftrightarrow> fle (Fin 0) x \<and> fle x (Fin 1)"

definition fault_and_auth_rules :: "config_rule list" where
  "fault_and_auth_rules =
     [\<lambda>c. let fault = ms_fault_injection (mc_settings c) in
        issue_if (\<not> within_unit (fi_error_rate fault) \<or> \<not> within_unit (fi_drop_rate fault))
          ''/settings/faultInjection'' ''range'' ''fault rates must be within 0..=1'',
      \<lambda>c. issue_if (is_production c \<and> fi_enabled (ms_fault_injection (mc_settings c)))
        ''/settings/faultInjection/enabled'' ''production_forbidden''
        ''fault injection is forbidden in production'',
      \<lambda>c. issue_if (is_production c \<and> tb_enabled (ms_test_auth_bypass (mc_settings c)))
        ''/settings/testAuthBypass/enabled'' ''production_forbidden''
        ''test auth bypass is forbidden in production'',
      \<lambda>c. issue_if (sa_fail_open (mi_shared_auth (mc_integrations c)))
        ''/integrations/sharedAuth/failOpen'' ''auth_fail_open'' ''shared-auth must fail closed'']"

definition tls_mode_issue :: config_rule where
  "tls_mode_issue c =
     (let tls = ms_tls (mc_settings c) in
      if tls_mode tls = ''disabled'' then
        issue_if (tls_require_https tls) ''/settings/tls/requireHttps'' ''disabled_tls_requires_false''
          ''TLS mode disabled cannot enforce HTTPS''
      else if tls_mode tls = ''in-process'' then None
      else if tls_mode tls = ''trusted-proxy'' then
        issue_if (tls_trusted_proxy_cidrs tls = []) ''/settings/tls/trustedProxyCidrs''
          ''trusted_proxy_required'' ''trusted-proxy mode requires an explicit CIDR allowlist''
      else Some (validation_issue_new ''/settings/tls/mode'' ''unknown_tls_mode''
        ''TLS mode must be disabled, in-process, or trusted-proxy''))"

definition invalid_cidr_issues :: "middleware_config \<Rightarrow> validation_issue list" where
  "invalid_cidr_issues c =
     map (\<lambda>(index, cidr). validation_issue_new
           (''/settings/tls/trustedProxyCidrs/'' @ show_nat index) ''invalid_cidr'' cidr)
       (filter (\<lambda>(_, cidr). \<not> valid_cidr cidr)
         (enum_list (tls_trusted_proxy_cidrs (ms_tls (mc_settings c)))))"

definition unknown_capability_issues :: "middleware_config \<Rightarrow> validation_issue list" where
  "unknown_capability_issues c =
     map (\<lambda>capability. validation_issue_new ''/requiredCapabilities'' ''unknown_capability'' capability)
       (filter (\<lambda>capability. capability \<notin> set all_capabilities) (mc_required_capabilities c))"

definition valid_rate_limit_identifier :: "string \<Rightarrow> bool" where
  "valid_rate_limit_identifier v \<longleftrightarrow>
     v \<noteq> [] \<and> length v \<le> 128 \<and>
     list_all (\<lambda>b. is_ascii_alphanumeric b \<or> b \<in> {CHR ''-'', CHR ''_'', CHR ''.''}) v"

definition rate_limit_rules :: "config_rule list" where
  "rate_limit_rules =
     [\<lambda>c. let p = ms_rate_limit (mc_settings c) in
        issue_if (sr_capacity p = 0 \<or> \<not> is_finite (sr_refill_per_second p) \<or>
            fle (sr_refill_per_second p) (Fin 0))
          ''/settings/rateLimit'' ''invalid_rate_limit''
          ''enabled rate limits require positive finite capacity and refill'',
      \<lambda>c. issue_if (trim (sr_policy_id (ms_rate_limit (mc_settings c))) = [])
        ''/settings/rateLimit/policyId'' ''required'' ''rate-limit policy IDs must not be empty'',
      \<lambda>c. let policy_id = sr_policy_id (ms_rate_limit (mc_settings c)) in
        issue_if (trim policy_id \<noteq> [] \<and> \<not> valid_rate_limit_identifier policy_id)
          ''/settings/rateLimit/policyId'' ''invalid_identifier''
          ''rate-limit policy IDs must be 1..=128 ASCII letters, digits, dot, underscore, or hyphen'',
      \<lambda>c. issue_if (sr_key_by (ms_rate_limit (mc_settings c)) = [])
        ''/settings/rateLimit/keyBy'' ''required'' ''at least one rate-limit signal is required'',
      \<lambda>c. issue_if (\<not> list_ex is_principal_signal (sr_key_by (ms_rate_limit (mc_settings c))))
        ''/settings/rateLimit/keyBy'' ''principal_required''
        ''route and method alone cannot identify a rate-limit principal'',
      \<lambda>c. let p = ms_rate_limit (mc_settings c) in
        issue_if (sr_layer p = CloudflareEdge \<and> list_ex (\<lambda>s. \<not> is_edge_safe s) (sr_key_by p))
          ''/settings/rateLimit/keyBy'' ''edge_identity_forbidden''
          ''Cloudflare edge policies may use only IP, IP prefix, route, and method signals'',
      \<lambda>c. let p = ms_rate_limit (mc_settings c) in
        issue_if (sr_layer p = AuthorizationLayer \<and> sr_failure_mode p = FailOpenMode)
          ''/settings/rateLimit/failureMode'' ''authorization_fail_open_forbidden''
          ''authorization-layer rate limiting must not fail open'',
      \<lambda>c. issue_if (sr_window_ms (ms_rate_limit (mc_settings c)) = 0)
        ''/settings/rateLimit/windowMs'' ''range'' ''rate-limit windows must be positive'',
      \<lambda>c. let entries = sr_local_cache_max_entries (ms_rate_limit (mc_settings c)) in
        issue_if (entries = 0 \<or> entries > max_local_rate_limit_entries)
          ''/settings/rateLimit/localCacheMaxEntries'' ''range''
          (''local rate-limit caches must contain between 1 and '' @
            show_nat max_local_rate_limit_entries @ '' entries''),
      \<lambda>c. let p = ms_rate_limit (mc_settings c) in
        issue_if (sr_local_cache_ttl_ms p < sr_window_ms p)
          ''/settings/rateLimit/localCacheTtlMs'' ''ttl_shorter_than_window''
          ''local cache TTL must be at least one policy window'',
      \<lambda>c. let p = ms_rate_limit (mc_settings c) in
        issue_if (trim (sr_key_namespace p) = [] \<or> trim (sr_key_version p) = [])
          ''/settings/rateLimit'' ''key_domain_required''
          ''rate-limit key namespace and version must not be empty'',
      \<lambda>c. issue_if (is_production c \<and>
          sr_key_derivation (ms_rate_limit (mc_settings c)) = EphemeralHmacSha256)
        ''/settings/rateLimit/keyDerivation'' ''production_requires_external_hmac''
        ''production rate limiting requires a stable external HMAC key'']"

definition validate_rate_limit_policy :: "middleware_config \<Rightarrow> validation_issue list" where
  "validate_rate_limit_policy c =
     (if \<not> sr_enabled (ms_rate_limit (mc_settings c)) then [] else run_rules rate_limit_rules c)"

definition validate_config :: "middleware_config \<Rightarrow> validation_issue list" where
  "validate_config c =
     run_rules config_rules c @ validate_rate_limit_policy c @ run_rules fault_and_auth_rules c @
     opt_list (tls_mode_issue c) @ invalid_cidr_issues c @ unknown_capability_issues c"

section \<open>Defaults\<close>

text \<open>Byte 39 is the single quote.\<close>

definition default_csp :: string where
  "default_csp = ''default-src '' @ [char_of (39::nat)] @ ''self'' @ [char_of (39::nat)] @
     ''; frame-ancestors '' @ [char_of (39::nat)] @ ''none'' @ [char_of (39::nat)]"

definition default_config :: "string \<Rightarrow> middleware_config" where
  "default_config service_name =
     \<lparr>mc_contract_version = contract_version, mc_environment = Development,
      mc_required_capabilities = all_capabilities,
      mc_settings =
        \<lparr>ms_request_id_header = ''x-request-id'', ms_trace_header = ''traceparent'', ms_timeout_ms = 5000,
         ms_max_body_bytes = 2 * 1024 * 1024, ms_context_registry_max_entries = 10000,
         ms_context_registry_ttl_ms = 30000,
         ms_rate_limit =
           \<lparr>sr_enabled = True, sr_capacity = default_ip_rate_limit_capacity,
            sr_refill_per_second = default_ip_rate_limit_refill_per_second, sr_key_by = [SigIp],
            sr_policy_id = ''ip-default'', sr_algorithm = TokenBucket, sr_layer = ApplicationLayer,
            sr_failure_mode = LocalOnly, sr_window_ms = 1000,
            sr_local_cache_max_entries = max_local_rate_limit_entries, sr_local_cache_ttl_ms = 30000,
            sr_key_namespace = service_name, sr_key_version = ''v1'',
            sr_key_derivation = EphemeralHmacSha256\<rparr>,
         ms_compression =
           \<lparr>cp_enabled = True, cp_minimum_bytes = 1024, cp_algorithms = [''br'', ''gzip'']\<rparr>,
         ms_tls =
           \<lparr>tls_mode = ''trusted-proxy'', tls_require_https = True, tls_strict_forwarded_headers = True,
            tls_trusted_proxy_cidrs = [''127.0.0.1/32'', ''::1/128'']\<rparr>,
         ms_security_headers =
           \<lparr>sh_enabled = True, sh_hsts_max_age_seconds = 31536000,
            sh_content_security_policy = Some default_csp, sh_frame_options = ''DENY''\<rparr>,
         ms_idempotency =
           \<lparr>ip_enabled = True, ip_header_name = ''idempotency-key'', ip_ttl_seconds = 86400,
            ip_required_methods = [''POST'', ''PUT'', ''PATCH'']\<rparr>,
         ms_fault_injection =
           \<lparr>fi_enabled = False, fi_latency_ms = 0, fi_error_rate = Fin 0, fi_drop_rate = Fin 0\<rparr>,
         ms_test_auth_bypass =
           \<lparr>tb_enabled = False, tb_header_name = ''x-test-auth-bypass'',
            tb_allowed_cidrs = [''127.0.0.1/32'', ''::1/128'']\<rparr>,
         ms_content_representations = [''application/json'', ''application/problem+json'']\<rparr>,
      mc_integrations =
        \<lparr>mi_shared_auth =
           \<lparr>sa_mode = DisabledIntegration, sa_issuer = None, sa_audience = None, sa_jwks_uri = None,
            sa_introspection_url = None, sa_fail_open = False\<rparr>,
         mi_opto_sync =
           \<lparr>os_mode = DisabledIntegration, os_endpoint = None, os_outbox_topic = None, os_fail_open = True\<rparr>,
         mi_ores_otel =
           \<lparr>oo_enabled = True, oo_service_name = service_name, oo_exporter_endpoint = None,
            oo_propagators = [''tracecontext'', ''baggage'']\<rparr>\<rparr>\<rparr>"

section \<open>Valid configurations\<close>

definition rate_limit_ok :: "bool \<Rightarrow> stack_rate_limit \<Rightarrow> bool" where
  "rate_limit_ok production p \<longleftrightarrow>
     sr_capacity p \<noteq> 0 \<and> (\<exists>r > 0. sr_refill_per_second p = Fin r) \<and>
     valid_rate_limit_identifier (sr_policy_id p) \<and>
     list_ex is_principal_signal (sr_key_by p) \<and>
     (sr_layer p = CloudflareEdge \<longrightarrow> list_all is_edge_safe (sr_key_by p)) \<and>
     (sr_layer p = AuthorizationLayer \<longrightarrow> sr_failure_mode p \<noteq> FailOpenMode) \<and>
     0 < sr_window_ms p \<and> sr_window_ms p \<le> sr_local_cache_ttl_ms p \<and>
     1 \<le> sr_local_cache_max_entries p \<and> sr_local_cache_max_entries p \<le> 10000 \<and>
     trim (sr_key_namespace p) \<noteq> [] \<and> trim (sr_key_version p) \<noteq> [] \<and>
     (production \<longrightarrow> sr_key_derivation p = ExternalHmacSha256)"

definition tls_ok :: "tls_policy \<Rightarrow> bool" where
  "tls_ok t \<longleftrightarrow>
     (tls_mode t = ''disabled'' \<and> \<not> tls_require_https t \<or> tls_mode t = ''in-process'' \<or>
      tls_mode t = ''trusted-proxy'' \<and> tls_trusted_proxy_cidrs t \<noteq> []) \<and>
     list_all valid_cidr (tls_trusted_proxy_cidrs t)"

definition config_ok :: "middleware_config \<Rightarrow> bool" where
  "config_ok c \<longleftrightarrow>
     mc_contract_version c = contract_version \<and>
     ms_timeout_ms (mc_settings c) \<noteq> 0 \<and> ms_max_body_bytes (mc_settings c) \<noteq> 0 \<and>
     (sr_enabled (ms_rate_limit (mc_settings c)) \<longrightarrow>
        rate_limit_ok (is_production c) (ms_rate_limit (mc_settings c))) \<and>
     within_unit (fi_error_rate (ms_fault_injection (mc_settings c))) \<and>
     within_unit (fi_drop_rate (ms_fault_injection (mc_settings c))) \<and>
     (is_production c \<longrightarrow> \<not> fi_enabled (ms_fault_injection (mc_settings c)) \<and>
        \<not> tb_enabled (ms_test_auth_bypass (mc_settings c))) \<and>
     \<not> sa_fail_open (mi_shared_auth (mc_integrations c)) \<and> tls_ok (ms_tls (mc_settings c)) \<and>
     set (mc_required_capabilities c) \<subseteq> set all_capabilities"

lemma run_rules_simps [simp]:
  "run_rules [] c = []" "run_rules (rule # rules) c = opt_list (rule c) @ run_rules rules c"
  by (simp_all add: run_rules_def List.map_filter_def opt_list_def split: option.splits)

lemma opt_list_Nil_iff [simp]: "opt_list r = [] \<longleftrightarrow> r = None"
  by (cases r) simp_all

lemma issue_if_None [simp]: "issue_if failed path code message = None \<longleftrightarrow> \<not> failed"
  by (simp add: issue_if_def then_some_def)

lemma valid_identifier_not_blank:
  assumes "valid_rate_limit_identifier v"
  shows "trim v \<noteq> []"
proof -
  have "visible b" if "is_ascii_alphanumeric b \<or> b \<in> {CHR ''-'', CHR ''_'', CHR ''.''}" for b
    using that by (auto simp: visible_def ascii_defs)
  then have "list_all visible v"
    using assms by (auto simp: valid_rate_limit_identifier_def list_all_iff)
  with assms trim_all_visible [of v] show ?thesis by (simp add: valid_rate_limit_identifier_def)
qed

lemma finite_positive: "is_finite x \<and> \<not> fle x (Fin 0) \<longleftrightarrow> (\<exists>r > 0. x = Fin r)"
  by (cases x) (auto simp: is_finite_def not_le)

lemma invalid_cidr_issues_Nil:
  "invalid_cidr_issues c = [] \<longleftrightarrow> list_all valid_cidr (tls_trusted_proxy_cidrs (ms_tls (mc_settings c)))"
  by (auto simp: invalid_cidr_issues_def filter_empty_conv set_enum_list list_all_length)

lemma tls_mode_issue_None:
  "tls_mode_issue c = None \<and> invalid_cidr_issues c = [] \<longleftrightarrow> tls_ok (ms_tls (mc_settings c))"
  unfolding invalid_cidr_issues_Nil by (auto simp: tls_mode_issue_def tls_ok_def Let_def)

lemma validate_rate_limit_policy_Nil:
  "validate_rate_limit_policy c = [] \<longleftrightarrow>
   (sr_enabled (ms_rate_limit (mc_settings c)) \<longrightarrow>
      rate_limit_ok (is_production c) (ms_rate_limit (mc_settings c)))"
proof -
  have deriv: "d \<noteq> EphemeralHmacSha256 \<longleftrightarrow> d = ExternalHmacSha256" for d by (cases d) auto
  have key: "list_ex is_principal_signal ks \<Longrightarrow> ks \<noteq> []" for ks by auto
  show ?thesis
    using valid_identifier_not_blank [of "sr_policy_id (ms_rate_limit (mc_settings c))"]
      finite_positive [of "sr_refill_per_second (ms_rate_limit (mc_settings c))"]
      key [of "sr_key_by (ms_rate_limit (mc_settings c))"]
    by (simp add: validate_rate_limit_policy_def rate_limit_rules_def rate_limit_ok_def Let_def deriv
        not_less max_local_rate_limit_entries_def word_gt_0 list_all_iff list_ex_iff Suc_le_eq) argo
qed

lemma validate_config_Nil: "validate_config c = [] \<longleftrightarrow> config_ok c"
  using tls_mode_issue_None [of c]
  by (auto simp: validate_config_def config_rules_def fault_and_auth_rules_def config_ok_def Let_def
      validate_rate_limit_policy_Nil unknown_capability_issues_def filter_empty_conv)

end
