(* ===== verification/Bootstrap.thy ===== *)
theory Bootstrap
  imports Config
begin

text \<open>
  \<^verbatim>\<open>src/src/rust/src/bootstrap.rs\<close>: the configuration read from environment variables. The process
  environment is the argument \<open>lookup\<close>, the text of a string under \<open>Debug\<close> the argument \<open>dbg\<close>, and
  the rounding of a decimal number to a \<open>f64\<close> the argument \<open>rnd\<close>. The function that goes on to
  build a stack is in \<open>Stack\<close>.
\<close>

section \<open>Errors\<close>

record bootstrap_error =
  be_variable :: "string option"
  be_code :: string
  be_message :: string

definition error_variable :: "string \<Rightarrow> string \<Rightarrow> string \<Rightarrow> bootstrap_error" where
  "error_variable v code message = \<lparr>be_variable = Some v, be_code = code, be_message = message\<rparr>"

definition error_config :: "validation_issue list \<Rightarrow> bootstrap_error" where
  "error_config issues =
     \<lparr>be_variable = None, be_code = ''invalid_config'',
      be_message = join_with '', '' (map (\<lambda>i. vi_path i @ '':'' @ vi_code i) issues)\<rparr>"

definition error_integration :: "string \<Rightarrow> integration_error \<Rightarrow> bootstrap_error" where
  "error_integration v e =
     \<lparr>be_variable = Some v, be_code = ie_code e, be_message = ie_message e\<rparr>"

definition bootstrap_error_display :: "bootstrap_error \<Rightarrow> string" where
  "bootstrap_error_display e =
     (case be_variable e of
        Some v \<Rightarrow> v @ '': '' @ be_message e @ '' ('' @ be_code e @ '')''
      | None \<Rightarrow> be_message e @ '' ('' @ be_code e @ '')'')"

section \<open>Values\<close>

definition split_csv :: "string \<Rightarrow> string list" where
  "split_csv v = filter (\<lambda>s. s \<noteq> []) (map trim (split_on CHR '','' v))"

definition normalize :: "string \<Rightarrow> string" where
  "normalize v = trim v"

definition normalized_owned :: "string \<Rightarrow> string" where
  "normalized_owned v = to_ascii_lowercase (trim v)"

definition first_value :: "(string \<Rightarrow> string option) \<Rightarrow> string list \<Rightarrow> string option" where
  "first_value lookup names =
     (case List.map_filter lookup names of [] \<Rightarrow> None | v # _ \<Rightarrow> Some v)"

type_synonym 'a value_parser = "string \<Rightarrow> string \<Rightarrow> (bootstrap_error, 'a) result"

definition parse_environment ::
    "(string \<Rightarrow> string) \<Rightarrow> string \<Rightarrow> (bootstrap_error, runtime_environment) result" where
  "parse_environment dbg v =
     (let n = normalized_owned v in
      if n \<in> {''development'', ''dev'', ''local''} then Inr Development
      else if n \<in> {''test'', ''testing''} then Inr Test
      else if n \<in> {''staging'', ''stage''} then Inr Staging
      else if n \<in> {''production'', ''prod''} then Inr Production
      else Inl (error_variable ''ORES_MIDDLEWARE_ENV'' ''invalid_value''
        (''unsupported runtime environment '' @ dbg n)))"

definition parse_bool :: "(string \<Rightarrow> string) \<Rightarrow> bool value_parser" where
  "parse_bool dbg v name =
     (let n = normalized_owned v in
      if n \<in> {''1'', ''true'', ''yes'', ''on''} then Inr True
      else if n \<in> {''0'', ''false'', ''no'', ''off''} then Inr False
      else Inl (error_variable name ''invalid_boolean'' (''expected true or false, got '' @ dbg n)))"

text \<open>\<open>parse_number\<close> at the widths it is used with: \<open>bound\<close> is the first number that does not fit.\<close>

definition parse_number :: "(string \<Rightarrow> string) \<Rightarrow> nat \<Rightarrow> nat value_parser" where
  "parse_number dbg bound v name =
     ok_or (error_variable name ''invalid_number'' (''expected a positive numeric value, got '' @ dbg v))
       (parse_unsigned bound (trim v))"

text \<open>
  \<open>parse\<close> to a \<open>f64\<close>: an optional sign, then an infinity or NaN in any case, or digits with an
  optional point among them and an optional exponent; the result is the decimal number, rounded.
\<close>

definition digits_nat :: "string \<Rightarrow> nat" where
  "digits_nat ds = (case digits_value 0 ds of None \<Rightarrow> 0 | Some n \<Rightarrow> n)"

definition parse_exponent :: "string \<Rightarrow> int option" where
  "parse_exponent s =
     (case s of
        [] \<Rightarrow> Some 0
      | c # rest \<Rightarrow>
          if c \<noteq> CHR ''e'' \<and> c \<noteq> CHR ''E'' then None
          else
            (let negative = starts_with ''-'' rest;
                 digits = (if starts_with ''-'' rest \<or> starts_with ''+'' rest then tl rest else rest)
             in if digits = [] \<or> \<not> list_all is_ascii_digit digits then None
                else Some (if negative then - int (digits_nat digits) else int (digits_nat digits))))"

definition parse_decimal :: "string \<Rightarrow> real option" where
  "parse_decimal s =
     (let whole = takeWhile is_ascii_digit s; rest = dropWhile is_ascii_digit s;
          frac = (if starts_with ''.'' rest then takeWhile is_ascii_digit (tl rest) else []);
          rest = (if starts_with ''.'' rest then dropWhile is_ascii_digit (tl rest) else rest)
      in if whole = [] \<and> frac = [] then None
         else map_option (\<lambda>e.
             let e = e - int (length frac); n = real (digits_nat (whole @ frac))
             in if e \<ge> 0 then n * 10 ^ nat e else n / 10 ^ nat (- e))
           (parse_exponent rest))"

definition parse_f64 :: "rounding_fn \<Rightarrow> string \<Rightarrow> f64 option" where
  "parse_f64 rnd s =
     (let negative = starts_with ''-'' s;
          body = (if starts_with ''-'' s \<or> starts_with ''+'' s then tl s else s);
          magnitude =
            (if to_ascii_lowercase body \<in> {''inf'', ''infinity''} then Some PosInf
             else if to_ascii_lowercase body = ''nan'' then Some NaN
             else map_option rnd (parse_decimal body))
      in map_option (\<lambda>x. if negative then fneg x else x) magnitude)"

definition parse_float :: "(string \<Rightarrow> string) \<Rightarrow> rounding_fn \<Rightarrow> f64 value_parser" where
  "parse_float dbg rnd v name =
     ok_or (error_variable name ''invalid_number'' (''expected a numeric value, got '' @ dbg v))
       (parse_f64 rnd (trim v))"

definition parse_non_empty :: "string value_parser" where
  "parse_non_empty v name =
     (let v = trim v in
      if v = [] then Inl (error_variable name ''empty_value'' ''value must not be empty'') else Inr v)"

definition invalid_rate_limit_value :: "(string \<Rightarrow> string) \<Rightarrow> string \<Rightarrow> string \<Rightarrow> bootstrap_error" where
  "invalid_rate_limit_value dbg name v =
     error_variable name ''invalid_value'' (''unsupported rate-limit value '' @ dbg v)"

definition parse_rate_limit_algorithm :: "(string \<Rightarrow> string) \<Rightarrow> rate_limit_algorithm value_parser" where
  "parse_rate_limit_algorithm dbg v name =
     (let n = normalized_owned v in
      if n \<in> {''token-bucket'', ''token_bucket'', ''tokenbucket''} then Inr TokenBucket
      else if n \<in> {''sliding-window-counter'', ''sliding_window_counter''} then Inr SlidingWindowCounter
      else if n \<in> {''fixed-window'', ''fixed_window''} then Inr FixedWindow
      else if n \<in> {''concurrency'', ''concurrency-limit''} then Inr Concurrency
      else Inl (invalid_rate_limit_value dbg name n))"

definition parse_rate_limit_layer :: "(string \<Rightarrow> string) \<Rightarrow> rate_limit_layer value_parser" where
  "parse_rate_limit_layer dbg v name =
     (let n = normalized_owned v in
      if n \<in> {''cloudflare-edge'', ''cloudflare'', ''edge''} then Inr CloudflareEdge
      else if n \<in> {''kubernetes-ingress'', ''k8s-ingress'', ''ingress''} then Inr KubernetesIngress
      else if n \<in> {''service-mesh'', ''mesh'', ''sidecar''} then Inr ServiceMesh
      else if n \<in> {''application'', ''app''} then Inr ApplicationLayer
      else if n \<in> {''authorization'', ''auth''} then Inr AuthorizationLayer
      else Inl (invalid_rate_limit_value dbg name n))"

definition parse_rate_limit_failure_mode ::
    "(string \<Rightarrow> string) \<Rightarrow> rate_limit_failure_mode value_parser" where
  "parse_rate_limit_failure_mode dbg v name =
     (let n = normalized_owned v in
      if n \<in> {''fail-open'', ''fail_open''} then Inr FailOpenMode
      else if n \<in> {''fail-closed'', ''fail_closed''} then Inr FailClosedMode
      else if n \<in> {''local-only'', ''local_only'', ''local-fallback''} then Inr LocalOnly
      else Inl (invalid_rate_limit_value dbg name n))"

definition parse_rate_limit_key_derivation :: "(string \<Rightarrow> string) \<Rightarrow> key_derivation_mode value_parser" where
  "parse_rate_limit_key_derivation dbg v name =
     (let n = normalized_owned v in
      if n \<in> {''ephemeral-hmac-sha256'', ''ephemeral''} then Inr EphemeralHmacSha256
      else if n \<in> {''external-hmac-sha256'', ''external''} then Inr ExternalHmacSha256
      else Inl (invalid_rate_limit_value dbg name n))"

definition parse_rate_limit_signal :: "(string \<Rightarrow> string) \<Rightarrow> rate_limit_signal value_parser" where
  "parse_rate_limit_signal dbg v name =
     (let n = normalized_owned v in
      if n = ''ip'' then Inr SigIp
      else if n \<in> {''ip-prefix'', ''ip_prefix''} then Inr SigIpPrefix
      else if n = ''user'' then Inr SigUser
      else if n \<in> {''subject'', ''sub''} then Inr SigSubject
      else if n = ''email'' then Inr SigEmail
      else if n = ''tenant'' then Inr SigTenant
      else if n \<in> {''organization'', ''org''} then Inr SigOrganization
      else if n \<in> {''session'', ''sid''} then Inr SigSession
      else if n = ''device'' then Inr SigDevice
      else if n \<in> {''api-key'', ''api_key'', ''client''} then Inr SigApiKey
      else if n = ''route'' then Inr SigRoute
      else if n = ''method'' then Inr SigMethod
      else Inl (invalid_rate_limit_value dbg name n))"

text \<open>Collecting results stops at the first error.\<close>

fun collect_results :: "('e, 'a) result list \<Rightarrow> ('e, 'a list) result" where
  "collect_results [] = Inr []"
| "collect_results (r # rs) =
     bind_result r (\<lambda>x. bind_result (collect_results rs) (\<lambda>xs. Inr (x # xs)))"

definition parse_rate_limit_signals :: "(string \<Rightarrow> string) \<Rightarrow> rate_limit_signal list value_parser" where
  "parse_rate_limit_signals dbg v name =
     (let vs = split_csv v in
      if vs = [] then
        Inl (error_variable name ''empty_value'' ''at least one rate-limit signal is required'')
      else collect_results (map (\<lambda>v. parse_rate_limit_signal dbg v name) vs))"

section \<open>Overrides\<close>

definition on_settings ::
    "(middleware_settings \<Rightarrow> middleware_settings) \<Rightarrow> middleware_config \<Rightarrow> middleware_config" where
  "on_settings f c = c\<lparr>mc_settings := f (mc_settings c)\<rparr>"

definition on_rate_limit ::
    "(stack_rate_limit \<Rightarrow> stack_rate_limit) \<Rightarrow> middleware_config \<Rightarrow> middleware_config" where
  "on_rate_limit f c = on_settings (\<lambda>s. s\<lparr>ms_rate_limit := f (ms_rate_limit s)\<rparr>) c"

definition on_tls :: "(tls_policy \<Rightarrow> tls_policy) \<Rightarrow> middleware_config \<Rightarrow> middleware_config" where
  "on_tls f c = on_settings (\<lambda>s. s\<lparr>ms_tls := f (ms_tls s)\<rparr>) c"

type_synonym config_step = "middleware_config \<Rightarrow> (bootstrap_error, middleware_config) result"

text \<open>\<open>if let Some(value) = lookup(name) { config.field = parse(&value, name)?; }\<close>\<close>

definition override ::
    "(string \<Rightarrow> string option) \<Rightarrow> string \<Rightarrow> 'a value_parser \<Rightarrow>
     ('a \<Rightarrow> middleware_config \<Rightarrow> middleware_config) \<Rightarrow> config_step" where
  "override lookup name parse assign c =
     (case lookup name of
        None \<Rightarrow> Inr c
      | Some v \<Rightarrow> bind_result (parse v name) (\<lambda>x. Inr (assign x c)))"

fun run_steps :: "config_step list \<Rightarrow> config_step" where
  "run_steps [] c = Inr c"
| "run_steps (step # steps) c = bind_result (step c) (run_steps steps)"

definition override_steps ::
    "(string \<Rightarrow> string) \<Rightarrow> rounding_fn \<Rightarrow> (string \<Rightarrow> string option) \<Rightarrow> config_step list" where
  "override_steps dbg rnd lookup =
     [override lookup ''ORES_MIDDLEWARE_TIMEOUT_MS'' (parse_number dbg (2 ^ 64))
        (\<lambda>n. on_settings (\<lambda>s. s\<lparr>ms_timeout_ms := of_nat n\<rparr>)),
      override lookup ''ORES_MIDDLEWARE_MAX_BODY_BYTES'' (parse_number dbg (2 ^ 64))
        (\<lambda>n. on_settings (\<lambda>s. s\<lparr>ms_max_body_bytes := n\<rparr>)),
      override lookup ''ORES_MIDDLEWARE_RATE_LIMIT_ENABLED'' (parse_bool dbg)
        (\<lambda>b. on_rate_limit (\<lambda>p. p\<lparr>sr_enabled := b\<rparr>)),
      override lookup ''ORES_MIDDLEWARE_RATE_LIMIT_CAPACITY'' (parse_number dbg (2 ^ 32))
        (\<lambda>n. on_rate_limit (\<lambda>p. p\<lparr>sr_capacity := of_nat n\<rparr>)),
      override lookup ''ORES_MIDDLEWARE_RATE_LIMIT_REFILL_PER_SECOND'' (parse_float dbg rnd)
        (\<lambda>x. on_rate_limit (\<lambda>p. p\<lparr>sr_refill_per_second := x\<rparr>)),
      override lookup ''ORES_MIDDLEWARE_RATE_LIMIT_POLICY_ID'' parse_non_empty
        (\<lambda>v. on_rate_limit (\<lambda>p. p\<lparr>sr_policy_id := v\<rparr>)),
      override lookup ''ORES_MIDDLEWARE_RATE_LIMIT_ALGORITHM'' (parse_rate_limit_algorithm dbg)
        (\<lambda>a. on_rate_limit (\<lambda>p. p\<lparr>sr_algorithm := a\<rparr>)),
      override lookup ''ORES_MIDDLEWARE_RATE_LIMIT_LAYER'' (parse_rate_limit_layer dbg)
        (\<lambda>l. on_rate_limit (\<lambda>p. p\<lparr>sr_layer := l\<rparr>)),
      override lookup ''ORES_MIDDLEWARE_RATE_LIMIT_FAILURE_MODE'' (parse_rate_limit_failure_mode dbg)
        (\<lambda>m. on_rate_limit (\<lambda>p. p\<lparr>sr_failure_mode := m\<rparr>)),
      override lookup ''ORES_MIDDLEWARE_RATE_LIMIT_WINDOW_MS'' (parse_number dbg (2 ^ 64))
        (\<lambda>n. on_rate_limit (\<lambda>p. p\<lparr>sr_window_ms := of_nat n\<rparr>)),
      override lookup ''ORES_MIDDLEWARE_RATE_LIMIT_LOCAL_CACHE_MAX_ENTRIES'' (parse_number dbg (2 ^ 64))
        (\<lambda>n. on_rate_limit (\<lambda>p. p\<lparr>sr_local_cache_max_entries := n\<rparr>)),
      override lookup ''ORES_MIDDLEWARE_RATE_LIMIT_LOCAL_CACHE_TTL_MS'' (parse_number dbg (2 ^ 64))
        (\<lambda>n. on_rate_limit (\<lambda>p. p\<lparr>sr_local_cache_ttl_ms := of_nat n\<rparr>)),
      override lookup ''ORES_MIDDLEWARE_RATE_LIMIT_KEY_NAMESPACE'' parse_non_empty
        (\<lambda>v. on_rate_limit (\<lambda>p. p\<lparr>sr_key_namespace := v\<rparr>)),
      override lookup ''ORES_MIDDLEWARE_RATE_LIMIT_KEY_VERSION'' parse_non_empty
        (\<lambda>v. on_rate_limit (\<lambda>p. p\<lparr>sr_key_version := v\<rparr>)),
      override lookup ''ORES_MIDDLEWARE_RATE_LIMIT_KEY_DERIVATION'' (parse_rate_limit_key_derivation dbg)
        (\<lambda>d. on_rate_limit (\<lambda>p. p\<lparr>sr_key_derivation := d\<rparr>)),
      override lookup ''ORES_MIDDLEWARE_RATE_LIMIT_KEY_BY'' (parse_rate_limit_signals dbg)
        (\<lambda>ks. on_rate_limit (\<lambda>p. p\<lparr>sr_key_by := ks\<rparr>)),
      override lookup ''ORES_MIDDLEWARE_CONTEXT_REGISTRY_MAX_ENTRIES'' (parse_number dbg (2 ^ 64))
        (\<lambda>n. on_settings (\<lambda>s. s\<lparr>ms_context_registry_max_entries := n\<rparr>)),
      override lookup ''ORES_MIDDLEWARE_CONTEXT_REGISTRY_TTL_MS'' (parse_number dbg (2 ^ 64))
        (\<lambda>n. on_settings (\<lambda>s. s\<lparr>ms_context_registry_ttl_ms := of_nat n\<rparr>))]"

definition disabled_tls :: "tls_policy \<Rightarrow> tls_policy" where
  "disabled_tls t = t\<lparr>tls_mode := ''disabled'', tls_require_https := False, tls_trusted_proxy_cidrs := []\<rparr>"

definition tls_step :: "(string \<Rightarrow> string) \<Rightarrow> (string \<Rightarrow> string option) \<Rightarrow> config_step" where
  "tls_step dbg lookup c =
     (case map_option normalize (lookup ''ORES_MIDDLEWARE_TLS_MODE'') of
        None \<Rightarrow>
          if mc_environment c = Production then
            Inl (error_variable ''ORES_MIDDLEWARE_TLS_MODE'' ''required_in_production''
              ''production must explicitly select in-process or trusted-proxy TLS'')
          else Inr (on_tls disabled_tls c)
      | Some mode \<Rightarrow>
          if mode = ''disabled'' then
            (if mc_environment c = Production then
               Inl (error_variable ''ORES_MIDDLEWARE_TLS_MODE'' ''production_forbidden''
                 ''TLS cannot be disabled in production'')
             else Inr (on_tls disabled_tls c))
          else if mode \<in> {''in-process'', ''in_process'', ''inprocess''} then
            Inr (on_tls (\<lambda>t. t\<lparr>tls_mode := ''in-process'', tls_require_https := True,
              tls_trusted_proxy_cidrs := []\<rparr>) c)
          else if mode \<in> {''trusted-proxy'', ''trusted_proxy'', ''proxy''} then
            (let cidrs = (case lookup ''ORES_MIDDLEWARE_TRUSTED_PROXY_CIDRS'' of
                            None \<Rightarrow> [] | Some v \<Rightarrow> split_csv v)
             in if cidrs = [] then
                  Inl (error_variable ''ORES_MIDDLEWARE_TRUSTED_PROXY_CIDRS'' ''required_for_trusted_proxy''
                    ''trusted-proxy mode requires one or more explicit CIDRs'')
                else Inr (on_tls (\<lambda>t. t\<lparr>tls_mode := ''trusted-proxy'', tls_require_https := True,
                  tls_trusted_proxy_cidrs := cidrs\<rparr>) c))
          else Inl (error_variable ''ORES_MIDDLEWARE_TLS_MODE'' ''invalid_value''
            (''unsupported TLS mode '' @ dbg mode)))"

definition environment_step :: "(string \<Rightarrow> string) \<Rightarrow> (string \<Rightarrow> string option) \<Rightarrow> config_step" where
  "environment_step dbg lookup c =
     bind_result
       (parse_environment dbg
         (case first_value lookup [''ORES_MIDDLEWARE_ENV'', ''APP_ENV'', ''RUST_ENV''] of
            None \<Rightarrow> ''development'' | Some v \<Rightarrow> v))
       (\<lambda>env. let c = c\<lparr>mc_environment := env\<rparr> in
          Inr (if env = Production
               then on_rate_limit (\<lambda>p. p\<lparr>sr_key_derivation := ExternalHmacSha256,
                 sr_failure_mode := FailClosedMode\<rparr>) c
               else c))"

definition config_from_lookup ::
    "(string \<Rightarrow> string) \<Rightarrow> rounding_fn \<Rightarrow> string \<Rightarrow> (string \<Rightarrow> string option) \<Rightarrow>
     (bootstrap_error, middleware_config) result" where
  "config_from_lookup dbg rnd service_name lookup =
     bind_result
       (run_steps (environment_step dbg lookup # tls_step dbg lookup # override_steps dbg rnd lookup)
         (default_config service_name))
       (\<lambda>c. let issues = validate_config c in
          if issues = [] then Inr c else Inl (error_config issues))"

section \<open>What the overrides cannot touch\<close>

definition keeps :: "(middleware_config \<Rightarrow> 'a) \<Rightarrow> config_step \<Rightarrow> bool" where
  "keeps f step \<longleftrightarrow> (\<forall>c c'. step c = Inr c' \<longrightarrow> f c' = f c)"

lemma keeps_override: "(\<And>x c. f (assign x c) = f c) \<Longrightarrow> keeps f (override lookup name parse assign)"
  by (auto simp: keeps_def override_def bind_result_def split: option.splits sum.splits)

lemma keeps_run_steps: "list_all (keeps f) steps \<Longrightarrow> keeps f (run_steps steps)"
proof (induction steps)
  case Nil
  show ?case by (simp add: keeps_def)
next
  case (Cons step steps)
  show ?case unfolding keeps_def
  proof (intro allI impI)
    fix c c'
    assume "run_steps (step # steps) c = Inr c'"
    then obtain c1 where "step c = Inr c1" "run_steps steps c1 = Inr c'"
      by (auto simp: bind_result_Inr)
    moreover have "keeps f step" "keeps f (run_steps steps)" using Cons by simp_all
    ultimately have "f c1 = f c" "f c' = f c1" unfolding keeps_def by blast+
    then show "f c' = f c" by simp
  qed
qed

lemmas on_defs = on_settings_def on_rate_limit_def on_tls_def

definition guarded_part ::
    "middleware_config \<Rightarrow> runtime_environment \<times> tls_policy \<times> fault_injection_policy \<times>
       test_auth_bypass_policy" where
  "guarded_part c =
     (mc_environment c, ms_tls (mc_settings c), ms_fault_injection (mc_settings c),
      ms_test_auth_bypass (mc_settings c))"

lemma overrides_keep_guarded: "keeps guarded_part (run_steps (override_steps dbg rnd lookup))"
  by (rule keeps_run_steps)
    (simp add: override_steps_def, intro conjI keeps_override; simp add: guarded_part_def on_defs)

lemma tls_step_Inr:
  assumes "tls_step dbg lookup c = Inr c'"
  shows "mc_environment c' = mc_environment c \<and>
    ms_fault_injection (mc_settings c') = ms_fault_injection (mc_settings c) \<and>
    ms_test_auth_bypass (mc_settings c') = ms_test_auth_bypass (mc_settings c) \<and>
    (tls_mode (ms_tls (mc_settings c')) = ''disabled'' \<and> \<not> tls_require_https (ms_tls (mc_settings c')) \<and>
       mc_environment c \<noteq> Production \<or>
     tls_mode (ms_tls (mc_settings c')) \<in> {''in-process'', ''trusted-proxy''} \<and>
       tls_require_https (ms_tls (mc_settings c')))"
  using assms by (auto simp: tls_step_def on_defs disabled_tls_def Let_def split: option.splits if_splits)

lemma environment_step_Inr:
  assumes "environment_step dbg lookup c = Inr c'"
  shows "ms_fault_injection (mc_settings c') = ms_fault_injection (mc_settings c) \<and>
    ms_test_auth_bypass (mc_settings c') = ms_test_auth_bypass (mc_settings c)"
  using assms by (auto simp: environment_step_def bind_result_Inr Let_def on_defs)

text \<open>
  C18. Whatever the environment variables say, a configuration that comes out of them is valid; in
  production it requires HTTPS, terminated in the process or by an explicitly listed proxy, injects
  no faults, bypasses no authentication, and, if it limits rates, does so with an external key. TLS
  can be disabled only outside production.
\<close>

theorem bootstrap_config_safe:
  assumes "config_from_lookup dbg rnd service_name lookup = Inr c"
  shows "validate_config c = [] \<and>
    \<not> fi_enabled (ms_fault_injection (mc_settings c)) \<and> \<not> tb_enabled (ms_test_auth_bypass (mc_settings c)) \<and>
    (mc_environment c = Production \<longrightarrow>
       tls_require_https (ms_tls (mc_settings c)) \<and>
       tls_mode (ms_tls (mc_settings c)) \<in> {''in-process'', ''trusted-proxy''} \<and>
       (sr_enabled (ms_rate_limit (mc_settings c)) \<longrightarrow>
          sr_key_derivation (ms_rate_limit (mc_settings c)) = ExternalHmacSha256))"
proof -
  from assms obtain c1 c2 where
    c1: "environment_step dbg lookup (default_config service_name) = Inr c1" and
    c2: "tls_step dbg lookup c1 = Inr c2" and
    c: "run_steps (override_steps dbg rnd lookup) c2 = Inr c" and
    valid: "validate_config c = []"
    by (auto simp: config_from_lookup_def bind_result_Inr Let_def split: if_splits)
  have "guarded_part c = guarded_part c2"
    using overrides_keep_guarded c unfolding keeps_def by blast
  with tls_step_Inr [OF c2] environment_step_Inr [OF c1] valid validate_config_Nil [of c]
  show ?thesis
    by (auto simp: guarded_part_def default_config_def config_ok_def rate_limit_ok_def is_production_def)
qed

definition sample_lookup :: "string \<Rightarrow> string option" where
  "sample_lookup name =
     (if name = ''ORES_MIDDLEWARE_ENV'' then Some ''prod''
      else if name = ''ORES_MIDDLEWARE_TLS_MODE'' then Some ''in-process'' else None)"

definition sample_production_config :: middleware_config where
  "sample_production_config =
     on_tls (\<lambda>t. t\<lparr>tls_mode := ''in-process'', tls_require_https := True, tls_trusted_proxy_cidrs := []\<rparr>)
       (on_rate_limit (\<lambda>p. p\<lparr>sr_key_derivation := ExternalHmacSha256, sr_failure_mode := FailClosedMode\<rparr>)
         ((default_config ''svc'')\<lparr>mc_environment := Production\<rparr>))"

lemma trim_samples:
  "trim ''prod'' = ''prod''" "trim ''in-process'' = ''in-process''" "trim ''svc'' = ''svc''"
  "trim ''v1'' = ''v1''"
  by (rule trim_all_visible, simp add: visible_def)+

lemma sample_production_config_ok: "config_ok sample_production_config"
  by (simp add: sample_production_config_def on_defs default_config_def config_ok_def rate_limit_ok_def
      is_production_def within_unit_def tls_ok_def trim_samples default_ip_rate_limit_capacity_def
      default_ip_rate_limit_refill_per_second_def valid_rate_limit_identifier_def ascii_defs
      is_principal_signal_def max_local_rate_limit_entries_def)

lemma sample_lookup_config:
  "config_from_lookup id Fin ''svc'' sample_lookup = Inr sample_production_config"
proof -
  have "run_steps (override_steps id Fin sample_lookup) c = Inr c" for c
    by (simp add: override_steps_def override_def sample_lookup_def)
  moreover have "environment_step id sample_lookup c =
      Inr (on_rate_limit (\<lambda>p. p\<lparr>sr_key_derivation := ExternalHmacSha256, sr_failure_mode := FailClosedMode\<rparr>)
        (c\<lparr>mc_environment := Production\<rparr>))" for c
    by (simp add: environment_step_def first_value_def sample_lookup_def List.map_filter_def
        parse_environment_def normalized_owned_def trim_samples to_ascii_lowercase_def lower_char_def
        ascii_defs Let_def)
  moreover have "tls_step id sample_lookup c = Inr (on_tls (\<lambda>t. t\<lparr>tls_mode := ''in-process'',
      tls_require_https := True, tls_trusted_proxy_cidrs := []\<rparr>) c)" for c
    by (simp add: tls_step_def sample_lookup_def normalize_def trim_samples)
  ultimately show ?thesis
    using sample_production_config_ok
    by (simp add: config_from_lookup_def validate_config_Nil sample_production_config_def)
qed

theorem bootstrap_config_safe_witness:
  "config_from_lookup id Fin ''svc'' sample_lookup = Inr sample_production_config \<and>
   tls_require_https (ms_tls (mc_settings sample_production_config)) \<and>
   sr_key_derivation (ms_rate_limit (mc_settings sample_production_config)) = ExternalHmacSha256"
  using bootstrap_config_safe [OF sample_lookup_config]
  by (simp add: sample_lookup_config sample_production_config_def on_defs default_config_def)

end
