(* ===== verification/Context_Registry.thy ===== *)
theory Context_Registry
  imports Request_Types
begin

text \<open>
  \<^verbatim>\<open>src/src/rust/src/context.rs\<close>: the exchange of the request context with the canonical carrier of
  the logging package, and the bounded registry of active requests.

  Of the canonical context the record below has the fields this code fills or reads. The registry is
  a hash map that one operation iterates over; the iteration order is the argument \<open>it\<close>, of which
  \<open>iteration\<close> says that it only rearranges the entries.
\<close>

section \<open>The canonical context\<close>

record canonical_context =
  cc_request_id :: string
  cc_logged_in_user_id :: "string option"
  cc_tenant_id :: "string option"
  cc_trace_id :: "string option"
  cc_span_id :: "string option"
  cc_locale :: "string option"
  cc_started_at_unix_ms :: "u64 option"
  cc_deadline_unix_ms :: "u64 option"
  cc_baggage :: "(string, string) btree_map"

definition logged_in_user_id :: "request_context \<Rightarrow> string option" where
  "logged_in_user_id c = rc_user_id c"

definition to_canonical :: "request_context \<Rightarrow> canonical_context" where
  "to_canonical c =
     \<lparr>cc_request_id = rc_request_id c, cc_logged_in_user_id = rc_user_id c,
      cc_tenant_id = rc_tenant_id c, cc_trace_id = then_some (rc_trace_id c \<noteq> []) (rc_trace_id c),
      cc_span_id = rc_span_id c, cc_locale = rc_locale c,
      cc_started_at_unix_ms = Some (rc_started_at_unix_ms c),
      cc_deadline_unix_ms = rc_deadline_unix_ms c,
      cc_baggage = bt_collect (filter (\<lambda>kv. starts_with ''otel.'' (fst kv)) (rc_baggage c))\<rparr>"

definition from_canonical :: "canonical_context \<Rightarrow> request_context" where
  "from_canonical v =
     \<lparr>rc_request_id = cc_request_id v, rc_trace_id = case_option [] id (cc_trace_id v),
      rc_span_id = cc_span_id v, rc_tenant_id = cc_tenant_id v, rc_user_id = cc_logged_in_user_id v,
      rc_locale = cc_locale v, rc_started_at_unix_ms = case_option 0 id (cc_started_at_unix_ms v),
      rc_deadline_unix_ms = cc_deadline_unix_ms v, rc_baggage = cc_baggage v\<rparr>"

text \<open>Only telemetry baggage survives the carrier; everything else comes back as it was.\<close>

lemma canonical_round_trip:
  assumes "bt_ok (rc_baggage c)"
  shows "from_canonical (to_canonical c) =
    c\<lparr>rc_baggage := filter (\<lambda>kv. starts_with ''otel.'' (fst kv)) (rc_baggage c)\<rparr>"
  using assms by (simp add: to_canonical_def from_canonical_def then_some_def bt_collect_id bt_ok_filter)

section \<open>The registry\<close>

type_synonym registry_entries = "(string, instant \<times> request_context) btree_map"

record context_registry =
  cr_max_entries :: nat
  cr_ttl :: duration

type_synonym entry_order = "(string \<times> instant \<times> request_context) list \<Rightarrow> (string \<times> instant \<times> request_context) list"

definition iteration :: "entry_order \<Rightarrow> bool" where
  "iteration it \<longleftrightarrow> (\<forall>xs. set (it xs) = set xs)"

definition context_registry_new :: "nat \<Rightarrow> duration \<Rightarrow> context_registry \<times> registry_entries" where
  "context_registry_new max_entries ttl = (\<lparr>cr_max_entries = max_entries, cr_ttl = ttl\<rparr>, [])"

text \<open>\<open>min_by_key\<close> returns the first of the least elements.\<close>

fun min_by_key :: "('a \<Rightarrow> 'k::linorder) \<Rightarrow> 'a list \<Rightarrow> 'a option" where
  "min_by_key f [] = None"
| "min_by_key f (x # xs) =
     (case min_by_key f xs of
        None \<Rightarrow> Some x
      | Some y \<Rightarrow> Some (if f x \<le> f y then x else y))"

definition context_insert ::
    "entry_order \<Rightarrow> context_registry \<Rightarrow> instant \<Rightarrow> request_context \<Rightarrow> registry_entries \<Rightarrow> registry_entries" where
  "context_insert it r now context entries =
     (if cr_max_entries r = 0 then entries
      else
        (let entries = filter (\<lambda>e. now - fst (snd e) \<le> cr_ttl r) entries;
             oldest = (if length entries \<ge> cr_max_entries r
                       then map_option fst (min_by_key (\<lambda>e. fst (snd e)) (it entries)) else None);
             entries = (case oldest of None \<Rightarrow> entries | Some key \<Rightarrow> bt_remove key entries)
         in bt_insert (rc_request_id context) (now, context) entries))"

definition context_get ::
    "context_registry \<Rightarrow> instant \<Rightarrow> string \<Rightarrow> registry_entries \<Rightarrow> request_context option" where
  "context_get r now request_id entries =
     Option.bind (bt_get entries request_id) (\<lambda>(created, c). then_some (now - created \<le> cr_ttl r) c)"

definition context_remove :: "string \<Rightarrow> registry_entries \<Rightarrow> registry_entries" where
  "context_remove request_id entries = bt_remove request_id entries"

section \<open>Bounds and lookups\<close>

definition context_registry_inv :: "context_registry \<Rightarrow> registry_entries \<Rightarrow> bool" where
  "context_registry_inv r entries \<longleftrightarrow> bt_ok entries \<and> length entries \<le> cr_max_entries r"

lemma min_by_key_None: "min_by_key f xs = None \<longleftrightarrow> xs = []"
  by (cases xs) (auto split: option.splits)

lemma min_by_key_SomeD:
  "min_by_key f xs = Some y \<Longrightarrow> y \<in> set xs \<and> (\<forall>x \<in> set xs. f y \<le> f x)"
proof (induction xs arbitrary: y)
  case Nil
  then show ?case by simp
next
  case (Cons x xs)
  show ?case
  proof (cases "min_by_key f xs")
    case None
    with Cons.prems min_by_key_None [of f xs] show ?thesis by simp
  next
    case (Some z)
    with Cons.IH [OF Some] Cons.prems show ?thesis by (auto split: if_splits intro: order_trans)
  qed
qed

lemma context_registry_inv_new: "context_registry_inv (fst (context_registry_new n ttl)) (snd (context_registry_new n ttl))"
  by (simp add: context_registry_inv_def context_registry_new_def)

lemma context_registry_inv_remove: "context_registry_inv r entries \<Longrightarrow> context_registry_inv r (context_remove k entries)"
  unfolding context_registry_inv_def context_remove_def bt_remove_def
  by (auto simp: bt_ok_filter intro: order_trans [OF length_filter_le])

lemma context_registry_inv_insert:
  assumes "iteration it" "context_registry_inv r entries"
  shows "context_registry_inv r (context_insert it r now c entries)"
proof (cases "cr_max_entries r = 0")
  case True
  with assms(2) show ?thesis by (simp add: context_insert_def)
next
  case False
  define kept where "kept = filter (\<lambda>e. now - fst (snd e) \<le> cr_ttl r) entries"
  define oldest where "oldest = (if length kept \<ge> cr_max_entries r
    then map_option fst (min_by_key (\<lambda>e. fst (snd e)) (it kept)) else None)"
  define left where "left = (case oldest of None \<Rightarrow> kept | Some key \<Rightarrow> bt_remove key kept)"
  have kept: "bt_ok kept" "length kept \<le> cr_max_entries r"
    using assms(2)
    by (auto simp: kept_def context_registry_inv_def bt_ok_filter intro: order_trans [OF length_filter_le])
  have set_it: "set (it kept) = set kept" using assms(1) by (simp add: iteration_def)
  have "bt_ok left" using kept(1) by (auto simp: left_def split: option.split)
  moreover have "length left < cr_max_entries r"
  proof (cases "length kept \<ge> cr_max_entries r")
    case True
    with False have "it kept \<noteq> []" using set_it by (cases kept) auto
    then obtain e where e: "min_by_key (\<lambda>e. fst (snd e)) (it kept) = Some e"
      by (cases "min_by_key (\<lambda>e. fst (snd e)) (it kept)") (auto simp: min_by_key_None)
    with set_it have "fst e \<in> fst ` set kept" using min_by_key_SomeD [OF e] by auto
    from length_bt_remove [OF kept(1) this] True e kept(2) show ?thesis
      by (simp add: left_def oldest_def)
  next
    case False
    then show ?thesis by (simp add: left_def oldest_def)
  qed
  ultimately show ?thesis
    using False length_bt_insert [of "rc_request_id c" "(now, c)" left]
    by (simp add: context_registry_inv_def context_insert_def Let_def flip: kept_def oldest_def left_def)
qed

text \<open>An entry is found until it is removed or expires; an insertion displaces only the oldest.\<close>

lemma context_get_insert_same:
  assumes "context_registry_inv r entries" "0 < cr_max_entries r" "now' - now \<le> cr_ttl r"
  shows "context_get r now' (rc_request_id c) (context_insert it r now c entries) = Some c"
proof -
  have "bt_ok (case x of None \<Rightarrow> filter p entries | Some key \<Rightarrow> bt_remove key (filter p entries))" for x p
    using assms(1) by (auto simp: context_registry_inv_def bt_ok_filter split: option.split)
  with assms(2,3) show ?thesis
    by (simp add: context_get_def context_insert_def Let_def bt_get_insert)
qed

lemma context_get_remove: "context_get r now k (context_remove k entries) = None"
  by (simp add: context_get_def context_remove_def bt_get_remove)

end
