(* ===== verification/Stack.thy ===== *)
theory Stack
  imports Bootstrap Token_Bucket Context_Registry
begin

text \<open>
  \<^verbatim>\<open>src/src/rust/src/pipeline.rs\<close>: the middleware stack that admits and finishes requests.

  The providers a service installs (authentication, telemetry, sync, an external rate limiter) are
  code outside the crate. Each is an action: it changes the environment \<open>'x\<close> and returns a value, or
  panics, which is \<^const>\<open>None\<close>. The registry and the local buckets are the stack's own state. The
  clock, the uuid package, sleeping and the iteration order of hash maps come with the environment.
  Spans, log lines and the ambient context around a stage do not change what it returns.
\<close>

section \<open>Actions\<close>

type_synonym ('a, 'w) action = "'w \<Rightarrow> 'a option \<times> 'w"

definition act_return :: "'a \<Rightarrow> ('a, 'w) action" where
  "act_return a w = (Some a, w)"

definition act_bind :: "('a, 'w) action \<Rightarrow> ('a \<Rightarrow> ('b, 'w) action) \<Rightarrow> ('b, 'w) action" where
  "act_bind m f w = (case m w of (None, w') \<Rightarrow> (None, w') | (Some a, w') \<Rightarrow> f a w')"

section \<open>Data\<close>

record middleware_error =
  me_status :: u16
  me_code :: string
  me_message :: string
  me_headers :: headers

definition middleware_error_new :: "u16 \<Rightarrow> string \<Rightarrow> string \<Rightarrow> middleware_error" where
  "middleware_error_new status code message =
     \<lparr>me_status = status, me_code = code, me_message = message, me_headers = []\<rparr>"

definition with_headers :: "middleware_error \<Rightarrow> headers \<Rightarrow> middleware_error" where
  "with_headers e hs = e\<lparr>me_headers := hs\<rparr>"

record active_request =
  ar_context :: request_context
  ar_started :: instant
  ar_request :: request_metadata
  ar_rate_limit_decision :: "rate_limit_decision option"

datatype auth_error_exposure = SanitizeProviderDiagnostics | PreserveTrustedPolicy

record 'x stack_world =
  sw_registry :: registry_entries
  sw_buckets :: bucket_store
  sw_env :: "'x"

record uuid =
  uu_hyphenated :: string
  uu_simple :: string
  uu_bytes :: bytes

record 'x environment =
  en_now :: "'x \<Rightarrow> instant"
  en_now_ms :: "'x \<Rightarrow> u64"
  en_new_v4 :: "'x \<Rightarrow> uuid \<times> 'x"
  en_sleep :: "duration \<Rightarrow> 'x \<Rightarrow> 'x"
  en_order :: entry_order
  en_round :: rounding_fn

type_synonym 'x auth_verifier = "request_metadata \<Rightarrow> ((integration_error, auth_decision) result, 'x) action"
type_synonym 'x sync_observer =
  "request_context \<Rightarrow> request_metadata \<Rightarrow> response_metadata \<Rightarrow> ((integration_error, unit) result, 'x) action"
type_synonym 'w limiter =
  "f64 rate_limit_request \<Rightarrow> ((integration_error, rate_limit_decision) result, 'w) action"

text \<open>The primary limiter is at first the local one itself, sharing its buckets.\<close>

datatype 'x primary_limiter = SharedLocal | Installed "'x limiter"

record 'x telemetry_sink =
  te_request_started :: "request_context \<Rightarrow> request_metadata \<Rightarrow> (unit, 'x) action"
  te_request_finished :: "request_context \<Rightarrow> request_metadata \<Rightarrow> response_metadata \<Rightarrow> (unit, 'x) action"
  te_rate_limit_decision ::
    "request_context \<Rightarrow> request_metadata \<Rightarrow> rate_limit_decision \<Rightarrow> (unit, 'x) action"

record 'x middleware_stack =
  mk_config :: middleware_config
  mk_auth :: "'x auth_verifier"
  mk_auth_error_exposure :: auth_error_exposure
  mk_sync :: "'x sync_observer"
  mk_telemetry :: "'x telemetry_sink"
  mk_rate_limiter :: "'x primary_limiter"
  mk_local_bounds :: bucket_bounds
  mk_key_deriver :: key_deriver
  mk_registry :: context_registry

text \<open>A provider acts on the environment only.\<close>

definition on_env :: "('a, 'x) action \<Rightarrow> ('a, 'x stack_world) action" where
  "on_env m w = (case m (sw_env w) of (r, x) \<Rightarrow> (r, w\<lparr>sw_env := x\<rparr>))"

definition now_in :: "'x environment \<Rightarrow> 'x stack_world \<Rightarrow> instant" where
  "now_in env w = en_now env (sw_env w)"

definition from_millis :: "u64 \<Rightarrow> duration" where
  "from_millis ms = unat ms * 1000000"

section \<open>Small functions\<close>

definition valid_token :: "string \<Rightarrow> bool" where
  "valid_token v \<longleftrightarrow>
     v \<noteq> [] \<and> length v \<le> 128 \<and>
     list_all (\<lambda>b. is_ascii_alphanumeric b \<or> b \<in> {CHR ''-'', CHR ''_'', CHR ''.''}) v"

definition ephemeral_secret :: "uuid \<Rightarrow> uuid \<Rightarrow> bytes" where
  "ephemeral_secret a b = uu_bytes a @ uu_bytes b"

definition parse_trace_id :: "string option \<Rightarrow> string option" where
  "parse_trace_id header =
     Option.bind header (\<lambda>v.
       let parts = split_on CHR ''-'' v in
       if length parts \<le> 1 then None
       else
         (let trace_id = to_ascii_lowercase (parts ! 1) in
          then_some (length trace_id = 32 \<and> trace_id \<noteq> replicate 32 CHR ''0'' \<and>
            list_all is_ascii_hexdigit trace_id) trace_id))"

definition seconds_ceil :: "u64 \<Rightarrow> u64" where
  "seconds_ceil ms = saturating_add ms 999 div 1000"

text \<open>Bytes 92 and 34 are the backslash and the double quote.\<close>

fun escape_structured :: "string \<Rightarrow> string" where
  "escape_structured [] = []"
| "escape_structured (c # s) =
     (if code_of c = 92 \<or> code_of c = 34 then [char_of (92::nat)] else []) @ [c] @ escape_structured s"

definition structured_field_string :: "string \<Rightarrow> string" where
  "structured_field_string v = [char_of (34::nat)] @ escape_structured v @ [char_of (34::nat)]"

definition rate_limit_headers :: "rate_limit_decision \<Rightarrow> u64 \<Rightarrow> bool \<Rightarrow> headers" where
  "rate_limit_headers d window_ms denied =
     (let window_seconds = max (seconds_ceil window_ms) 1;
          policy_id = structured_field_string (ld_policy_id d);
          policy = policy_id @ '';q='' @ show_word (ld_limit d) @ '';w='' @ show_word window_seconds;
          service_limit =
            (case ld_reset_after_ms d of
               Some reset \<Rightarrow> policy_id @ '';r='' @ show_word (ld_remaining d) @ '';t='' @
                 show_word (seconds_ceil reset)
             | None \<Rightarrow> policy_id @ '';r='' @ show_word (ld_remaining d));
          reset_header = map_option (\<lambda>reset. (''ratelimit-reset'', show_word (seconds_ceil reset)))
            (ld_reset_after_ms d)
      in bt_collect
           ([(''ratelimit-policy'', policy), (''ratelimit'', service_limit),
             (''ratelimit-limit'', show_word (ld_limit d)),
             (''ratelimit-remaining'', show_word (ld_remaining d))] @
            opt_list reset_header @
            opt_list (then_some denied (''retry-after'',
              show_word (seconds_ceil (case_option 1000 id (ld_retry_after_ms d))))) @
            [(''x-ores-rate-limit-policy'', ld_policy_id d),
             (''x-ores-rate-limit-layer'', layer_as_str (ld_layer d)),
             (''x-ores-rate-limit-decision'', kind_as_str (ld_kind d))]))"

definition rate_limit_error :: "rate_limit_decision \<Rightarrow> u64 \<Rightarrow> middleware_error" where
  "rate_limit_error d window_ms =
     (let degraded = (ld_kind d = DegradedDenied) in
      with_headers
        (middleware_error_new (if degraded then 503 else 429)
          (if degraded then ''rate_limit_unavailable'' else ''rate_limited'')
          (if degraded then ''rate-limit enforcement is temporarily unavailable''
           else ''rate limit exceeded''))
        (rate_limit_headers d window_ms True))"

definition decision_for_failure :: "stack_rate_limit \<Rightarrow> bool \<Rightarrow> string \<Rightarrow> rate_limit_decision" where
  "decision_for_failure p allowed reason_code =
     \<lparr>ld_kind = (if allowed then DegradedAllowed else DegradedDenied), ld_source = UnknownSource,
      ld_policy_id = sr_policy_id p, ld_layer = sr_layer p, ld_algorithm = sr_algorithm p,
      ld_limit = sr_capacity p, ld_remaining = 0, ld_retry_after_ms = then_some (\<not> allowed) 1000,
      ld_reset_after_ms = None, ld_reason_code = Some reason_code\<rparr>"

definition correlate_error ::
    "middleware_config \<Rightarrow> request_context \<Rightarrow> middleware_error \<Rightarrow> middleware_error" where
  "correlate_error cfg context e =
     e\<lparr>me_headers := bt_or_insert (ms_request_id_header (mc_settings cfg)) (rc_request_id context)
        (me_headers e)\<rparr>"

section \<open>Transport and client address\<close>

definition peer_is_trusted :: "string option \<Rightarrow> string list \<Rightarrow> bool" where
  "peer_is_trusted remote_ip cidrs \<longleftrightarrow>
     (case Option.bind remote_ip parse_ip_addr of
        None \<Rightarrow> False
      | Some ip \<Rightarrow> list_ex (\<lambda>cidr. cidr_contains cidr ip) cidrs)"

definition show_ip_addr :: "ip_addr \<Rightarrow> string" where
  "show_ip_addr ip = (case ip of V4 a \<Rightarrow> show_ipv4 a | V6 a \<Rightarrow> show_ipv6 a)"

definition enforce_transport_policy ::
    "middleware_config \<Rightarrow> request_metadata \<Rightarrow> (middleware_error, unit) result" where
  "enforce_transport_policy cfg request =
     (let tls = ms_tls (mc_settings cfg); hs = rq_headers request;
          forwarded = map_option (\<lambda>v. to_ascii_lowercase (trim (hd (split_on CHR '','' v))))
            (bt_get hs ''x-forwarded-proto'');
          trusted_proxy = peer_is_trusted (rq_remote_ip request) (tls_trusted_proxy_cidrs tls);
          has_forwarded_identity = (bt_contains_key hs ''x-forwarded-for'' \<or>
            bt_contains_key hs ''cf-connecting-ip'' \<or> bt_contains_key hs ''forwarded'')
      in if tls_mode tls = ''trusted-proxy'' \<and> tls_strict_forwarded_headers tls \<and>
           (forwarded \<noteq> None \<or> has_forwarded_identity) \<and> \<not> trusted_proxy then
           Inl (middleware_error_new 400 ''untrusted_forwarded_header''
             ''forwarded transport or client headers came from an untrusted peer'')
         else
           (let secure = (rq_transport_secure request \<or>
                  tls_mode tls = ''trusted-proxy'' \<and> trusted_proxy \<and> forwarded = Some ''https'')
            in if tls_require_https tls \<and> \<not> secure then
                 Inl (middleware_error_new 426 ''https_required'' ''HTTPS is required'')
               else Inr ()))"

definition effective_client_ip :: "middleware_config \<Rightarrow> request_metadata \<Rightarrow> string option" where
  "effective_client_ip cfg request =
     (let hs = rq_headers request;
          direct = map_option show_ip_addr (Option.bind (rq_remote_ip request) parse_ip_addr)
      in if peer_is_trusted (rq_remote_ip request) (tls_trusted_proxy_cidrs (ms_tls (mc_settings cfg))) then
           (let forwarded = opt_filter (\<lambda>v. v \<noteq> []) (map_option trim
                  (case bt_get hs ''cf-connecting-ip'' of
                     Some v \<Rightarrow> Some v
                   | None \<Rightarrow> map_option (\<lambda>v. hd (split_on CHR '','' v)) (bt_get hs ''x-forwarded-for'')))
            in case Option.bind forwarded parse_ip_addr of
                 Some ip \<Rightarrow> Some (show_ip_addr ip)
               | None \<Rightarrow> direct)
         else direct)"

section \<open>Building a stack\<close>

text \<open>The default of \<open>evaluate\<close>, for limiters that only have the older method \<open>allow\<close>.\<close>

definition limiter_from_allow :: "(string \<Rightarrow> u32 \<Rightarrow> f64 \<Rightarrow> (bool, 'x) action) \<Rightarrow> 'x limiter" where
  "limiter_from_allow allow rq =
     act_bind (allow (rp_digest (lr_principal rq)) (lr_capacity rq) (lr_refill_per_second rq)) (\<lambda>allowed.
       act_return (Inr (decision_legacy rq allowed UnknownSource)))"

definition anonymous_auth :: "'x auth_verifier" where
  "anonymous_auth request = act_return (Inr auth_decision_default)"

definition noop_sync_observer :: "'x sync_observer" where
  "noop_sync_observer context request response = act_return (Inr ())"

text \<open>The default sink only writes log lines.\<close>

definition tracing_telemetry :: "'x telemetry_sink" where
  "tracing_telemetry =
     \<lparr>te_request_started = (\<lambda>_ _. act_return ()), te_request_finished = (\<lambda>_ _ _. act_return ()),
      te_rate_limit_decision = (\<lambda>_ _ _. act_return ())\<rparr>"

definition local_limiter :: "'x environment \<Rightarrow> bucket_bounds \<Rightarrow> 'x stack_world limiter" where
  "local_limiter env bounds rq w =
     (case bucket_evaluate (en_round env) bounds (now_in env w) rq (sw_buckets w) of
        (r, st) \<Rightarrow> (Some r, w\<lparr>sw_buckets := st\<rparr>))"

definition primary_evaluate :: "'x environment \<Rightarrow> 'x middleware_stack \<Rightarrow> 'x stack_world limiter" where
  "primary_evaluate env s rq =
     (case mk_rate_limiter s of
        SharedLocal \<Rightarrow> local_limiter env (mk_local_bounds s) rq
      | Installed limiter \<Rightarrow> on_env (limiter rq))"

definition stack_new ::
    "'m hmac_ops \<Rightarrow> 'x environment \<Rightarrow> middleware_config \<Rightarrow> 'x \<Rightarrow>
     (validation_issue list, 'x middleware_stack \<times> 'x stack_world) result" where
  "stack_new hmac env cfg x =
     (let issues = validate_config cfg in
      if issues \<noteq> [] then Inl issues
      else
        (let settings = mc_settings cfg; policy = ms_rate_limit settings;
             (registry, entries) = context_registry_new (ms_context_registry_max_entries settings)
               (from_millis (ms_context_registry_ttl_ms settings));
             (bounds, buckets) = with_bounds (sr_local_cache_max_entries policy)
               (from_millis (sr_local_cache_ttl_ms policy));
             (deriver, x) =
               (case sr_key_derivation policy of
                  EphemeralHmacSha256 \<Rightarrow>
                    (let (a, x) = en_new_v4 env x; (b, x) = en_new_v4 env x
                     in (hmac_derive hmac (ephemeral_secret a b), x))
                | ExternalHmacSha256 \<Rightarrow> (unavailable_derive, x))
         in Inr
              (\<lparr>mk_config = cfg, mk_auth = anonymous_auth,
                mk_auth_error_exposure = SanitizeProviderDiagnostics, mk_sync = noop_sync_observer,
                mk_telemetry = tracing_telemetry, mk_rate_limiter = SharedLocal,
                mk_local_bounds = bounds, mk_key_deriver = deriver, mk_registry = registry\<rparr>,
               \<lparr>sw_registry = entries, sw_buckets = buckets, sw_env = x\<rparr>)))"

definition with_auth_verifier :: "'x middleware_stack \<Rightarrow> 'x auth_verifier \<Rightarrow> 'x middleware_stack" where
  "with_auth_verifier s v =
     s\<lparr>mk_auth := v, mk_auth_error_exposure := SanitizeProviderDiagnostics\<rparr>"

definition with_trusted_auth_policy_verifier ::
    "'x middleware_stack \<Rightarrow> 'x auth_verifier \<Rightarrow> 'x middleware_stack" where
  "with_trusted_auth_policy_verifier s v =
     s\<lparr>mk_auth := v, mk_auth_error_exposure := PreserveTrustedPolicy\<rparr>"

definition with_sync_observer :: "'x middleware_stack \<Rightarrow> 'x sync_observer \<Rightarrow> 'x middleware_stack" where
  "with_sync_observer s observer = s\<lparr>mk_sync := observer\<rparr>"

definition with_telemetry :: "'x middleware_stack \<Rightarrow> 'x telemetry_sink \<Rightarrow> 'x middleware_stack" where
  "with_telemetry s telemetry = s\<lparr>mk_telemetry := telemetry\<rparr>"

definition with_rate_limiter :: "'x middleware_stack \<Rightarrow> 'x limiter \<Rightarrow> 'x middleware_stack" where
  "with_rate_limiter s limiter = s\<lparr>mk_rate_limiter := Installed limiter\<rparr>"

definition with_rate_limit_key_deriver :: "'x middleware_stack \<Rightarrow> key_deriver \<Rightarrow> 'x middleware_stack" where
  "with_rate_limit_key_deriver s deriver = s\<lparr>mk_key_deriver := deriver\<rparr>"

definition with_rate_limit_hmac_key ::
    "'m hmac_ops \<Rightarrow> 'x middleware_stack \<Rightarrow> bytes \<Rightarrow> (integration_error, 'x middleware_stack) result" where
  "with_rate_limit_hmac_key hmac s secret =
     bind_result (hmac_key_deriver_new secret) (\<lambda>key.
       Inr (with_rate_limit_key_deriver s (hmac_derive hmac key)))"

definition stack_from_env ::
    "'m hmac_ops \<Rightarrow> 'x environment \<Rightarrow> (string \<Rightarrow> string) \<Rightarrow> string \<Rightarrow> (string \<Rightarrow> string option) \<Rightarrow> 'x \<Rightarrow>
     (bootstrap_error, 'x middleware_stack \<times> 'x stack_world) result" where
  "stack_from_env hmac env dbg service_name lookup x =
     bind_result (config_from_lookup dbg (en_round env) service_name lookup) (\<lambda>cfg.
       let policy = ms_rate_limit (mc_settings cfg);
           external_hmac = (sr_enabled policy \<and> sr_key_derivation policy = ExternalHmacSha256)
       in case stack_new hmac env cfg x of
            Inl issues \<Rightarrow> Inl (error_config issues)
          | Inr (stack, world) \<Rightarrow>
              if \<not> external_hmac then Inr (stack, world)
              else
                (case lookup ''ORES_MIDDLEWARE_RATE_LIMIT_HMAC_SECRET'' of
                   None \<Rightarrow> Inl (error_variable ''ORES_MIDDLEWARE_RATE_LIMIT_HMAC_SECRET''
                     ''required_for_external_hmac''
                     ''external rate-limit key derivation requires a secret-store-backed HMAC key'')
                 | Some secret \<Rightarrow>
                     (case with_rate_limit_hmac_key hmac stack secret of
                        Inl e \<Rightarrow> Inl (error_integration ''ORES_MIDDLEWARE_RATE_LIMIT_HMAC_SECRET'' e)
                      | Inr stack \<Rightarrow> Inr (stack, world))))"

section \<open>Requests\<close>

text \<open>A stage of the life cycle: a panic in it becomes an internal error.\<close>

definition run_lifecycle_stage ::
    "((middleware_error, 'a) result, 'w) action \<Rightarrow> 'w \<Rightarrow> (middleware_error, 'a) result \<times> 'w" where
  "run_lifecycle_stage m w =
     (case m w of
        (Some r, w') \<Rightarrow> (r, w')
      | (None, w') \<Rightarrow> (Inl (middleware_error_new 500 ''internal_error'' ''request processing failed''), w'))"

definition auth_error :: "auth_error_exposure \<Rightarrow> integration_error \<Rightarrow> middleware_error" where
  "auth_error exposure e =
     (case exposure of
        PreserveTrustedPolicy \<Rightarrow> middleware_error_new 401 (ie_code e) (ie_message e)
      | SanitizeProviderDiagnostics \<Rightarrow>
          middleware_error_new 401 ''authentication_failed'' ''authentication failed'')"

definition pre_auth ::
    "'x middleware_stack \<Rightarrow> request_metadata \<Rightarrow>
     ((middleware_error, auth_decision) result, 'x stack_world) action" where
  "pre_auth s request =
     (if (case rq_content_length request of None \<Rightarrow> False
          | Some n \<Rightarrow> unat n > ms_max_body_bytes (mc_settings (mk_config s))) then
        act_return (Inl (middleware_error_new 413 ''payload_too_large'' ''request body exceeds configured limit''))
      else
        (case enforce_transport_policy (mk_config s) request of
           Inl e \<Rightarrow> act_return (Inl e)
         | Inr _ \<Rightarrow>
             act_bind (on_env (mk_auth s request)) (\<lambda>r. act_return
               (case r of
                  Inr auth \<Rightarrow> Inr auth
                | Inl e \<Rightarrow> Inl (auth_error (mk_auth_error_exposure s) e)))))"

definition evaluation_request :: "stack_rate_limit \<Rightarrow> rate_limit_principal \<Rightarrow> f64 rate_limit_request" where
  "evaluation_request policy who =
     \<lparr>lr_principal = who, lr_policy_id = sr_policy_id policy,
      lr_algorithm = sr_algorithm policy, lr_layer = sr_layer policy,
      lr_capacity = sr_capacity policy, lr_refill_per_second = sr_refill_per_second policy,
      lr_window_ms = sr_window_ms policy, lr_cost = 1\<rparr>"

text \<open>What happens when the primary limiter fails.\<close>

definition limiter_failure ::
    "'x environment \<Rightarrow> 'x middleware_stack \<Rightarrow> stack_rate_limit \<Rightarrow> f64 rate_limit_request \<Rightarrow>
     integration_error \<Rightarrow> (rate_limit_decision, 'x stack_world) action" where
  "limiter_failure env s policy evaluation e =
     (case (sr_layer policy, sr_failure_mode policy) of
        (AuthorizationLayer, _) \<Rightarrow> act_return (decision_for_failure policy False (ie_code e))
      | (_, FailOpenMode) \<Rightarrow> act_return (decision_for_failure policy True (ie_code e))
      | (_, FailClosedMode) \<Rightarrow> act_return (decision_for_failure policy False (ie_code e))
      | (_, LocalOnly) \<Rightarrow>
          act_bind (local_limiter env (mk_local_bounds s) evaluation) (\<lambda>l. act_return
            (case l of
               Inr decision \<Rightarrow>
                 decision\<lparr>ld_kind := (if decision_is_allowed decision
                     then DegradedAllowed else ld_kind decision),
                   ld_reason_code := Some (ie_code e)\<rparr>
             | Inl local_error \<Rightarrow> decision_for_failure policy False (ie_code local_error))))"

definition evaluate_rate_limit ::
    "'x environment \<Rightarrow> 'x middleware_stack \<Rightarrow> request_context \<Rightarrow> request_metadata \<Rightarrow> auth_decision \<Rightarrow>
     (rate_limit_decision, 'x stack_world) action" where
  "evaluate_rate_limit env s context request auth =
     (let policy = ms_rate_limit (mc_settings (mk_config s)) in
      case derive_rate_limit_principal (mk_key_deriver s) (sr_key_namespace policy)
          (sr_key_version policy) (sr_key_by policy) context request auth
          (effective_client_ip (mk_config s) request) of
        Inl e \<Rightarrow> act_return (decision_for_failure policy (sr_failure_mode policy = FailOpenMode) (ie_code e))
      | Inr who \<Rightarrow>
          (let evaluation = evaluation_request policy who
           in act_bind (primary_evaluate env s evaluation) (\<lambda>r.
                case r of
                  Inr decision \<Rightarrow> act_return decision
                | Inl e \<Rightarrow>
                    limiter_failure env s policy evaluation e)))"

definition registry_put :: "'x environment \<Rightarrow> 'x middleware_stack \<Rightarrow> request_context \<Rightarrow> 'x stack_world \<Rightarrow> 'x stack_world" where
  "registry_put env s context w =
     w\<lparr>sw_registry := context_insert (en_order env) (mk_registry s) (now_in env w) context (sw_registry w)\<rparr>"

definition registry_drop :: "string \<Rightarrow> 'x stack_world \<Rightarrow> 'x stack_world" where
  "registry_drop request_id w = w\<lparr>sw_registry := context_remove request_id (sw_registry w)\<rparr>"

text \<open>The end of the stage: injected latency, telemetry, and the entry in the registry.\<close>

definition start_request ::
    "'x environment \<Rightarrow> 'x middleware_stack \<Rightarrow> request_context \<Rightarrow> request_metadata \<Rightarrow>
     rate_limit_decision option \<Rightarrow>
     ((middleware_error, instant \<times> rate_limit_decision option) result, 'x stack_world) action" where
  "start_request env s context request decision =
     (let fault = ms_fault_injection (mc_settings (mk_config s)) in
      act_bind
        (if fi_enabled fault \<and> fi_latency_ms fault > 0
         then on_env (\<lambda>x. (Some (), en_sleep env (from_millis (fi_latency_ms fault)) x))
         else act_return ()) (\<lambda>_.
      act_bind (on_env (te_request_started (mk_telemetry s) context request)) (\<lambda>_ w.
        let w = registry_put env s context w in (Some (Inr (now_in env w, decision)), w))))"

definition request_start ::
    "'x environment \<Rightarrow> 'x middleware_stack \<Rightarrow> request_context \<Rightarrow> request_metadata \<Rightarrow> auth_decision \<Rightarrow>
     ((middleware_error, instant \<times> rate_limit_decision option) result, 'x stack_world) action" where
  "request_start env s context request auth =
     (let cfg = mk_config s; policy = ms_rate_limit (mc_settings cfg)
      in if sa_mode (mi_shared_auth (mc_integrations cfg)) \<noteq> DisabledIntegration \<and> rc_user_id context = None then
           act_return (Inl (middleware_error_new 401 ''authentication_required''
             ''shared-auth did not establish a user''))
         else if sr_enabled policy then
           act_bind (evaluate_rate_limit env s context request auth) (\<lambda>decision.
           act_bind (on_env (te_rate_limit_decision (mk_telemetry s) context request decision)) (\<lambda>_.
             if \<not> decision_is_allowed decision
             then act_return (Inl (rate_limit_error decision (sr_window_ms policy)))
             else start_request env s context request (Some decision)))
         else start_request env s context request None)"

text \<open>The context before authentication; identifiers the request does not bring are drawn.\<close>

definition base_context ::
    "'x environment \<Rightarrow> middleware_config \<Rightarrow> request_metadata \<Rightarrow> 'x \<Rightarrow> request_context \<times> 'x" where
  "base_context env cfg request x =
     (let settings = mc_settings cfg; hs = rq_headers request;
          (request_id, x) =
            (case opt_filter valid_token (bt_get hs (ms_request_id_header settings)) of
               Some v \<Rightarrow> (v, x)
             | None \<Rightarrow> (let (u, x) = en_new_v4 env x in (uu_hyphenated u, x)));
          (trace_id, x) =
            (case parse_trace_id (bt_get hs (ms_trace_header settings)) of
               Some v \<Rightarrow> (v, x)
             | None \<Rightarrow> (let (u, x) = en_new_v4 env x in (uu_simple u, x)));
          now = en_now_ms env x
      in (\<lparr>rc_request_id = request_id, rc_trace_id = trace_id, rc_span_id = None, rc_tenant_id = None,
           rc_user_id = None, rc_locale = bt_get hs ''accept-language'', rc_started_at_unix_ms = now,
           rc_deadline_unix_ms = Some (saturating_add now (ms_timeout_ms settings)), rc_baggage = []\<rparr>, x))"

definition authenticated_context :: "request_context \<Rightarrow> auth_decision \<Rightarrow> request_context" where
  "authenticated_context base auth =
     base\<lparr>rc_tenant_id := ad_tenant_id auth, rc_user_id := ad_user_id auth,
       rc_baggage := bt_collect (filter (\<lambda>kv. starts_with ''otel.'' (fst kv)) (ad_claims auth))\<rparr>"

definition stack_begin ::
    "'x environment \<Rightarrow> 'x middleware_stack \<Rightarrow> request_metadata \<Rightarrow> 'x stack_world \<Rightarrow>
     (middleware_error, active_request) result \<times> 'x stack_world" where
  "stack_begin env s request w =
     (let (base, x) = base_context env (mk_config s) request (sw_env w); w = w\<lparr>sw_env := x\<rparr>
      in case run_lifecycle_stage (pre_auth s request) w of
           (Inl e, w) \<Rightarrow> (Inl (correlate_error (mk_config s) base e), w)
         | (Inr auth, w) \<Rightarrow>
             (let context = authenticated_context base auth
              in case run_lifecycle_stage (request_start env s context request auth) w of
                   (Inr (started, decision), w) \<Rightarrow>
                     (Inr \<lparr>ar_context = context, ar_started = started, ar_request = request,
                           ar_rate_limit_decision = decision\<rparr>, w)
                 | (Inl e, w) \<Rightarrow>
                     (Inl (correlate_error (mk_config s) context e),
                      registry_drop (rc_request_id context) w)))"

definition finish_headers :: "middleware_config \<Rightarrow> string \<Rightarrow> rate_limit_decision option \<Rightarrow> headers" where
  "finish_headers cfg request_id decision =
     (let security = ms_security_headers (mc_settings cfg)
      in bt_collect
           ([(ms_request_id_header (mc_settings cfg), request_id)] @
            (if sh_enabled security then
               [(''x-content-type-options'', ''nosniff''), (''x-frame-options'', sh_frame_options security),
                (''referrer-policy'', ''strict-origin-when-cross-origin''),
                (''strict-transport-security'',
                 ''max-age='' @ show_word (sh_hsts_max_age_seconds security) @ ''; includeSubDomains'')]
             else []) @
            opt_list (map_option (\<lambda>csp. (''content-security-policy'', csp))
              (if sh_enabled security then sh_content_security_policy security else None)) @
            (case decision of
               None \<Rightarrow> []
             | Some d \<Rightarrow> rate_limit_headers d (sr_window_ms (ms_rate_limit (mc_settings cfg))) False)))"

definition stack_finish ::
    "'x environment \<Rightarrow> 'x middleware_stack \<Rightarrow> active_request \<Rightarrow> u16 \<Rightarrow> u64 option \<Rightarrow> 'x stack_world \<Rightarrow>
     headers \<times> 'x stack_world" where
  "stack_finish env s active status response_bytes w =
     (let context = ar_context active; request = ar_request active;
          response = \<lparr>rs_status = status,
            rs_duration_ms = of_nat ((now_in env w - ar_started active) div 1000000),
            rs_response_bytes = response_bytes\<rparr>;
          (_, w) = run_lifecycle_stage
            (act_bind (on_env (te_request_finished (mk_telemetry s) context request response)) (\<lambda>_.
             act_bind (on_env (mk_sync s context request response)) (\<lambda>_. act_return (Inr ())))) w;
          (_, w) = run_lifecycle_stage
            (\<lambda>w. (Some (Inr ()), registry_drop (rc_request_id context) w)) w
      in (finish_headers (mk_config s) (rc_request_id context) (ar_rate_limit_decision active), w))"

section \<open>Actions and the registry\<close>

lemma act_bind_Some:
  "act_bind m f w = (Some b, w') \<longleftrightarrow> (\<exists>a w1. m w = (Some a, w1) \<and> f a w1 = (Some b, w'))"
  by (auto simp: act_bind_def split: prod.splits option.splits)

lemma act_result_Some:
  "(case r of Inl e \<Rightarrow> act_return (Inl e) | Inr a \<Rightarrow> f a) w = (Some (Inr b), w') \<longleftrightarrow>
   (\<exists>a. r = Inr a \<and> f a w = (Some (Inr b), w'))"
  by (cases r) (auto simp: act_return_def)

lemma act_return_eq [simp]: "act_return a w = (r, w') \<longleftrightarrow> r = Some a \<and> w' = w"
  by (auto simp: act_return_def)

lemma run_lifecycle_stage_Inr:
  "run_lifecycle_stage m w = (Inr a, w') \<longleftrightarrow> m w = (Some (Inr a), w')"
  by (auto simp: run_lifecycle_stage_def split: prod.splits option.splits)

lemma run_lifecycle_stage_Inl:
  "run_lifecycle_stage m w = (Inl e, w') \<longleftrightarrow>
   m w = (Some (Inl e), w') \<or>
   m w = (None, w') \<and> e = middleware_error_new 500 ''internal_error'' ''request processing failed''"
  by (auto simp: run_lifecycle_stage_def split: prod.splits option.splits)

text \<open>Actions that leave the registry alone.\<close>

definition keeps_registry :: "('a, 'x stack_world) action \<Rightarrow> bool" where
  "keeps_registry m \<longleftrightarrow> (\<forall>w. sw_registry (snd (m w)) = sw_registry w)"

named_theorems keeps_registry \<open>actions that leave the registry alone\<close>

lemma keeps_registryD: "keeps_registry m \<Longrightarrow> m w = (r, w') \<Longrightarrow> sw_registry w' = sw_registry w"
  unfolding keeps_registry_def by (metis snd_conv)

lemma keeps_registry_return [keeps_registry]: "keeps_registry (act_return a)"
  by (simp add: keeps_registry_def act_return_def)

lemma keeps_registry_on_env [keeps_registry]: "keeps_registry (on_env m)"
  by (simp add: keeps_registry_def on_env_def split: prod.splits)

lemma keeps_registry_bind [keeps_registry]:
  assumes "keeps_registry m" "\<And>a. keeps_registry (f a)"
  shows "keeps_registry (act_bind m f)"
  unfolding keeps_registry_def
proof
  fix w
  obtain r w1 where m: "m w = (r, w1)" by (rule prod.exhaust)
  from keeps_registryD [OF assms(1) m] assms(2) show "sw_registry (snd (act_bind m f w)) = sw_registry w"
    by (simp add: act_bind_def m keeps_registry_def split: option.split)
qed

lemma keeps_registry_local [keeps_registry]: "keeps_registry (local_limiter env bounds rq)"
  by (simp add: keeps_registry_def local_limiter_def split: prod.splits)

lemma keeps_registry_primary [keeps_registry]: "keeps_registry (primary_evaluate env s rq)"
  by (cases "mk_rate_limiter s") (simp_all add: primary_evaluate_def keeps_registry)

lemma keeps_registry_pre_auth: "keeps_registry (pre_auth s rq)"
  unfolding pre_auth_def by (auto intro!: keeps_registry split: sum.split)

lemma keeps_registry_failure [keeps_registry]: "keeps_registry (limiter_failure env s policy rq e)"
  unfolding limiter_failure_def
  by (auto intro!: keeps_registry split: rate_limit_layer.split rate_limit_failure_mode.split)

lemma keeps_registry_evaluate [keeps_registry]:
  "keeps_registry (evaluate_rate_limit env s context rq auth)"
  unfolding evaluate_rate_limit_def Let_def
  by (auto intro!: keeps_registry split: sum.split)

section \<open>The request stages\<close>

lemma enforce_transport_Inr:
  "enforce_transport_policy cfg request = Inr () \<Longrightarrow> tls_require_https (ms_tls (mc_settings cfg)) \<Longrightarrow>
   rq_transport_secure request \<or>
   tls_mode (ms_tls (mc_settings cfg)) = ''trusted-proxy'' \<and>
     peer_is_trusted (rq_remote_ip request) (tls_trusted_proxy_cidrs (ms_tls (mc_settings cfg))) \<and>
     map_option (\<lambda>v. to_ascii_lowercase (trim (hd (split_on CHR '','' v))))
       (bt_get (rq_headers request) ''x-forwarded-proto'') = Some ''https''"
  by (auto simp: enforce_transport_policy_def Let_def split: if_splits)

lemma enforce_transport_strict:
  "enforce_transport_policy cfg request = Inr () \<Longrightarrow> tls_mode (ms_tls (mc_settings cfg)) = ''trusted-proxy'' \<Longrightarrow>
   tls_strict_forwarded_headers (ms_tls (mc_settings cfg)) \<Longrightarrow>
   list_ex (bt_contains_key (rq_headers request))
     [''x-forwarded-proto'', ''x-forwarded-for'', ''cf-connecting-ip'', ''forwarded''] \<Longrightarrow>
   peer_is_trusted (rq_remote_ip request) (tls_trusted_proxy_cidrs (ms_tls (mc_settings cfg)))"
  by (auto simp: enforce_transport_policy_def Let_def bt_contains_key_def split: if_splits)

lemma enforce_transport_Inl:
  "enforce_transport_policy cfg request = Inl e \<Longrightarrow> me_status e \<in> {400, 426} \<and> me_headers e = []"
  by (auto simp: enforce_transport_policy_def Let_def middleware_error_new_def split: if_splits)

lemma pre_auth_Inr:
  assumes "pre_auth s request w = (Some (Inr auth), w')"
  shows "(case rq_content_length request of None \<Rightarrow> True
      | Some n \<Rightarrow> unat n \<le> ms_max_body_bytes (mc_settings (mk_config s))) \<and>
    enforce_transport_policy (mk_config s) request = Inr () \<and>
    (\<exists>x'. mk_auth s request (sw_env w) = (Some (Inr auth), x') \<and> w' = w\<lparr>sw_env := x'\<rparr>)"
proof -
  have "\<exists>x'. m (sw_env w) = (Some (Inr auth), x') \<and> w' = w\<lparr>sw_env := x'\<rparr>"
    if "act_bind (on_env m) (\<lambda>r. act_return (case r of Inr a \<Rightarrow> Inr a | Inl e \<Rightarrow> Inl (f e))) w =
      (Some (Inr auth), w')" for m and f :: "integration_error \<Rightarrow> middleware_error"
  proof -
    from that obtain r where r: "on_env m w = (Some r, w')"
        "Inr auth = (case r of Inr a \<Rightarrow> Inr a | Inl e \<Rightarrow> Inl (f e))" by (auto simp: act_bind_Some)
    then show ?thesis by (cases r) (auto simp: on_env_def split: prod.splits)
  qed
  with assms show ?thesis
    by (auto simp: pre_auth_def not_less split: if_splits option.splits sum.splits)
qed

lemma pre_auth_Inl:
  assumes "pre_auth s request w = (Some (Inl e), w')"
  shows "me_status e \<in> {400, 401, 413, 426}"
proof -
  have auth: "me_status (auth_error x y) = 401" for x y
    by (cases x) (simp_all add: auth_error_def middleware_error_new_def)
  consider (large) "\<exists>m. e = middleware_error_new 413 m ''request body exceeds configured limit''"
    | (transport) "enforce_transport_policy (mk_config s) request = Inl e"
    | (provider) x where "e = auth_error (mk_auth_error_exposure s) x"
    using assms
    by (auto simp: pre_auth_def act_bind_Some split: if_splits sum.splits; metis sum.exhaust sum.simps(5,6) sum.inject(1) sum.distinct(1))
  then show ?thesis
  proof cases
    case large
    then show ?thesis by (auto simp: middleware_error_new_def)
  next
    case transport
    then show ?thesis using enforce_transport_Inl by blast
  next
    case provider
    then show ?thesis by (simp add: auth)
  qed
qed

lemma start_request_cases:
  assumes "start_request env s context request decision w = (r, w')"
  shows "r = None \<and> sw_registry w' = sw_registry w \<or>
    (\<exists>started now. r = Some (Inr (started, decision)) \<and>
      sw_registry w' = context_insert (en_order env) (mk_registry s) now context (sw_registry w))"
proof -
  let ?fault = "ms_fault_injection (mc_settings (mk_config s))"
  let ?wait = "if fi_enabled ?fault \<and> fi_latency_ms ?fault > 0
    then on_env (\<lambda>x. (Some (), en_sleep env (from_millis (fi_latency_ms ?fault)) x)) else act_return ()"
  let ?start = "on_env (te_request_started (mk_telemetry s) context request)"
  obtain r1 w1 where w1: "?wait w = (r1, w1)" by (rule prod.exhaust)
  obtain r2 w2 where w2: "?start w1 = (r2, w2)" by (rule prod.exhaust)
  have wait: "keeps_registry ?wait" by (simp add: keeps_registry)
  have reg: "sw_registry w1 = sw_registry w" "sw_registry w2 = sw_registry w"
    using keeps_registryD [OF wait w1] keeps_registryD [OF keeps_registry_on_env w2] by simp_all
  have "start_request env s context request decision w =
    (case r1 of None \<Rightarrow> (None, w1) | Some _ \<Rightarrow> (case r2 of None \<Rightarrow> (None, w2)
      | Some _ \<Rightarrow> (let w = registry_put env s context w2 in (Some (Inr (now_in env w, decision)), w))))"
    unfolding start_request_def Let_def act_bind_def w1 by (simp add: w2 split: option.split)
  with assms reg show ?thesis by (auto simp: Let_def registry_put_def split: option.splits)
qed

lemma request_start_cases:
  assumes "request_start env s context request auth w = (r, w')"
  defines "policy \<equiv> ms_rate_limit (mc_settings (mk_config s))"
  obtains (rejected) e where "r = Some (Inl e)" "me_status e \<in> {401, 429, 503}" "sw_registry w' = sw_registry w"
  | (panicked) "r = None" "sw_registry w' = sw_registry w"
  | (started) started decision now where "r = Some (Inr (started, decision))"
    "sa_mode (mi_shared_auth (mc_integrations (mk_config s))) = DisabledIntegration \<or> rc_user_id context \<noteq> None"
    "if sr_enabled policy then \<exists>d w1. decision = Some d \<and> decision_is_allowed d \<and>
       evaluate_rate_limit env s context request auth w = (Some d, w1) else decision = None"
    "sw_registry w' = context_insert (en_order env) (mk_registry s) now context (sw_registry w)"
proof -
  let ?auth_missing = "sa_mode (mi_shared_auth (mc_integrations (mk_config s))) \<noteq> DisabledIntegration \<and>
    rc_user_id context = None"
  consider (missing) ?auth_missing | (off) "\<not> ?auth_missing" "\<not> sr_enabled policy"
    | (on) "\<not> ?auth_missing" "sr_enabled policy" by blast
  then show thesis
  proof cases
    case missing
    with assms rejected show thesis by (auto simp: request_start_def Let_def middleware_error_new_def)
  next
    case off
    with assms have "start_request env s context request None w = (r, w')"
      by (simp add: request_start_def Let_def)
    from start_request_cases [OF this] off panicked started show thesis by auto
  next
    case on
    obtain r1 w1 where w1: "evaluate_rate_limit env s context request auth w = (r1, w1)" by (rule prod.exhaust)
    note reg1 = keeps_registryD [OF keeps_registry_evaluate w1]
    show thesis
    proof (cases r1)
      case None
      with assms on w1 reg1 panicked show thesis by (auto simp: request_start_def Let_def act_bind_def)
    next
      case (Some d)
      obtain r2 w2 where w2: "on_env (te_rate_limit_decision (mk_telemetry s) context request d) w1 = (r2, w2)"
        by (rule prod.exhaust)
      note reg2 = keeps_registryD [OF keeps_registry_on_env w2]
      have eq: "(r, w') = (case r2 of None \<Rightarrow> (None, w2) | Some _ \<Rightarrow>
          if \<not> decision_is_allowed d
          then act_return (Inl (rate_limit_error d (sr_window_ms policy))) w2
          else start_request env s context request (Some d) w2)"
        using assms on
        by (cases r2; cases "decision_is_allowed d")
          (auto simp: request_start_def Let_def act_bind_def w1 Some w2 act_return_def)
      have status: "me_status (rate_limit_error d x) \<in> {429, 503}" for x
        by (simp add: rate_limit_error_def Let_def with_headers_def middleware_error_new_def)
      show thesis
      proof (cases "r2 = None \<or> \<not> decision_is_allowed d")
        case True
        with eq reg1 reg2 status panicked rejected show thesis
          by (auto simp: act_return_def split: option.splits)
      next
        case False
        with eq have "start_request env s context request (Some d) w2 = (r, w')" by auto
        from start_request_cases [OF this] False on w1 Some reg1 reg2 panicked started show thesis by auto
      qed
    qed
  qed
qed

end
