(* ===== verification/Stack_Guarantees.thy ===== *)
theory Stack_Guarantees
  imports Stack
begin

text \<open>
  What the middleware stack guarantees of the requests it admits, of those it rejects, of its rate
  limit and of the registry of running requests, whatever the installed providers do.
\<close>

section \<open>Inversion of \<open>begin\<close>\<close>

lemma stack_begin_InrE:
  assumes "stack_begin env s request w = (Inr a, w')"
  obtains base x auth w1 started decision where
    "base_context env (mk_config s) request (sw_env w) = (base, x)"
    "pre_auth s request (w\<lparr>sw_env := x\<rparr>) = (Some (Inr auth), w1)"
    "request_start env s (authenticated_context base auth) request auth w1 =
       (Some (Inr (started, decision)), w')"
    "a = \<lparr>ar_context = authenticated_context base auth, ar_started = started, ar_request = request,
          ar_rate_limit_decision = decision\<rparr>"
  using assms
  by (auto simp: stack_begin_def Let_def run_lifecycle_stage_Inr split: prod.splits sum.splits)

lemma stack_begin_InlE:
  assumes "stack_begin env s request w = (Inl e, w')"
  obtains (early) base x e' where
      "base_context env (mk_config s) request (sw_env w) = (base, x)"
      "run_lifecycle_stage (pre_auth s request) (w\<lparr>sw_env := x\<rparr>) = (Inl e', w')"
      "e = correlate_error (mk_config s) base e'"
  | (late) base x auth w1 e' w2 where
      "base_context env (mk_config s) request (sw_env w) = (base, x)"
      "run_lifecycle_stage (pre_auth s request) (w\<lparr>sw_env := x\<rparr>) = (Inr auth, w1)"
      "run_lifecycle_stage (request_start env s (authenticated_context base auth) request auth) w1 = (Inl e', w2)"
      "e = correlate_error (mk_config s) (authenticated_context base auth) e'"
      "w' = registry_drop (rc_request_id base) w2"
  using assms
  by (auto simp: stack_begin_def Let_def authenticated_context_def split: prod.splits sum.splits)

lemma authenticated_context_sel [simp]:
  "rc_request_id (authenticated_context base auth) = rc_request_id base"
  "rc_user_id (authenticated_context base auth) = ad_user_id auth"
  "rc_tenant_id (authenticated_context base auth) = ad_tenant_id auth"
  by (simp_all add: authenticated_context_def)

lemma registered_after_insert:
  assumes "context_registry_inv r entries" "0 < cr_max_entries r"
  shows "bt_get (context_insert it r now c entries) (rc_request_id c) = Some (now, c)"
proof -
  have "bt_ok (case x of None \<Rightarrow> filter p entries | Some key \<Rightarrow> bt_remove key (filter p entries))" for x p
    using assms(1) by (auto simp: context_registry_inv_def bt_ok_filter split: option.split)
  with assms(2) show ?thesis by (simp add: context_insert_def Let_def bt_get_insert)
qed

section \<open>Admission\<close>

text \<open>
  C19. A request is admitted only if its declared body is within the limit; its transport is secure where
  HTTPS is required, directly, or because in the trusted-proxy mode a trusted peer reports the scheme
  \<open>https\<close>; no untrusted peer sent a forwarding header under the strict policy; the verifier accepted it; a
  user is known where shared authentication is on; and the rate limiter allowed it where it is enabled, on a
  decision that was evaluated for this request. Its context carries exactly the verified user and tenant,
  and unless the registry has no room for any entry it is in the registry.
\<close>

theorem admitted_requests:
  assumes "stack_begin env s request w = (Inr a, w')"
    and "context_registry_inv (mk_registry s) (sw_registry w)"
  shows "let settings = mc_settings (mk_config s); tls = ms_tls settings; context = ar_context a;
      hs = rq_headers request; (base, x) = base_context env (mk_config s) request (sw_env w);
      trusted = peer_is_trusted (rq_remote_ip request) (tls_trusted_proxy_cidrs tls);
      reported = map_option (\<lambda>v. to_ascii_lowercase (trim (hd (split_on CHR '','' v)))) (bt_get hs ''x-forwarded-proto'')
    in (case rq_content_length request of None \<Rightarrow> True | Some n \<Rightarrow> unat n \<le> ms_max_body_bytes settings) \<and>
      (tls_require_https tls \<longrightarrow>
         rq_transport_secure request \<or> tls_mode tls = ''trusted-proxy'' \<and> trusted \<and> reported = Some ''https'') \<and>
      (tls_mode tls = ''trusted-proxy'' \<and> tls_strict_forwarded_headers tls \<and>
         list_ex (bt_contains_key hs) [''x-forwarded-proto'', ''x-forwarded-for'', ''cf-connecting-ip'', ''forwarded''] \<longrightarrow>
         trusted) \<and>
      (\<exists>auth x'. mk_auth s request x = (Some (Inr auth), x') \<and> context = authenticated_context base auth \<and>
         (sr_enabled (ms_rate_limit settings) \<longrightarrow>
            (\<exists>d w2. evaluate_rate_limit env s context request auth (w\<lparr>sw_env := x'\<rparr>) = (Some d, w2) \<and>
               decision_is_allowed d \<and> ar_rate_limit_decision a = Some d))) \<and>
      (sa_mode (mi_shared_auth (mc_integrations (mk_config s))) \<noteq> DisabledIntegration \<longrightarrow>
         rc_user_id context \<noteq> None) \<and>
      (cr_max_entries (mk_registry s) = 0 \<or>
         (\<exists>now. bt_get (sw_registry w') (rc_request_id context) = Some (now, context)))"
proof -
  from assms(1) obtain base x auth w1 started decision where
    base: "base_context env (mk_config s) request (sw_env w) = (base, x)" and
    pre: "pre_auth s request (w\<lparr>sw_env := x\<rparr>) = (Some (Inr auth), w1)" and
    start: "request_start env s (authenticated_context base auth) request auth w1 =
       (Some (Inr (started, decision)), w')" and
    a: "a = \<lparr>ar_context = authenticated_context base auth, ar_started = started, ar_request = request,
          ar_rate_limit_decision = decision\<rparr>"
    by (rule stack_begin_InrE)
  have reg: "sw_registry w1 = sw_registry w" using keeps_registryD [OF keeps_registry_pre_auth pre] by simp
  note auth = pre_auth_Inr [OF pre]
  then have transport: "enforce_transport_policy (mk_config s) request = Inr ()" by simp
  from auth obtain x' where verified: "mk_auth s request x = (Some (Inr auth), x')" and w1: "w1 = w\<lparr>sw_env := x'\<rparr>"
    by auto
  from start show ?thesis
  proof (cases rule: request_start_cases)
    case (started started decision now)
    have limit: "sr_enabled (ms_rate_limit (mc_settings (mk_config s))) \<longrightarrow>
        (\<exists>d w2. evaluate_rate_limit env s (ar_context a) request auth (w\<lparr>sw_env := x'\<rparr>) = (Some d, w2) \<and>
           decision_is_allowed d \<and> ar_rate_limit_decision a = Some d)"
      using started a w1 by auto
    have registered: "cr_max_entries (mk_registry s) = 0 \<or>
        (\<exists>now. bt_get (sw_registry w') (rc_request_id (ar_context a)) = Some (now, ar_context a))"
      using registered_after_insert [OF assms(2), of "en_order env" now "ar_context a"] started
      by (auto simp: a reg)
    from auth enforce_transport_Inr [OF transport] enforce_transport_strict [OF transport] verified limit registered started
    show ?thesis unfolding Let_def base prod.case by (intro conjI exI [of _ auth] exI [of _ x']) (auto simp: a)
  qed simp_all
qed

section \<open>Rejection\<close>

lemma bt_or_insert_present: "bt_get (bt_or_insert k v m) k \<noteq> None"
proof (cases "bt_get m k")
  case None
  have "bt_get (bt_insert k v m) k = Some v" by (induction m) (auto simp: bt_get_def)
  with None show ?thesis by (simp add: bt_or_insert_def)
qed (simp add: bt_or_insert_def)

lemma correlate_error_sel [simp]:
  "me_status (correlate_error cfg c e) = me_status e" "me_code (correlate_error cfg c e) = me_code e"
  by (simp_all add: correlate_error_def)

lemma correlate_error_id:
  "bt_get (me_headers (correlate_error cfg c e)) (ms_request_id_header (mc_settings cfg)) \<noteq> None"
  by (simp add: correlate_error_def bt_or_insert_present)

lemma run_pre_auth_Inl:
  "run_lifecycle_stage (pre_auth s request) w = (Inl e, w') \<Longrightarrow>
   me_status e \<in> {400, 401, 413, 426, 500} \<and> sw_registry w' = sw_registry w"
  using keeps_registryD [OF keeps_registry_pre_auth] pre_auth_Inl
  by (fastforce simp: run_lifecycle_stage_Inl middleware_error_new_def)

lemma run_request_start_Inl:
  assumes "run_lifecycle_stage (request_start env s context request auth) w = (Inl e, w')"
  shows "me_status e \<in> {401, 429, 500, 503} \<and> sw_registry w' = sw_registry w"
proof -
  from assms consider "request_start env s context request auth w = (Some (Inl e), w')"
    | "request_start env s context request auth w = (None, w')" "me_status e = 500"
    by (auto simp: run_lifecycle_stage_Inl middleware_error_new_def)
  then show ?thesis by cases (auto elim: request_start_cases)
qed

text \<open>
  C20. A rejected request gets one of the statuses 400, 401, 413, 426, 429, 500 and 503, even when a
  provider panics, and the response carries a request id. Rejection adds nothing to the registry and
  removes at most the entry under the id of the rejected request.
\<close>

theorem rejected_requests:
  assumes "stack_begin env s request w = (Inl e, w')"
  shows "me_status e \<in> {400, 401, 413, 426, 429, 500, 503} \<and>
    bt_get (me_headers e) (ms_request_id_header (mc_settings (mk_config s))) \<noteq> None \<and>
    sw_registry w' \<in> {sw_registry w, context_remove
      (rc_request_id (fst (base_context env (mk_config s) request (sw_env w)))) (sw_registry w)}"
  using assms
proof (cases rule: stack_begin_InlE)
  case (early base x e')
  then show ?thesis using run_pre_auth_Inl [OF early(2)] correlate_error_id by auto
next
  case (late base x auth w1 e' w2)
  from late(2) have "sw_registry w1 = sw_registry w"
    using keeps_registryD [OF keeps_registry_pre_auth] by (fastforce simp: run_lifecycle_stage_Inr)
  with late show ?thesis
    using run_request_start_Inl [OF late(3)] correlate_error_id by (auto simp: registry_drop_def)
qed

text \<open>
  Unless the verifier was installed as trusted policy, nothing of the error it fails with
  reaches the response: two verifiers that fail on a request with different errors, and leave the
  same environment behind, give the same rejection.
\<close>

theorem provider_errors_hidden:
  assumes "mk_auth s request = (\<lambda>x. (Some (Inl e1), f x))"
    and "mk_auth_error_exposure s = SanitizeProviderDiagnostics"
  shows "stack_begin env s request w =
    stack_begin env (s\<lparr>mk_auth := (\<lambda>_ x. (Some (Inl e2), f x))\<rparr>) request w"
proof -
  let ?s = "s\<lparr>mk_auth := (\<lambda>_ x. (Some (Inl e2), f x))\<rparr>"
  have pre: "pre_auth s request = pre_auth ?s request"
    unfolding pre_auth_def
    by (simp add: fun_eq_iff act_bind_def on_env_def act_return_def auth_error_def assms
        split: sum.split option.split)
  obtain base x where base: "base_context env (mk_config s) request (sw_env w) = (base, x)"
    by (rule prod.exhaust)
  have "\<exists>e v. run_lifecycle_stage (pre_auth s request) (w\<lparr>sw_env := x\<rparr>) = (Inl e, v)"
    by (simp add: run_lifecycle_stage_def pre_auth_def act_bind_def on_env_def act_return_def assms(1)
        split: sum.split)
  then obtain e v where e: "run_lifecycle_stage (pre_auth s request) (w\<lparr>sw_env := x\<rparr>) = (Inl e, v)" by blast
  show ?thesis using e pre by (simp add: stack_begin_def base)
qed

section \<open>The rate limit\<close>

lemma decision_for_failure_allowed: "decision_is_allowed (decision_for_failure p allowed code) = allowed"
  by (simp add: decision_for_failure_def decision_is_allowed_def kind_is_allowed_def)

lemma limiter_failure_allowed:
  assumes "limiter_failure env s policy rq e w = (Some d, w')" "decision_is_allowed d"
  shows "sr_layer policy \<noteq> AuthorizationLayer \<and> ld_kind d = DegradedAllowed \<and>
    (sr_failure_mode policy = FailOpenMode \<and> w' = w \<or>
     sr_failure_mode policy = LocalOnly \<and>
     (\<exists>l. local_limiter env (mk_local_bounds s) rq w = (Some (Inr l), w') \<and> decision_is_allowed l))"
proof (cases "sr_failure_mode policy = LocalOnly \<and> sr_layer policy \<noteq> AuthorizationLayer")
  case True
  with assms(1) obtain l where l: "local_limiter env (mk_local_bounds s) rq w = (Some l, w')"
      "d = (case l of Inr l \<Rightarrow> l\<lparr>ld_kind := (if decision_is_allowed l then DegradedAllowed else ld_kind l),
           ld_reason_code := Some (ie_code e)\<rparr>
         | Inl local_error \<Rightarrow> decision_for_failure policy False (ie_code local_error))"
    by (cases "sr_layer policy") (auto simp: limiter_failure_def act_bind_Some)
  with True assms(2) show ?thesis
    by (cases l) (auto simp: decision_for_failure_def decision_is_allowed_def kind_is_allowed_def split: if_splits)
next
  case False
  with assms show ?thesis
    by (auto simp: limiter_failure_def decision_for_failure_def decision_is_allowed_def kind_is_allowed_def
        split: rate_limit_layer.splits rate_limit_failure_mode.splits)
qed

lemma valid_authorization_layer:
  assumes "validate_config c = []" "sr_enabled (ms_rate_limit (mc_settings c))"
    and "sr_failure_mode (ms_rate_limit (mc_settings c)) = FailOpenMode"
  shows "sr_layer (ms_rate_limit (mc_settings c)) \<noteq> AuthorizationLayer"
  using assms by (auto simp: validate_config_Nil config_ok_def rate_limit_ok_def)

text \<open>
  C21. Under a valid configuration, a request passes the rate limit in one of three ways. The primary limiter
  answered for the key of the request, and its answer, unchanged, allows it. Or the key could not be derived,
  or the primary limiter failed for it, at a layer other than authorization: then under the fail-open mode, or,
  when the limiter failed, under the local-only mode with the local bucket allowing it, and the decision is
  marked as degraded. At the authorization layer an outage never admits.
\<close>

theorem rate_limit_admission_justified:
  assumes "validate_config (mk_config s) = []" "sr_enabled (ms_rate_limit (mc_settings (mk_config s)))"
    and "evaluate_rate_limit env s context request auth w = (Some d, w')" "decision_is_allowed d"
  shows "let policy = ms_rate_limit (mc_settings (mk_config s));
      key = derive_rate_limit_principal (mk_key_deriver s) (sr_key_namespace policy) (sr_key_version policy)
        (sr_key_by policy) context request auth (effective_client_ip (mk_config s) request);
      local = local_limiter env (mk_local_bounds s)
    in case key of
         Inl e \<Rightarrow> sr_layer policy \<noteq> AuthorizationLayer \<and> sr_failure_mode policy = FailOpenMode \<and>
           ld_kind d = DegradedAllowed \<and> w' = w
       | Inr who \<Rightarrow>
           (case primary_evaluate env s (evaluation_request policy who) w of
              (None, _) \<Rightarrow> False
            | (Some (Inr answer), w1) \<Rightarrow> d = answer \<and> w' = w1
            | (Some (Inl e), w1) \<Rightarrow>
                sr_layer policy \<noteq> AuthorizationLayer \<and> ld_kind d = DegradedAllowed \<and>
                (sr_failure_mode policy = FailOpenMode \<and> w' = w1 \<or>
                 sr_failure_mode policy = LocalOnly \<and>
                 (\<exists>l. local (evaluation_request policy who) w1 = (Some (Inr l), w') \<and> decision_is_allowed l)))"
proof -
  define policy where "policy = ms_rate_limit (mc_settings (mk_config s))"
  note open_layer = valid_authorization_layer [OF assms(1,2), folded policy_def]
  show ?thesis
  proof (cases "derive_rate_limit_principal (mk_key_deriver s) (sr_key_namespace policy)
      (sr_key_version policy) (sr_key_by policy) context request auth
      (effective_client_ip (mk_config s) request)")
    case (Inl e)
    with assms(3) have "d = decision_for_failure policy (sr_failure_mode policy = FailOpenMode) (ie_code e)" "w' = w"
      by (simp_all add: evaluate_rate_limit_def Let_def policy_def)
    with assms(4) open_layer Inl show ?thesis
      by (auto simp: Let_def decision_for_failure_def decision_is_allowed_def kind_is_allowed_def
          simp flip: policy_def split: if_splits)
  next
    case key: (Inr who)
    with assms(3) obtain r w1 where primary: "primary_evaluate env s (evaluation_request policy who) w = (Some r, w1)"
      by (auto simp: evaluate_rate_limit_def Let_def act_bind_Some simp flip: policy_def)
    show ?thesis
    proof (cases r)
      case (Inr l)
      with assms(3) primary key show ?thesis
        by (auto simp: evaluate_rate_limit_def Let_def act_bind_def simp flip: policy_def)
    next
      case (Inl e)
      with assms(3) primary key have "limiter_failure env s policy (evaluation_request policy who) e w1 = (Some d, w')"
        by (simp add: evaluate_rate_limit_def Let_def act_bind_def flip: policy_def)
      from limiter_failure_allowed [OF this assms(4)] primary Inl key show ?thesis
        by (auto simp: Let_def simp flip: policy_def)
    qed
  qed
qed

text \<open>
  A peer outside the trusted proxies cannot choose its rate-limit key: the decision on its
  request, and the buckets after it, do not depend on the headers it sends.
\<close>

theorem untrusted_headers_ignored:
  assumes "\<not> peer_is_trusted (rq_remote_ip request) (tls_trusted_proxy_cidrs (ms_tls (mc_settings (mk_config s))))"
  shows "evaluate_rate_limit env s context (request\<lparr>rq_headers := hs\<rparr>) auth w =
    evaluate_rate_limit env s context request auth w"
proof -
  have ip: "effective_client_ip (mk_config s) (request\<lparr>rq_headers := hs\<rparr>) = effective_client_ip (mk_config s) request"
    using assms by (simp add: effective_client_ip_def Let_def)
  have "signal_value k context (request\<lparr>rq_headers := hs\<rparr>) auth ip = signal_value k context request auth ip" for k ip
    by (cases k) (simp_all add: signal_value_def)
  then show ?thesis by (simp add: evaluate_rate_limit_def derive_rate_limit_principal_def ip)
qed

section \<open>Finishing\<close>

text \<open>The names under which a response header is written besides the request id.\<close>

definition response_header_names :: "string list" where
  "response_header_names =
     [''x-content-type-options'', ''x-frame-options'', ''referrer-policy'', ''strict-transport-security'',
      ''content-security-policy'', ''ratelimit-policy'', ''ratelimit'', ''ratelimit-limit'',
      ''ratelimit-remaining'', ''ratelimit-reset'', ''retry-after'', ''x-ores-rate-limit-policy'',
      ''x-ores-rate-limit-layer'', ''x-ores-rate-limit-decision'']"

lemma keys_collect: "fst ` set (bt_collect kvs) = fst ` set kvs"
  using bt_get_collect [of kvs] bt_get_None_iff [of "bt_collect kvs"]
  by (auto simp: map_of_eq_None_iff set_eq_iff)

lemma rate_limit_header_names: "fst ` set (rate_limit_headers d window denied) \<subseteq> set response_header_names"
  by (auto simp: rate_limit_headers_def Let_def keys_collect response_header_names_def opt_list_def
      then_some_def split: option.splits if_splits)

lemma finish_headers_request_id:
  assumes "ms_request_id_header (mc_settings cfg) \<notin> set response_header_names"
  shows "bt_get (finish_headers cfg request_id d) (ms_request_id_header (mc_settings cfg)) = Some request_id"
proof -
  have collect: "bt_get (bt_collect ((k, v) # kvs)) k = Some v" if "k \<notin> fst ` set kvs" for k v and kvs :: headers
  proof -
    from that have "map_of (rev kvs) k = None" by (simp add: map_of_eq_None_iff)
    then show ?thesis by (simp add: bt_get_collect map_add_def)
  qed
  show ?thesis
    unfolding finish_headers_def Let_def append_Cons append_Nil
    by (rule collect, use assms rate_limit_header_names in
        \<open>fastforce simp: response_header_names_def opt_list_def split: option.splits if_splits\<close>)
qed

lemma run_lifecycle_total [simp]: "run_lifecycle_stage (\<lambda>w. (Some r, f w)) w = (r, f w)"
  by (simp add: run_lifecycle_stage_def)

lemma run_lifecycle_world: "snd (run_lifecycle_stage m w) = snd (m w)"
  by (simp add: run_lifecycle_stage_def split: prod.split option.split)

lemma stack_finish_eq:
  obtains w1 where "sw_registry w1 = sw_registry w"
    "stack_finish env s active status response_bytes w =
      (finish_headers (mk_config s) (rc_request_id (ar_context active)) (ar_rate_limit_decision active),
       registry_drop (rc_request_id (ar_context active)) w1)"
proof -
  let ?ctx = "ar_context active" and ?request = "ar_request active"
  let ?response = "\<lparr>rs_status = status, rs_duration_ms = of_nat ((now_in env w - ar_started active) div 1000000),
    rs_response_bytes = response_bytes\<rparr>"
  let ?stage = "act_bind (on_env (te_request_finished (mk_telemetry s) ?ctx ?request ?response)) (\<lambda>_.
    act_bind (on_env (mk_sync s ?ctx ?request ?response)) (\<lambda>_. act_return (Inr () :: (middleware_error, unit) result)))"
  obtain r w1 where w1: "run_lifecycle_stage ?stage w = (r, w1)" by (rule prod.exhaust)
  have "keeps_registry ?stage" by (intro keeps_registry)
  then have reg: "sw_registry w1 = sw_registry w"
    using run_lifecycle_world [of ?stage w] by (simp add: w1 keeps_registry_def)
  from reg show thesis by (rule that) (simp add: stack_finish_def w1 Let_def)
qed

text \<open>
  C22. Finishing a request takes its entry out of the registry, and touches no other entry, even when
  telemetry or the sync observer fails or panics; and the response names the request id under the
  configured header, unless that is the name of another header of the response.
\<close>

theorem finish_clears_registry:
  "let (hs, w') = stack_finish env s active status response_bytes w; id = rc_request_id (ar_context active);
       header = ms_request_id_header (mc_settings (mk_config s))
   in sw_registry w' = context_remove id (sw_registry w) \<and>
      context_get (mk_registry s) now id (sw_registry w') = None \<and>
      (id' = id \<or> context_get (mk_registry s) now id' (sw_registry w') = context_get (mk_registry s) now id' (sw_registry w)) \<and>
      (header \<in> set response_header_names \<or> bt_get hs header = Some id)"
proof -
  obtain w1 where reg: "sw_registry w1 = sw_registry w" and
    finish: "stack_finish env s active status response_bytes w =
      (finish_headers (mk_config s) (rc_request_id (ar_context active)) (ar_rate_limit_decision active),
       registry_drop (rc_request_id (ar_context active)) w1)"
    by (rule stack_finish_eq)
  have "context_get r now k (context_remove j entries) = context_get r now k entries"
    if "k \<noteq> j" for k j r entries
    using that by (simp add: context_get_def context_remove_def bt_get_remove)
  then show ?thesis
    using finish_headers_request_id [of "mk_config s"]
    by (simp add: Let_def context_get_remove registry_drop_def reg finish) blast
qed

section \<open>Runs of a stack\<close>

text \<open>
  A stack built by \<open>new\<close>, whose providers may be replaced, and any interleaving of requests that
  begin and requests that finish.
\<close>

inductive stack_run ::
    "'m hmac_ops \<Rightarrow> 'x environment \<Rightarrow> middleware_config \<Rightarrow> 'x middleware_stack \<Rightarrow> 'x stack_world \<Rightarrow> bool"
  for hmac env cfg where
  built: "stack_new hmac env cfg x = Inr (s, w) \<Longrightarrow> stack_run hmac env cfg s w"
| auth: "stack_run hmac env cfg s w \<Longrightarrow> stack_run hmac env cfg (with_auth_verifier s v) w"
| trusted_auth: "stack_run hmac env cfg s w \<Longrightarrow> stack_run hmac env cfg (with_trusted_auth_policy_verifier s v) w"
| sync: "stack_run hmac env cfg s w \<Longrightarrow> stack_run hmac env cfg (with_sync_observer s observer) w"
| telemetry: "stack_run hmac env cfg s w \<Longrightarrow> stack_run hmac env cfg (with_telemetry s sink) w"
| rate_limiter: "stack_run hmac env cfg s w \<Longrightarrow> stack_run hmac env cfg (with_rate_limiter s limiter) w"
| key_deriver: "stack_run hmac env cfg s w \<Longrightarrow> stack_run hmac env cfg (with_rate_limit_key_deriver s deriver) w"
| begins: "stack_run hmac env cfg s w \<Longrightarrow> stack_begin env s request w = (r, w') \<Longrightarrow> stack_run hmac env cfg s w'"
| finishes: "stack_run hmac env cfg s w \<Longrightarrow> stack_finish env s active status len w = (hs, w') \<Longrightarrow>
    stack_run hmac env cfg s w'"

lemma stack_begin_registry:
  assumes "stack_begin env s request w = (r, w')"
  shows "sw_registry w' = sw_registry w \<or> (\<exists>id. sw_registry w' = context_remove id (sw_registry w)) \<or>
    (\<exists>now c. sw_registry w' = context_insert (en_order env) (mk_registry s) now c (sw_registry w))"
proof (cases r)
  case (Inr a)
  from assms [unfolded Inr] show ?thesis
  proof (cases rule: stack_begin_InrE)
    case (1 base x auth w1 started decision)
    have "sw_registry w1 = sw_registry w" using keeps_registryD [OF keeps_registry_pre_auth 1(2)] by simp
    with 1(3) show ?thesis by (cases rule: request_start_cases) auto
  qed
next
  case (Inl e)
  from assms [unfolded Inl] show ?thesis
  proof (cases rule: stack_begin_InlE)
    case (early base x e')
    then show ?thesis using run_pre_auth_Inl [OF early(2)] by simp
  next
    case (late base x auth w1 e' w2)
    from late(2) have "sw_registry w1 = sw_registry w"
      using keeps_registryD [OF keeps_registry_pre_auth] by (fastforce simp: run_lifecycle_stage_Inr)
    with late show ?thesis using run_request_start_Inl [OF late(3)] by (auto simp: registry_drop_def)
  qed
qed

lemma stack_finish_registry:
  "sw_registry (snd (stack_finish env s active status len w)) =
   context_remove (rc_request_id (ar_context active)) (sw_registry w)"
  by (rule stack_finish_eq [of w env s active status len]) (simp add: registry_drop_def)

text \<open>
  However requests begin and finish, with whatever providers, the registry of a stack built by
  \<open>new\<close> stays a well-formed map of at most the configured number of contexts.
\<close>

theorem context_registry_bounded:
  assumes "stack_run hmac env cfg s w" "iteration (en_order env)"
  shows "mk_config s = cfg \<and> cr_max_entries (mk_registry s) = ms_context_registry_max_entries (mc_settings cfg) \<and>
    context_registry_inv (mk_registry s) (sw_registry w)"
  using assms(1)
proof induction
  case (built x s w)
  then show ?case
    using context_registry_inv_new
    by (auto simp: stack_new_def Let_def context_registry_new_def split: if_splits prod.splits)
next
  case (begins s w request r w')
  with stack_begin_registry [OF begins(2)] assms(2) show ?case
    by (auto intro: context_registry_inv_remove context_registry_inv_insert)
next
  case (finishes s w active status len hs w')
  with stack_finish_registry [of env s active status len w] show ?case
    by (auto intro: context_registry_inv_remove)
qed (simp_all add: with_auth_verifier_def with_trusted_auth_policy_verifier_def with_sync_observer_def
    with_telemetry_def with_rate_limiter_def with_rate_limit_key_deriver_def)

section \<open>A stack at work\<close>

text \<open>A production stack keyed by user, with an external limiter, and one request through it.\<close>

definition sample_env :: "unit environment" where
  "sample_env =
     \<lparr>en_now = (\<lambda>_. 0), en_now_ms = (\<lambda>_. 0),
      en_new_v4 = (\<lambda>x. (\<lparr>uu_hyphenated = ''00-00'', uu_simple = ''0000'', uu_bytes = replicate 16 CHR ''0''\<rparr>, x)),
      en_sleep = (\<lambda>_ x. x), en_order = id, en_round = Fin\<rparr>"

definition sample_allow :: rate_limit_decision where
  "sample_allow =
     \<lparr>ld_kind = Allowed, ld_source = UnknownSource, ld_policy_id = ''ip-default'',
      ld_layer = ApplicationLayer, ld_algorithm = TokenBucket, ld_limit = 10, ld_remaining = 9,
      ld_retry_after_ms = None, ld_reset_after_ms = None, ld_reason_code = None\<rparr>"

definition sample_auth :: auth_decision where
  "sample_auth = \<lparr>ad_user_id = Some ''u1'', ad_tenant_id = Some ''t1'', ad_claims = []\<rparr>"

definition sample_stack :: "unit middleware_stack" where
  "sample_stack =
     \<lparr>mk_config = on_rate_limit (\<lambda>p. p\<lparr>sr_key_by := [SigUser]\<rparr>) sample_production_config,
      mk_auth = (\<lambda>_. act_return (Inr sample_auth)), mk_auth_error_exposure = SanitizeProviderDiagnostics,
      mk_sync = noop_sync_observer, mk_telemetry = tracing_telemetry,
      mk_rate_limiter = Installed (\<lambda>_. act_return (Inr sample_allow)),
      mk_local_bounds = \<lparr>tb_max_entries = 10, tb_ttl = 1000\<rparr>,
      mk_key_deriver = (\<lambda>_ v _. Inr \<lparr>rp_digest = ''d'', rp_key_version = v\<rparr>),
      mk_registry = \<lparr>cr_max_entries = 10, cr_ttl = 1000\<rparr>\<rparr>"

definition sample_world :: "unit stack_world" where
  "sample_world = \<lparr>sw_registry = [], sw_buckets = snd (with_bounds 10 1000), sw_env = ()\<rparr>"

lemmas sample_defs =
  sample_env_def sample_stack_def sample_world_def sample_request_def sample_production_config_def
  on_defs default_config_def

lemma sample_sel [simp]:
  "mk_telemetry sample_stack = tracing_telemetry"
  "mk_auth sample_stack = (\<lambda>_. act_return (Inr sample_auth))"
  "mk_registry sample_stack = \<lparr>cr_max_entries = 10, cr_ttl = 1000\<rparr>"
  "sa_mode (mi_shared_auth (mc_integrations (mk_config sample_stack))) = DisabledIntegration"
  "sr_enabled (ms_rate_limit (mc_settings (mk_config sample_stack)))"
  "\<not> fi_enabled (ms_fault_injection (mc_settings (mk_config sample_stack)))"
  "en_now sample_env = (\<lambda>_. 0)" "sw_registry sample_world = []"
  by (simp_all add: sample_defs)

lemma tracing_telemetry_sel [simp]:
  "te_request_started tracing_telemetry = (\<lambda>_ _. act_return ())"
  "te_rate_limit_decision tracing_telemetry = (\<lambda>_ _ _. act_return ())"
  by (simp_all add: tracing_telemetry_def)

lemma sample_env_update [simp]: "(w :: unit stack_world)\<lparr>sw_env := ()\<rparr> = w"
  by (cases w) simp

lemma sample_rate_limit:
  "rc_user_id context \<noteq> None \<Longrightarrow>
   evaluate_rate_limit sample_env sample_stack context request auth w = (Some sample_allow, w)"
  by (auto simp: evaluate_rate_limit_def sample_defs derive_rate_limit_principal_def signal_value_def
      is_principal_signal_def primary_evaluate_def act_bind_def on_env_def act_return_def Let_def)

lemma sample_request_start:
  assumes "rc_user_id context \<noteq> None"
  shows "request_start sample_env sample_stack context request auth w =
    (Some (Inr (0, Some sample_allow)), registry_put sample_env sample_stack context w)"
proof -
  have "start_request sample_env sample_stack context request d w =
      (Some (Inr (0, d)), registry_put sample_env sample_stack context w)" for d
    by (simp add: start_request_def Let_def act_bind_def on_env_def act_return_def now_in_def)
  moreover have "decision_is_allowed sample_allow"
    by (simp add: sample_allow_def decision_is_allowed_def kind_is_allowed_def)
  ultimately show ?thesis
    using assms
    by (simp add: request_start_def Let_def act_bind_def sample_rate_limit on_env_def act_return_def)
qed

lemma sample_pre_auth: "pre_auth sample_stack sample_request = act_return (Inr sample_auth)"
proof -
  have "enforce_transport_policy (mk_config sample_stack) sample_request = Inr ()"
    by (simp add: enforce_transport_policy_def sample_defs Let_def)
  then show ?thesis
    by (simp add: pre_auth_def fun_eq_iff act_bind_def on_env_def act_return_def sample_request_def)
qed

lemma sample_admitted:
  "\<exists>a w'. stack_begin sample_env sample_stack sample_request sample_world = (Inr a, w') \<and>
     rc_user_id (ar_context a) = Some ''u1''"
proof -
  have user: "ad_user_id sample_auth = Some ''u1''" by (simp add: sample_auth_def)
  then show ?thesis
    by (simp add: stack_begin_def Let_def run_lifecycle_stage_def sample_pre_auth act_return_def
        sample_request_start split: prod.split)
qed

lemma sample_stack_valid: "validate_config (mk_config sample_stack) = []"
  using sample_production_config_ok
  by (simp add: validate_config_Nil config_ok_def rate_limit_ok_def sample_stack_def on_defs
      is_production_def is_principal_signal_def sample_production_config_def default_config_def)

theorem admitted_requests_witness:
  "\<exists>a w'. stack_begin sample_env sample_stack sample_request sample_world = (Inr a, w') \<and>
     (\<exists>d. ar_rate_limit_decision a = Some d \<and> decision_is_allowed d) \<and>
     (\<exists>now. bt_get (sw_registry w') (rc_request_id (ar_context a)) = Some (now, ar_context a))"
proof -
  obtain a w' where a: "stack_begin sample_env sample_stack sample_request sample_world = (Inr a, w')"
    using sample_admitted by blast
  show ?thesis
    using admitted_requests [OF a] a by (auto simp: Let_def context_registry_inv_def split: prod.splits)
qed

text \<open>The same stack behind a verifier that fails.\<close>

definition sample_failing :: "string \<Rightarrow> unit middleware_stack" where
  "sample_failing message =
     sample_stack\<lparr>mk_auth := (\<lambda>_ x. (Some (Inl \<lparr>ie_code = ''denied'', ie_message = message\<rparr>), x))\<rparr>"

lemma sample_failing_rejects:
  "\<exists>e w'. stack_begin sample_env (sample_failing m) sample_request sample_world = (Inl e, w')"
proof -
  have "enforce_transport_policy (mk_config (sample_failing m)) sample_request = Inr ()"
    by (simp add: enforce_transport_policy_def sample_defs sample_failing_def Let_def)
  then show ?thesis
    by (simp add: stack_begin_def pre_auth_def run_lifecycle_stage_def act_bind_def on_env_def act_return_def
        sample_failing_def sample_request_def split: prod.split)
qed

theorem rejected_requests_witness:
  "\<exists>e w'. stack_begin sample_env (sample_failing ''m'') sample_request sample_world = (Inl e, w') \<and>
     me_status e \<in> {400, 401, 413, 426, 429, 500, 503} \<and> sw_registry w' = []"
proof -
  obtain e w' where e: "stack_begin sample_env (sample_failing ''m'') sample_request sample_world = (Inl e, w')"
    using sample_failing_rejects by blast
  show ?thesis using rejected_requests [OF e] e by (auto simp: context_remove_def bt_remove_def)
qed

theorem provider_errors_hidden_witness:
  "stack_begin sample_env (sample_failing ''secret'') sample_request sample_world =
   stack_begin sample_env (sample_failing ''other'') sample_request sample_world"
proof -
  have auth: "mk_auth (sample_failing ''secret'') sample_request =
      (\<lambda>x. (Some (Inl \<lparr>ie_code = ''denied'', ie_message = ''secret''\<rparr>), x))"
    and exposure: "mk_auth_error_exposure (sample_failing ''secret'') = SanitizeProviderDiagnostics"
    by (simp_all add: sample_failing_def sample_defs)
  from provider_errors_hidden [OF auth exposure, of sample_env sample_world
      "\<lparr>ie_code = ''denied'', ie_message = ''other''\<rparr>"]
  show ?thesis by (simp add: sample_failing_def)
qed

theorem rate_limit_admission_justified_witness:
  "evaluate_rate_limit sample_env sample_stack (authenticated_context sample_context sample_auth)
     sample_request sample_auth sample_world = (Some sample_allow, sample_world) \<and>
   (\<exists>who. primary_evaluate sample_env sample_stack
     (evaluation_request (ms_rate_limit (mc_settings (mk_config sample_stack))) who) sample_world =
     (Some (Inr sample_allow), sample_world))"
proof -
  have eval: "evaluate_rate_limit sample_env sample_stack (authenticated_context sample_context sample_auth)
     sample_request sample_auth sample_world = (Some sample_allow, sample_world)"
    by (rule sample_rate_limit) (simp add: sample_auth_def)
  have "decision_is_allowed sample_allow" "ld_kind sample_allow \<noteq> DegradedAllowed"
    by (simp_all add: sample_allow_def decision_is_allowed_def kind_is_allowed_def)
  with rate_limit_admission_justified [OF sample_stack_valid _ eval] eval show ?thesis
    by (auto simp: Let_def split: sum.splits prod.splits option.splits)
qed

theorem untrusted_headers_ignored_witness:
  "evaluate_rate_limit sample_env sample_stack sample_context
     (sample_request\<lparr>rq_headers := [(''x-forwarded-for'', ''10.0.0.1'')]\<rparr>) sample_auth sample_world =
   evaluate_rate_limit sample_env sample_stack sample_context sample_request sample_auth sample_world"
  by (rule untrusted_headers_ignored) (simp add: peer_is_trusted_def sample_defs split: option.split)

lemma stack_new_Inr:
  assumes "validate_config cfg = []"
  shows "\<exists>s w. stack_new hmac env cfg x = Inr (s, w)"
  unfolding stack_new_def assms by (simp add: Let_def split_beta)

theorem context_registry_bounded_witness:
  "\<exists>s w r w'. stack_run sample_hmac sample_env (mk_config sample_stack) s w \<and>
     stack_begin sample_env s sample_request w = (r, w') \<and>
     context_registry_inv (mk_registry s) (sw_registry w') \<and> cr_max_entries (mk_registry s) = 10000"
proof -
  obtain s w where "stack_new sample_hmac sample_env (mk_config sample_stack) () = Inr (s, w)"
    using stack_new_Inr [OF sample_stack_valid, of sample_hmac sample_env "()"] by blast
  then have run: "stack_run sample_hmac sample_env (mk_config sample_stack) s w" by (rule stack_run.built)
  obtain r w' where begun: "stack_begin sample_env s sample_request w = (r, w')" by (rule prod.exhaust)
  have "iteration (en_order sample_env)" by (simp add: iteration_def sample_env_def)
  from context_registry_bounded [OF stack_run.begins [OF run begun] this] run begun show ?thesis
    by (intro exI [of _ s] exI [of _ w] exI [of _ r] exI [of _ w'])
      (simp add: sample_stack_def sample_production_config_def on_defs default_config_def)
qed

end
