(* ===== verification/Rate_Limit_Bindings.thy ===== *)
theory Rate_Limit_Bindings
  imports Rate_Limit Route_Matching
begin

text \<open>
  \<^verbatim>\<open>src/src/rust/src/rate_limit_bindings.rs\<close>: tables that bind routes to the ids of rate-limit policies.
  Unlike the tables of \<^verbatim>\<open>rate_limit_routes.rs\<close> they are validated, with the request, each time
  a request is resolved. Scores are 32-bit words. Texts are sequences of UTF-8 bytes.
\<close>

section \<open>Tables\<close>

definition binding_schema :: string where
  "binding_schema = ''ores.middleware.route-rate-limit-bindings/v1''"

definition max_route_bindings :: nat where "max_route_bindings = 128"
definition max_route_methods :: nat where "max_route_methods = 8"
definition max_binding_request_path_length :: nat where "max_binding_request_path_length = 4096"

record binding_selector =
  bs_methods :: "string list"
  bs_path_template :: "string option"
  bs_operation_id :: "string option"

record route_binding =
  rb_route_class_id :: string
  rb_policy_id :: string
  rb_selector :: binding_selector

record binding_table =
  bd_schema :: string
  bd_default_policy_id :: "string option"
  bd_routes :: "route_binding list"

record binding_request =
  bq_method :: string
  bq_path :: string
  bq_route_template :: "string option"
  bq_operation_id :: "string option"

datatype binding_source = RouteBinding | DefaultBinding

record resolved_binding =
  rd_route_class_id :: "string option"
  rd_policy_id :: string
  rd_source :: binding_source

record binding_violation =
  bv_code :: string
  bv_path :: string
  bv_message :: string

datatype binding_resolution_error =
    InvalidTable "binding_violation list"
  | InvalidRequest "binding_violation list"
  | AmbiguousBinding (ab_method: string) (ab_path: string) (ab_operation_id: "string option")
      (ab_route_class_ids: "string list") (ab_policy_ids: "string list")

definition binding_table_default :: binding_table where
  "binding_table_default = \<lparr>bd_schema = binding_schema, bd_default_policy_id = None, bd_routes = []\<rparr>"

definition violation_if :: "bool \<Rightarrow> string \<Rightarrow> string \<Rightarrow> string \<Rightarrow> binding_violation list" where
  "violation_if failed code path message =
     (if failed then [\<lparr>bv_code = code, bv_path = path, bv_message = message\<rparr>] else [])"

section \<open>Identifiers\<close>

text \<open>The loop of \<open>stable_lower_id\<close>: the flag says whether the last byte was a separator.\<close>

fun stable_lower_loop :: "bool \<Rightarrow> bool \<Rightarrow> string \<Rightarrow> bool" where
  "stable_lower_loop allow_colon previous_separator [] = (\<not> previous_separator)"
| "stable_lower_loop allow_colon previous_separator (b # bs) =
     (let separator = (b \<in> {CHR ''-'', CHR ''_'', CHR ''.''} \<or> allow_colon \<and> b = CHR '':'')
      in if is_ascii_lowercase b \<or> is_ascii_digit b then stable_lower_loop allow_colon False bs
         else if separator \<and> \<not> previous_separator then stable_lower_loop allow_colon True bs
         else False)"

definition stable_lower_id :: "string \<Rightarrow> nat \<Rightarrow> bool \<Rightarrow> bool" where
  "stable_lower_id v max_len allow_colon \<longleftrightarrow>
     \<not> (v = [] \<or> length v > max_len) \<and> is_ascii_lowercase (hd v) \<and> stable_lower_loop allow_colon False v"

definition valid_route_class_id :: "string \<Rightarrow> bool" where
  "valid_route_class_id v = stable_lower_id v 80 False"

definition valid_policy_id :: "string \<Rightarrow> bool" where
  "valid_policy_id v = stable_lower_id v 160 True"

definition valid_request_http_method :: "string \<Rightarrow> bool" where
  "valid_request_http_method m \<longleftrightarrow>
     m \<noteq> [] \<and> length m \<le> 32 \<and> is_ascii_alphabetic (hd m) \<and>
     list_all (\<lambda>b. is_ascii_alphanumeric b \<or> b = CHR ''-'') (tl m)"

definition valid_http_method :: "string \<Rightarrow> bool" where
  "valid_http_method m \<longleftrightarrow>
     m \<noteq> [] \<and> length m \<le> 32 \<and> is_ascii_uppercase (hd m) \<and>
     list_all (\<lambda>b. is_ascii_uppercase b \<or> is_ascii_digit b \<or> b = CHR ''-'') (tl m)"

definition valid_operation_id :: "string \<Rightarrow> bool" where
  "valid_operation_id v \<longleftrightarrow>
     v \<noteq> [] \<and> length v \<le> 160 \<and>
     list_all (\<lambda>b. is_ascii_alphanumeric b \<or>
       b \<in> {CHR ''-'', CHR ''_'', CHR ''.'', CHR '':'', CHR ''/''}) v"

definition valid_parameter_name :: "string \<Rightarrow> bool" where
  "valid_parameter_name v \<longleftrightarrow>
     v \<noteq> [] \<and> length v \<le> 64 \<and> (is_ascii_alphabetic (hd v) \<or> hd v = CHR ''_'') \<and>
     list_all (\<lambda>b. is_ascii_alphanumeric b \<or> b = CHR ''_'') (tl v)"

section \<open>Path templates\<close>

definition binding_segments :: "string \<Rightarrow> string list" where
  "binding_segments path =
     (if path = ''/'' then []
      else split_on CHR ''/'' (case strip_prefix ''/'' path of None \<Rightarrow> path | Some rest \<Rightarrow> rest))"

definition binding_parameter_segment :: "string \<Rightarrow> bool" where
  "binding_parameter_segment s \<longleftrightarrow>
     starts_with ''{'' s \<and> ends_with ''}'' s \<and> length s > 2 \<or> starts_with '':'' s \<and> length s > 1"

definition binding_static_count :: "string \<Rightarrow> u32" where
  "binding_static_count template =
     of_nat (length (filter (\<lambda>s. \<not> binding_parameter_segment s \<and> s \<noteq> ''*'') (binding_segments template)))"

fun binding_template_loop :: "nat \<Rightarrow> (nat \<times> string) list \<Rightarrow> (string, unit) result" where
  "binding_template_loop n [] = Inr ()"
| "binding_template_loop n ((index, segment) # rest) =
     (if segment = [] then Inl ''empty-path-segment''
      else if segment = ''.'' \<or> segment = ''..'' then Inl ''dot-path-segment''
      else if segment = ''*'' then
        (if index + 1 \<noteq> n then Inl ''catch-all-must-be-terminal'' else binding_template_loop n rest)
      else
        (case strip_prefix ''{'' segment of
           Some name \<Rightarrow>
             (case strip_suffix ''}'' name of
                None \<Rightarrow> Inl ''invalid-path-parameter''
              | Some name \<Rightarrow>
                  if \<not> valid_parameter_name name then Inl ''invalid-path-parameter''
                  else binding_template_loop n rest)
         | None \<Rightarrow>
             (case strip_prefix '':'' segment of
                Some name \<Rightarrow>
                  if \<not> valid_parameter_name name then Inl ''invalid-path-parameter''
                  else binding_template_loop n rest
              | None \<Rightarrow>
                  if CHR ''{'' \<in> set segment \<or> CHR ''}'' \<in> set segment \<or> CHR ''*'' \<in> set segment
                  then Inl ''invalid-path-segment''
                  else binding_template_loop n rest)))"

definition validate_binding_template :: "string \<Rightarrow> (string, unit) result" where
  "validate_binding_template template =
     (if template = [] \<or> length template > 512 \<or> \<not> starts_with ''/'' template
      then Inl ''invalid-path-template''
      else if CHR ''?'' \<in> set template \<or> CHR ''#'' \<in> set template then Inl ''invalid-path-template''
      else if length template > 1 \<and> ends_with ''/'' template then Inl ''non-canonical-path-template''
      else (let segments = binding_segments template
            in binding_template_loop (length segments) (enum_list segments)))"

fun binding_matches_loop :: "nat \<Rightarrow> string list \<Rightarrow> (nat \<times> string) list \<Rightarrow> nat \<Rightarrow> bool" where
  "binding_matches_loop n path [] path_index = (path_index = length path)"
| "binding_matches_loop n path ((template_index, segment) # rest) path_index =
     (if segment = ''*'' \<and> template_index + 1 = n then True
      else if path_index \<ge> length path then False
      else if binding_parameter_segment segment then
        (if path ! path_index = [] then False else binding_matches_loop n path rest (path_index + 1))
      else if segment \<noteq> path ! path_index then False
      else binding_matches_loop n path rest (path_index + 1))"

definition before_query :: "string \<Rightarrow> string" where
  "before_query path = (case split_once CHR ''?'' path of None \<Rightarrow> path | Some (a, _) \<Rightarrow> a)"

definition binding_template_matches :: "string \<Rightarrow> string \<Rightarrow> bool" where
  "binding_template_matches template request_path =
     (let segments = binding_segments template
      in binding_matches_loop (length segments) (binding_segments (before_query request_path))
           (enum_list segments) 0)"

section \<open>Requests\<close>

text \<open>\<open>chars().count()\<close> counts the bytes that do not continue a character.\<close>

definition char_count :: "string \<Rightarrow> nat" where
  "char_count s = length (filter (\<lambda>b. \<not> (128 \<le> code_of b \<and> code_of b < 192)) s)"

definition basic_path_valid :: "string \<Rightarrow> bool" where
  "basic_path_valid path \<longleftrightarrow>
     char_count path > 0 \<and> char_count path \<le> max_binding_request_path_length \<and> starts_with ''/'' path \<and>
     \<not> list_ex (\<lambda>b. b = CHR ''#'' \<or> code_of b = 13 \<or> code_of b = 10 \<or> code_of b = 0) path"

definition binding_request_validate :: "binding_request \<Rightarrow> binding_violation list" where
  "binding_request_validate rq =
     (let path_valid = basic_path_valid (bq_path rq); request_path = before_query (bq_path rq)
      in violation_if (\<not> valid_request_http_method (bq_method rq)) ''invalid-request-method'' ''method''
           ''request method must be a bounded ASCII HTTP token'' @
         (if \<not> path_valid then
            violation_if True ''invalid-request-path'' ''path''
              ''request path must be bounded, absolute, and free of fragments/control separators''
          else
            violation_if (contains_str ''//'' request_path) ''repeated-request-path-separator'' ''path''
              ''request path must not contain repeated slash separators'' @
            violation_if (list_ex (\<lambda>s. s = ''.'' \<or> s = ''..'') (binding_segments request_path))
              ''dot-request-path-segment'' ''path'' ''request path must not contain literal dot segments'') @
         (case bq_route_template rq of
            None \<Rightarrow> []
          | Some template \<Rightarrow>
              if (case validate_binding_template template of Inl _ \<Rightarrow> True | Inr _ \<Rightarrow> False) then
                violation_if True ''invalid-request-route-template'' ''route_template''
                  ''request route_template must use the canonical configured-template grammar''
              else violation_if (path_valid \<and> \<not> binding_template_matches template (bq_path rq))
                ''route-template-path-mismatch'' ''route_template''
                ''trusted route_template must describe the concrete request path'') @
         violation_if (case bq_operation_id rq of None \<Rightarrow> False | Some v \<Rightarrow> \<not> valid_operation_id v)
           ''invalid-request-operation-id'' ''operation_id''
           ''request operation_id must be a bounded stable ASCII identifier'')"

section \<open>Selectors\<close>

fun binding_methods_loop :: "string list \<Rightarrow> (nat \<times> string) list \<Rightarrow> binding_violation list" where
  "binding_methods_loop seen [] = []"
| "binding_methods_loop seen ((index, m) # rest) =
     (let path = ''selector.methods['' @ show_nat index @ '']''
      in violation_if (\<not> valid_http_method m) ''invalid-http-method'' path
           ''HTTP methods must be bounded canonical uppercase ASCII tokens'' @
         violation_if (m \<in> set seen) ''duplicate-http-method'' path
           ''HTTP method may appear only once in a selector'' @
         binding_methods_loop (m # seen) rest)"

definition binding_selector_validate :: "binding_selector \<Rightarrow> binding_violation list" where
  "binding_selector_validate s =
     violation_if (bs_methods s = [] \<and> bs_path_template s = None \<and> bs_operation_id s = None)
       ''empty-route-selector'' ''selector''
       ''route selector must constrain method, path_template, or operation_id'' @
     violation_if (length (bs_methods s) > max_route_methods) ''too-many-http-methods'' ''selector.methods''
       ''route selector exceeds the bounded HTTP method count'' @
     binding_methods_loop [] (enum_list (bs_methods s)) @
     (case bs_path_template s of
        None \<Rightarrow> []
      | Some template \<Rightarrow>
          (case validate_binding_template template of
             Inr _ \<Rightarrow> []
           | Inl code \<Rightarrow>
               violation_if True code ''selector.path_template''
                 ''path_template must be a bounded normalized absolute route template'')) @
     violation_if (case bs_operation_id s of None \<Rightarrow> False | Some v \<Rightarrow> \<not> valid_operation_id v)
       ''invalid-operation-id'' ''selector.operation_id''
       ''operation_id must be a bounded stable ASCII identifier''"

definition binding_match_score :: "binding_selector \<Rightarrow> binding_request \<Rightarrow> u32 option" where
  "binding_match_score s rq =
     (if bs_methods s \<noteq> [] \<and> \<not> list_ex (\<lambda>m. eq_ignore_ascii_case m (bq_method rq)) (bs_methods s) then None
      else if (case bs_operation_id s of None \<Rightarrow> False | Some v \<Rightarrow> bq_operation_id rq \<noteq> Some v) then None
      else
        (let score = (if bs_methods s \<noteq> [] then 1 else 0);
             score = (if bs_operation_id s \<noteq> None then score + 10000 else score)
         in case bs_path_template s of
              None \<Rightarrow> Some score
            | Some template \<Rightarrow>
                if \<not> binding_template_matches template (bq_path rq) then None
                else
                  (let registered_template_match = (bq_route_template rq = Some template);
                       score = score + 100; score = score + binding_static_count template * 10
                   in Some (if registered_template_match then score + 5 else score))))"

section \<open>Validation and resolution of tables\<close>

definition binding_selector_key ::
    "binding_selector \<Rightarrow> string list \<times> string option \<times> string option" where
  "binding_selector_key s = (sort (bs_methods s), bs_path_template s, bs_operation_id s)"

fun binding_routes_loop ::
    "string list \<Rightarrow> (string list \<times> string option \<times> string option) list \<Rightarrow> (nat \<times> route_binding) list \<Rightarrow>
     binding_violation list" where
  "binding_routes_loop classes selectors [] = []"
| "binding_routes_loop classes selectors ((index, route) # rest) =
     (let pre = ''routes['' @ show_nat index @ '']''; key = binding_selector_key (rb_selector route)
      in violation_if (\<not> valid_route_class_id (rb_route_class_id route)) ''invalid-route-class-id''
           (pre @ ''.route_class_id'') ''route_class_id must be a bounded stable lowercase identifier'' @
         violation_if (rb_route_class_id route \<in> set classes) ''duplicate-route-class-id''
           (pre @ ''.route_class_id'') ''route_class_id must be unique within a binding table'' @
         violation_if (\<not> valid_policy_id (rb_policy_id route)) ''invalid-policy-id'' (pre @ ''.policy_id'')
           ''policy_id must be a bounded stable policy identifier'' @
         map (\<lambda>v. v\<lparr>bv_path := pre @ ''.'' @ bv_path v\<rparr>) (binding_selector_validate (rb_selector route)) @
         violation_if (key \<in> set selectors) ''duplicate-route-selector'' (pre @ ''.selector'')
           ''identical route selectors are ambiguous and must be combined'' @
         binding_routes_loop (rb_route_class_id route # classes) (key # selectors) rest)"

definition binding_table_validate :: "binding_table \<Rightarrow> binding_violation list" where
  "binding_table_validate t =
     violation_if (bd_schema t \<noteq> binding_schema) ''invalid-binding-schema'' ''schema''
       ''route binding schema identifier is not supported'' @
     violation_if (length (bd_routes t) > max_route_bindings) ''too-many-route-bindings'' ''routes''
       ''route binding table exceeds its bounded route count'' @
     violation_if (case bd_default_policy_id t of None \<Rightarrow> False | Some v \<Rightarrow> \<not> valid_policy_id v)
       ''invalid-policy-id'' ''default_policy_id''
       ''default_policy_id must be a bounded stable policy identifier'' @
     binding_routes_loop [] [] (enum_list (bd_routes t))"

fun binding_resolve_loop ::
    "binding_request \<Rightarrow> route_binding list \<Rightarrow> u32 option \<Rightarrow> route_binding list \<Rightarrow> route_binding list" where
  "binding_resolve_loop rq [] best_score matches = matches"
| "binding_resolve_loop rq (route # routes) best_score matches =
     (case binding_match_score (rb_selector route) rq of
        None \<Rightarrow> binding_resolve_loop rq routes best_score matches
      | Some score \<Rightarrow>
          (case best_score of
             None \<Rightarrow> binding_resolve_loop rq routes (Some score) (matches @ [route])
           | Some current \<Rightarrow>
               if score > current then binding_resolve_loop rq routes (Some score) [route]
               else if score = current then binding_resolve_loop rq routes best_score (matches @ [route])
               else binding_resolve_loop rq routes best_score matches))"

text \<open>\<open>sort\<close> and \<open>dedup\<close>.\<close>

definition sort_dedup :: "string list \<Rightarrow> string list" where
  "sort_dedup xs = remdups_adj (sort xs)"

definition binding_resolve ::
    "binding_table \<Rightarrow> binding_request \<Rightarrow> (binding_resolution_error, resolved_binding option) result" where
  "binding_resolve t rq =
     (if binding_table_validate t \<noteq> [] then Inl (InvalidTable (binding_table_validate t))
      else if binding_request_validate rq \<noteq> [] then Inl (InvalidRequest (binding_request_validate rq))
      else
        (case binding_resolve_loop rq (bd_routes t) None [] of
           [] \<Rightarrow> Inr (map_option (\<lambda>policy_id.
                   \<lparr>rd_route_class_id = None, rd_policy_id = policy_id, rd_source = DefaultBinding\<rparr>)
                   (bd_default_policy_id t))
         | [route] \<Rightarrow> Inr (Some \<lparr>rd_route_class_id = Some (rb_route_class_id route),
                   rd_policy_id = rb_policy_id route, rd_source = RouteBinding\<rparr>)
         | many \<Rightarrow> Inl (AmbiguousBinding (bq_method rq) (bq_path rq) (bq_operation_id rq)
                   (sort_dedup (map rb_route_class_id many))
                   (sort_dedup (map rb_policy_id many)))))"

section \<open>Valid tables\<close>

lemma violation_if_Nil [simp]: "violation_if failed code path message = [] \<longleftrightarrow> \<not> failed"
  by (simp add: violation_if_def)

lemma binding_methods_loop_Nil:
  "binding_methods_loop seen (zip [k..<k + length ms] ms) = [] \<longleftrightarrow>
   distinct ms \<and> set ms \<inter> set seen = {} \<and> list_all valid_http_method ms"
proof (induction ms arbitrary: seen k)
  case Nil
  show ?case by simp
next
  case (Cons m ms)
  have "[k..<k + length (m # ms)] = k # [Suc k..<Suc k + length ms]" by (simp add: upt_conv_Cons del: upt_Suc)
  with Cons.IH [of "m # seen" "Suc k"] show ?case by (auto simp: Let_def)
qed

lemma binding_selector_validate_Nil:
  "binding_selector_validate s = [] \<longleftrightarrow>
   (bs_methods s \<noteq> [] \<or> bs_path_template s \<noteq> None \<or> bs_operation_id s \<noteq> None) \<and>
   length (bs_methods s) \<le> 8 \<and> distinct (bs_methods s) \<and> list_all valid_http_method (bs_methods s) \<and>
   pred_option (\<lambda>t. validate_binding_template t = Inr ()) (bs_path_template s) \<and>
   pred_option valid_operation_id (bs_operation_id s)"
  using binding_methods_loop_Nil [of "[]" 0 "bs_methods s"]
  by (auto simp: binding_selector_validate_def enum_list_def max_route_methods_def not_less
      split: option.splits sum.splits)

lemma binding_routes_loop_Nil:
  "binding_routes_loop classes selectors (zip [k..<k + length rs] rs) = [] \<longleftrightarrow>
   distinct (map rb_route_class_id rs) \<and> rb_route_class_id ` set rs \<inter> set classes = {} \<and>
   distinct (map (binding_selector_key \<circ> rb_selector) rs) \<and>
   (binding_selector_key \<circ> rb_selector) ` set rs \<inter> set selectors = {} \<and>
   list_all (\<lambda>r. valid_route_class_id (rb_route_class_id r) \<and> valid_policy_id (rb_policy_id r) \<and>
     binding_selector_validate (rb_selector r) = []) rs"
proof (induction rs arbitrary: classes selectors k)
  case Nil
  show ?case by simp
next
  case (Cons r rs)
  have "[k..<k + length (r # rs)] = k # [Suc k..<Suc k + length rs]" by (simp add: upt_conv_Cons del: upt_Suc)
  with Cons.IH [of "rb_route_class_id r # classes" "binding_selector_key (rb_selector r) # selectors" "Suc k"]
  show ?case by (auto simp: Let_def)
qed

definition binding_table_ok :: "binding_table \<Rightarrow> bool" where
  "binding_table_ok t \<longleftrightarrow>
     bd_schema t = binding_schema \<and> length (bd_routes t) \<le> 128 \<and>
     pred_option valid_policy_id (bd_default_policy_id t) \<and>
     distinct (map rb_route_class_id (bd_routes t)) \<and>
     distinct (map (binding_selector_key \<circ> rb_selector) (bd_routes t)) \<and>
     list_all (\<lambda>r. valid_route_class_id (rb_route_class_id r) \<and> valid_policy_id (rb_policy_id r) \<and>
       binding_selector_validate (rb_selector r) = []) (bd_routes t)"

lemma binding_table_validate_Nil: "binding_table_validate t = [] \<longleftrightarrow> binding_table_ok t"
  using binding_routes_loop_Nil [of "[]" "[]" 0 "bd_routes t"]
  by (auto simp: binding_table_validate_def binding_table_ok_def enum_list_def max_route_bindings_def not_less
      split: option.splits)

section \<open>Resolution\<close>

definition binding_score :: "binding_request \<Rightarrow> route_binding \<Rightarrow> u32 option" where
  "binding_score rq r = binding_match_score (rb_selector r) rq"

interpretation binding_scan: best_scan "binding_score rq" "binding_resolve_loop rq" for rq
  by unfold_locales (auto simp: binding_score_def)

definition binding_segment_ok :: "string \<Rightarrow> string \<Rightarrow> bool" where
  "binding_segment_ok t p \<longleftrightarrow> (if binding_parameter_segment t then p \<noteq> [] else t = p)"

interpretation binding_template: template_walk binding_segment_ok "''*''" binding_matches_loop
  by unfold_locales (auto simp: binding_segment_ok_def not_le)

lemma before_query_eq: "before_query path = takeWhile (\<lambda>c. c \<noteq> CHR ''?'') path"
  unfolding before_query_def by (rule path_before_query)

lemma binding_template_matches_exact:
  "binding_template_matches template path \<longleftrightarrow>
     segments_match binding_segment_ok ''*'' (binding_segments template)
       (binding_segments (takeWhile (\<lambda>c. c \<noteq> CHR ''?'') path))"
  by (simp only: binding_template_matches_def Let_def before_query_eq binding_template.walk_all)

lemma distinct_dedup: "sorted xs \<Longrightarrow> distinct (remdups_adj xs)" for xs :: "'a::linorder list"
  by (induction xs rule: remdups_adj.induct) auto

lemma sort_dedup_simps [simp]:
  "sorted (sort_dedup xs)" "distinct (sort_dedup xs)" "set (sort_dedup xs) = set xs"
  by (simp_all add: sort_dedup_def sorted_remdups_adj distinct_dedup)

lemma sort_dedup_iff: "sort_dedup ys = xs \<longleftrightarrow> sorted xs \<and> distinct xs \<and> set xs = set ys"
  using sort_dedup_simps by (metis sorted_distinct_set_unique)

text \<open>
  A binding table resolves a request only if table and request are well formed. Then the result
  is the binding of the one matching route that no other beats; the default policy, or nothing
  without one, exactly when no route matches; and an error exactly when several routes share the best
  score, which names the route classes and the policies of precisely these routes, each once and in
  ascending order.
\<close>

theorem binding_resolve_exact:
  "(binding_resolve t rq = Inr res \<longleftrightarrow>
      binding_table_ok t \<and> binding_request_validate rq = [] \<and>
      (case best_of (binding_score rq) (bd_routes t) of
         [] \<Rightarrow> res = map_option (\<lambda>p. \<lparr>rd_route_class_id = None, rd_policy_id = p, rd_source = DefaultBinding\<rparr>)
                 (bd_default_policy_id t)
       | [r] \<Rightarrow> res = Some \<lparr>rd_route_class_id = Some (rb_route_class_id r), rd_policy_id = rb_policy_id r,
                 rd_source = RouteBinding\<rparr>
       | _ \<Rightarrow> False)) \<and>
   (best_of (binding_score rq) (bd_routes t) = [] \<longleftrightarrow>
      (\<nexists>r. r \<in> set (bd_routes t) \<and> binding_score rq r \<noteq> None)) \<and>
   (binding_resolve t rq = Inl (AmbiguousBinding m p ident classes policies) \<longleftrightarrow>
      binding_table_ok t \<and> binding_request_validate rq = [] \<and>
      2 \<le> length (best_of (binding_score rq) (bd_routes t)) \<and>
      m = bq_method rq \<and> p = bq_path rq \<and> ident = bq_operation_id rq \<and>
      sorted classes \<and> distinct classes \<and>
      set classes = rb_route_class_id ` set (best_of (binding_score rq) (bd_routes t)) \<and>
      sorted policies \<and> distinct policies \<and>
      set policies = rb_policy_id ` set (best_of (binding_score rq) (bd_routes t)))"
  unfolding binding_resolve_def binding_scan.scan_best binding_table_validate_Nil
  by (intro conjI; (simp add: best_of_Nil)?) (auto simp: sort_dedup_iff split: list.splits)

section \<open>Operation ids win\<close>

definition binding_score_value :: "binding_selector \<Rightarrow> binding_request \<Rightarrow> nat" where
  "binding_score_value s rq =
     (if bs_methods s = [] then 0 else 1) + (if bs_operation_id s = None then 0 else 10000) +
     (case bs_path_template s of
        None \<Rightarrow> 0
      | Some t \<Rightarrow> 100 + 10 * length (filter (\<lambda>x. \<not> binding_parameter_segment x \<and> x \<noteq> ''*'') (binding_segments t)) +
          (if bq_route_template rq = Some t then 5 else 0))"

lemma length_split_on: "length (split_on c s) \<le> Suc (length s)"
  by (induction s) (auto split: list.split)

lemma valid_template_segments:
  assumes "validate_binding_template t = Inr ()"
  shows "length (binding_segments t) \<le> 512"
proof -
  from assms have t: "length t \<le> 512" "starts_with ''/'' t"
    by (auto simp: validate_binding_template_def not_less split: if_splits)
  then have "binding_segments t = (if t = ''/'' then [] else split_on CHR ''/'' (tl t))"
    by (simp add: binding_segments_def strip_prefix_def drop_Suc)
  with length_split_on [of "CHR ''/''" "tl t"] t show ?thesis by (cases t) auto
qed

lemma binding_score_bounds:
  assumes "binding_selector_validate s = []"
  shows "binding_score_value s rq < 16000" "bs_operation_id s = None \<Longrightarrow> binding_score_value s rq < 10000"
proof -
  have "length (filter P (binding_segments t)) \<le> 512" if "bs_path_template s = Some t" for t P
    using that assms valid_template_segments [of t]
    by (auto simp: binding_selector_validate_Nil intro: order_trans [OF length_filter_le])
  from this [of _ "\<lambda>x. \<not> binding_parameter_segment x \<and> x \<noteq> ''*''"]
  show "binding_score_value s rq < 16000" "bs_operation_id s = None \<Longrightarrow> binding_score_value s rq < 10000"
    by (cases "bs_path_template s"; simp add: binding_score_value_def)+
qed

lemma binding_match_score_value:
  assumes "binding_match_score s rq = Some v" "binding_selector_validate s = []"
  shows "unat v = binding_score_value s rq"
proof -
  have "v = of_nat (binding_score_value s rq)"
    using assms(1)
    by (auto simp: binding_match_score_def binding_score_value_def binding_static_count_def Let_def
        split: if_splits option.splits)
  then show ?thesis
    using binding_score_bounds(1) [OF assms(2), of rq] by (simp add: unsigned_of_nat take_bit_nat_eq_self)
qed

text \<open>
  The bounds a table is checked against keep its scores far below the width of their word and
  below the weight of an operation id: in a request that resolves, a route naming the operation is
  never overridden by one that does not.
\<close>

theorem binding_operation_id_wins:
  assumes "binding_resolve t rq = Inr res"
    and "r \<in> set (bd_routes t)" "bs_operation_id (rb_selector r) \<noteq> None" "binding_score rq r \<noteq> None"
  shows "\<exists>r' \<in> set (bd_routes t). res = Some \<lparr>rd_route_class_id = Some (rb_route_class_id r'),
      rd_policy_id = rb_policy_id r', rd_source = RouteBinding\<rparr> \<and>
    bs_operation_id (rb_selector r') = bq_operation_id rq \<and> bq_operation_id rq \<noteq> None \<and>
    (\<forall>v. binding_score rq r' = Some v \<longrightarrow> unat v = binding_score_value (rb_selector r') rq)"
proof -
  let ?best = "best_of (binding_score rq) (bd_routes t)"
  from assms(1) have ok: "binding_table_validate t = []" by (auto simp: binding_resolve_def split: if_splits)
  then have valid: "binding_selector_validate (rb_selector x) = []" if "x \<in> set (bd_routes t)" for x
    using that by (auto simp: binding_table_validate_Nil binding_table_ok_def list_all_iff)
  from assms(4) obtain v where v: "binding_score rq r = Some v" by auto
  with assms(2) have "?best \<noteq> []" by (auto simp: best_of_Nil)
  then obtain r' where r': "?best = [r']" "res = Some \<lparr>rd_route_class_id = Some (rb_route_class_id r'),
      rd_policy_id = rb_policy_id r', rd_source = RouteBinding\<rparr>"
    using assms(1) by (auto simp: binding_resolve_def binding_scan.scan_best split: list.splits if_splits)
  then have "r' \<in> set ?best" by simp
  then obtain v' where v': "r' \<in> set (bd_routes t)" "binding_score rq r' = Some v'" "v \<le> v'"
    using assms(2) v by (auto simp: best_of_def unbeaten_def)
  have vals: "unat v = binding_score_value (rb_selector r) rq" "unat v' = binding_score_value (rb_selector r') rq"
    using valid assms(2) v v'(1,2) by (auto intro: binding_match_score_value simp: binding_score_def)
  have "10000 \<le> binding_score_value (rb_selector r) rq" using assms(3) by (auto simp: binding_score_value_def)
  with vals v'(3) have "10000 \<le> binding_score_value (rb_selector r') rq" by (simp add: word_le_nat_alt)
  with binding_score_bounds(2) [OF valid [OF v'(1)], of rq]
  have op: "bs_operation_id (rb_selector r') \<noteq> None" by fastforce
  then have "bs_operation_id (rb_selector r') = bq_operation_id rq"
    using v'(2) by (auto simp: binding_score_def binding_match_score_def split: if_splits)
  with op r'(2) v' vals show ?thesis by auto
qed

definition sample_bindings :: binding_table where
  "sample_bindings =
     \<lparr>bd_schema = binding_schema, bd_default_policy_id = Some ''base'',
      bd_routes =
        [\<lparr>rb_route_class_id = ''read'', rb_policy_id = ''reads'',
          rb_selector = \<lparr>bs_methods = [''GET''], bs_path_template = Some ''/a'', bs_operation_id = None\<rparr>\<rparr>,
         \<lparr>rb_route_class_id = ''pay'', rb_policy_id = ''pays:strict'',
          rb_selector = \<lparr>bs_methods = [], bs_path_template = None, bs_operation_id = Some ''pay''\<rparr>\<rparr>]\<rparr>"

definition sample_binding_request :: binding_request where
  "sample_binding_request =
     \<lparr>bq_method = ''GET'', bq_path = ''/a'', bq_route_template = None, bq_operation_id = Some ''pay''\<rparr>"

lemma sample_binding_resolves:
  "binding_resolve sample_bindings sample_binding_request =
     Inr (Some \<lparr>rd_route_class_id = Some ''pay'', rd_policy_id = ''pays:strict'', rd_source = RouteBinding\<rparr>)"
  by code_simp

theorem binding_operation_id_wins_witness:
  "\<exists>r' \<in> set (bd_routes sample_bindings). rb_policy_id r' = ''pays:strict'' \<and>
     bs_operation_id (rb_selector r') = Some ''pay''"
proof -
  have "bd_routes sample_bindings ! 1 \<in> set (bd_routes sample_bindings)"
    "bs_operation_id (rb_selector (bd_routes sample_bindings ! 1)) \<noteq> None"
    "binding_score sample_binding_request (bd_routes sample_bindings ! 1) \<noteq> None"
    by (simp_all add: sample_bindings_def sample_binding_request_def binding_score_def binding_match_score_def)
  from binding_operation_id_wins [OF sample_binding_resolves this] show ?thesis
    by (auto simp: sample_binding_request_def)
qed

end
