(* ===== verification/Shared_Auth.thy ===== *)
theory Shared_Auth
  imports Stack_Guarantees
begin

text \<open>
  \<^verbatim>\<open>src/src/rust/src/shared_auth.rs\<close>: protected services. The topology of two authentication
  providers and its validation, the policy that turns their two proofs into one decision, and the
  stack that can only be built with such a verifier. The two provider verifiers are code of the
  service: actions on its environment.
\<close>

section \<open>Topology\<close>

definition supabase_auth_database_url_env :: string where
  "supabase_auth_database_url_env = ''SUPABASE_AUTH_DATABASE_URL''"
definition neon_auth_database_url_env :: string where
  "neon_auth_database_url_env = ''NEON_AUTH_DATABASE_URL''"
definition supabase_admin_database_url_env :: string where
  "supabase_admin_database_url_env = ''SUPABASE_ADMIN_DATABASE_URL''"
definition neon_admin_database_url_env :: string where
  "neon_admin_database_url_env = ''NEON_ADMIN_DATABASE_URL''"

datatype server_role = WebServerRole | ApiServerRole | AdminWebServerRole | AdminApiServerRole

datatype data_plane = CustomerAuth | AdminAuth

definition data_plane_as_str :: "data_plane \<Rightarrow> string" where
  "data_plane_as_str p = (case p of CustomerAuth \<Rightarrow> ''customer-auth'' | AdminAuth \<Rightarrow> ''admin-auth'')"

datatype decision_mode = AvailabilityFirst | StrictPaired

datatype auth_provider_name = Supabase | Neon

definition provider_as_str :: "auth_provider_name \<Rightarrow> string" where
  "provider_as_str p = (case p of Supabase \<Rightarrow> ''supabase'' | Neon \<Rightarrow> ''neon'')"

record database_env_keys =
  dk_supabase :: string
  dk_neon :: string

definition role_data_plane :: "server_role \<Rightarrow> data_plane" where
  "role_data_plane r =
     (case r of WebServerRole \<Rightarrow> CustomerAuth | ApiServerRole \<Rightarrow> CustomerAuth
      | AdminWebServerRole \<Rightarrow> AdminAuth | AdminApiServerRole \<Rightarrow> AdminAuth)"

definition role_database_env_keys :: "server_role \<Rightarrow> database_env_keys" where
  "role_database_env_keys r =
     (case role_data_plane r of
        CustomerAuth \<Rightarrow> \<lparr>dk_supabase = supabase_auth_database_url_env, dk_neon = neon_auth_database_url_env\<rparr>
      | AdminAuth \<Rightarrow> \<lparr>dk_supabase = supabase_admin_database_url_env, dk_neon = neon_admin_database_url_env\<rparr>)"

definition role_is_admin :: "server_role \<Rightarrow> bool" where
  "role_is_admin r \<longleftrightarrow> r = AdminWebServerRole \<or> r = AdminApiServerRole"

record provider_topology =
  pt_organization :: string
  pt_issuer :: string

definition provider_topology_new :: "string \<Rightarrow> string \<Rightarrow> provider_topology" where
  "provider_topology_new organization issuer = \<lparr>pt_organization = organization, pt_issuer = issuer\<rparr>"

record runtime_topology =
  rt_github_org :: string
  rt_supabase :: provider_topology
  rt_neon :: provider_topology
  rt_server_role :: server_role
  rt_audience :: string
  rt_decision_mode :: decision_mode

definition valid_org_slug :: "string \<Rightarrow> bool" where
  "valid_org_slug v \<longleftrightarrow>
     (case v of [] \<Rightarrow> False
      | c # rest \<Rightarrow> is_ascii_alphanumeric c \<and> list_all (\<lambda>c. is_ascii_alphanumeric c \<or> c = CHR ''-'') rest)"

definition valid_https_issuer :: "string \<Rightarrow> bool" where
  "valid_https_issuer v \<longleftrightarrow>
     starts_with ''https://'' v \<and> length v > length ''https://'' \<and> \<not> has_whitespace v"

definition provider_topology_issues ::
    "auth_provider_name \<Rightarrow> string \<Rightarrow> provider_topology \<Rightarrow> validation_issue list" where
  "provider_topology_issues provider github_org t =
     opt_list (issue_if (\<not> valid_org_slug (pt_organization t) \<or> pt_organization t \<noteq> github_org)
       (case provider of Supabase \<Rightarrow> ''/sharedAuthTopology/supabase/organization''
        | Neon \<Rightarrow> ''/sharedAuthTopology/neon/organization'')
       ''shared_auth_provider_org_mismatch''
       ''provider organization must exactly match the GitHub organization'') @
     opt_list (issue_if (\<not> valid_https_issuer (pt_issuer t))
       (case provider of Supabase \<Rightarrow> ''/sharedAuthTopology/supabase/issuer''
        | Neon \<Rightarrow> ''/sharedAuthTopology/neon/issuer'')
       ''shared_auth_provider_issuer_invalid''
       ''provider issuer must be a non-empty HTTPS URL without whitespace'')"

definition topology_issues :: "runtime_topology \<Rightarrow> validation_issue list" where
  "topology_issues t =
     opt_list (issue_if (\<not> valid_org_slug (rt_github_org t)) ''/sharedAuthTopology/githubOrg''
       ''invalid_org_slug'' ''GitHub organization must be a non-empty organization slug'') @
     provider_topology_issues Supabase (rt_github_org t) (rt_supabase t) @
     provider_topology_issues Neon (rt_github_org t) (rt_neon t) @
     opt_list (issue_if (pt_issuer (rt_supabase t) = pt_issuer (rt_neon t)) ''/sharedAuthTopology/providers''
       ''shared_auth_provider_issuers_must_differ''
       ''Supabase Auth and Neon Auth must use independently identified issuers'') @
     opt_list (issue_if (trim (rt_audience t) = []) ''/sharedAuthTopology/audience''
       ''shared_auth_audience_required'' ''Shared Auth audience must not be empty'') @
     opt_list (issue_if (role_is_admin (rt_server_role t) \<and> rt_decision_mode t \<noteq> StrictPaired)
       ''/sharedAuthTopology/decisionMode'' ''shared_auth_admin_requires_strict_paired''
       ''admin web and API servers require strict paired provider proof'')"

definition runtime_topology_new ::
    "string \<Rightarrow> provider_topology \<Rightarrow> provider_topology \<Rightarrow> server_role \<Rightarrow> string \<Rightarrow> decision_mode \<Rightarrow>
     (validation_issue list, runtime_topology) result" where
  "runtime_topology_new github_org supabase neon role audience mode =
     (let topology = \<lparr>rt_github_org = github_org, rt_supabase = supabase, rt_neon = neon,
            rt_server_role = role, rt_audience = audience, rt_decision_mode = mode\<rparr>;
          issues = topology_issues topology
      in if issues = [] then Inr topology else Inl issues)"

definition runtime_topology_dedicated ::
    "string \<Rightarrow> string \<Rightarrow> string \<Rightarrow> server_role \<Rightarrow> string \<Rightarrow> decision_mode \<Rightarrow>
     (validation_issue list, runtime_topology) result" where
  "runtime_topology_dedicated github_org supabase_issuer neon_issuer role audience mode =
     runtime_topology_new github_org (provider_topology_new github_org supabase_issuer)
       (provider_topology_new github_org neon_issuer) role audience mode"

definition topology_data_plane :: "runtime_topology \<Rightarrow> data_plane" where
  "topology_data_plane t = role_data_plane (rt_server_role t)"

definition topology_database_env_keys :: "runtime_topology \<Rightarrow> database_env_keys" where
  "topology_database_env_keys t = role_database_env_keys (rt_server_role t)"

record provider_context =
  pc_provider :: auth_provider_name
  pc_organization :: string
  pc_issuer :: string
  pc_audience :: string
  pc_data_plane :: data_plane

definition provider_context_of :: "runtime_topology \<Rightarrow> auth_provider_name \<Rightarrow> provider_context" where
  "provider_context_of t provider =
     (let topology = (case provider of Supabase \<Rightarrow> rt_supabase t | Neon \<Rightarrow> rt_neon t)
      in \<lparr>pc_provider = provider, pc_organization = pt_organization topology, pc_issuer = pt_issuer topology,
          pc_audience = rt_audience t, pc_data_plane = topology_data_plane t\<rparr>)"

text \<open>The rules that tie the integration block of a configuration to the topology.\<close>

definition non_blank :: "string option \<Rightarrow> bool" where
  "non_blank v \<longleftrightarrow> (case v of None \<Rightarrow> False | Some x \<Rightarrow> trim x \<noteq> [])"

definition integration_issues :: "shared_auth_integration \<Rightarrow> runtime_topology \<Rightarrow> validation_issue list" where
  "integration_issues sa t =
     opt_list (issue_if (sa_mode sa = DisabledIntegration) ''/integrations/sharedAuth/mode''
       ''shared_auth_verifier_required'' ''protected services must enable Shared Auth before startup'') @
     opt_list (issue_if (\<not> non_blank (sa_issuer sa)) ''/integrations/sharedAuth/issuer''
       ''shared_auth_issuer_required'' ''Shared Auth issuer must be configured'') @
     opt_list (issue_if (sa_audience sa \<noteq> Some (rt_audience t)) ''/integrations/sharedAuth/audience''
       ''shared_auth_audience_mismatch'' ''middleware audience must exactly match the topology audience'') @
     opt_list (issue_if (sa_mode sa = Http \<and> \<not> non_blank (sa_jwks_uri sa) \<and> \<not> non_blank (sa_introspection_url sa))
       ''/integrations/sharedAuth'' ''shared_auth_verification_endpoint_required''
       ''HTTP Shared Auth requires JWKS or introspection configuration'')"

section \<open>The decision on two proofs\<close>

record verified_principal =
  vp_provider :: auth_provider_name
  vp_subject :: string
  vp_tenant_id :: string
  vp_session_id :: string
  vp_issuer :: string
  vp_audience :: string
  vp_organization :: string
  vp_data_plane :: data_plane

datatype provider_failure_kind = UnavailableFailure | RejectedFailure

record provider_failure =
  pf_kind :: provider_failure_kind
  pf_code :: string
  pf_message :: string

definition failure_unavailable :: "string \<Rightarrow> provider_failure" where
  "failure_unavailable message =
     \<lparr>pf_kind = UnavailableFailure, pf_code = ''shared_auth_provider_unavailable'', pf_message = message\<rparr>"

definition failure_rejected :: "string \<Rightarrow> string \<Rightarrow> provider_failure" where
  "failure_rejected code message = \<lparr>pf_kind = RejectedFailure, pf_code = code, pf_message = message\<rparr>"

datatype checked_outcome = Verified verified_principal | Unavailable

definition validate_verified_principal ::
    "auth_provider_name \<Rightarrow> provider_context \<Rightarrow> verified_principal \<Rightarrow> (integration_error, unit) result" where
  "validate_verified_principal provider c p =
     (let complete = list_all (\<lambda>v. trim v \<noteq> [])
            [vp_subject p, vp_tenant_id p, vp_session_id p, vp_issuer p, vp_audience p, vp_organization p]
      in if \<not> complete \<or> vp_provider p \<noteq> provider \<or> vp_provider p \<noteq> pc_provider c \<or>
            vp_organization p \<noteq> pc_organization c \<or> vp_issuer p \<noteq> pc_issuer c \<or>
            vp_audience p \<noteq> pc_audience c \<or> vp_data_plane p \<noteq> pc_data_plane c then
           Inl \<lparr>ie_code = ''shared_auth_provider_evidence_mismatch'',
                ie_message = provider_as_str provider @
                  '' authentication proof did not match the configured organization, issuer, audience, or realm''\<rparr>
         else Inr ())"

definition checked_provider_outcome ::
    "auth_provider_name \<Rightarrow> provider_context \<Rightarrow> (provider_failure, verified_principal) result \<Rightarrow>
     (integration_error, checked_outcome) result" where
  "checked_provider_outcome provider c r =
     (case r of
        Inr p \<Rightarrow> bind_result (validate_verified_principal provider c p) (\<lambda>_. Inr (Verified p))
      | Inl failure \<Rightarrow>
          if pf_kind failure = UnavailableFailure then Inr Unavailable
          else Inl \<lparr>ie_code = pf_code failure,
                    ie_message = provider_as_str provider @ '' authentication proof was rejected''\<rparr>)"

definition shared_auth_decision ::
    "runtime_topology \<Rightarrow> verified_principal \<Rightarrow> string \<Rightarrow> string \<Rightarrow> auth_decision" where
  "shared_auth_decision t p supabase_status neon_status =
     \<lparr>ad_user_id = Some (vp_subject p), ad_tenant_id = Some (vp_tenant_id p),
      ad_claims = bt_collect
        [(''shared_auth.data_plane'', data_plane_as_str (topology_data_plane t)),
         (''shared_auth.supabase'', supabase_status), (''shared_auth.neon'', neon_status)]\<rparr>"

definition reconcile_verified_pair ::
    "runtime_topology \<Rightarrow> verified_principal \<Rightarrow> verified_principal \<Rightarrow> (integration_error, auth_decision) result" where
  "reconcile_verified_pair t supabase neon =
     (if vp_subject supabase \<noteq> vp_subject neon \<or> vp_tenant_id supabase \<noteq> vp_tenant_id neon \<or>
         vp_session_id supabase \<noteq> vp_session_id neon then
        Inl \<lparr>ie_code = ''shared_auth_provider_identity_disagreement'',
             ie_message = ''Supabase and Neon proofs resolved to different canonical identities''\<rparr>
      else Inr (shared_auth_decision t supabase ''verified'' ''verified''))"

definition single_provider_decision ::
    "runtime_topology \<Rightarrow> verified_principal \<Rightarrow> auth_provider_name \<Rightarrow> (integration_error, auth_decision) result" where
  "single_provider_decision t p unavailable =
     (if role_is_admin (rt_server_role t) then
        Inl \<lparr>ie_code = ''shared_auth_admin_requires_strict_paired'',
             ie_message = ''admin authentication cannot use a single-provider outage path''\<rparr>
      else
        (let (supabase_status, neon_status) =
               (case unavailable of Supabase \<Rightarrow> (''unavailable'', ''verified'') | Neon \<Rightarrow> (''verified'', ''unavailable''))
         in Inr (shared_auth_decision t p supabase_status neon_status)))"

definition decide_auth ::
    "runtime_topology \<Rightarrow> checked_outcome \<Rightarrow> checked_outcome \<Rightarrow> (integration_error, auth_decision) result" where
  "decide_auth t supabase neon =
     (case rt_decision_mode t of
        StrictPaired \<Rightarrow>
          (case (supabase, neon) of
             (Verified s, Verified n) \<Rightarrow> reconcile_verified_pair t s n
           | _ \<Rightarrow> Inl \<lparr>ie_code = ''shared_auth_strict_provider_unavailable'',
                ie_message = ''strict paired authentication requires verified Supabase and Neon proofs''\<rparr>)
      | AvailabilityFirst \<Rightarrow>
          (case (supabase, neon) of
             (Verified s, Verified n) \<Rightarrow> reconcile_verified_pair t s n
           | (Verified p, Unavailable) \<Rightarrow> single_provider_decision t p Neon
           | (Unavailable, Verified p) \<Rightarrow> single_provider_decision t p Supabase
           | (Unavailable, Unavailable) \<Rightarrow>
               Inl \<lparr>ie_code = ''shared_auth_all_providers_unavailable'',
                    ie_message = ''no Shared Auth provider could establish a verified principal''\<rparr>))"

type_synonym 'x provider_verifier =
  "request_metadata \<Rightarrow> provider_context \<Rightarrow> ((provider_failure, verified_principal) result, 'x) action"

definition dual_provider_verify ::
    "runtime_topology \<Rightarrow> 'x provider_verifier \<Rightarrow> 'x provider_verifier \<Rightarrow> 'x auth_verifier" where
  "dual_provider_verify t supabase neon request =
     (let supabase_context = provider_context_of t Supabase; neon_context = provider_context_of t Neon in
      act_bind (supabase request supabase_context) (\<lambda>r.
        case checked_provider_outcome Supabase supabase_context r of
          Inl e \<Rightarrow> act_return (Inl e)
        | Inr s \<Rightarrow>
            act_bind (neon request neon_context) (\<lambda>r.
              case checked_provider_outcome Neon neon_context r of
                Inl e \<Rightarrow> act_return (Inl e)
              | Inr n \<Rightarrow> act_return (decide_auth t s n))))"

section \<open>Protected stacks\<close>

record 'x ready_stack =
  rk_inner :: "'x middleware_stack"
  rk_topology :: runtime_topology

definition ready_stack_new ::
    "'m hmac_ops \<Rightarrow> 'x environment \<Rightarrow> middleware_config \<Rightarrow> runtime_topology \<Rightarrow> 'x provider_verifier \<Rightarrow>
     'x provider_verifier \<Rightarrow> 'x \<Rightarrow> (validation_issue list, 'x ready_stack \<times> 'x stack_world) result" where
  "ready_stack_new hmac env cfg t supabase neon x =
     (let issues = validate_config cfg @ topology_issues t @
            integration_issues (mi_shared_auth (mc_integrations cfg)) t
      in if issues \<noteq> [] then Inl issues
         else bind_result (stack_new hmac env cfg x) (\<lambda>(s, w).
           Inr (\<lparr>rk_inner = with_trusted_auth_policy_verifier s (dual_provider_verify t supabase neon),
                 rk_topology = t\<rparr>, w)))"

definition ready_begin ::
    "'x environment \<Rightarrow> 'x ready_stack \<Rightarrow> request_metadata \<Rightarrow> 'x stack_world \<Rightarrow>
     (middleware_error, active_request) result \<times> 'x stack_world" where
  "ready_begin env s request w = stack_begin env (rk_inner s) request w"

definition ready_finish ::
    "'x environment \<Rightarrow> 'x ready_stack \<Rightarrow> active_request \<Rightarrow> u16 \<Rightarrow> u64 option \<Rightarrow> 'x stack_world \<Rightarrow>
     headers \<times> 'x stack_world" where
  "ready_finish env s active status response_bytes w =
     stack_finish env (rk_inner s) active status response_bytes w"

section \<open>Valid topologies\<close>

definition topology_ok :: "runtime_topology \<Rightarrow> bool" where
  "topology_ok t \<longleftrightarrow>
     valid_org_slug (rt_github_org t) \<and>
     pt_organization (rt_supabase t) = rt_github_org t \<and> pt_organization (rt_neon t) = rt_github_org t \<and>
     valid_https_issuer (pt_issuer (rt_supabase t)) \<and> valid_https_issuer (pt_issuer (rt_neon t)) \<and>
     pt_issuer (rt_supabase t) \<noteq> pt_issuer (rt_neon t) \<and> trim (rt_audience t) \<noteq> [] \<and>
     (role_is_admin (rt_server_role t) \<longrightarrow> rt_decision_mode t = StrictPaired)"

lemma topology_issues_Nil: "topology_issues t = [] \<longleftrightarrow> topology_ok t"
  by (auto simp: topology_issues_def provider_topology_issues_def topology_ok_def)

section \<open>What a proof must say\<close>

text \<open>A principal that belongs to the topology: complete, and of its organization, issuer, audience and realm.\<close>

definition proof_of :: "runtime_topology \<Rightarrow> auth_provider_name \<Rightarrow> verified_principal \<Rightarrow> bool" where
  "proof_of t provider p \<longleftrightarrow>
     vp_provider p = provider \<and> vp_audience p = rt_audience t \<and>
     vp_data_plane p = role_data_plane (rt_server_role t) \<and>
     vp_organization p = pt_organization (case provider of Supabase \<Rightarrow> rt_supabase t | Neon \<Rightarrow> rt_neon t) \<and>
     vp_issuer p = pt_issuer (case provider of Supabase \<Rightarrow> rt_supabase t | Neon \<Rightarrow> rt_neon t) \<and>
     trim (vp_subject p) \<noteq> [] \<and> trim (vp_tenant_id p) \<noteq> [] \<and> trim (vp_session_id p) \<noteq> []"

lemma checked_outcome_Verified:
  assumes "checked_provider_outcome provider (provider_context_of t provider) r = Inr (Verified p)"
  shows "r = Inr p \<and> proof_of t provider p"
  using assms
  by (auto simp: checked_provider_outcome_def validate_verified_principal_def proof_of_def bind_result_def
      provider_context_of_def topology_data_plane_def Let_def split: sum.splits if_splits)

lemma checked_outcome_Unavailable:
  "checked_provider_outcome provider c r = Inr Unavailable \<Longrightarrow>
   \<exists>f. r = Inl f \<and> pf_kind f = UnavailableFailure"
  by (auto simp: checked_provider_outcome_def bind_result_def split: sum.splits if_splits)

definition same_identity :: "verified_principal \<Rightarrow> verified_principal \<Rightarrow> bool" where
  "same_identity p q \<longleftrightarrow>
     vp_subject p = vp_subject q \<and> vp_tenant_id p = vp_tenant_id q \<and> vp_session_id p = vp_session_id q"

text \<open>What two answers of the providers must be for a decision that names the user and the tenant.\<close>

definition answers_justify ::
    "runtime_topology \<Rightarrow> (provider_failure, verified_principal) result \<Rightarrow>
     (provider_failure, verified_principal) result \<Rightarrow> string option \<Rightarrow> string option \<Rightarrow> bool" where
  "answers_justify t rs rn user tenant \<longleftrightarrow>
     (\<exists>p q. rs = Inr p \<and> rn = Inr q \<and> proof_of t Supabase p \<and> proof_of t Neon q \<and> same_identity p q \<and>
        user = Some (vp_subject p) \<and> tenant = Some (vp_tenant_id p)) \<or>
     \<not> role_is_admin (rt_server_role t) \<and> rt_decision_mode t = AvailabilityFirst \<and>
     (\<exists>p f. pf_kind f = UnavailableFailure \<and>
        (rs = Inr p \<and> rn = Inl f \<and> proof_of t Supabase p \<or> rs = Inl f \<and> rn = Inr p \<and> proof_of t Neon p) \<and>
        user = Some (vp_subject p) \<and> tenant = Some (vp_tenant_id p))"

lemma answers_justify_admin:
  "answers_justify t rs rn user tenant \<Longrightarrow> role_is_admin (rt_server_role t) \<longrightarrow>
   (\<exists>p q. rs = Inr p \<and> rn = Inr q \<and> same_identity p q)"
  by (auto simp: answers_justify_def)

lemma decide_auth_Inr:
  assumes "checked_provider_outcome Supabase (provider_context_of t Supabase) rs = Inr s"
    and "checked_provider_outcome Neon (provider_context_of t Neon) rn = Inr n"
    and "decide_auth t s n = Inr auth"
  shows "answers_justify t rs rn (ad_user_id auth) (ad_tenant_id auth)"
proof (cases s)
  case (Verified p)
  note p = checked_outcome_Verified [OF assms(1) [unfolded Verified]]
  show ?thesis
  proof (cases n)
    case (Verified q)
    note q = checked_outcome_Verified [OF assms(2) [unfolded Verified]]
    from assms(3) have "reconcile_verified_pair t p q = Inr auth"
      by (simp add: decide_auth_def \<open>s = _\<close> Verified split: decision_mode.splits)
    with p q show ?thesis
      by (auto simp: answers_justify_def reconcile_verified_pair_def same_identity_def
          shared_auth_decision_def split: if_splits)
  next
    case Unavailable
    with assms(3) \<open>s = _\<close> p checked_outcome_Unavailable [OF assms(2) [unfolded Unavailable]] show ?thesis
      by (auto simp: answers_justify_def decide_auth_def single_provider_decision_def shared_auth_decision_def
          split: decision_mode.splits if_splits)
  qed
next
  case Unavailable
  note s = checked_outcome_Unavailable [OF assms(1) [unfolded Unavailable]]
  show ?thesis
  proof (cases n)
    case (Verified q)
    note q = checked_outcome_Verified [OF assms(2) [unfolded Verified]]
    with assms(3) \<open>s = _\<close> Verified s show ?thesis
      by (auto simp: answers_justify_def decide_auth_def single_provider_decision_def shared_auth_decision_def
          split: decision_mode.splits if_splits)
  qed (use assms(3) \<open>s = _\<close> in \<open>auto simp: decide_auth_def split: decision_mode.splits\<close>)
qed

lemma dual_provider_verify_Inr:
  assumes "dual_provider_verify t supabase neon request x = (Some (Inr auth), x')"
  obtains rs x1 rn where "supabase request (provider_context_of t Supabase) x = (Some rs, x1)"
    "neon request (provider_context_of t Neon) x1 = (Some rn, x')"
    "answers_justify t rs rn (ad_user_id auth) (ad_tenant_id auth)"
proof -
  from assms obtain rs x1 s where s: "supabase request (provider_context_of t Supabase) x = (Some rs, x1)"
      "checked_provider_outcome Supabase (provider_context_of t Supabase) rs = Inr s"
      "act_bind (neon request (provider_context_of t Neon)) (\<lambda>r.
         case checked_provider_outcome Neon (provider_context_of t Neon) r of
           Inl e \<Rightarrow> act_return (Inl e) | Inr n \<Rightarrow> act_return (decide_auth t s n)) x1 = (Some (Inr auth), x')"
    by (auto simp: dual_provider_verify_def Let_def act_bind_Some act_result_Some)
  then obtain rn n where n: "neon request (provider_context_of t Neon) x1 = (Some rn, x')"
      "checked_provider_outcome Neon (provider_context_of t Neon) rn = Inr n" "decide_auth t s n = Inr auth"
    by (auto simp: act_bind_Some act_result_Some)
  from that [OF s(1) n(1) decide_auth_Inr [OF s(2) n(2,3)]] show thesis .
qed

lemma ready_stack_new_Inr:
  assumes "ready_stack_new hmac env cfg t supabase neon x = Inr (s, w)"
  shows "rk_topology s = t \<and> topology_ok t \<and> mk_auth (rk_inner s) = dual_provider_verify t supabase neon \<and>
    mk_config (rk_inner s) = cfg \<and> sa_mode (mi_shared_auth (mc_integrations cfg)) \<noteq> DisabledIntegration"
proof -
  from assms obtain s0 where new: "stack_new hmac env cfg x = Inr (s0, w)"
      "s = \<lparr>rk_inner = with_trusted_auth_policy_verifier s0 (dual_provider_verify t supabase neon), rk_topology = t\<rparr>"
    and ok: "topology_issues t = []" "integration_issues (mi_shared_auth (mc_integrations cfg)) t = []"
    by (auto simp: ready_stack_new_def Let_def bind_result_Inr split: if_splits)
  from new(1) have "mk_config s0 = cfg" by (auto simp: stack_new_def Let_def split: if_splits prod.splits)
  with new(2) ok show ?thesis
    by (simp add: topology_issues_Nil with_trusted_auth_policy_verifier_def integration_issues_def)
qed

text \<open>
  C23. A stack for protected services admits a request only on the word of the providers of its
  topology. The context names the subject and the tenant that both of them proved alike, for the
  organization, issuer, audience and realm of the topology; or, in a service that is not an admin
  service and puts availability first, the one provider that answered while the other was
  unavailable. An admin service always needs both.
\<close>

theorem protected_admission:
  assumes "ready_stack_new hmac env cfg t supabase neon x0 = Inr (s, w0)"
    and "ready_begin env s request w = (Inr a, w')"
  shows "\<exists>x x1 x2 rs rn.
    supabase request (provider_context_of t Supabase) x = (Some rs, x1) \<and>
    neon request (provider_context_of t Neon) x1 = (Some rn, x2) \<and>
    answers_justify t rs rn (rc_user_id (ar_context a)) (rc_tenant_id (ar_context a)) \<and>
    (role_is_admin (rt_server_role t) \<longrightarrow> (\<exists>p q. rs = Inr p \<and> rn = Inr q \<and> same_identity p q)) \<and>
    pt_issuer (rt_supabase t) \<noteq> pt_issuer (rt_neon t)"
proof -
  note ready = ready_stack_new_Inr [OF assms(1)]
  from assms(2) have "stack_begin env (rk_inner s) request w = (Inr a, w')" by (simp add: ready_begin_def)
  then obtain base x auth w1 started decision where
    pre: "pre_auth (rk_inner s) request (w\<lparr>sw_env := x\<rparr>) = (Some (Inr auth), w1)" and
    a: "a = \<lparr>ar_context = authenticated_context base auth, ar_started = started, ar_request = request,
          ar_rate_limit_decision = decision\<rparr>"
    by (rule stack_begin_InrE)
  from pre_auth_Inr [OF pre] obtain x' where
    "dual_provider_verify t supabase neon request x = (Some (Inr auth), x')" using ready by auto
  then obtain rs x1 rn where answers: "supabase request (provider_context_of t Supabase) x = (Some rs, x1)"
    "neon request (provider_context_of t Neon) x1 = (Some rn, x')" and
    justify: "answers_justify t rs rn (ad_user_id auth) (ad_tenant_id auth)"
    by (rule dual_provider_verify_Inr)
  have issuers: "pt_issuer (rt_supabase t) \<noteq> pt_issuer (rt_neon t)" using ready by (simp add: topology_ok_def)
  from justify answers_justify_admin [OF justify] answers issuers show ?thesis
    by (intro exI [of _ x] exI [of _ x1] exI [of _ x'] exI [of _ rs] exI [of _ rn]) (simp add: a)
qed

definition sample_topology :: runtime_topology where
  "sample_topology =
     \<lparr>rt_github_org = ''ORESoftware'', rt_supabase = provider_topology_new ''ORESoftware'' ''https://a.example'',
      rt_neon = provider_topology_new ''ORESoftware'' ''https://b.example'', rt_server_role = AdminApiServerRole,
      rt_audience = ''svc'', rt_decision_mode = StrictPaired\<rparr>"

definition sample_proof :: "auth_provider_name \<Rightarrow> verified_principal" where
  "sample_proof provider =
     \<lparr>vp_provider = provider, vp_subject = ''u1'', vp_tenant_id = ''t1'', vp_session_id = ''s1'',
      vp_issuer = (case provider of Supabase \<Rightarrow> ''https://a.example'' | Neon \<Rightarrow> ''https://b.example''),
      vp_audience = ''svc'', vp_organization = ''ORESoftware'', vp_data_plane = AdminAuth\<rparr>"

definition sample_verifier :: "unit provider_verifier" where
  "sample_verifier request c = act_return (Inr (sample_proof (pc_provider c)))"

text \<open>A production configuration with shared authentication and without a rate limit.\<close>

definition sample_protected_config :: middleware_config where
  "sample_protected_config =
     (on_rate_limit (\<lambda>p. p\<lparr>sr_enabled := False\<rparr>) sample_production_config)
       \<lparr>mc_integrations := (mc_integrations sample_production_config)
          \<lparr>mi_shared_auth := \<lparr>sa_mode = Http, sa_issuer = Some ''svc'', sa_audience = Some ''svc'',
             sa_jwks_uri = Some ''svc'', sa_introspection_url = None, sa_fail_open = False\<rparr>\<rparr>\<rparr>"

lemma sample_topology_ok: "topology_ok sample_topology"
proof -
  have "\<not> has_whitespace ''https://a.example''" "\<not> has_whitespace ''https://b.example''"
    by (rule visible_no_whitespace, simp add: visible_def)+
  then show ?thesis
    by (simp add: topology_ok_def sample_topology_def provider_topology_new_def valid_org_slug_def ascii_defs
        valid_https_issuer_def starts_with_def trim_samples)
qed

lemma sample_protected_valid: "validate_config sample_protected_config = []"
  using sample_production_config_ok
  by (simp add: validate_config_Nil config_ok_def sample_protected_config_def on_defs is_production_def
      sample_production_config_def default_config_def)

lemma sample_integration: "integration_issues (mi_shared_auth (mc_integrations sample_protected_config)) sample_topology = []"
  by (simp add: integration_issues_def sample_protected_config_def sample_topology_def non_blank_def trim_samples)

lemma sample_dual_verify:
  "dual_provider_verify sample_topology sample_verifier sample_verifier request x =
     (Some (Inr (shared_auth_decision sample_topology (sample_proof Supabase) ''verified'' ''verified'')), x)"
proof -
  have "trim ''u1'' \<noteq> []" "trim ''t1'' \<noteq> []" "trim ''s1'' \<noteq> []" "trim ''ORESoftware'' \<noteq> []"
    "trim ''https://a.example'' \<noteq> []" "trim ''https://b.example'' \<noteq> []"
    by (subst trim_all_visible, simp add: visible_def, simp)+
  then have "checked_provider_outcome p (provider_context_of sample_topology p) (Inr (sample_proof p)) =
      Inr (Verified (sample_proof p))" for p
    by (cases p) (simp_all add: checked_provider_outcome_def validate_verified_principal_def sample_proof_def
        provider_context_of_def sample_topology_def provider_topology_new_def topology_data_plane_def
        role_data_plane_def trim_samples)
  then show ?thesis
    by (simp add: dual_provider_verify_def act_bind_def sample_verifier_def act_return_def Let_def
        provider_context_of_def [of _ Supabase, THEN arg_cong [of _ _ pc_provider]]
        provider_context_of_def [of _ Neon, THEN arg_cong [of _ _ pc_provider]])
      (simp add: decide_auth_def reconcile_verified_pair_def sample_topology_def sample_proof_def)
qed

lemma sample_protected_sel [simp]:
  "ms_fault_injection (mc_settings sample_protected_config) = ms_fault_injection (mc_settings (default_config ''svc''))"
  "\<not> sr_enabled (ms_rate_limit (mc_settings sample_protected_config))"
  "\<not> fi_enabled (ms_fault_injection (mc_settings (default_config ''svc'')))"
  by (simp_all add: sample_protected_config_def sample_production_config_def on_defs default_config_def)

lemma stack_new_sel:
  "stack_new hmac env cfg x = Inr (s, w) \<Longrightarrow> mk_config s = cfg \<and> mk_telemetry s = tracing_telemetry"
  by (auto simp: stack_new_def Let_def split: if_splits prod.splits)

lemma sample_ready:
  "\<exists>s w0. ready_stack_new sample_hmac sample_env sample_protected_config sample_topology
      sample_verifier sample_verifier () = Inr (s, w0) \<and>
     mk_config (rk_inner s) = sample_protected_config \<and> mk_telemetry (rk_inner s) = tracing_telemetry \<and>
     mk_auth (rk_inner s) = dual_provider_verify sample_topology sample_verifier sample_verifier"
proof -
  obtain s w where new: "stack_new sample_hmac sample_env sample_protected_config () = Inr (s, w)"
    using stack_new_Inr [OF sample_protected_valid, of sample_hmac sample_env "()"] by blast
  show ?thesis
    using stack_new_sel [OF new] sample_topology_ok
    by (simp add: ready_stack_new_def sample_protected_valid topology_issues_Nil sample_integration new
        with_trusted_auth_policy_verifier_def)
qed

lemma sample_protected_begin_any:
  assumes "mk_config s = sample_protected_config\<lparr>mc_integrations := i\<rparr>" "mk_telemetry s = tracing_telemetry"
    and "mk_auth s sample_request = (\<lambda>x. (Some (Inr auth), x))" "ad_user_id auth \<noteq> None"
  shows "\<exists>a w'. stack_begin sample_env s sample_request w = (Inr a, w')"
proof -
  have "enforce_transport_policy (sample_protected_config\<lparr>mc_integrations := i\<rparr>) sample_request = Inr ()"
    by (simp add: enforce_transport_policy_def sample_protected_config_def sample_defs Let_def)
  moreover have "rq_content_length sample_request = None" by (simp add: sample_request_def)
  ultimately have pre: "pre_auth s sample_request u = (Some (Inr auth), u)" for u :: "unit stack_world"
    by (simp add: pre_auth_def act_bind_def on_env_def act_return_def assms)
  have start: "\<exists>d v. request_start sample_env s (authenticated_context base auth) sample_request auth u =
      (Some (Inr d), v)" for base u
    using assms(4)
    by (simp add: request_start_def Let_def assms start_request_def act_bind_def on_env_def act_return_def)
  obtain base x where base: "base_context sample_env (mk_config s) sample_request (sw_env w) = (base, x)"
    by (rule prod.exhaust)
  from start obtain started decision v where
    "request_start sample_env s (authenticated_context base auth) sample_request auth (w\<lparr>sw_env := x\<rparr>) =
       (Some (Inr (started, decision)), v)" by (metis surj_pair)
  with base show ?thesis by (simp add: stack_begin_def run_lifecycle_stage_def pre Let_def)
qed

lemma sample_protected_begin:
  assumes "mk_config s = sample_protected_config" "mk_telemetry s = tracing_telemetry"
    and "mk_auth s = dual_provider_verify sample_topology sample_verifier sample_verifier"
  shows "\<exists>a w'. stack_begin sample_env s sample_request w = (Inr a, w')"
  by (rule sample_protected_begin_any [of s "mc_integrations sample_protected_config"])
    (auto simp: assms(1,2) simp del: sample_protected_sel simp: assms(3) sample_dual_verify fun_eq_iff shared_auth_decision_def sample_proof_def)

theorem protected_admission_witness:
  "\<exists>s w0 a w'. ready_stack_new sample_hmac sample_env sample_protected_config sample_topology
      sample_verifier sample_verifier () = Inr (s, w0) \<and>
     ready_begin sample_env s sample_request w0 = (Inr a, w') \<and>
     (\<exists>p q. answers_justify sample_topology (Inr p) (Inr q) (rc_user_id (ar_context a)) (rc_tenant_id (ar_context a)))"
proof -
  obtain s w0 where s: "ready_stack_new sample_hmac sample_env sample_protected_config sample_topology
      sample_verifier sample_verifier () = Inr (s, w0)" and
    sel: "mk_config (rk_inner s) = sample_protected_config" "mk_telemetry (rk_inner s) = tracing_telemetry"
      "mk_auth (rk_inner s) = dual_provider_verify sample_topology sample_verifier sample_verifier"
    using sample_ready by blast
  obtain a w' where "ready_begin sample_env s sample_request w0 = (Inr a, w')"
    using sample_protected_begin [OF sel] unfolding ready_begin_def by blast
  note begun = this
  have "role_is_admin (rt_server_role sample_topology)" by (simp add: sample_topology_def role_is_admin_def)
  with protected_admission [OF s begun] obtain p q where
    "answers_justify sample_topology (Inr p) (Inr q) (rc_user_id (ar_context a)) (rc_tenant_id (ar_context a))"
    by auto
  with s begun show ?thesis by (intro exI [of _ s] exI [of _ w0] exI [of _ a] exI [of _ w']) blast
qed

end
