(* ===== verification/Runtime_Manifest.thy ===== *)
theory Runtime_Manifest
  imports Net
begin

text \<open>
  \<^verbatim>\<open>src/src/rust/src/runtime_manifest.rs\<close>: the parser of the manifest \<open>.ores-mw.toml\<close>, a fold of
  one step over the lines of the document, and the admission of the server stack it selects. A
  result \<^const>\<open>None\<close> is a panic: the branch of \<open>assign\<close> that the source marks as unreachable.
\<close>

section \<open>Data\<close>

definition max_manifest_bytes :: nat where "max_manifest_bytes = 256 * 1024"
definition max_targets :: nat where "max_targets = 64"

datatype runtime_manifest_error =
    InvalidDocument | UnsupportedVersion | InvalidRepositoryMode | MissingTarget | DuplicateTarget
  | InvalidTarget | DisabledTarget | ClientTarget | NonStackTarget | StackConfigMismatch

definition manifest_error_code :: "runtime_manifest_error \<Rightarrow> string" where
  "manifest_error_code e =
     (case e of
        InvalidDocument \<Rightarrow> ''invalid_manifest''
      | UnsupportedVersion \<Rightarrow> ''unsupported_schema_version''
      | InvalidRepositoryMode \<Rightarrow> ''invalid_repository_mode''
      | MissingTarget \<Rightarrow> ''runtime_target_missing''
      | DuplicateTarget \<Rightarrow> ''duplicate_runtime_target''
      | InvalidTarget \<Rightarrow> ''invalid_runtime_target''
      | DisabledTarget \<Rightarrow> ''runtime_target_disabled''
      | ClientTarget \<Rightarrow> ''runtime_target_is_client''
      | NonStackTarget \<Rightarrow> ''runtime_target_not_stack''
      | StackConfigMismatch \<Rightarrow> ''runtime_stack_config_mismatch'')"

definition manifest_error_display :: "runtime_manifest_error \<Rightarrow> string" where
  "manifest_error_display e = manifest_error_code e"

record manifest_target =
  mt_name :: string
  mt_role :: string
  mt_enabled :: bool
  mt_middleware :: string
  mt_stack_config :: "string option"

record target_builder =
  tb_name :: "string option"
  tb_role :: "string option"
  tb_target_enabled :: "bool option"
  tb_middleware :: "string option"
  tb_stack_config :: "string option"

definition target_builder_default :: target_builder where
  "target_builder_default =
     \<lparr>tb_name = None, tb_role = None, tb_target_enabled = None, tb_middleware = None, tb_stack_config = None\<rparr>"

datatype manifest_section = RootSection | TargetSection | OtherSection

record parse_state =
  ps_section :: manifest_section
  ps_version :: "u32 option"
  ps_repository_mode :: "string option"
  ps_default_target :: "string option"
  ps_targets :: "manifest_target list"
  ps_current :: "target_builder option"
  ps_pending_array_depth :: nat

definition parse_state_default :: parse_state where
  "parse_state_default =
     \<lparr>ps_section = RootSection, ps_version = None, ps_repository_mode = None, ps_default_target = None,
      ps_targets = [], ps_current = None, ps_pending_array_depth = 0\<rparr>"

record parsed_manifest =
  pm_version :: "u32 option"
  pm_repository_mode :: "string option"
  pm_default_target :: "string option"
  pm_targets :: "manifest_target list"

section \<open>Values\<close>

type_synonym 'a parsed = "(runtime_manifest_error, 'a) result"

definition set_once :: "'a option \<Rightarrow> 'a \<Rightarrow> 'a option parsed" where
  "set_once slot v = (case slot of Some _ \<Rightarrow> Inl InvalidDocument | None \<Rightarrow> Inr (Some v))"

definition manifest_u32 :: "string \<Rightarrow> u32 parsed" where
  "manifest_u32 v = ok_or InvalidDocument (map_option of_nat (parse_unsigned (2 ^ 32) v))"

definition manifest_bool :: "string \<Rightarrow> bool parsed" where
  "manifest_bool v =
     (if v = ''true'' then Inr True else if v = ''false'' then Inr False else Inl InvalidDocument)"

text \<open>\<open>char::is_control\<close>: the characters up to 31, 127, and those from 128 to 159, whose encoding begins with the byte 194.\<close>

fun has_control :: "string \<Rightarrow> bool" where
  "has_control [] = False"
| "has_control (c # s) =
     (code_of c < 32 \<or> code_of c = 127 \<or>
      code_of c = 194 \<and> (case s of [] \<Rightarrow> False | d # _ \<Rightarrow> 128 \<le> code_of d \<and> code_of d < 160) \<or> has_control s)"

text \<open>Bytes 34 and 92 are the double quote and the backslash.\<close>

abbreviation quote :: char where "quote \<equiv> CHR 0x22"
abbreviation backslash :: char where "backslash \<equiv> CHR 0x5C"

definition manifest_string :: "string \<Rightarrow> string parsed" where
  "manifest_string v =
     bind_result (ok_or InvalidDocument (Option.bind (strip_prefix [quote] v) (strip_suffix [quote]))) (\<lambda>v.
       if v = [] \<or> has_control v \<or> backslash \<in> set v then Inl InvalidDocument else Inr v)"

definition valid_target_name :: "string \<Rightarrow> bool" where
  "valid_target_name v \<longleftrightarrow>
     v \<noteq> [] \<and> is_ascii_lowercase (hd v) \<and> length v \<le> 63 \<and>
     list_all (\<lambda>b. is_ascii_lowercase b \<or> is_ascii_digit b \<or> b = CHR ''-'') v"

definition safe_stack_path :: "string \<Rightarrow> bool" where
  "safe_stack_path v \<longleftrightarrow>
     v \<noteq> [] \<and> length v \<le> 512 \<and> ends_with ''.json'' v \<and> \<not> starts_with ''/'' v \<and> backslash \<notin> set v \<and>
     \<not> contains_str ''//'' v \<and>
     list_all (\<lambda>part. part \<noteq> [] \<and> part \<noteq> ''.'' \<and> part \<noteq> ''..'') (split_on CHR ''/'' v)"

section \<open>Comments and arrays\<close>

datatype comment_scan = ScanOpen bool | CommentAt nat

fun scan_loop :: "comment_scan \<Rightarrow> (nat \<times> char) list \<Rightarrow> comment_scan parsed" where
  "scan_loop scan [] = Inr scan"
| "scan_loop (CommentAt i) (_ # rest) = scan_loop (CommentAt i) rest"
| "scan_loop (ScanOpen quoted) ((index, b) # rest) =
     (if b = quote then scan_loop (ScanOpen (\<not> quoted)) rest
      else if b = CHR ''#'' \<and> \<not> quoted then scan_loop (CommentAt index) rest
      else if b = backslash \<and> quoted then Inl InvalidDocument
      else scan_loop (ScanOpen quoted) rest)"

definition strip_comment :: "string \<Rightarrow> string parsed" where
  "strip_comment line =
     bind_result (scan_loop (ScanOpen False) (enum_list line)) (\<lambda>scan.
       case scan of
         CommentAt index \<Rightarrow> Inr (take index line)
       | ScanOpen quoted \<Rightarrow> if quoted then Inl InvalidDocument else Inr line)"

fun depth_loop :: "nat \<Rightarrow> bool \<Rightarrow> string \<Rightarrow> (nat \<times> bool) parsed" where
  "depth_loop depth quoted [] = Inr (depth, quoted)"
| "depth_loop depth quoted (b # bs) =
     (if b = quote then depth_loop depth (\<not> quoted) bs
      else if b = backslash \<and> quoted then Inl InvalidDocument
      else if b = CHR ''['' \<and> \<not> quoted then depth_loop (min (depth + 1) (2 ^ 64 - 1)) quoted bs
      else if b = CHR '']'' \<and> \<not> quoted then
        (if depth = 0 then Inl InvalidDocument else depth_loop (depth - 1) quoted bs)
      else depth_loop depth quoted bs)"

definition advance_array_depth :: "string \<Rightarrow> nat \<Rightarrow> nat parsed" where
  "advance_array_depth line initial =
     bind_result (depth_loop initial False line) (\<lambda>(depth, quoted).
       if quoted then Inl InvalidDocument else Inr depth)"

definition start_array :: "string \<Rightarrow> nat parsed" where
  "start_array v = (if \<not> starts_with ''['' v then Inl InvalidDocument else advance_array_depth v 0)"

section \<open>Targets\<close>

definition builder_with :: "target_builder \<Rightarrow> string \<Rightarrow> string \<Rightarrow> target_builder parsed" where
  "builder_with b key v =
     (if key = ''name'' then
        bind_result (manifest_string v) (\<lambda>v. bind_result (set_once (tb_name b) v) (\<lambda>x. Inr (b\<lparr>tb_name := x\<rparr>)))
      else if key = ''role'' then
        bind_result (manifest_string v) (\<lambda>v. bind_result (set_once (tb_role b) v) (\<lambda>x. Inr (b\<lparr>tb_role := x\<rparr>)))
      else if key = ''enabled'' then
        bind_result (manifest_bool v) (\<lambda>v.
          bind_result (set_once (tb_target_enabled b) v) (\<lambda>x. Inr (b\<lparr>tb_target_enabled := x\<rparr>)))
      else if key = ''middleware'' then
        bind_result (manifest_string v) (\<lambda>v.
          bind_result (set_once (tb_middleware b) v) (\<lambda>x. Inr (b\<lparr>tb_middleware := x\<rparr>)))
      else if key = ''stack_config'' then
        bind_result (manifest_string v) (\<lambda>v.
          bind_result (set_once (tb_stack_config b) v) (\<lambda>x. Inr (b\<lparr>tb_stack_config := x\<rparr>)))
      else Inl InvalidDocument)"

definition builder_finish :: "target_builder \<Rightarrow> manifest_target parsed" where
  "builder_finish b =
     bind_result (ok_or InvalidTarget (tb_name b)) (\<lambda>name.
     if \<not> valid_target_name name then Inl InvalidTarget else
     bind_result (ok_or InvalidTarget (tb_role b)) (\<lambda>role.
     if role \<notin> {''server'', ''client''} then Inl InvalidTarget else
     bind_result (ok_or InvalidTarget (tb_middleware b)) (\<lambda>middleware.
     if middleware \<notin> {''stack'', ''propagation-only'', ''disabled''} then Inl InvalidTarget else
     if (case tb_stack_config b of None \<Rightarrow> False | Some path \<Rightarrow> \<not> safe_stack_path path) then Inl InvalidTarget else
     Inr \<lparr>mt_name = name, mt_role = role, mt_enabled = (case tb_target_enabled b of None \<Rightarrow> True | Some e \<Rightarrow> e),
          mt_middleware = middleware, mt_stack_config = tb_stack_config b\<rparr>)))"

section \<open>The parser\<close>

definition close_target :: "parse_state \<Rightarrow> parse_state parsed" where
  "close_target s =
     (case ps_current s of
        None \<Rightarrow> Inr s
      | Some b \<Rightarrow> bind_result (builder_finish b) (\<lambda>t.
          Inr (s\<lparr>ps_current := None, ps_targets := ps_targets s @ [t]\<rparr>)))"

definition manifest_assign :: "parse_state \<Rightarrow> string \<Rightarrow> string \<Rightarrow> parse_state parsed option" where
  "manifest_assign s key v =
     (case ps_section s of
        RootSection \<Rightarrow> Some
          (if key = ''schema_version'' then
             bind_result (manifest_u32 v) (\<lambda>v. bind_result (set_once (ps_version s) v) (\<lambda>x. Inr (s\<lparr>ps_version := x\<rparr>)))
           else if key = ''repository_mode'' then
             bind_result (manifest_string v) (\<lambda>v.
               bind_result (set_once (ps_repository_mode s) v) (\<lambda>x. Inr (s\<lparr>ps_repository_mode := x\<rparr>)))
           else if key = ''default_target'' then
             bind_result (manifest_string v) (\<lambda>v.
               bind_result (set_once (ps_default_target s) v) (\<lambda>x. Inr (s\<lparr>ps_default_target := x\<rparr>)))
           else if key = ''allow_overlapping_roots'' then bind_result (manifest_bool v) (\<lambda>_. Inr s)
           else Inl InvalidDocument)
      | TargetSection \<Rightarrow> Some
          (if key \<in> {''roots'', ''propagate_headers''} then
             bind_result (start_array v) (\<lambda>depth. Inr (s\<lparr>ps_pending_array_depth := depth\<rparr>))
           else
             bind_result (ok_or InvalidDocument (ps_current s)) (\<lambda>b.
             bind_result (builder_with b key v) (\<lambda>b. Inr (s\<lparr>ps_current := Some b\<rparr>))))
      | OtherSection \<Rightarrow> None)"

definition manifest_step :: "parse_state \<Rightarrow> string \<Rightarrow> parse_state parsed option" where
  "manifest_step s raw =
     (let trimmed = trim raw;
          key_value =
            (if ps_section s = OtherSection then Some (Inr s)
             else
               (case strip_comment raw of
                  Inl e \<Rightarrow> Some (Inl e)
                | Inr line \<Rightarrow>
                    (let line = trim line in
                     if line = [] then Some (Inr s)
                     else
                       (case split_once CHR ''='' line of
                          None \<Rightarrow> Some (Inl InvalidDocument)
                        | Some (key, v) \<Rightarrow> manifest_assign s (trim key) (trim v)))))
      in if trimmed = [] then Some (Inr s)
         else if ps_pending_array_depth s > 0 then Some
           (bind_result (strip_comment raw) (\<lambda>line.
              let line = trim line in
              if line = [] then Inr s
              else bind_result (advance_array_depth line (ps_pending_array_depth s)) (\<lambda>depth.
                Inr (s\<lparr>ps_pending_array_depth := depth\<rparr>))))
         else if starts_with ''['' trimmed then
           (case strip_comment raw of
              Inl e \<Rightarrow> Some (Inl e)
            | Inr line \<Rightarrow>
                (let header = trim line in
                 if header = ''[[targets]]'' then Some
                   (bind_result (close_target s) (\<lambda>closed.
                      if length (ps_targets closed) \<ge> max_targets then Inl InvalidDocument
                      else Inr (closed\<lparr>ps_current := Some target_builder_default, ps_section := TargetSection\<rparr>)))
                 else if starts_with ''['' header \<and> ends_with '']'' header then Some
                   (bind_result (close_target s) (\<lambda>closed. Inr (closed\<lparr>ps_section := OtherSection\<rparr>)))
                 else key_value))
         else key_value)"

definition manifest_finish :: "parse_state \<Rightarrow> parsed_manifest parsed" where
  "manifest_finish s =
     (if ps_pending_array_depth s \<noteq> 0 then Inl InvalidDocument
      else bind_result (close_target s) (\<lambda>closed.
        Inr \<lparr>pm_version = ps_version closed, pm_repository_mode = ps_repository_mode closed,
             pm_default_target = ps_default_target closed, pm_targets = ps_targets closed\<rparr>))"

text \<open>
  \<open>str::lines\<close>: every line feed ends a line, with the carriage return before it; what follows the
  last one is a line if it is not empty.
\<close>

definition str_lines :: "string \<Rightarrow> string list" where
  "str_lines s =
     (let ps = split_on (CHR 0x0A) s;
          without_cr = (\<lambda>l. case strip_suffix [CHR 0x0D] l of None \<Rightarrow> l | Some m \<Rightarrow> m)
      in map without_cr (butlast ps) @ (if last ps = [] then [] else [last ps]))"

fun manifest_fold :: "parse_state \<Rightarrow> string list \<Rightarrow> parse_state parsed option" where
  "manifest_fold s [] = Some (Inr s)"
| "manifest_fold s (line # rest) =
     (case manifest_step s line of
        None \<Rightarrow> None
      | Some (Inl e) \<Rightarrow> Some (Inl e)
      | Some (Inr s') \<Rightarrow> manifest_fold s' rest)"

definition manifest_parse :: "string \<Rightarrow> parsed_manifest parsed option" where
  "manifest_parse source =
     map_option (\<lambda>r. bind_result r manifest_finish) (manifest_fold parse_state_default (str_lines source))"

section \<open>Admission\<close>

definition manifest_checked :: "parsed_manifest \<Rightarrow> parsed_manifest parsed" where
  "manifest_checked m =
     (if pm_version m \<noteq> Some 1 then Inl UnsupportedVersion
      else if pm_repository_mode m \<in> {Some ''server-only'', Some ''hybrid''} then
        (if card (mt_name ` set (pm_targets m)) \<noteq> length (pm_targets m) then Inl DuplicateTarget else Inr m)
      else if pm_repository_mode m = Some ''client-only'' then Inl ClientTarget
      else Inl InvalidRepositoryMode)"

definition manifest_select :: "parsed_manifest \<Rightarrow> string option \<Rightarrow> manifest_target parsed" where
  "manifest_select m target_name =
     bind_result (ok_or MissingTarget (case target_name of None \<Rightarrow> pm_default_target m | Some n \<Rightarrow> Some n)) (\<lambda>name.
       if \<not> valid_target_name name then Inl InvalidTarget
       else ok_or MissingTarget (find (\<lambda>t. mt_name t = name) (pm_targets m)))"

definition admit_stack :: "manifest_target \<Rightarrow> string \<Rightarrow> unit parsed" where
  "admit_stack t expected_stack_config =
     (if \<not> mt_enabled t then Inl DisabledTarget
      else if mt_role t \<noteq> ''server'' then Inl ClientTarget
      else if mt_middleware t \<noteq> ''stack'' then Inl NonStackTarget
      else if mt_stack_config t \<noteq> Some expected_stack_config then Inl StackConfigMismatch
      else Inr ())"

definition admit_server_stack :: "string \<Rightarrow> string option \<Rightarrow> string \<Rightarrow> unit parsed option" where
  "admit_server_stack source target_name expected_stack_config =
     (if length source > max_manifest_bytes \<or> CHR 0x00 \<in> set source \<or>
         \<not> safe_stack_path expected_stack_config then Some (Inl InvalidDocument)
      else map_option (\<lambda>r.
        bind_result r (\<lambda>m. bind_result (manifest_checked m) (\<lambda>m.
        bind_result (manifest_select m target_name) (\<lambda>t. admit_stack t expected_stack_config))))
        (manifest_parse source))"

section \<open>What the parser keeps\<close>

definition target_ok :: "manifest_target \<Rightarrow> bool" where
  "target_ok t \<longleftrightarrow>
     valid_target_name (mt_name t) \<and> mt_role t \<in> {''server'', ''client''} \<and>
     mt_middleware t \<in> {''stack'', ''propagation-only'', ''disabled''} \<and>
     pred_option safe_stack_path (mt_stack_config t)"

definition parse_state_inv :: "parse_state \<Rightarrow> bool" where
  "parse_state_inv s \<longleftrightarrow>
     list_all target_ok (ps_targets s) \<and>
     length (ps_targets s) + (if ps_current s = None then 0 else 1) \<le> max_targets \<and>
     (ps_current s \<noteq> None \<longleftrightarrow> ps_section s = TargetSection)"

lemma builder_finish_ok: "builder_finish b = Inr t \<Longrightarrow> target_ok t"
  by (auto simp: builder_finish_def bind_result_Inr target_ok_def split: if_splits option.splits)

lemma close_target_inv:
  assumes "parse_state_inv s" "close_target s = Inr s'"
  shows "list_all target_ok (ps_targets s') \<and> length (ps_targets s') \<le> max_targets \<and> ps_current s' = None"
  using assms
  by (auto simp: close_target_def parse_state_inv_def bind_result_Inr dest: builder_finish_ok split: option.splits)

lemma manifest_assign_inv:
  "parse_state_inv s \<Longrightarrow> manifest_assign s key v = Some (Inr s') \<Longrightarrow> parse_state_inv s'"
  by (auto simp: manifest_assign_def parse_state_inv_def bind_result_Inr split: manifest_section.splits if_splits)

lemma manifest_assign_total: "ps_section s \<noteq> OtherSection \<Longrightarrow> manifest_assign s key v \<noteq> None"
  by (auto simp: manifest_assign_def split: manifest_section.split)

text \<open>The cases of a step: the unreachable branch is not among them.\<close>

lemma manifest_step_cases:
  assumes "manifest_step s raw = r"
  obtains (error) e where "r = Some (Inl e)"
  | (same) "r = Some (Inr s)"
  | (array) depth where "r = Some (Inr (s\<lparr>ps_pending_array_depth := depth\<rparr>))"
  | (target) closed where "close_target s = Inr closed" "length (ps_targets closed) < max_targets"
      "r = Some (Inr (closed\<lparr>ps_current := Some target_builder_default, ps_section := TargetSection\<rparr>))"
  | (other) closed where "close_target s = Inr closed" "r = Some (Inr (closed\<lparr>ps_section := OtherSection\<rparr>))"
  | (assign) key v where "ps_section s \<noteq> OtherSection" "r = manifest_assign s key v"
proof -
  define key_value where "key_value =
    (if ps_section s = OtherSection then Some (Inr s)
     else (case strip_comment raw of
             Inl e \<Rightarrow> Some (Inl e)
           | Inr line \<Rightarrow>
               (let line = trim line in
                if line = [] then Some (Inr s)
                else (case split_once CHR ''='' line of
                        None \<Rightarrow> Some (Inl InvalidDocument)
                      | Some (key, v) \<Rightarrow> manifest_assign s (trim key) (trim v)))))"
  have kv: thesis if "r = key_value"
    using that error same assign
    by (auto simp: key_value_def Let_def split: if_splits sum.splits option.splits)
  show thesis
  proof (cases "trim raw = [] \<or> ps_pending_array_depth s > 0")
    case True
    with assms error same array show thesis
      by (auto simp: manifest_step_def Let_def bind_result_def split: if_splits sum.splits)
  next
    case False
    show thesis
    proof (cases "starts_with ''['' (trim raw)")
      case True
      with False assms error target other kv show thesis
        by (auto simp: manifest_step_def Let_def bind_result_def key_value_def [symmetric] not_le
            split: if_splits sum.splits)
    next
      case plain: False
      with False assms kv plain show thesis by (simp add: manifest_step_def Let_def key_value_def)
    qed
  qed
qed

lemma manifest_step_total: "manifest_step s raw \<noteq> None"
proof
  assume "manifest_step s raw = None"
  then show False
  proof (cases rule: manifest_step_cases)
    case (assign key v)
    then show False using manifest_assign_total [OF assign(1)] by metis
  qed simp_all
qed

lemma manifest_step_inv:
  assumes "parse_state_inv s" "manifest_step s raw = Some (Inr s')"
  shows "parse_state_inv s'"
  using assms(2)
proof (cases rule: manifest_step_cases)
  case (target closed)
  with close_target_inv [OF assms(1) target(1)] show ?thesis by (auto simp: parse_state_inv_def)
next
  case (other closed)
  with close_target_inv [OF assms(1) other(1)] show ?thesis by (auto simp: parse_state_inv_def)
next
  case (assign key v)
  then show ?thesis using manifest_assign_inv [OF assms(1)] by metis
qed (use assms(1) in \<open>auto simp: parse_state_inv_def\<close>)

lemma manifest_fold_inv:
  "parse_state_inv s \<Longrightarrow> manifest_fold s ls = Some (Inr s') \<Longrightarrow> parse_state_inv s'"
  by (induction ls arbitrary: s) (auto split: option.splits sum.splits intro: manifest_step_inv)

lemma manifest_fold_total: "manifest_fold s ls \<noteq> None"
  by (induction ls arbitrary: s) (use manifest_step_total in \<open>auto split: option.split sum.split\<close>)

lemma manifest_parse_total: "manifest_parse source \<noteq> None"
  using manifest_fold_total by (simp add: manifest_parse_def)

lemma manifest_parse_inv:
  assumes "manifest_parse source = Some (Inr m)"
  shows "list_all target_ok (pm_targets m) \<and> length (pm_targets m) \<le> 64"
proof -
  from assms obtain s where s: "manifest_fold parse_state_default (str_lines source) = Some (Inr s)"
      "manifest_finish s = Inr m"
    by (auto simp: manifest_parse_def bind_result_Inr)
  have "parse_state_inv parse_state_default" by (simp add: parse_state_inv_def parse_state_default_def)
  from manifest_fold_inv [OF this s(1)] s(2) show ?thesis
    by (auto simp: manifest_finish_def bind_result_Inr max_targets_def dest: close_target_inv split: if_splits)
qed

lemma manifest_checked_Inr:
  "manifest_checked m = Inr m' \<longleftrightarrow>
   m' = m \<and> pm_version m = Some 1 \<and> pm_repository_mode m \<in> {Some ''server-only'', Some ''hybrid''} \<and>
   distinct (map mt_name (pm_targets m))"
proof -
  have "card (mt_name ` set (pm_targets m)) = length (pm_targets m) \<longleftrightarrow> distinct (map mt_name (pm_targets m))"
    using card_distinct [of "map mt_name (pm_targets m)"] distinct_card [of "map mt_name (pm_targets m)"] by auto
  then show ?thesis by (auto simp: manifest_checked_def)
qed

lemma ok_or_Inr: "ok_or e v = Inr x \<longleftrightarrow> v = Some x"
  by (cases v) (auto simp: ok_or_def)

lemma find_distinct:
  "distinct (map f xs) \<Longrightarrow> find (\<lambda>x. f x = k) xs = Some x \<longleftrightarrow> x \<in> set xs \<and> f x = k"
  by (induction xs) (auto simp: rev_image_eqI)

lemma manifest_select_Inr:
  assumes "distinct (map mt_name (pm_targets m))" "list_all target_ok (pm_targets m)"
  shows "manifest_select m name = Inr t \<longleftrightarrow>
    t \<in> set (pm_targets m) \<and> (case name of None \<Rightarrow> pm_default_target m | Some n \<Rightarrow> Some n) = Some (mt_name t)"
proof -
  have "valid_target_name (mt_name t)" if "t \<in> set (pm_targets m)"
    using that assms(2) by (auto simp: list_all_iff target_ok_def)
  then show ?thesis by (auto simp: manifest_select_def bind_result_Inr ok_or_Inr find_distinct [OF assms(1)])
qed

text \<open>
  The admission of a manifest never reaches the branch marked as unreachable. It succeeds
  exactly when the document is small and free of zero bytes, the expected path stays below its
  directory, and the document parses to version 1 in a server mode with distinct target names, one of
  which is the selected target: an enabled server stack with the expected configuration. A document
  that parses has at most 64 targets, each well formed.
\<close>

theorem manifest_admission_exact:
  "admit_server_stack source name path \<noteq> None \<and>
   (admit_server_stack source name path = Some (Inr ()) \<longleftrightarrow>
      length source \<le> 262144 \<and> CHR 0x00 \<notin> set source \<and> safe_stack_path path \<and>
      (\<exists>m t. manifest_parse source = Some (Inr m) \<and> pm_version m = Some 1 \<and>
         pm_repository_mode m \<in> {Some ''server-only'', Some ''hybrid''} \<and>
         distinct (map mt_name (pm_targets m)) \<and> length (pm_targets m) \<le> 64 \<and>
         list_all target_ok (pm_targets m) \<and> t \<in> set (pm_targets m) \<and>
         (case name of None \<Rightarrow> pm_default_target m | Some n \<Rightarrow> Some n) = Some (mt_name t) \<and>
         mt_enabled t \<and> mt_role t = ''server'' \<and> mt_middleware t = ''stack'' \<and> mt_stack_config t = Some path))"
proof -
  have total: "admit_server_stack source name path \<noteq> None"
    using manifest_parse_total [of source] by (simp add: admit_server_stack_def)
  have admit: "admit_stack t path = Inr () \<longleftrightarrow>
      mt_enabled t \<and> mt_role t = ''server'' \<and> mt_middleware t = ''stack'' \<and> mt_stack_config t = Some path" for t
    by (simp add: admit_stack_def)
  have "admit_server_stack source name path = Some (Inr ()) \<longleftrightarrow>
      length source \<le> 262144 \<and> CHR 0x00 \<notin> set source \<and> safe_stack_path path \<and>
      (\<exists>m t. manifest_parse source = Some (Inr m) \<and> manifest_checked m = Inr m \<and>
         manifest_select m name = Inr t \<and> admit_stack t path = Inr ())"
    by (auto simp: admit_server_stack_def max_manifest_bytes_def bind_result_Inr manifest_checked_Inr)
  with total show ?thesis
    unfolding manifest_checked_Inr admit
    using manifest_parse_inv manifest_select_Inr by (auto simp: conj_commute)
qed

section \<open>Printing manifests\<close>

text \<open>A manifest as a document: one line per value, the targets in order.\<close>

definition quoted :: "string \<Rightarrow> string" where
  "quoted v = [quote] @ v @ [quote]"

definition key_line :: "string \<Rightarrow> string \<Rightarrow> string" where
  "key_line key v = key @ '' = '' @ v"

definition target_lines :: "manifest_target \<Rightarrow> string list" where
  "target_lines t =
     [''[[targets]]'', key_line ''name'' (quoted (mt_name t)), key_line ''role'' (quoted (mt_role t)),
      key_line ''enabled'' (if mt_enabled t then ''true'' else ''false''),
      key_line ''middleware'' (quoted (mt_middleware t))] @
     (case mt_stack_config t of None \<Rightarrow> [] | Some path \<Rightarrow> [key_line ''stack_config'' (quoted path)])"

definition manifest_lines :: "parsed_manifest \<Rightarrow> string list" where
  "manifest_lines m =
     [key_line ''schema_version'' ''1''] @
     (case pm_repository_mode m of None \<Rightarrow> [] | Some mode \<Rightarrow> [key_line ''repository_mode'' (quoted mode)]) @
     (case pm_default_target m of None \<Rightarrow> [] | Some name \<Rightarrow> [key_line ''default_target'' (quoted name)]) @
     concat (map target_lines (pm_targets m))"

definition print_manifest :: "parsed_manifest \<Rightarrow> string" where
  "print_manifest m = concat (map (\<lambda>l. l @ [CHR 0x0A]) (manifest_lines m))"

text \<open>Text that can stand between quotes.\<close>

definition plain :: "string \<Rightarrow> bool" where
  "plain v \<longleftrightarrow> v \<noteq> [] \<and> \<not> has_control v \<and> backslash \<notin> set v \<and> quote \<notin> set v"

lemma has_control_byte: "c \<in> set v \<Longrightarrow> code_of c < 32 \<Longrightarrow> has_control v"
  by (induction v) auto

lemma visible_bytes_plain: "v \<noteq> [] \<Longrightarrow> list_all (\<lambda>c. visible c \<and> c \<noteq> quote \<and> c \<noteq> backslash) v \<Longrightarrow> plain v"
proof -
  have "list_all visible v \<Longrightarrow> \<not> has_control v" for v by (induction v) (auto simp: visible_def split: list.splits)
  then show "v \<noteq> [] \<Longrightarrow> list_all (\<lambda>c. visible c \<and> c \<noteq> quote \<and> c \<noteq> backslash) v \<Longrightarrow> plain v"
    by (auto simp: plain_def list_all_iff)
qed

lemma manifest_string_quoted: "plain v \<Longrightarrow> manifest_string (quoted v) = Inr v"
  by (simp add: manifest_string_def quoted_def plain_def strip_prefix_def strip_suffix_def starts_with_def
      ends_with_def ok_or_def)

lemma scan_plain:
  "quote \<notin> set (map snd ivs) \<Longrightarrow> backslash \<notin> set (map snd ivs) \<or> \<not> q \<Longrightarrow> CHR ''#'' \<notin> set (map snd ivs) \<or> q \<Longrightarrow>
   scan_loop (ScanOpen q) (ivs @ rest) = scan_loop (ScanOpen q) rest"
proof (induction ivs)
  case (Cons iv ivs)
  then show ?case by (cases iv) auto
qed simp

lemma snd_enum_list: "map snd (enum_list xs) = xs"
  by (simp add: enum_list_def)

lemma strip_comment_bare:
  "quote \<notin> set v \<Longrightarrow> CHR ''#'' \<notin> set v \<Longrightarrow> strip_comment v = Inr v"
  using scan_plain [of "enum_list v" False "[]"] by (simp add: strip_comment_def snd_enum_list)

lemma strip_comment_quoted:
  assumes "quote \<notin> set u" "CHR ''#'' \<notin> set u" "plain v"
  shows "strip_comment (u @ quoted v) = Inr (u @ quoted v)"
proof -
  have split: "\<exists>a i b j. ps = a @ (i, q) # b @ [(j, r)] \<and> map snd a = u \<and> map snd b = v"
    if "map snd ps = u @ q # v @ [r]" for ps :: "(nat \<times> char) list" and q r
  proof -
    from map_eq_append_conv [THEN iffD1, OF that] obtain a w where a: "ps = a @ w" "map snd a = u"
        "map snd w = q # v @ [r]" by metis
    from a(3) obtain i zs where w: "w = (i, q) # zs" "map snd zs = v @ [r]"
      by (cases w) (auto intro: prod.expand)
    from map_eq_append_conv [THEN iffD1, OF w(2)] obtain b y where b: "zs = b @ y" "map snd b = v" "map snd y = [r]"
      by metis
    then obtain j where "y = [(j, r)]" by auto
    with a w b show ?thesis by auto
  qed
  obtain a i b j where
    "enum_list (u @ quoted v) = a @ (i, quote) # b @ [(j, quote)]" "map snd a = u" "map snd b = v"
    using split [of "enum_list (u @ quoted v)" quote quote] by (auto simp: snd_enum_list quoted_def)
  then show ?thesis
    using assms scan_plain [of a False] scan_plain [of b True] by (simp add: strip_comment_def plain_def)
qed

lemma quoted_ends: "quoted v \<noteq> []" "hd (quoted v) = quote" "last (quoted v) = quote"
  by (simp_all add: quoted_def)

text \<open>A line that assigns a value, outside arrays and skipped sections.\<close>

lemma manifest_step_key:
  assumes "ps_pending_array_depth s = 0" "ps_section s \<noteq> OtherSection"
    and "key \<noteq> []" "list_all visible key" "CHR ''='' \<notin> set key" "hd key \<noteq> CHR ''[''"
    and "v \<noteq> []" "visible (hd v)" "visible (last v)"
    and "strip_comment (key_line key v) = Inr (key_line key v)"
  shows "manifest_step s (key_line key v) = manifest_assign s key v"
proof -
  have ends: "visible (hd key)" "visible (last key)" using assms(3,4) by (auto simp: list_all_iff)
  have "trim (key_line key v) = key_line key v"
    using assms(3,7,9) ends(1) by (intro trim_visible) (simp_all add: key_line_def)
  moreover have "split_once CHR ''='' (key_line key v) = Some (key @ '' '', CHR '' '' # v)"
    using split_once_append [of "CHR ''=''" "key @ '' ''" "CHR '' '' # v"] assms(5) by (simp add: key_line_def)
  moreover have "trim (key @ '' '') = key" "trim (CHR '' '' # v) = v"
    using assms(3,7-9) ends by (simp_all add: trim_space_end trim_space trim_visible)
  moreover have "\<not> starts_with ''['' (key_line key v)" "key_line key v \<noteq> []"
    using assms(3,6) by (cases key; simp add: key_line_def starts_with_def)+
  ultimately show ?thesis using assms(1,2,10) by (simp add: manifest_step_def Let_def)
qed

lemma manifest_step_quoted:
  assumes "ps_pending_array_depth s = 0" "ps_section s \<noteq> OtherSection"
    and "key \<noteq> []" "list_all visible key" "set key \<inter> {CHR ''='', quote, CHR ''#''} = {}" "hd key \<noteq> CHR ''[''"
    and "plain v"
  shows "manifest_step s (key_line key (quoted v)) = manifest_assign s key (quoted v)"
  using assms strip_comment_quoted [of "key @ '' = ''" v] quoted_ends [of v]
  by (intro manifest_step_key) (auto simp: key_line_def visible_def)

lemma manifest_step_bare:
  assumes "ps_pending_array_depth s = 0" "ps_section s \<noteq> OtherSection"
    and "key \<noteq> []" "list_all visible key" "set key \<inter> {CHR ''='', quote, CHR ''#''} = {}" "hd key \<noteq> CHR ''[''"
    and "v \<noteq> []" "list_all visible v" "set v \<inter> {quote, CHR ''#''} = {}"
  shows "manifest_step s (key_line key v) = manifest_assign s key v"
  using assms strip_comment_bare [of "key_line key v"]
  by (intro manifest_step_key) (auto simp: key_line_def list_all_iff)

lemma manifest_fold_append:
  "manifest_fold s (xs @ ys) =
     (case manifest_fold s xs of None \<Rightarrow> None | Some (Inl e) \<Rightarrow> Some (Inl e) | Some (Inr s') \<Rightarrow> manifest_fold s' ys)"
  by (induction xs arbitrary: s) (auto split: option.split sum.split)

definition builder_of :: "manifest_target \<Rightarrow> target_builder" where
  "builder_of t =
     \<lparr>tb_name = Some (mt_name t), tb_role = Some (mt_role t), tb_target_enabled = Some (mt_enabled t),
      tb_middleware = Some (mt_middleware t), tb_stack_config = mt_stack_config t\<rparr>"

lemma builder_finish_of: "target_ok t \<Longrightarrow> builder_finish (builder_of t) = Inr t"
  by (auto simp: builder_finish_def builder_of_def target_ok_def ok_or_def split: option.splits)

lemma target_texts_plain:
  assumes "target_ok t"
  shows "plain (mt_name t)" "plain (mt_role t)" "plain (mt_middleware t)"
proof -
  have "visible c \<and> c \<noteq> quote \<and> c \<noteq> backslash" if "is_ascii_lowercase c \<or> is_ascii_digit c \<or> c = CHR ''-''" for c
    using that by (auto simp: ascii_defs visible_def)
  then show "plain (mt_name t)"
    using assms by (intro visible_bytes_plain) (auto simp: target_ok_def valid_target_name_def list_all_iff)
  have "plain ''server''" "plain ''client''" "plain ''stack''" "plain ''propagation-only''" "plain ''disabled''"
    by (simp_all add: plain_def)
  then show "plain (mt_role t)" "plain (mt_middleware t)" using assms by (auto simp: target_ok_def)
qed

lemma manifest_step_targets:
  assumes "ps_pending_array_depth s = 0" "close_target s = Inr c" "length (ps_targets c) < max_targets"
  shows "manifest_step s ''[[targets]]'' =
    Some (Inr (c\<lparr>ps_current := Some target_builder_default, ps_section := TargetSection\<rparr>))"
proof -
  have "trim ''[[targets]]'' = ''[[targets]]''" by (rule trim_all_visible) (simp add: visible_def)
  moreover have "strip_comment ''[[targets]]'' = Inr ''[[targets]]''" by (rule strip_comment_bare) simp_all
  ultimately show ?thesis using assms by (simp add: manifest_step_def starts_with_def)
qed

lemma target_key_steps:
  assumes "ps_pending_array_depth s = 0" "ps_section s = TargetSection" "ps_current s = Some b"
  shows "plain v \<Longrightarrow> tb_name b = None \<Longrightarrow> manifest_step s (key_line ''name'' (quoted v)) =
      Some (Inr (s\<lparr>ps_current := Some (b\<lparr>tb_name := Some v\<rparr>)\<rparr>))"
    and "plain v \<Longrightarrow> tb_role b = None \<Longrightarrow> manifest_step s (key_line ''role'' (quoted v)) =
      Some (Inr (s\<lparr>ps_current := Some (b\<lparr>tb_role := Some v\<rparr>)\<rparr>))"
    and "plain v \<Longrightarrow> tb_middleware b = None \<Longrightarrow> manifest_step s (key_line ''middleware'' (quoted v)) =
      Some (Inr (s\<lparr>ps_current := Some (b\<lparr>tb_middleware := Some v\<rparr>)\<rparr>))"
    and "plain v \<Longrightarrow> tb_stack_config b = None \<Longrightarrow> manifest_step s (key_line ''stack_config'' (quoted v)) =
      Some (Inr (s\<lparr>ps_current := Some (b\<lparr>tb_stack_config := Some v\<rparr>)\<rparr>))"
    and "tb_target_enabled b = None \<Longrightarrow> manifest_step s (key_line ''enabled'' (if e then ''true'' else ''false'')) =
      Some (Inr (s\<lparr>ps_current := Some (b\<lparr>tb_target_enabled := Some e\<rparr>)\<rparr>))"
proof -
  have step: "manifest_step s (key_line key (quoted v)) =
      Some (bind_result (builder_with b key (quoted v)) (\<lambda>b. Inr (s\<lparr>ps_current := Some b\<rparr>)))"
    if "plain v" "key \<in> {''name'', ''role'', ''middleware'', ''stack_config''}" for key v
    using that assms
    by (subst manifest_step_quoted) (auto simp: manifest_assign_def ok_or_def visible_def)
  show "plain v \<Longrightarrow> tb_name b = None \<Longrightarrow> manifest_step s (key_line ''name'' (quoted v)) =
      Some (Inr (s\<lparr>ps_current := Some (b\<lparr>tb_name := Some v\<rparr>)\<rparr>))"
    "plain v \<Longrightarrow> tb_role b = None \<Longrightarrow> manifest_step s (key_line ''role'' (quoted v)) =
      Some (Inr (s\<lparr>ps_current := Some (b\<lparr>tb_role := Some v\<rparr>)\<rparr>))"
    "plain v \<Longrightarrow> tb_middleware b = None \<Longrightarrow> manifest_step s (key_line ''middleware'' (quoted v)) =
      Some (Inr (s\<lparr>ps_current := Some (b\<lparr>tb_middleware := Some v\<rparr>)\<rparr>))"
    "plain v \<Longrightarrow> tb_stack_config b = None \<Longrightarrow> manifest_step s (key_line ''stack_config'' (quoted v)) =
      Some (Inr (s\<lparr>ps_current := Some (b\<lparr>tb_stack_config := Some v\<rparr>)\<rparr>))"
    by (simp_all add: step builder_with_def manifest_string_quoted set_once_def)
  show "tb_target_enabled b = None \<Longrightarrow> manifest_step s (key_line ''enabled'' (if e then ''true'' else ''false'')) =
      Some (Inr (s\<lparr>ps_current := Some (b\<lparr>tb_target_enabled := Some e\<rparr>)\<rparr>))"
    using assms
    by (subst manifest_step_bare)
      (simp_all add: visible_def manifest_assign_def builder_with_def manifest_bool_def set_once_def ok_or_def)
qed

lemma manifest_fold_target:
  assumes "ps_pending_array_depth s = 0" "close_target s = Inr c" "length (ps_targets c) < max_targets"
    and "target_ok t" "pred_option plain (mt_stack_config t)"
  shows "manifest_fold s (target_lines t) =
    Some (Inr (c\<lparr>ps_current := Some (builder_of t), ps_section := TargetSection\<rparr>))"
proof -
  have c: "ps_pending_array_depth c = 0"
    using assms(1,2) by (auto simp: close_target_def bind_result_Inr split: option.splits)
  show ?thesis
    using assms(5) c target_texts_plain [OF assms(4)]
    by (cases "mt_stack_config t")
      (simp_all add: target_lines_def manifest_step_targets [OF assms(1-3)] target_key_steps
        target_builder_default_def builder_of_def)
qed

lemma manifest_fold_targets:
  assumes "ps_pending_array_depth s = 0" "close_target s = Inr c" "length (ps_targets c) + length ts \<le> max_targets"
    and "list_all (\<lambda>t. target_ok t \<and> pred_option plain (mt_stack_config t)) ts"
  shows "\<exists>s' c'. manifest_fold s (concat (map target_lines ts)) = Some (Inr s') \<and>
    ps_pending_array_depth s' = 0 \<and> close_target s' = Inr c' \<and> ps_targets c' = ps_targets c @ ts \<and>
    ps_version c' = ps_version c \<and> ps_repository_mode c' = ps_repository_mode c \<and>
    ps_default_target c' = ps_default_target c"
  using assms
proof (induction ts arbitrary: s c)
  case Nil
  then show ?case by simp
next
  case (Cons t ts)
  let ?s = "c\<lparr>ps_current := Some (builder_of t), ps_section := TargetSection\<rparr>"
  let ?c = "?s\<lparr>ps_current := None, ps_targets := ps_targets c @ [t]\<rparr>"
  have c: "ps_pending_array_depth c = 0"
    using Cons.prems(1,2) by (auto simp: close_target_def bind_result_Inr split: option.splits)
  have "manifest_fold s (target_lines t) = Some (Inr ?s)"
    using Cons.prems by (intro manifest_fold_target) auto
  moreover have "close_target ?s = Inr ?c"
    using Cons.prems(4) by (simp add: close_target_def builder_finish_of)
  ultimately show ?case
    using Cons.IH [of ?s ?c] Cons.prems(3,4) c by (simp add: manifest_fold_append)
qed

lemma split_on_lines:
  "list_all (\<lambda>l. c \<notin> set l) ls \<Longrightarrow> split_on c (concat (map (\<lambda>l. l @ [c]) ls)) = ls @ [[]]"
  by (induction ls) (simp_all add: split_on_append)

definition line_text :: "string \<Rightarrow> bool" where
  "line_text l \<longleftrightarrow> CHR 0x0A \<notin> set l \<and> l \<noteq> [] \<and> last l \<noteq> CHR 0x0D"

lemma str_lines_concat:
  assumes "list_all line_text ls"
  shows "str_lines (concat (map (\<lambda>l. l @ [CHR 0x0A]) ls)) = ls"
proof -
  have "split_on CHR 0x0A (concat (map (\<lambda>l. l @ [CHR 0x0A]) ls)) = ls @ [[]]"
    using assms by (intro split_on_lines) (auto simp: line_text_def list_all_iff)
  moreover have "strip_suffix [CHR 0x0D] l = None" if "line_text l" for l
    using that by (cases l rule: rev_cases) (auto simp: strip_suffix_def ends_with_def line_text_def)
  ultimately show ?thesis
    using assms by (auto simp: str_lines_def Let_def list_all_iff intro!: map_idI)
qed

lemma line_text_quoted: "plain v \<Longrightarrow> CHR 0x0A \<notin> set key \<Longrightarrow> line_text (key_line key (quoted v))"
  using has_control_byte [of "CHR 0x0A" v] by (auto simp: line_text_def key_line_def quoted_def plain_def)

lemma target_lines_text:
  "target_ok t \<Longrightarrow> pred_option plain (mt_stack_config t) \<Longrightarrow> list_all line_text (target_lines t)"
  using target_texts_plain [of t]
  by (cases "mt_stack_config t"; cases "mt_enabled t")
    (simp_all add: target_lines_def line_text_quoted, simp_all add: line_text_def key_line_def)

definition printable_manifest :: "parsed_manifest \<Rightarrow> bool" where
  "printable_manifest m \<longleftrightarrow>
     pm_version m = Some 1 \<and> pred_option plain (pm_repository_mode m) \<and> pred_option plain (pm_default_target m) \<and>
     length (pm_targets m) \<le> 64 \<and>
     list_all (\<lambda>t. target_ok t \<and> pred_option plain (mt_stack_config t)) (pm_targets m)"

lemma manifest_lines_text: "printable_manifest m \<Longrightarrow> list_all line_text (manifest_lines m)"
proof -
  assume m: "printable_manifest m"
  have "list_all line_text (concat (map target_lines (pm_targets m)))"
    using m target_lines_text by (fastforce simp: printable_manifest_def list_all_iff)
  moreover have "line_text (key_line ''schema_version'' ''1'')" by (simp add: line_text_def key_line_def)
  ultimately show ?thesis
    using m by (auto simp: manifest_lines_def printable_manifest_def line_text_quoted split: option.splits)
qed

lemma root_key_steps:
  assumes "ps_pending_array_depth s = 0" "ps_section s = RootSection"
  shows "ps_version s = None \<Longrightarrow> manifest_step s (key_line ''schema_version'' ''1'') = Some (Inr (s\<lparr>ps_version := Some 1\<rparr>))"
    and "plain v \<Longrightarrow> ps_repository_mode s = None \<Longrightarrow> manifest_step s (key_line ''repository_mode'' (quoted v)) =
      Some (Inr (s\<lparr>ps_repository_mode := Some v\<rparr>))"
    and "plain v \<Longrightarrow> ps_default_target s = None \<Longrightarrow> manifest_step s (key_line ''default_target'' (quoted v)) =
      Some (Inr (s\<lparr>ps_default_target := Some v\<rparr>))"
proof -
  have one: "manifest_u32 ''1'' = Inr 1"
    by (simp add: manifest_u32_def parse_unsigned_def to_digit_def ok_or_def ascii_defs opt_filter_def)
  show "ps_version s = None \<Longrightarrow> manifest_step s (key_line ''schema_version'' ''1'') = Some (Inr (s\<lparr>ps_version := Some 1\<rparr>))"
    using assms by (subst manifest_step_bare) (simp_all add: visible_def manifest_assign_def set_once_def one)
  show "plain v \<Longrightarrow> ps_repository_mode s = None \<Longrightarrow> manifest_step s (key_line ''repository_mode'' (quoted v)) =
      Some (Inr (s\<lparr>ps_repository_mode := Some v\<rparr>))"
    using assms
    by (subst manifest_step_quoted) (simp_all add: visible_def manifest_assign_def set_once_def manifest_string_quoted)
  show "plain v \<Longrightarrow> ps_default_target s = None \<Longrightarrow> manifest_step s (key_line ''default_target'' (quoted v)) =
      Some (Inr (s\<lparr>ps_default_target := Some v\<rparr>))"
    using assms
    by (subst manifest_step_quoted) (simp_all add: visible_def manifest_assign_def set_once_def manifest_string_quoted)
qed

text \<open>
  The parser reads back what a manifest says: the document that lists the version, the mode, the
  default target and the targets of a manifest, one value per line, parses to exactly this manifest.
\<close>

theorem manifest_round_trip:
  assumes "printable_manifest m"
  shows "manifest_parse (print_manifest m) = Some (Inr m)"
proof -
  let ?s = "parse_state_default\<lparr>ps_version := Some 1, ps_repository_mode := pm_repository_mode m,
    ps_default_target := pm_default_target m\<rparr>"
  have m: "pm_version m = Some 1" "pred_option plain (pm_repository_mode m)" "pred_option plain (pm_default_target m)"
    "length (pm_targets m) \<le> max_targets"
    "list_all (\<lambda>t. target_ok t \<and> pred_option plain (mt_stack_config t)) (pm_targets m)"
    using assms by (simp_all add: printable_manifest_def max_targets_def)
  have root: "manifest_fold parse_state_default (manifest_lines m) =
      manifest_fold ?s (concat (map target_lines (pm_targets m)))"
    using m(2,3)
    by (cases "pm_repository_mode m"; cases "pm_default_target m")
      (simp_all add: manifest_lines_def root_key_steps parse_state_default_def)
  have "close_target ?s = Inr ?s" by (simp add: close_target_def parse_state_default_def)
  from manifest_fold_targets [OF _ this, of "pm_targets m"] m obtain s' c' where
    "manifest_fold ?s (concat (map target_lines (pm_targets m))) = Some (Inr s')"
    "ps_pending_array_depth s' = 0" "close_target s' = Inr c'" "ps_targets c' = pm_targets m"
    "ps_version c' = pm_version m" "ps_repository_mode c' = pm_repository_mode m"
    "ps_default_target c' = pm_default_target m"
    by (auto simp: parse_state_default_def)
  moreover have "str_lines (print_manifest m) = manifest_lines m"
    unfolding print_manifest_def by (rule str_lines_concat, rule manifest_lines_text, rule assms)
  ultimately show ?thesis by (simp add: manifest_parse_def root manifest_finish_def)
qed

definition sample_manifest :: parsed_manifest where
  "sample_manifest =
     \<lparr>pm_version = Some 1, pm_repository_mode = Some ''hybrid'', pm_default_target = Some ''api'',
      pm_targets =
        [\<lparr>mt_name = ''web'', mt_role = ''client'', mt_enabled = False, mt_middleware = ''propagation-only'',
          mt_stack_config = None\<rparr>,
         \<lparr>mt_name = ''api'', mt_role = ''server'', mt_enabled = True, mt_middleware = ''stack'',
          mt_stack_config = Some ''conf/stack.json''\<rparr>]\<rparr>"

theorem manifest_round_trip_witness:
  "printable_manifest sample_manifest \<and> manifest_parse (print_manifest sample_manifest) = Some (Inr sample_manifest)"
proof -
  have "printable_manifest sample_manifest"
    by (simp add: printable_manifest_def sample_manifest_def plain_def target_ok_def valid_target_name_def
        ascii_defs safe_stack_path_def ends_with_def starts_with_def)
  then show ?thesis using manifest_round_trip by blast
qed

end
