(* ===== verification/Host_Abi.thy ===== *)
theory Host_Abi
  imports Stack
begin

text \<open>
  \<^verbatim>\<open>src/src/rust/src/host_abi.rs\<close>: the frames exchanged with isolated middleware hosts and their
  validation. The serialisation of a configuration and the digest are packages: arguments of the
  definitions that identify a configuration.
\<close>

section \<open>Constants and data\<close>

definition host_abi_schema :: string where "host_abi_schema = ''ores.middleware.host/v1''"
definition host_abi_version :: string where "host_abi_version = ''1''"
definition max_host_adapter_id_bytes :: nat where "max_host_adapter_id_bytes = 128"
definition max_host_header_count :: nat where "max_host_header_count = 256"
definition max_host_header_bytes :: nat where "max_host_header_bytes = 64 * 1024"
definition max_host_method_bytes :: nat where "max_host_method_bytes = 32"
definition max_host_path_bytes :: nat where "max_host_path_bytes = 8 * 1024"
definition max_host_session_id_bytes :: nat where "max_host_session_id_bytes = 128"

datatype host_kind = LocalProcessKind | CloudflareWorkerKind

datatype host_execution_model = LocalProcess | FetchHandler | EventHooks | LambdaEvents | WasiHttp

record host_capabilities =
  hc_streaming_response :: bool
  hc_response_head_available_observation :: bool
  hc_response_head_commit_observation :: bool
  hc_body_stream_completion_observation :: bool
  hc_transport_completion_observation :: bool
  hc_client_disconnect_observation :: bool
  hc_background_wait_until :: bool
  hc_wasm_module :: bool

definition capabilities_local_process :: host_capabilities where
  "capabilities_local_process =
     \<lparr>hc_streaming_response = True, hc_response_head_available_observation = True,
      hc_response_head_commit_observation = True, hc_body_stream_completion_observation = True,
      hc_transport_completion_observation = True, hc_client_disconnect_observation = True,
      hc_background_wait_until = False, hc_wasm_module = False\<rparr>"

definition capabilities_fetch_handler :: host_capabilities where
  "capabilities_fetch_handler =
     \<lparr>hc_streaming_response = True, hc_response_head_available_observation = True,
      hc_response_head_commit_observation = False, hc_body_stream_completion_observation = True,
      hc_transport_completion_observation = False, hc_client_disconnect_observation = False,
      hc_background_wait_until = True, hc_wasm_module = False\<rparr>"

datatype response_head_phase = HeadAvailable | HeadCommitted

datatype completion_boundary = BodyStream | Transport

datatype host_outcome = Completed | Disconnected | TimedOut | ChildFailed

record host_abi_error =
  ha_code :: string
  ha_message :: string

definition host_abi_error_new :: "string \<Rightarrow> string \<Rightarrow> host_abi_error" where
  "host_abi_error_new code message = \<lparr>ha_code = code, ha_message = message\<rparr>"

definition host_abi_error_display :: "host_abi_error \<Rightarrow> string" where
  "host_abi_error_display e = ha_message e @ '' ('' @ ha_code e @ '')''"

record host_descriptor =
  hd_schema :: string
  hd_abi_version :: string
  hd_middleware_contract_version :: string
  hd_adapter_id :: string
  hd_execution_model :: host_execution_model
  hd_capabilities :: host_capabilities
  hd_config_sha256 :: string

record host_request =
  hq_schema :: string
  hq_method :: string
  hq_path :: string
  hq_headers :: headers
  hq_trusted_remote_ip :: "string option"
  hq_content_length :: "u64 option"
  hq_trusted_transport_secure :: bool

definition host_request_new :: "string \<Rightarrow> string \<Rightarrow> host_request" where
  "host_request_new m path =
     \<lparr>hq_schema = host_abi_schema, hq_method = m, hq_path = path, hq_headers = [],
      hq_trusted_remote_ip = None, hq_content_length = None, hq_trusted_transport_secure = False\<rparr>"

datatype host_begin_result =
    Permit (pe_schema: string) (pe_session_id: string) (pe_request_id: string) (pe_trace_id: string)
      (pe_response_headers: headers)
  | Reject (re_schema: string) (re_status: u16) (re_code: string) (re_message: string) (re_headers: headers)

record response_head_request =
  hh_schema :: string
  hh_session_id :: string
  hh_status :: u16
  hh_phase :: response_head_phase

record response_head_result =
  hr_schema :: string
  hr_status :: u16
  hr_phase :: response_head_phase
  hr_elapsed_ms :: u64

record host_finish_request =
  hf_schema :: string
  hf_session_id :: string
  hf_status :: u16
  hf_response_bytes :: "u64 option"
  hf_outcome :: host_outcome
  hf_completion_boundary :: completion_boundary

record host_finish_result =
  fr_schema :: string
  fr_outcome :: host_outcome
  fr_completion_boundary :: completion_boundary
  fr_status :: u16
  fr_available_ms :: "u64 option"
  fr_committed_ms :: "u64 option"
  fr_total_duration_ms :: u64
  fr_response_headers :: headers

section \<open>Validation\<close>

definition validate_adapter_id :: "string \<Rightarrow> (host_abi_error, unit) result" where
  "validate_adapter_id adapter_id =
     (if adapter_id = [] \<or> length adapter_id > max_host_adapter_id_bytes \<or>
         \<not> list_all (\<lambda>(index, b).
             if index = 0 then is_ascii_lowercase b \<or> is_ascii_digit b
             else is_ascii_lowercase b \<or> is_ascii_digit b \<or> b \<in> {CHR ''.'', CHR ''_'', CHR ''/'', CHR ''-''})
           (enum_list adapter_id) then
        Inl (host_abi_error_new ''invalid_adapter_id''
          ''middleware host adapter id violates the canonical ABI pattern'')
      else Inr ())"

definition validate_schema :: "string \<Rightarrow> (host_abi_error, unit) result" where
  "validate_schema schema =
     (if schema = host_abi_schema then Inr ()
      else Inl (host_abi_error_new ''unsupported_host_abi''
        ''middleware host frame uses an unsupported ABI schema''))"

definition validate_session_id :: "string \<Rightarrow> (host_abi_error, unit) result" where
  "validate_session_id session_id =
     (if session_id = [] \<or> length session_id > max_host_session_id_bytes then
        Inl (host_abi_error_new ''invalid_session_id'' ''middleware host session id is empty or too long'')
      else Inr ())"

definition validate_status :: "u16 \<Rightarrow> (host_abi_error, unit) result" where
  "validate_status status =
     (if 100 \<le> status \<and> status \<le> 599 then Inr ()
      else Inl (host_abi_error_new ''invalid_status'' ''middleware host status must be an HTTP status code''))"

text \<open>Byte 39 is the single quote and byte 96 the backquote.\<close>

definition valid_host_header_name :: "string \<Rightarrow> bool" where
  "valid_host_header_name name \<longleftrightarrow>
     name \<noteq> [] \<and>
     list_all (\<lambda>b. is_ascii_lowercase b \<or> is_ascii_digit b \<or>
       b \<in> {CHR ''!'', CHR ''#'', CHR ''$'', CHR ''%'', CHR ''&'', CHR 0x27, CHR ''*'', CHR ''+'', CHR ''-'',
            CHR ''.'', CHR ''^'', CHR ''_'', CHR 0x60, CHR ''|'', CHR ''~''}) name"

fun validate_headers_loop :: "(string \<times> string) list \<Rightarrow> nat \<Rightarrow> (host_abi_error, nat) result" where
  "validate_headers_loop [] total_bytes = Inr total_bytes"
| "validate_headers_loop ((name, v) # rest) total_bytes =
     (if \<not> valid_host_header_name name then
        Inl (host_abi_error_new ''invalid_header_name''
          ''middleware host headers must use canonical lowercase ASCII names'')
      else if list_ex (\<lambda>b. b \<in> {CHR 0x0D, CHR 0x0A, CHR 0x00}) v then
        Inl (host_abi_error_new ''invalid_header_value''
          ''middleware host header values may not contain framing bytes'')
      else
        (case Option.bind (checked_add_usize total_bytes (length name)) (\<lambda>n. checked_add_usize n (length v)) of
           None \<Rightarrow> Inl (host_abi_error_new ''headers_too_large'' ''middleware host header size overflowed'')
         | Some n \<Rightarrow> validate_headers_loop rest n))"

definition validate_host_headers :: "headers \<Rightarrow> (host_abi_error, unit) result" where
  "validate_host_headers hs =
     (if length hs > max_host_header_count then
        Inl (host_abi_error_new ''too_many_headers'' ''middleware host request exceeds the header-count limit'')
      else bind_result (validate_headers_loop hs 0) (\<lambda>total_bytes.
        if total_bytes > max_host_header_bytes then
          Inl (host_abi_error_new ''headers_too_large''
            ''middleware host request exceeds the aggregate header-byte limit'')
        else Inr ()))"

definition is_ascii_control :: "char \<Rightarrow> bool" where
  "is_ascii_control c \<longleftrightarrow> code_of c < 32 \<or> code_of c = 127"

definition host_request_validate :: "host_request \<Rightarrow> (host_abi_error, unit) result" where
  "host_request_validate q =
     bind_result (validate_schema (hq_schema q)) (\<lambda>_.
     if hq_method q = [] \<or> length (hq_method q) > max_host_method_bytes then
       Inl (host_abi_error_new ''invalid_method'' ''middleware host method is empty or exceeds the bounded ABI limit'')
     else if \<not> list_all (\<lambda>b. is_ascii_uppercase b \<or> is_ascii_digit b \<or> b \<in> {CHR ''-'', CHR ''_''}) (hq_method q) then
       Inl (host_abi_error_new ''invalid_method''
         ''middleware host method must use normalized uppercase ASCII token bytes'')
     else if hq_path q = [] \<or> length (hq_path q) > max_host_path_bytes \<or> \<not> starts_with ''/'' (hq_path q) \<or>
         list_ex is_ascii_control (hq_path q) then
       Inl (host_abi_error_new ''invalid_path'' ''middleware host path is not a bounded normalized absolute path'')
     else validate_host_headers (hq_headers q))"

definition into_request_metadata :: "host_request \<Rightarrow> (host_abi_error, request_metadata) result" where
  "into_request_metadata q =
     bind_result (host_request_validate q) (\<lambda>_.
       Inr \<lparr>rq_method = hq_method q, rq_path = hq_path q, rq_headers = hq_headers q,
            rq_remote_ip = hq_trusted_remote_ip q, rq_content_length = hq_content_length q,
            rq_transport_secure = hq_trusted_transport_secure q\<rparr>)"

definition response_head_validate :: "response_head_request \<Rightarrow> (host_abi_error, unit) result" where
  "response_head_validate q =
     bind_result (validate_schema (hh_schema q)) (\<lambda>_.
     bind_result (validate_session_id (hh_session_id q)) (\<lambda>_. validate_status (hh_status q)))"

definition host_finish_validate :: "host_finish_request \<Rightarrow> (host_abi_error, unit) result" where
  "host_finish_validate q =
     bind_result (validate_schema (hf_schema q)) (\<lambda>_.
     bind_result (validate_session_id (hf_session_id q)) (\<lambda>_. validate_status (hf_status q)))"

section \<open>Descriptors\<close>

definition middleware_config_sha256 ::
    "(middleware_config \<Rightarrow> bytes option) \<Rightarrow> (bytes \<Rightarrow> bytes) \<Rightarrow> middleware_config \<Rightarrow> (host_abi_error, string) result" where
  "middleware_config_sha256 encode sha256 cfg =
     (case encode cfg of
        None \<Rightarrow> Inl (host_abi_error_new ''config_identity_failed''
          ''middleware config could not be serialized for host identity'')
      | Some encoded \<Rightarrow> Inr (hex_bytes (sha256 encoded)))"

definition descriptor_for_adapter_config ::
    "(middleware_config \<Rightarrow> bytes option) \<Rightarrow> (bytes \<Rightarrow> bytes) \<Rightarrow> string \<Rightarrow> host_execution_model \<Rightarrow>
     host_capabilities \<Rightarrow> middleware_config \<Rightarrow> (host_abi_error, host_descriptor) result" where
  "descriptor_for_adapter_config encode sha256 adapter_id model caps cfg =
     bind_result (validate_adapter_id adapter_id) (\<lambda>_.
     bind_result (middleware_config_sha256 encode sha256 cfg) (\<lambda>digest.
       Inr \<lparr>hd_schema = host_abi_schema, hd_abi_version = host_abi_version,
            hd_middleware_contract_version = contract_version, hd_adapter_id = adapter_id,
            hd_execution_model = model, hd_capabilities = caps, hd_config_sha256 = digest\<rparr>))"

definition descriptor_for_config ::
    "(middleware_config \<Rightarrow> bytes option) \<Rightarrow> (bytes \<Rightarrow> bytes) \<Rightarrow> host_kind \<Rightarrow> middleware_config \<Rightarrow>
     (host_abi_error, host_descriptor) result" where
  "descriptor_for_config encode sha256 kind cfg =
     (case kind of
        LocalProcessKind \<Rightarrow> descriptor_for_adapter_config encode sha256 ''ores.local-process'' LocalProcess
          capabilities_local_process cfg
      | CloudflareWorkerKind \<Rightarrow> descriptor_for_adapter_config encode sha256 ''cloudflare.worker'' FetchHandler
          capabilities_fetch_handler cfg)"

section \<open>What a valid frame guarantees\<close>

definition frame_header_bytes :: "headers \<Rightarrow> nat" where
  "frame_header_bytes hs = (\<Sum>(k, v) \<leftarrow> hs. length k + length v)"

definition host_header_ok :: "string \<times> string \<Rightarrow> bool" where
  "host_header_ok kv \<longleftrightarrow> valid_host_header_name (fst kv) \<and> set (snd kv) \<inter> {CHR 0x0D, CHR 0x0A, CHR 0x00} = {}"

lemma frame_header_bytes_simps [simp]:
  "frame_header_bytes [] = 0" "frame_header_bytes ((k, v) # hs) = length k + length v + frame_header_bytes hs"
  by (simp_all add: frame_header_bytes_def)

lemma validate_headers_loop_exact:
  "t < 2 ^ 64 \<Longrightarrow>
   validate_headers_loop hs n = Inr t \<longleftrightarrow> t = n + frame_header_bytes hs \<and> list_all host_header_ok hs"
proof (induction hs n rule: validate_headers_loop.induct)
  case (2 k v hs n)
  have ok: "list_all host_header_ok ((k, v) # hs) \<longleftrightarrow>
      valid_host_header_name k \<and> \<not> list_ex (\<lambda>b. b \<in> {CHR 0x0D, CHR 0x0A, CHR 0x00}) v \<and> list_all host_header_ok hs"
    by (auto simp: host_header_ok_def list_ex_iff)
  show ?case
  proof (cases "n + length k + length v < 2 ^ 64")
    case True
    then have sum: "Option.bind (checked_add_usize n (length k)) (\<lambda>n. checked_add_usize n (length v)) =
        Some (n + length k + length v)"
      by (simp add: checked_add_usize_def)
    show ?thesis
      unfolding ok validate_headers_loop.simps(2) sum using "2.IH" [OF _ _ sum "2.prems"]
      by (auto simp: add.assoc)
  next
    case False
    then have sum: "Option.bind (checked_add_usize n (length k)) (\<lambda>n. checked_add_usize n (length v)) = None"
      by (auto simp: checked_add_usize_def)
    show ?thesis
      unfolding ok validate_headers_loop.simps(2) sum using False "2.prems" by auto
  qed
qed auto

lemma validate_host_headers_exact:
  "validate_host_headers hs = Inr u \<longleftrightarrow>
   length hs \<le> 256 \<and> frame_header_bytes hs \<le> 65536 \<and> list_all host_header_ok hs"
proof -
  have "(\<exists>t. validate_headers_loop hs 0 = Inr t \<and> t \<le> 65536) \<longleftrightarrow> frame_header_bytes hs \<le> 65536 \<and> list_all host_header_ok hs"
    (is "?l = ?r")
  proof
    assume ?l
    then obtain t where t: "validate_headers_loop hs 0 = Inr t" "t \<le> 65536" by blast
    with validate_headers_loop_exact [of t hs 0] show ?r by simp
  next
    assume ?r
    with validate_headers_loop_exact [of "frame_header_bytes hs" hs 0] show ?l by auto
  qed
  moreover have "validate_host_headers hs = Inr u \<longleftrightarrow>
      length hs \<le> 256 \<and> (\<exists>t. validate_headers_loop hs 0 = Inr t \<and> t \<le> 65536)"
    by (cases "validate_headers_loop hs 0")
      (simp_all add: validate_host_headers_def max_host_header_bytes_def max_host_header_count_def)
  ultimately show ?thesis by simp
qed

lemma host_header_name_lower: "valid_host_header_name k \<Longrightarrow> to_ascii_lowercase k = k"
  unfolding valid_host_header_name_def to_ascii_lowercase_def
  by (rule map_idI) (auto simp: list_all_iff lower_char_def ascii_defs)

definition host_method_byte :: "char \<Rightarrow> bool" where
  "host_method_byte b \<longleftrightarrow> is_ascii_uppercase b \<or> is_ascii_digit b \<or> b = CHR ''-'' \<or> b = CHR ''_''"

lemma host_request_validate_Inr:
  "host_request_validate q = Inr u \<longleftrightarrow>
     hq_schema q = host_abi_schema \<and>
     0 < length (hq_method q) \<and> length (hq_method q) \<le> 32 \<and> list_all host_method_byte (hq_method q) \<and>
     (\<exists>rest. hq_path q = CHR ''/'' # rest) \<and> length (hq_path q) \<le> 8192 \<and>
     \<not> list_ex is_ascii_control (hq_path q) \<and>
     length (hq_headers q) \<le> 256 \<and> frame_header_bytes (hq_headers q) \<le> 65536 \<and>
     list_all host_header_ok (hq_headers q)"
proof -
  have m: "list_all (\<lambda>b. is_ascii_uppercase b \<or> is_ascii_digit b \<or> b = CHR ''-'' \<or> b = CHR ''_'') xs =
      list_all host_method_byte xs" for xs
    by (simp add: host_method_byte_def list_all_iff)
  have path: "starts_with ''/'' xs \<longleftrightarrow> (\<exists>rest. xs = CHR ''/'' # rest)" for xs
    by (cases xs) (auto simp: starts_with_def)
  show ?thesis
    by (auto simp: host_request_validate_def bind_result_Inr m path
        validate_host_headers_exact validate_schema_def max_host_method_bytes_def max_host_path_bytes_def
        split: if_splits)
qed

lemma into_request_metadata_Inr:
  "into_request_metadata q = Inr request \<longleftrightarrow>
     host_request_validate q = Inr () \<and>
     request = \<lparr>rq_method = hq_method q, rq_path = hq_path q, rq_headers = hq_headers q,
       rq_remote_ip = hq_trusted_remote_ip q, rq_content_length = hq_content_length q,
       rq_transport_secure = hq_trusted_transport_secure q\<rparr>"
  by (auto simp: into_request_metadata_def bind_result_Inr)

text \<open>
  A host frame becomes a request exactly when it has the schema of this ABI, a method of 1 to 32
  uppercase token bytes, an absolute path of at most 8 KiB without control bytes, and at most 256
  headers of 64 KiB together whose names are canonical lowercase tokens and whose values hold no
  framing byte; and the request is then the frame, field by field.
\<close>

theorem host_request_exact:
  "into_request_metadata q = Inr request \<longleftrightarrow>
     hq_schema q = host_abi_schema \<and>
     0 < length (hq_method q) \<and> length (hq_method q) \<le> 32 \<and> list_all host_method_byte (hq_method q) \<and>
     (\<exists>rest. hq_path q = CHR ''/'' # rest) \<and> length (hq_path q) \<le> 8192 \<and>
     \<not> list_ex is_ascii_control (hq_path q) \<and>
     length (hq_headers q) \<le> 256 \<and> frame_header_bytes (hq_headers q) \<le> 65536 \<and>
     list_all host_header_ok (hq_headers q) \<and>
     request = \<lparr>rq_method = hq_method q, rq_path = hq_path q, rq_headers = hq_headers q,
       rq_remote_ip = hq_trusted_remote_ip q, rq_content_length = hq_content_length q,
       rq_transport_secure = hq_trusted_transport_secure q\<rparr>"
  by (auto simp: into_request_metadata_Inr host_request_validate_Inr)

end
