(* ===== verification/Local_Host.thy ===== *)
theory Local_Host
  imports Host_Abi Stack_Guarantees
begin

text \<open>
  \<^verbatim>\<open>src/src/rust/src/hosts/local.rs\<close> and the header projection of
  \<^verbatim>\<open>frameworks/streaming_response.rs\<close>: a host that keeps the admitted requests of a stack under
  opaque session ids until they are finished. The state is the table of sessions, the poison flag of its
  mutex and the world of the stack; the identifiers and the clock come from the environment.
\<close>

section \<open>Headers of an admitted request\<close>

definition response_headers_from_context :: "middleware_config \<Rightarrow> string \<Rightarrow> headers" where
  "response_headers_from_context cfg request_id =
     (let settings = mc_settings cfg; security = ms_security_headers settings;
          request_id_header = (ms_request_id_header settings, request_id);
          security_headers = then_some (sh_enabled security)
            [(''x-content-type-options'', ''nosniff''), (''x-frame-options'', sh_frame_options security),
             (''referrer-policy'', ''strict-origin-when-cross-origin''),
             (''strict-transport-security'',
              ''max-age='' @ show_word (sh_hsts_max_age_seconds security) @ ''; includeSubDomains'')];
          csp_header = map_option (\<lambda>csp. (''content-security-policy'', csp))
            (Option.bind (then_some (sh_enabled security) (sh_content_security_policy security)) id)
      in bt_collect ([request_id_header] @ concat (opt_list security_headers) @ opt_list csp_header))"

definition response_headers :: "'x middleware_stack \<Rightarrow> active_request \<Rightarrow> headers" where
  "response_headers s active =
     (let hs = response_headers_from_context (mk_config s) (rc_request_id (ar_context active))
      in case ar_rate_limit_decision active of
           None \<Rightarrow> hs
         | Some decision \<Rightarrow>
             bt_extend hs (rate_limit_headers decision
               (sr_window_ms (ms_rate_limit (mc_settings (mk_config s)))) False))"

section \<open>The host\<close>

record local_session =
  ls_active :: active_request
  ls_available_ms :: "u64 option"
  ls_committed_ms :: "u64 option"

record 'x local_host =
  lh_poisoned :: bool
  lh_active :: "(string, local_session) btree_map"
  lh_stack :: "'x stack_world"

definition local_host_new :: "'x stack_world \<Rightarrow> 'x local_host" where
  "local_host_new w = \<lparr>lh_poisoned = False, lh_active = [], lh_stack = w\<rparr>"

definition local_descriptor ::
    "(middleware_config \<Rightarrow> bytes option) \<Rightarrow> (bytes \<Rightarrow> bytes) \<Rightarrow> 'x middleware_stack \<Rightarrow>
     (host_abi_error, host_descriptor) result" where
  "local_descriptor encode sha256 s =
     descriptor_for_adapter_config encode sha256 ''ores.local-process'' LocalProcess
       capabilities_local_process (mk_config s)"

definition lock_active :: "'x local_host \<Rightarrow> (host_abi_error, (string, local_session) btree_map) result" where
  "lock_active h =
     (if lh_poisoned h then
        Inl (host_abi_error_new ''host_state_poisoned''
          ''middleware host lifecycle state is unavailable after a panic'')
      else Inr (lh_active h))"

definition elapsed_ms :: "instant \<Rightarrow> active_request \<Rightarrow> u64" where
  "elapsed_ms now active =
     (let ms = (now - ar_started active) div 1000000 in if ms < 2 ^ 64 then of_nat ms else - 1)"

definition unknown_session :: host_abi_error where
  "unknown_session = host_abi_error_new ''unknown_session''
     ''middleware host session is unknown or already finalized''"

definition host_begin ::
    "'x environment \<Rightarrow> 'x middleware_stack \<Rightarrow> host_request \<Rightarrow> 'x local_host \<Rightarrow>
     (host_abi_error, host_begin_result) result \<times> 'x local_host" where
  "host_begin env s q h =
     (case into_request_metadata q of
        Inl e \<Rightarrow> (Inl e, h)
      | Inr request \<Rightarrow>
          (case stack_begin env s request (lh_stack h) of
             (Inl e, w) \<Rightarrow>
               (Inr (Reject host_abi_schema (me_status e) (me_code e) (me_message e) (me_headers e)),
                h\<lparr>lh_stack := w\<rparr>)
           | (Inr active, w) \<Rightarrow>
               (let hs = response_headers s active; (u, x) = en_new_v4 env (sw_env w);
                    session_id = uu_hyphenated u; h = h\<lparr>lh_stack := w\<lparr>sw_env := x\<rparr>\<rparr>
                in case lock_active h of
                     Inl e \<Rightarrow> (Inl e, h)
                   | Inr sessions \<Rightarrow>
                       (let h' = h\<lparr>lh_active := bt_insert session_id
                              \<lparr>ls_active = active, ls_available_ms = None, ls_committed_ms = None\<rparr> sessions\<rparr>
                        in if bt_get sessions session_id \<noteq> None then
                             (Inl (host_abi_error_new ''session_collision''
                                ''middleware host generated a duplicate active session id''), h')
                           else
                             (Inr (Permit host_abi_schema session_id (rc_request_id (ar_context active))
                                (rc_trace_id (ar_context active)) hs), h')))))"

text \<open>\<open>get_or_insert\<close> on a field of a session: its value and the session with the field filled.\<close>

definition observe_available :: "u64 \<Rightarrow> local_session \<Rightarrow> u64 \<times> local_session" where
  "observe_available ms sess =
     (case ls_available_ms sess of Some t \<Rightarrow> (t, sess) | None \<Rightarrow> (ms, sess\<lparr>ls_available_ms := Some ms\<rparr>))"

definition observe_committed :: "u64 \<Rightarrow> local_session \<Rightarrow> u64 \<times> local_session" where
  "observe_committed ms sess =
     (case ls_committed_ms sess of Some t \<Rightarrow> (t, sess) | None \<Rightarrow> (ms, sess\<lparr>ls_committed_ms := Some ms\<rparr>))"

definition observe_response_head ::
    "'x environment \<Rightarrow> response_head_request \<Rightarrow> 'x local_host \<Rightarrow>
     (host_abi_error, response_head_result) result \<times> 'x local_host" where
  "observe_response_head env q h =
     (case bind_result (response_head_validate q) (\<lambda>_.
           bind_result (lock_active h) (\<lambda>sessions. ok_or unknown_session (bt_get sessions (hh_session_id q)))) of
        Inl e \<Rightarrow> (Inl e, h)
      | Inr sess \<Rightarrow>
          (let ms = elapsed_ms (now_in env (lh_stack h)) (ls_active sess);
               observed =
                 (case hh_phase q of
                    HeadAvailable \<Rightarrow> Inr (observe_available ms sess)
                  | HeadCommitted \<Rightarrow>
                      if ls_available_ms sess = None then
                        Inl (host_abi_error_new ''response_head_not_available''
                          ''middleware host cannot record transport commitment before response-head availability'')
                      else Inr (observe_committed ms sess))
           in case observed of
                Inl e \<Rightarrow> (Inl e, h)
              | Inr (t, sess') \<Rightarrow>
                  (Inr \<lparr>hr_schema = host_abi_schema, hr_status = hh_status q, hr_phase = hh_phase q, hr_elapsed_ms = t\<rparr>,
                   h\<lparr>lh_active := bt_modify (hh_session_id q) (\<lambda>_. sess') (lh_active h)\<rparr>)))"

definition host_finish ::
    "'x environment \<Rightarrow> 'x middleware_stack \<Rightarrow> host_finish_request \<Rightarrow> 'x local_host \<Rightarrow>
     (host_abi_error, host_finish_result) result \<times> 'x local_host" where
  "host_finish env s q h =
     (case bind_result (host_finish_validate q) (\<lambda>_.
           bind_result (lock_active h) (\<lambda>sessions. ok_or unknown_session (bt_get sessions (hf_session_id q)))) of
        Inl e \<Rightarrow> (Inl e, h)
      | Inr sess \<Rightarrow>
          (let total_duration_ms = elapsed_ms (now_in env (lh_stack h)) (ls_active sess);
               (hs, w) = stack_finish env s (ls_active sess) (hf_status q) (hf_response_bytes q) (lh_stack h)
           in (Inr \<lparr>fr_schema = host_abi_schema, fr_outcome = hf_outcome q,
                   fr_completion_boundary = hf_completion_boundary q, fr_status = hf_status q,
                   fr_available_ms = ls_available_ms sess, fr_committed_ms = ls_committed_ms sess,
                   fr_total_duration_ms = total_duration_ms, fr_response_headers = hs\<rparr>,
               h\<lparr>lh_active := bt_remove (hf_session_id q) (lh_active h), lh_stack := w\<rparr>)))"

definition active_count :: "'x local_host \<Rightarrow> (host_abi_error, nat) result" where
  "active_count h = bind_result (lock_active h) (\<lambda>sessions. Inr (length sessions))"

section \<open>The response head and the finished response agree\<close>

lemma bt_extend_collect: "bt_extend (bt_collect xs) ys = bt_collect (xs @ ys)"
  by (simp add: bt_collect_def bt_extend_def)

lemma response_headers_finish:
  "response_headers s active =
   finish_headers (mk_config s) (rc_request_id (ar_context active)) (ar_rate_limit_decision active)"
  by (simp add: response_headers_def response_headers_from_context_def finish_headers_def Let_def
      bt_extend_collect opt_list_def split: option.split)

section \<open>Runs of the host\<close>

text \<open>
  What the callers of a host observe, latest first. The stack may serve other callers meanwhile and the
  clock may advance: its world changes between the operations in any way.
\<close>

datatype host_event =
    Began "(host_abi_error, host_begin_result) result"
  | Observed string "(host_abi_error, response_head_result) result"
  | Finished string "(host_abi_error, host_finish_result) result"

inductive host_run :: "'x environment \<Rightarrow> 'x middleware_stack \<Rightarrow> host_event list \<Rightarrow> 'x local_host \<Rightarrow> bool"
  for env s where
  created: "host_run env s [] (local_host_new w)"
| begins: "host_run env s evs h \<Longrightarrow> host_begin env s q h = (r, h') \<Longrightarrow> host_run env s (Began r # evs) h'"
| observes: "host_run env s evs h \<Longrightarrow> observe_response_head env q h = (r, h') \<Longrightarrow>
    host_run env s (Observed (hh_session_id q) r # evs) h'"
| finishes: "host_run env s evs h \<Longrightarrow> host_finish env s q h = (r, h') \<Longrightarrow>
    host_run env s (Finished (hf_session_id q) r # evs) h'"
| elsewhere: "host_run env s evs h \<Longrightarrow> host_run env s evs (h\<lparr>lh_stack := w\<rparr>)"

text \<open>
  The specification: the sessions a caller may still use, with the headers its permit announced and the
  times of its response head that were reported.
\<close>

record open_session =
  os_headers :: headers
  os_available :: "u64 option"
  os_committed :: "u64 option"

fun open_sessions :: "host_event list \<Rightarrow> string \<rightharpoonup> open_session" where
  "open_sessions [] = Map.empty"
| "open_sessions (Began (Inr (Permit _ sid _ _ hs)) # evs) =
     (open_sessions evs)(sid \<mapsto> \<lparr>os_headers = hs, os_available = None, os_committed = None\<rparr>)"
| "open_sessions (Observed sid (Inr res) # evs) =
     (open_sessions evs)(sid := map_option (\<lambda>sess.
       case hr_phase res of
         HeadAvailable \<Rightarrow> sess\<lparr>os_available := Some (hr_elapsed_ms res)\<rparr>
       | HeadCommitted \<Rightarrow> sess\<lparr>os_committed := Some (hr_elapsed_ms res)\<rparr>) (open_sessions evs sid))"
| "open_sessions (Finished sid (Inr _) # evs) = (open_sessions evs)(sid := None)"
| "open_sessions (_ # evs) = open_sessions evs"

definition no_collision :: "host_event list \<Rightarrow> bool" where
  "no_collision evs \<longleftrightarrow>
     list_all (\<lambda>ev. case ev of Began (Inl e) \<Rightarrow> ha_code e \<noteq> ''session_collision'' | _ \<Rightarrow> True) evs"

definition session_view :: "'x middleware_stack \<Rightarrow> local_session \<Rightarrow> open_session" where
  "session_view s sess =
     \<lparr>os_headers = response_headers s (ls_active sess), os_available = ls_available_ms sess,
      os_committed = ls_committed_ms sess\<rparr>"

definition local_host_inv :: "'x middleware_stack \<Rightarrow> host_event list \<Rightarrow> 'x local_host \<Rightarrow> bool" where
  "local_host_inv s evs h \<longleftrightarrow>
     \<not> lh_poisoned h \<and> bt_ok (lh_active h) \<and>
     (\<forall>id. map_option (session_view s) (bt_get (lh_active h) id) = open_sessions evs id)"

lemma lock_active_Inr [simp]: "\<not> lh_poisoned h \<Longrightarrow> lock_active h = Inr (lh_active h)"
  by (simp add: lock_active_def)

lemma host_begin_cases:
  assumes "host_begin env s q h = (r, h')" "\<not> lh_poisoned h"
  obtains w where "h' = h\<lparr>lh_stack := w\<rparr>" "(\<exists>e. r = Inl e) \<or> (\<exists>schema status code msg hs. r = Inr (Reject schema status code msg hs))"
  | e where "r = Inl e" "ha_code e = ''session_collision''"
  | sid active w where "bt_get (lh_active h) sid = None"
    "h' = h\<lparr>lh_stack := w, lh_active := bt_insert sid
      \<lparr>ls_active = active, ls_available_ms = None, ls_committed_ms = None\<rparr> (lh_active h)\<rparr>"
    "r = Inr (Permit host_abi_schema sid (rc_request_id (ar_context active)) (rc_trace_id (ar_context active))
      (response_headers s active))"
proof (cases "into_request_metadata q")
  case (Inl e)
  with assms that(1) [of "lh_stack h"] show thesis by (auto simp: host_begin_def)
next
  case request: (Inr request)
  obtain b w where begun: "stack_begin env s request (lh_stack h) = (b, w)" by (rule prod.exhaust)
  show thesis
  proof (cases b)
    case (Inl e)
    with assms request begun that(1) [of w] show thesis by (auto simp: host_begin_def)
  next
    case (Inr active)
    obtain u x where "en_new_v4 env (sw_env w) = (u, x)" by (rule prod.exhaust)
    with assms request begun Inr
      that(2) that(3) [of "uu_hyphenated u" active "w\<lparr>sw_env := x\<rparr>"] show thesis
      by (auto simp: host_begin_def Let_def host_abi_error_new_def split: if_splits)
  qed
qed

lemma observe_response_head_cases:
  assumes "observe_response_head env q h = (r, h')" "\<not> lh_poisoned h"
  obtains e where "r = Inl e" "h' = h"
  | sess res sess' where "bt_get (lh_active h) (hh_session_id q) = Some sess" "r = Inr res"
    "h' = h\<lparr>lh_active := bt_modify (hh_session_id q) (\<lambda>_. sess') (lh_active h)\<rparr>"
    "ls_active sess' = ls_active sess"
    "case hr_phase res of
       HeadAvailable \<Rightarrow> ls_available_ms sess' = Some (hr_elapsed_ms res) \<and> ls_committed_ms sess' = ls_committed_ms sess
     | HeadCommitted \<Rightarrow> ls_available_ms sess \<noteq> None \<and> ls_available_ms sess' = ls_available_ms sess \<and>
         ls_committed_ms sess' = Some (hr_elapsed_ms res)"
proof (cases r)
  case (Inl e)
  with assms that(1) show thesis
    by (auto simp: observe_response_head_def Let_def split: sum.splits prod.splits)
next
  case (Inr res)
  with assms obtain sess where "bt_get (lh_active h) (hh_session_id q) = Some sess"
    by (auto simp: observe_response_head_def Let_def bind_result_Inr ok_or_def split: sum.splits option.splits)
  with assms Inr show thesis
    by (cases "hh_phase q")
      (auto simp: observe_response_head_def observe_available_def observe_committed_def Let_def
        bind_result_def ok_or_def intro: that(2) split: sum.splits option.splits if_splits)
qed

lemma host_finish_cases:
  assumes "host_finish env s q h = (r, h')" "\<not> lh_poisoned h" "bt_get (lh_active h) (hf_session_id q) = sess"
  obtains e where "r = Inl e" "h' = h" "host_finish_validate q = Inl e \<or> sess = None \<and> e = unknown_session"
  | sess' w res where "sess = Some sess'" "r = Inr res" "host_finish_validate q = Inr ()"
    "h' = h\<lparr>lh_active := bt_remove (hf_session_id q) (lh_active h), lh_stack := w\<rparr>"
    "fr_response_headers res = response_headers s (ls_active sess')" "fr_available_ms res = ls_available_ms sess'"
    "fr_committed_ms res = ls_committed_ms sess'"
proof (cases "host_finish_validate q")
  case (Inl e)
  with assms that(1) [of e] show thesis by (simp add: host_finish_def)
next
  case valid: (Inr u)
  show thesis
  proof (cases sess)
    case None
    with assms valid that(1) [of unknown_session] show thesis by (simp add: host_finish_def ok_or_def)
  next
    case (Some sess')
    with assms valid that(2) [of sess'] show thesis
      by (auto simp: host_finish_def ok_or_def Let_def response_headers_finish stack_finish_def
          split: prod.splits)
  qed
qed

lemma local_host_inv_run:
  assumes "host_run env s evs h" "no_collision evs"
  shows "local_host_inv s evs h"
  using assms
proof induction
  case (created w)
  then show ?case by (simp add: local_host_inv_def local_host_new_def)
next
  case (begins evs h q r h')
  then have inv: "local_host_inv s evs h" by (simp add: no_collision_def)
  then have "\<not> lh_poisoned h" by (simp add: local_host_inv_def)
  with begins.hyps(2) show ?case
  proof (cases rule: host_begin_cases)
    case (1 w)
    then have "open_sessions (Began r # evs) = open_sessions evs" by auto
    with inv 1(1) show ?thesis by (simp add: local_host_inv_def)
  next
    case (2 e)
    with begins.prems show ?thesis by (simp add: no_collision_def)
  next
    case (3 sid active w)
    with inv show ?thesis by (simp add: local_host_inv_def bt_get_insert session_view_def)
  qed
next
  case (observes evs h q r h')
  then have inv: "local_host_inv s evs h" by (simp add: no_collision_def)
  then have "\<not> lh_poisoned h" by (simp add: local_host_inv_def)
  with observes.hyps(2) show ?case
  proof (cases rule: observe_response_head_cases)
    case (1 e)
    with inv show ?thesis by (simp add: local_host_inv_def)
  next
    case (2 sess res sess')
    from inv 2(1) have "open_sessions evs (hh_session_id q) = Some (session_view s sess)"
      by (metis local_host_inv_def option.simps(9))
    with inv 2 show ?thesis
      by (auto simp: local_host_inv_def bt_get_modify bt_ok_def session_view_def split: response_head_phase.splits)
  qed
next
  case (finishes evs h q r h')
  then have inv: "local_host_inv s evs h" by (simp add: no_collision_def)
  then have "\<not> lh_poisoned h" by (simp add: local_host_inv_def)
  with finishes.hyps(2) show ?case
    by (rule host_finish_cases [OF _ _ refl])
      (use inv in \<open>auto simp: local_host_inv_def bt_get_remove\<close>)
next
  case (elsewhere evs h w)
  then show ?case by (simp add: local_host_inv_def)
qed

text \<open>A response head is committed only after it was available.\<close>

lemma committed_after_available:
  assumes "host_run env s evs h" "no_collision evs"
  shows "open_sessions evs sid = Some sess \<Longrightarrow> os_available sess = None \<Longrightarrow> os_committed sess = None"
  using assms
proof (induction arbitrary: sess)
  case (begins evs h q r h')
  then show ?case
    by (cases r; simp add: no_collision_def) (case_tac b; auto split: if_splits)
next
  case (observes evs h q r h')
  from observes.prems have "no_collision evs" by (simp add: no_collision_def)
  with observes.hyps(1) have inv: "local_host_inv s evs h" by (rule local_host_inv_run)
  then have "\<not> lh_poisoned h" by (simp add: local_host_inv_def)
  with observes.hyps(2) show ?case
  proof (cases rule: observe_response_head_cases)
    case (1 e)
    with observes show ?thesis by (simp add: no_collision_def)
  next
    case (2 old res new)
    from inv 2(1) have "open_sessions evs (hh_session_id q) = Some (session_view s old)"
      by (metis local_host_inv_def option.simps(9))
    with 2 observes show ?thesis
      by (auto simp: no_collision_def session_view_def split: response_head_phase.splits if_splits)
  qed
next
  case (finishes evs h q r h')
  then show ?case by (cases r) (auto simp: no_collision_def split: if_splits)
qed (simp_all add: no_collision_def)

text \<open>
  C24. As long as no generated session id collided, the table of the host holds exactly the sessions
  that were permitted and not yet finished, with a response head committed only after it was available;
  and finishing with a valid frame succeeds exactly on those: it reports the headers the permit announced
  and the observed times, and removes the session, while on any other session it reports an unknown
  session and changes neither the table nor the stack.
\<close>

theorem local_host_exact:
  assumes "host_run env s evs h" "no_collision evs" "host_finish_validate q = Inr ()"
    "host_finish env s q h = (r, h')"
  shows "active_count h = Inr (card (dom (open_sessions evs))) \<and>
    (case open_sessions evs (hf_session_id q) of
       None \<Rightarrow> r = Inl unknown_session \<and> h' = h
     | Some sess \<Rightarrow> \<exists>res. r = Inr res \<and> fr_response_headers res = os_headers sess \<and>
         fr_available_ms res = os_available sess \<and> fr_committed_ms res = os_committed sess \<and>
         (os_available sess = None \<longrightarrow> os_committed sess = None) \<and>
         (\<forall>id. map_option (session_view s) (bt_get (lh_active h') id) =
            (if id = hf_session_id q then None else open_sessions evs id)))"
proof -
  have inv: "local_host_inv s evs h" using assms(1,2) by (rule local_host_inv_run)
  then have ok: "\<not> lh_poisoned h" "bt_ok (lh_active h)"
    and view: "\<And>id. open_sessions evs id = map_option (session_view s) (bt_get (lh_active h) id)"
    by (simp_all add: local_host_inv_def)
  have "id \<in> dom (open_sessions evs) \<longleftrightarrow> id \<in> fst ` set (lh_active h)" for id
    by (simp add: view dom_def bt_get_None_iff)
  then have "dom (open_sessions evs) = fst ` set (lh_active h)" by blast
  with ok have count: "active_count h = Inr (card (dom (open_sessions evs)))"
    using bt_ok_distinct [OF ok(2)] distinct_card [of "map fst (lh_active h)"] by (simp add: active_count_def)
  from assms(4) ok(1) refl show ?thesis
  proof (cases rule: host_finish_cases)
    case (1 e)
    with count assms(3) view show ?thesis by simp
  next
    case (2 sess w res)
    with count view committed_after_available [OF assms(1,2), of "hf_session_id q"] show ?thesis
      by (auto simp: session_view_def bt_get_remove)
  qed
qed

section \<open>A host at work\<close>

definition sample_host :: "unit local_host" where
  "sample_host = local_host_new sample_world"

definition sample_host_request :: host_request where
  "sample_host_request =
     \<lparr>hq_schema = host_abi_schema, hq_method = rq_method sample_request, hq_path = rq_path sample_request,
      hq_headers = rq_headers sample_request, hq_trusted_remote_ip = rq_remote_ip sample_request,
      hq_content_length = rq_content_length sample_request,
      hq_trusted_transport_secure = rq_transport_secure sample_request\<rparr>"

definition sample_finish :: host_finish_request where
  "sample_finish =
     \<lparr>hf_schema = host_abi_schema, hf_session_id = ''00-00'', hf_status = 200, hf_response_bytes = None,
      hf_outcome = Completed, hf_completion_boundary = Transport\<rparr>"

lemma sample_host_admits: "into_request_metadata sample_host_request = Inr sample_request"
  by (simp add: into_request_metadata_def host_request_validate_def sample_host_request_def sample_request_def
      validate_schema_def validate_host_headers_def max_host_method_bytes_def max_host_path_bytes_def
      max_host_header_count_def max_host_header_bytes_def starts_with_def ascii_defs is_ascii_control_def)

lemma sample_finish_valid: "host_finish_validate sample_finish = Inr ()"
  by (simp add: host_finish_validate_def sample_finish_def validate_schema_def validate_session_id_def
      validate_status_def max_host_session_id_bytes_def)

theorem local_host_exact_witness:
  "\<exists>r h res h' again. host_begin sample_env sample_stack sample_host_request sample_host = (Inr r, h) \<and>
     host_finish sample_env sample_stack sample_finish h = (Inr res, h') \<and>
     fr_response_headers res = pe_response_headers r \<and>
     host_finish sample_env sample_stack sample_finish h' = (again, h') \<and> again = Inl unknown_session"
proof -
  obtain a w where a: "stack_begin sample_env sample_stack sample_request sample_world = (Inr a, w)"
    using sample_admitted by blast
  obtain r h where begun: "host_begin sample_env sample_stack sample_host_request sample_host = (r, h)"
    by (rule prod.exhaust)
  with a obtain rid tid hs where r: "r = Inr (Permit host_abi_schema ''00-00'' rid tid hs)"
    by (simp add: host_begin_def sample_host_admits sample_host_def local_host_new_def Let_def sample_env_def
        lock_active_def split: prod.splits) blast
  let ?evs = "[Began r]"
  have run: "host_run sample_env sample_stack ?evs h"
    using host_run.begins [OF host_run.created begun [unfolded sample_host_def]] .
  obtain f h' where fin: "host_finish sample_env sample_stack sample_finish h = (f, h')" by (rule prod.exhaust)
  have sid: "hf_session_id sample_finish = ''00-00''" by (simp add: sample_finish_def)
  obtain res where res: "f = Inr res" "fr_response_headers res = hs"
    using local_host_exact [OF run _ sample_finish_valid fin] by (auto simp: no_collision_def r sid)
  let ?evs' = "Finished (hf_session_id sample_finish) f # ?evs"
  have run': "host_run sample_env sample_stack ?evs' h'" by (rule host_run.finishes [OF run fin])
  obtain again h'' where fin': "host_finish sample_env sample_stack sample_finish h' = (again, h'')"
    by (rule prod.exhaust)
  have "again = Inl unknown_session \<and> h'' = h'"
    using local_host_exact [OF run' _ sample_finish_valid fin'] by (simp add: no_collision_def r res sid)
  with begun fin fin' res r show ?thesis by auto
qed

end
