(* ===== verification/Edge_Host.thy ===== *)
theory Edge_Host
  imports Host_Abi Stage "HOL-Library.Multiset"
begin

text \<open>
  The request-side hosts of \<^verbatim>\<open>src/src/rust/src/hosts/edge_minimal_local.rs\<close> and
  \<^verbatim>\<open>edge_minimal_lifecycle.rs\<close>, with the callback interface of \<^verbatim>\<open>provider_api.rs\<close>. The authored callback
  and finalizer are actions on an environment \<open>'x\<close>; their dependency bundle is an opaque value \<open>'d\<close>, and
  the text of a string under \<open>Debug\<close> is the argument \<open>dbg\<close>.
\<close>

section \<open>The callback interface\<close>

datatype edge_minimal_request = EdgeMinimalRequest (into_metadata: request_metadata)

definition edge_set_header :: "string \<Rightarrow> string \<Rightarrow> edge_minimal_request \<Rightarrow> edge_minimal_request" where
  "edge_set_header name v q =
     EdgeMinimalRequest ((into_metadata q)\<lparr>rq_headers := bt_insert name v (rq_headers (into_metadata q))\<rparr>)"

definition edge_remove_header :: "string \<Rightarrow> edge_minimal_request \<Rightarrow> string option \<times> edge_minimal_request" where
  "edge_remove_header name q =
     (bt_get (rq_headers (into_metadata q)) name,
      EdgeMinimalRequest ((into_metadata q)\<lparr>rq_headers := bt_remove name (rq_headers (into_metadata q))\<rparr>))"

record 'd edge_callback_args =
  ea_request :: edge_minimal_request
  ea_context :: request_context
  ea_deps :: 'd

definition set_request_header :: "string \<Rightarrow> string \<Rightarrow> 'd edge_callback_args \<Rightarrow> 'd edge_callback_args" where
  "set_request_header name v a = a\<lparr>ea_request := edge_set_header name v (ea_request a)\<rparr>"

definition remove_request_header :: "string \<Rightarrow> 'd edge_callback_args \<Rightarrow> string option \<times> 'd edge_callback_args" where
  "remove_request_header name a =
     (let (v, q) = edge_remove_header name (ea_request a) in (v, a\<lparr>ea_request := q\<rparr>))"

datatype edge_minimal_decision = MinimalContinue edge_minimal_request | MinimalRespond stage_response

type_synonym ('d, 'x) edge_middleware =
  "'d edge_callback_args \<Rightarrow> ((integration_error, edge_minimal_decision) result, 'x) action"

section \<open>One invocation of the callback\<close>

definition ingress_owned_request_headers :: "string list" where
  "ingress_owned_request_headers =
     [''host'', ''content-length'', ''transfer-encoding'', ''trailer'', ''expect'']"

datatype local_edge_result = EdgeContinue request_metadata | EdgeRespond stage_response

record ingress_facts =
  if_method :: string
  if_path :: string
  if_remote_ip :: "string option"
  if_content_length :: "u64 option"
  if_transport_secure :: bool
  if_headers :: "(string, string option) btree_map"

definition capture_facts :: "request_metadata \<Rightarrow> ingress_facts" where
  "capture_facts request =
     \<lparr>if_method = rq_method request, if_path = rq_path request, if_remote_ip = rq_remote_ip request,
      if_content_length = rq_content_length request, if_transport_secure = rq_transport_secure request,
      if_headers = bt_collect (map (\<lambda>name. (name, bt_get (rq_headers request) name)) ingress_owned_request_headers)\<rparr>"

definition validate_unchanged :: "ingress_facts \<Rightarrow> request_metadata \<Rightarrow> (integration_error, unit) result" where
  "validate_unchanged facts request =
     (let header_changed = list_ex (\<lambda>(name, v). bt_get (rq_headers request) name \<noteq> v) (if_headers facts)
      in if if_method facts \<noteq> rq_method request \<or> if_path facts \<noteq> rq_path request \<or>
            if_remote_ip facts \<noteq> rq_remote_ip request \<or>
            if_content_length facts \<noteq> rq_content_length request \<or>
            if_transport_secure facts \<noteq> rq_transport_secure request \<or> header_changed then
           Inl \<lparr>ie_code = ''edge_request_ingress_fact_mutation'',
             ie_message = ''edge_minimal middleware may mutate semantic request headers but not P1-owned method, path, body length, remote IP, TLS, host, or request-framing facts''\<rparr>
         else Inr ())"

definition host_abi_error_as_integration :: "host_abi_error \<Rightarrow> integration_error" where
  "host_abi_error_as_integration e = \<lparr>ie_code = ha_code e, ie_message = ha_message e\<rparr>"

definition map_host_error :: "(host_abi_error, 'a) result \<Rightarrow> (integration_error, 'a) result" where
  "map_host_error = map_sum host_abi_error_as_integration id"

definition revalidate_request ::
    "request_metadata \<Rightarrow> ingress_facts \<Rightarrow> (integration_error, request_metadata) result" where
  "revalidate_request request facts =
     bind_result (validate_unchanged facts request) (\<lambda>_.
       map_host_error (into_request_metadata
         \<lparr>hq_schema = host_abi_schema, hq_method = rq_method request, hq_path = rq_path request,
          hq_headers = rq_headers request, hq_trusted_remote_ip = rq_remote_ip request,
          hq_content_length = rq_content_length request,
          hq_trusted_transport_secure = rq_transport_secure request\<rparr>))"

definition response_framing_headers :: "string list" where
  "response_framing_headers =
     [''content-length'', ''transfer-encoding'', ''connection'', ''keep-alive'', ''proxy-connection'',
      ''upgrade'', ''te'', ''trailer'']"

fun framing_loop :: "(string \<Rightarrow> string) \<Rightarrow> string list \<Rightarrow> (integration_error, unit) result" where
  "framing_loop dbg [] = Inr ()"
| "framing_loop dbg (name # names) =
     (if name \<in> set response_framing_headers then
        Inl \<lparr>ie_code = ''edge_response_framing_header_forbidden'',
          ie_message = ''edge_minimal short-circuit response may not author transport framing header '' @ dbg name\<rparr>
      else framing_loop dbg names)"

definition validate_short_circuit_response ::
    "(string \<Rightarrow> string) \<Rightarrow> stage_response \<Rightarrow> (integration_error, unit) result" where
  "validate_short_circuit_response dbg response =
     (if \<not> (200 \<le> sr_status response \<and> sr_status response \<le> 599) then
        Inl \<lparr>ie_code = ''invalid_edge_response_status'',
          ie_message = ''edge_minimal short-circuit response must use a final HTTP status code''\<rparr>
      else bind_result (framing_loop dbg (map fst (sr_headers response))) (\<lambda>_.
        map_host_error (host_request_validate
          \<lparr>hq_schema = host_abi_schema, hq_method = ''GET'', hq_path = ''/'',
           hq_headers = sr_headers response, hq_trusted_remote_ip = None, hq_content_length = None,
           hq_trusted_transport_secure = True\<rparr>)))"

record ('d, 'x) edge_host =
  eh_middleware :: "('d, 'x) edge_middleware"
  eh_deps :: 'd

definition edge_execute ::
    "(string \<Rightarrow> string) \<Rightarrow> ('d, 'x) edge_host \<Rightarrow> host_request \<Rightarrow> request_context \<Rightarrow>
     ((integration_error, local_edge_result) result, 'x) action" where
  "edge_execute dbg host q context =
     (case map_host_error (into_request_metadata q) of
        Inl e \<Rightarrow> act_return (Inl e)
      | Inr request \<Rightarrow>
          (let facts = capture_facts request
           in act_bind (eh_middleware host \<lparr>ea_request = EdgeMinimalRequest request, ea_context = context,
                ea_deps = eh_deps host\<rparr>) (\<lambda>result. act_return (bind_result result (\<lambda>decision.
                case decision of
                  MinimalContinue request' \<Rightarrow>
                    bind_result (revalidate_request (into_metadata request') facts) (\<lambda>r. Inr (EdgeContinue r))
                | MinimalRespond response \<Rightarrow>
                    bind_result (validate_short_circuit_response dbg response) (\<lambda>_. Inr (EdgeRespond response)))))))"

section \<open>The life cycle\<close>

definition max_edge_minimal_active_sessions :: nat where "max_edge_minimal_active_sessions = 4096"
definition max_edge_minimal_session_id_bytes :: nat where "max_edge_minimal_session_id_bytes = 128"

record edge_terminal_report =
  er_session_id :: string
  er_outcome :: host_outcome
  er_status :: "u16 option"
  er_response_bytes :: u64
  er_elapsed_ms :: u64

definition report_validate :: "edge_terminal_report \<Rightarrow> (integration_error, unit) result" where
  "report_validate t =
     (if er_session_id t = [] \<or> length (er_session_id t) > max_edge_minimal_session_id_bytes then
        Inl \<lparr>ie_code = ''invalid_edge_minimal_session_id'',
          ie_message = ''edge_minimal terminal report session id is empty or too long''\<rparr>
      else if (case er_status t of None \<Rightarrow> False | Some status \<Rightarrow> \<not> (200 \<le> status \<and> status \<le> 599)) then
        Inl \<lparr>ie_code = ''invalid_edge_minimal_terminal_status'',
          ie_message = ''edge_minimal terminal status must be a final HTTP status code''\<rparr>
      else if er_outcome t = Completed \<and> er_status t = None then
        Inl \<lparr>ie_code = ''missing_edge_minimal_terminal_status'',
          ie_message = ''completed edge_minimal requests must report the final HTTP status''\<rparr>
      else Inr ())"

record 'd edge_finish_args =
  ef_request :: request_metadata
  ef_context :: request_context
  ef_deps :: 'd
  ef_outcome :: host_outcome
  ef_status :: "u16 option"
  ef_response_bytes :: u64
  ef_elapsed_ms :: u64

type_synonym ('d, 'x) edge_finalizer = "'d edge_finish_args \<Rightarrow> ((integration_error, unit) result, 'x) action"

definition noop_edge_finalizer :: "('d, 'x) edge_finalizer" where
  "noop_edge_finalizer _ = act_return (Inr ())"

record edge_begin_result =
  eb_session_id :: string
  eb_result :: local_edge_result

record edge_session =
  es_request :: request_metadata
  es_context :: request_context

text \<open>The fixed parts of the host, and its state: the table, the poison flag and the environment.\<close>

record ('d, 'x) edge_lifecycle_host =
  el_inner :: "('d, 'x) edge_host"
  el_deps :: 'd
  el_finalizer :: "('d, 'x) edge_finalizer"

record 'x edge_state =
  et_poisoned :: bool
  et_active :: "(string, edge_session) btree_map"
  et_env :: 'x

definition edge_with_finalizer ::
    "('d, 'x) edge_middleware \<Rightarrow> 'd \<Rightarrow> ('d, 'x) edge_finalizer \<Rightarrow> ('d, 'x) edge_lifecycle_host" where
  "edge_with_finalizer middleware deps finalizer =
     \<lparr>el_inner = \<lparr>eh_middleware = middleware, eh_deps = deps\<rparr>, el_deps = deps, el_finalizer = finalizer\<rparr>"

definition edge_new :: "('d, 'x) edge_middleware \<Rightarrow> 'd \<Rightarrow> ('d, 'x) edge_lifecycle_host" where
  "edge_new middleware deps = edge_with_finalizer middleware deps noop_edge_finalizer"

definition edge_state_new :: "'x \<Rightarrow> 'x edge_state" where
  "edge_state_new x = \<lparr>et_poisoned = False, et_active = [], et_env = x\<rparr>"

definition edge_lock_active :: "'x edge_state \<Rightarrow> (integration_error, (string, edge_session) btree_map) result" where
  "edge_lock_active t =
     (if et_poisoned t then
        Inl \<lparr>ie_code = ''edge_minimal_host_state_poisoned'',
          ie_message = ''edge_minimal lifecycle state is unavailable after a panic''\<rparr>
      else Inr (et_active t))"

text \<open>The loop that draws identifiers until one is vacant; it need not end.\<close>

partial_function (option) vacant_id ::
    "'x environment \<Rightarrow> (string, edge_session) btree_map \<Rightarrow> 'x \<Rightarrow> (string \<times> 'x) option" where
  "vacant_id env active x =
     (let (u, x') = en_new_v4 env x; candidate = uu_hyphenated u
      in if bt_get active candidate = None then Some (candidate, x') else vacant_id env active x')"

text \<open>
  The part of \<open>begin\<close> under the lock, and the part of \<open>finish\<close> under the lock: each is atomic. A value
  None says that the loop never ends.
\<close>

definition edge_register ::
    "'x environment \<Rightarrow> edge_session \<Rightarrow> 'x edge_state \<Rightarrow> ((integration_error, string) result \<times> 'x edge_state) option" where
  "edge_register env session t =
     (case edge_lock_active t of
        Inl e \<Rightarrow> Some (Inl e, t)
      | Inr active \<Rightarrow>
          if length active \<ge> max_edge_minimal_active_sessions then
            Some (Inl \<lparr>ie_code = ''edge_minimal_session_capacity'',
              ie_message = ''edge_minimal lifecycle host reached its active-session limit''\<rparr>, t)
          else
            map_option (\<lambda>(session_id, x).
                (Inr session_id, t\<lparr>et_active := bt_insert session_id session active, et_env := x\<rparr>))
              (vacant_id env active (et_env t)))"

definition edge_take ::
    "edge_terminal_report \<Rightarrow> 'x edge_state \<Rightarrow> (integration_error, edge_session) result \<times> 'x edge_state" where
  "edge_take report t =
     (case bind_result (report_validate report) (\<lambda>_. bind_result (edge_lock_active t) (\<lambda>active.
           ok_or \<lparr>ie_code = ''unknown_edge_minimal_session'',
             ie_message = ''edge_minimal lifecycle session is unknown or already finalized''\<rparr>
             (bt_get active (er_session_id report)))) of
        Inl e \<Rightarrow> (Inl e, t)
      | Inr session \<Rightarrow> (Inr session, t\<lparr>et_active := bt_remove (er_session_id report) (et_active t)\<rparr>))"

definition on_edge_env :: "('a, 'x) action \<Rightarrow> ('a, 'x edge_state) action" where
  "on_edge_env m t = (case m (et_env t) of (r, x) \<Rightarrow> (r, t\<lparr>et_env := x\<rparr>))"

definition finalizer_request :: "request_metadata \<Rightarrow> local_edge_result \<Rightarrow> request_metadata" where
  "finalizer_request original result =
     (case result of EdgeContinue request \<Rightarrow> request | EdgeRespond _ \<Rightarrow> original)"

definition edge_begin ::
    "(string \<Rightarrow> string) \<Rightarrow> 'x environment \<Rightarrow> ('d, 'x) edge_lifecycle_host \<Rightarrow> host_request \<Rightarrow> request_context \<Rightarrow>
     'x edge_state \<Rightarrow> ((integration_error, edge_begin_result) result option \<times> 'x edge_state) option" where
  "edge_begin dbg env host q context t =
     (case map_host_error (into_request_metadata q) of
        Inl e \<Rightarrow> Some (Some (Inl e), t)
      | Inr original \<Rightarrow>
          (case on_edge_env (edge_execute dbg (el_inner host) q context) t of
             (None, t) \<Rightarrow> Some (None, t)
           | (Some (Inl e), t) \<Rightarrow> Some (Some (Inl e), t)
           | (Some (Inr result), t) \<Rightarrow>
               map_option (\<lambda>(r, t). (Some (map_sum id
                   (\<lambda>session_id. \<lparr>eb_session_id = session_id, eb_result = result\<rparr>) r), t))
                 (edge_register env
                   \<lparr>es_request = finalizer_request original result, es_context = context\<rparr> t)))"

definition edge_finish ::
    "('d, 'x) edge_lifecycle_host \<Rightarrow> edge_terminal_report \<Rightarrow> ((integration_error, unit) result, 'x edge_state) action" where
  "edge_finish host report t =
     (case edge_take report t of
        (Inl e, t) \<Rightarrow> (Some (Inl e), t)
      | (Inr session, t) \<Rightarrow>
          on_edge_env (el_finalizer host
            \<lparr>ef_request = es_request session, ef_context = es_context session, ef_deps = el_deps host,
             ef_outcome = er_outcome report, ef_status = er_status report,
             ef_response_bytes = er_response_bytes report, ef_elapsed_ms = er_elapsed_ms report\<rparr>) t)"

section \<open>A callback cannot reach past its request\<close>

lemma map_host_error_Inr: "map_host_error r = Inr a \<longleftrightarrow> r = Inr a"
  by (cases r) (simp_all add: map_host_error_def)

lemma validate_unchanged_Inr:
  "validate_unchanged (capture_facts a) b = Inr u \<longleftrightarrow>
     rq_method b = rq_method a \<and> rq_path b = rq_path a \<and> rq_remote_ip b = rq_remote_ip a \<and>
     rq_content_length b = rq_content_length a \<and> rq_transport_secure b = rq_transport_secure a \<and>
     (\<forall>k \<in> set ingress_owned_request_headers. bt_get (rq_headers b) k = bt_get (rq_headers a) k)"
proof -
  let ?facts = "bt_collect (map (\<lambda>k. (k, bt_get (rq_headers a) k)) ingress_owned_request_headers)"
  have facts: "(k, v) \<in> set ?facts \<longleftrightarrow> k \<in> set ingress_owned_request_headers \<and> v = bt_get (rq_headers a) k" for k v
  proof -
    have "(k, v) \<in> set ?facts \<longleftrightarrow> bt_get ?facts k = Some v" by (simp add: bt_get_iff)
    also have "\<dots> \<longleftrightarrow> k \<in> set ingress_owned_request_headers \<and> v = bt_get (rq_headers a) k"
      by (auto simp: bt_get_collect rev_map map_of_map_restrict restrict_map_def split: if_splits)
    finally show ?thesis .
  qed
  then have "list_ex (\<lambda>(k, v). bt_get (rq_headers b) k \<noteq> v) ?facts \<longleftrightarrow>
      (\<exists>k \<in> set ingress_owned_request_headers. bt_get (rq_headers b) k \<noteq> bt_get (rq_headers a) k)"
    by (auto simp: list_ex_iff Bex_def)
  then show ?thesis
    by (auto simp: validate_unchanged_def capture_facts_def Let_def split: if_splits)
qed

lemma framing_loop_Inr: "framing_loop dbg names = Inr u \<longleftrightarrow> set names \<inter> set response_framing_headers = {}"
  by (induction names) (auto simp: response_framing_headers_def)

lemma edge_execute_Inr:
  assumes "edge_execute dbg host q context x = (Some (Inr result), x')"
  obtains request decision where "into_request_metadata q = Inr request"
    "eh_middleware host \<lparr>ea_request = EdgeMinimalRequest request, ea_context = context, ea_deps = eh_deps host\<rparr> x =
      (Some (Inr decision), x')"
    "case decision of
       MinimalContinue request' \<Rightarrow> \<exists>r. result = EdgeContinue r \<and>
         revalidate_request (into_metadata request') (capture_facts request) = Inr r
     | MinimalRespond response \<Rightarrow>
         result = EdgeRespond response \<and> validate_short_circuit_response dbg response = Inr ()"
proof -
  obtain request where q: "map_host_error (into_request_metadata q) = Inr request"
    using assms by (auto simp: edge_execute_def split: sum.splits)
  let ?call = "eh_middleware host \<lparr>ea_request = EdgeMinimalRequest request, ea_context = context, ea_deps = eh_deps host\<rparr> x"
  obtain decision where d: "?call = (Some (Inr decision), x')"
    "(case decision of
        MinimalContinue request' \<Rightarrow>
          bind_result (revalidate_request (into_metadata request') (capture_facts request)) (\<lambda>r. Inr (EdgeContinue r))
      | MinimalRespond response \<Rightarrow>
          bind_result (validate_short_circuit_response dbg response) (\<lambda>_. Inr (EdgeRespond response))) = Inr result"
    using assms q by (auto simp: edge_execute_def Let_def act_bind_Some eq_commute [of "Inr result"] bind_result_Inr)
  show thesis
    by (rule that [of request decision])
      (use q d in \<open>auto simp: map_host_error_Inr bind_result_Inr split: edge_minimal_decision.splits\<close>)
qed

text \<open>Headers that can stand in a host frame.\<close>

definition plain_headers :: "headers \<Rightarrow> bool" where
  "plain_headers hs \<longleftrightarrow>
     length hs \<le> 256 \<and> (\<Sum>(k, v) \<leftarrow> hs. length k + length v) \<le> 65536 \<and>
     list_all (\<lambda>(k, v). k \<noteq> [] \<and>
       list_all (\<lambda>b. is_ascii_lowercase b \<or> is_ascii_digit b \<or>
         b \<in> {CHR ''!'', CHR ''#'', CHR ''$'', CHR ''%'', CHR ''&'', CHR 0x27, CHR ''*'', CHR ''+'', CHR ''-'',
              CHR ''.'', CHR ''^'', CHR ''_'', CHR 0x60, CHR ''|'', CHR ''~''}) k \<and>
       list_all (\<lambda>b. b \<notin> {CHR 0x0D, CHR 0x0A, CHR 0x00}) v) hs"

lemma no_framing_byte: "set v \<inter> {CHR 0x0D, CHR 0x0A, CHR 0x00} = {} \<longleftrightarrow> list_all (\<lambda>b. b \<notin> {CHR 0x0D, CHR 0x0A, CHR 0x00}) v"
  by (induction v) auto

lemma plain_headers_iff:
  "plain_headers hs \<longleftrightarrow> length hs \<le> 256 \<and> frame_header_bytes hs \<le> 65536 \<and> list_all host_header_ok hs"
  unfolding plain_headers_def frame_header_bytes_def host_header_ok_def [abs_def] valid_host_header_name_def
    no_framing_byte split_beta conj_assoc ..

text \<open>
  C25. Whatever the callback does, a request it lets through keeps the method, the path, the peer address,
  the body length, the transport and the framing headers the host received, and the frame made of it
  passes every check a received frame passes, its method, its path and the number, the size and the
  characters of its headers; and an answer it gives in place of the service has a final status and no
  framing header in any spelling, and its headers pass the checks of a host frame.
\<close>

theorem edge_minimal_contained:
  assumes "edge_execute dbg host q context x = (Some (Inr result), x')"
  shows "case result of
      EdgeContinue r \<Rightarrow>
        rq_method r = hq_method q \<and> rq_path r = hq_path q \<and> rq_remote_ip r = hq_trusted_remote_ip q \<and>
        rq_content_length r = hq_content_length q \<and> rq_transport_secure r = hq_trusted_transport_secure q \<and>
        (\<forall>k \<in> set ingress_owned_request_headers. bt_get (rq_headers r) k = bt_get (hq_headers q) k) \<and>
        hq_schema q = host_abi_schema \<and> 0 < length (rq_method r) \<and> length (rq_method r) \<le> 32 \<and>
        list_all (\<lambda>b. is_ascii_uppercase b \<or> is_ascii_digit b \<or> b = CHR ''-'' \<or> b = CHR ''_'') (rq_method r) \<and>
        starts_with ''/'' (rq_path r) \<and> length (rq_path r) \<le> 8192 \<and>
        \<not> list_ex is_ascii_control (rq_path r) \<and> plain_headers (rq_headers r)
    | EdgeRespond r \<Rightarrow>
        200 \<le> sr_status r \<and> sr_status r \<le> 599 \<and> plain_headers (sr_headers r) \<and>
        (\<forall>(k, v) \<in> set (sr_headers r). to_ascii_lowercase k \<notin> set response_framing_headers)"
  using assms
proof (rule edge_execute_Inr)
  fix request decision
  assume q: "into_request_metadata q = Inr request"
    and d: "case decision of
       MinimalContinue request' \<Rightarrow> \<exists>r. result = EdgeContinue r \<and>
         revalidate_request (into_metadata request') (capture_facts request) = Inr r
     | MinimalRespond response \<Rightarrow>
         result = EdgeRespond response \<and> validate_short_circuit_response dbg response = Inr ()"
  have "(\<lambda>b. is_ascii_uppercase b \<or> is_ascii_digit b \<or> b = CHR ''-'' \<or> b = CHR ''_'') = host_method_byte"
    by (rule ext) (simp add: host_method_byte_def)
  note plain = this plain_headers_iff
  from q have frame: "hq_schema q = host_abi_schema" "starts_with ''/'' (hq_path q)"
    by (auto simp: into_request_metadata_Inr host_request_validate_Inr starts_with_def)
  have same: "rq_method request = hq_method q" "rq_path request = hq_path q" "rq_headers request = hq_headers q"
    "rq_remote_ip request = hq_trusted_remote_ip q" "rq_content_length request = hq_content_length q"
    "rq_transport_secure request = hq_trusted_transport_secure q"
    using q by (auto simp: into_request_metadata_def bind_result_Inr)
  show ?thesis
  proof (cases decision)
    case (MinimalContinue request')
    with d obtain r where r: "result = EdgeContinue r"
      "revalidate_request (into_metadata request') (capture_facts request) = Inr r" by auto
    from r(2) show ?thesis
      by (auto simp: r(1) revalidate_request_def bind_result_Inr validate_unchanged_Inr map_host_error_Inr
          into_request_metadata_Inr host_request_validate_Inr same plain frame)
  next
    case (MinimalRespond response)
    with d have r: "result = EdgeRespond response" "validate_short_circuit_response dbg response = Inr ()"
      by simp_all
    from r(2) have ok: "list_all host_header_ok (sr_headers response)" and plain_response: "plain_headers (sr_headers response)"
      and framing: "fst ` set (sr_headers response) \<inter> set response_framing_headers = {}"
      and status: "200 \<le> sr_status response" "sr_status response \<le> 599"
      by (auto simp: validate_short_circuit_response_def bind_result_Inr framing_loop_Inr map_host_error_Inr
          host_request_validate_Inr plain_headers_iff split: if_splits)
    then have "to_ascii_lowercase k \<notin> set response_framing_headers" if "(k, v) \<in> set (sr_headers response)" for k v
      using that host_header_name_lower [of k] by (force simp: list_all_iff host_header_ok_def)
    with plain_response status show ?thesis by (auto simp: r(1))
  qed
qed

section \<open>The table of sessions\<close>

lemma vacant_id_Some: "vacant_id env active x = Some (c, x') \<Longrightarrow> bt_get active c = None"
proof -
  assume ret: "vacant_id env active x = Some (c, x')"
  let ?P = "\<lambda>_ active _ r. bt_get active (fst r) = None"
  have "?P env active x (c, x')"
  proof (rule vacant_id.raw_induct [of ?P "((env, active), x)", unfolded split_conv, OF _ ret])
    fix f :: "'a environment \<Rightarrow> (string, edge_session) btree_map \<Rightarrow> 'a \<Rightarrow> (string \<times> 'a) option"
      and env active x r
    assume "\<And>env active x r. f env active x = Some r \<Longrightarrow> bt_get active (fst r) = None"
      and "(let (u, x') = en_new_v4 env x; candidate = uu_hyphenated u
        in if bt_get active candidate = None then Some (candidate, x') else f env active x') = Some r"
    then show "bt_get active (fst r) = None"
      by (auto simp: Let_def split: prod.splits if_splits)
  qed
  then show ?thesis by simp
qed

text \<open>The identifiers the environment will draw.\<close>

primrec drawn :: "'x environment \<Rightarrow> 'x \<Rightarrow> nat \<Rightarrow> string" where
  "drawn env x 0 = uu_hyphenated (fst (en_new_v4 env x))"
| "drawn env x (Suc n) = drawn env (snd (en_new_v4 env x)) n"

lemma vacant_id_returns: "bt_get active (drawn env x n) = None \<Longrightarrow> \<exists>r. vacant_id env active x = Some r"
proof (induction n arbitrary: x)
  case 0
  then show ?case by (subst vacant_id.simps) (simp add: split_beta Let_def)
next
  case (Suc n)
  then have "\<exists>r. vacant_id env active (snd (en_new_v4 env x)) = Some r" by simp
  then show ?case by (subst vacant_id.simps) (auto simp: split_beta Let_def)
qed

lemma vacant_draw:
  assumes "inj_on (drawn env x) {..length active}"
  obtains n where "n \<le> length active" "bt_get active (drawn env x n) = None"
proof -
  have "\<not> drawn env x ` {..length active} \<subseteq> fst ` set active"
  proof
    assume "drawn env x ` {..length active} \<subseteq> fst ` set active"
    from card_mono [OF _ this] assms have "Suc (length active) \<le> card (fst ` set active)"
      by (simp add: card_image)
    also have "\<dots> \<le> length active" by (metis card_length length_map list.set_map)
    finally show False by simp
  qed
  then show thesis using that by (auto simp: bt_get_None_iff)
qed

lemma mset_bt_insert_new: "k \<notin> fst ` set m \<Longrightarrow> mset (bt_insert k v m) = add_mset (k, v) (mset m)"
  by (induction m) auto

lemma mset_bt_remove:
  assumes "bt_ok m" "bt_get m k = Some v"
  shows "mset m = add_mset (k, v) (mset (bt_remove k m))"
  using assms
proof (induction m)
  case (Cons e m)
  show ?case
  proof (cases "fst e = k")
    case True
    with Cons.prems have "\<forall>x \<in> set m. fst x \<noteq> k" by (auto simp: bt_ok_Cons)
    then have "bt_remove k m = m" by (simp add: bt_remove_def filter_id_conv)
    with True Cons.prems show ?thesis by (cases e) (auto simp: bt_remove_def bt_get_def)
  next
    case False
    with Cons show ?thesis by (cases e) (simp add: bt_ok_Cons bt_remove_def bt_get_def)
  qed
qed simp

lemma edge_register_cases:
  assumes "edge_register env session t = Some (r, t')"
  obtains e where "r = Inl e" "t' = t"
  | sid x where "r = Inr sid" "bt_get (et_active t) sid = None" "length (et_active t) < 4096"
    "t' = t\<lparr>et_active := bt_insert sid session (et_active t), et_env := x\<rparr>"
proof (cases "edge_lock_active t")
  case (Inl e)
  with assms that(1) show thesis by (auto simp: edge_register_def)
next
  case (Inr active)
  then have active: "active = et_active t" by (simp add: edge_lock_active_def split: if_splits)
  show thesis
  proof (cases "4096 \<le> length active")
    case True
    with assms Inr that(1) show thesis by (auto simp: edge_register_def max_edge_minimal_active_sessions_def)
  next
    case False
    with assms Inr active obtain sid x where v: "vacant_id env (et_active t) (et_env t) = Some (sid, x)"
      "r = Inr sid" "t' = t\<lparr>et_active := bt_insert sid session (et_active t), et_env := x\<rparr>"
      by (auto simp: edge_register_def max_edge_minimal_active_sessions_def)
    with False active show thesis by (intro that(2) vacant_id_Some) auto
  qed
qed

lemma edge_take_cases:
  assumes "edge_take report t = (r, t')"
  obtains e where "r = Inl e" "t' = t"
  | session where "r = Inr session" "bt_get (et_active t) (er_session_id report) = Some session"
    "t' = t\<lparr>et_active := bt_remove (er_session_id report) (et_active t)\<rparr>"
proof (cases r)
  case (Inl e)
  with assms that(1) show thesis by (auto simp: edge_take_def split: sum.splits)
next
  case (Inr session)
  with assms have "bt_get (et_active t) (er_session_id report) = Some session"
    "t' = t\<lparr>et_active := bt_remove (er_session_id report) (et_active t)\<rparr>"
    by (auto simp: edge_take_def bind_result_Inr edge_lock_active_def ok_or_def
        split: sum.splits option.splits if_splits)
  with Inr that(2) show thesis by blast
qed

lemma edge_take_env:
  "edge_take report (t\<lparr>et_env := y\<rparr>) = map_prod id (\<lambda>t'. t'\<lparr>et_env := y\<rparr>) (edge_take report t)"
  by (simp add: edge_take_def edge_lock_active_def split: sum.split)

text \<open>
  Runs: the parts of \<open>begin\<close> and \<open>finish\<close> under the lock, in any interleaving of any callers; outside the
  lock the callbacks change the environment in any way. The lists are the sessions opened and the
  sessions handed to the finalizer.
\<close>

inductive edge_run ::
    "'x environment \<Rightarrow> (string \<times> edge_session) list \<Rightarrow> (string \<times> edge_session) list \<Rightarrow> 'x edge_state \<Rightarrow> bool"
  for env where
  created: "edge_run env [] [] (edge_state_new x)"
| registers: "edge_run env opened finished t \<Longrightarrow> edge_register env session t = Some (r, t') \<Longrightarrow>
    edge_run env (case r of Inr sid \<Rightarrow> (sid, session) # opened | Inl _ \<Rightarrow> opened) finished t'"
| takes: "edge_run env opened finished t \<Longrightarrow> edge_take report t = (r, t') \<Longrightarrow>
    edge_run env opened (case r of Inr session \<Rightarrow> (er_session_id report, session) # finished | Inl _ \<Rightarrow> finished) t'"
| callbacks: "edge_run env opened finished t \<Longrightarrow> edge_run env opened finished (t\<lparr>et_env := x\<rparr>)"

text \<open>
  C26. However requests begin and finish, at most 4096 sessions are open, and every session that was opened
  was handed to the finalizer or is still open, with the request and context it was opened with, and
  never both.
\<close>

theorem edge_sessions_accounted:
  assumes "edge_run env opened finished t"
  shows "bt_ok (et_active t) \<and> length (et_active t) \<le> 4096 \<and> mset opened = mset finished + mset (et_active t)"
  using assms
proof induction
  case (created x)
  then show ?case by (simp add: edge_state_new_def)
next
  case (registers opened finished t session r t')
  from registers.hyps(2) show ?case
    by (cases rule: edge_register_cases)
      (use registers.IH in \<open>auto simp: bt_get_None_iff length_bt_insert_new mset_bt_insert_new\<close>)
next
  case (takes opened finished t report r t')
  from takes.hyps(2) show ?case
  proof (cases rule: edge_take_cases)
    case (2 session)
    have "length (bt_remove (er_session_id report) (et_active t)) \<le> length (et_active t)"
      by (simp add: bt_remove_def)
    with 2 takes.IH mset_bt_remove [of "et_active t", OF _ 2(2)] show ?thesis by simp
  qed (use takes.IH in simp)
next
  case (callbacks opened finished t x)
  then show ?case by simp
qed

text \<open>
  A session reaches the finalizer at most once: after a report was accepted, and whether the finalizer
  succeeded, failed or panicked, the same report is refused, by any host over the same table and
  whatever happens to the environment meanwhile, and refusing it changes nothing.
\<close>

theorem edge_finalizes_once:
  "let t' = (snd (edge_finish host report t))\<lparr>et_env := x\<rparr>
   in \<exists>e. edge_finish host' report t' = (Some (Inl e), t')"
proof -
  obtain r t1 where take: "edge_take report t = (r, t1)" by (rule prod.exhaust)
  have again: "\<exists>e. edge_finish host' report (t1\<lparr>et_env := y\<rparr>) = (Some (Inl e), t1\<lparr>et_env := y\<rparr>)" for y
  proof -
    obtain r2 t2 where take2: "edge_take report (t1\<lparr>et_env := y\<rparr>) = (r2, t2)" by (rule prod.exhaust)
    from take2 show ?thesis
    proof (cases rule: edge_take_cases)
      case (1 e)
      with take2 show ?thesis by (simp add: edge_finish_def)
    next
      case (2 session)
      from take show ?thesis
      proof (cases rule: edge_take_cases)
        case (1 e)
        with take show ?thesis by (simp add: edge_finish_def edge_take_env)
      next
        case session': (2 session')
        with 2 show ?thesis by (simp add: bt_get_remove)
      qed
    qed
  qed
  have "\<exists>y. snd (edge_finish host report t) = t1\<lparr>et_env := y\<rparr>"
    by (cases r) (auto simp: edge_finish_def take on_edge_env_def split: prod.splits intro: exI [of _ "et_env t1"])
  then obtain y where "snd (edge_finish host report t) = t1\<lparr>et_env := y\<rparr>" by blast
  then show ?thesis using again [of x] by (simp add: Let_def)
qed

text \<open>
  When the generator does not repeat itself, \<open>begin\<close> always returns: its loop ends within one draw
  more than there are open sessions.
\<close>

theorem edge_begin_returns:
  assumes "\<And>x. inj (drawn env x)"
  shows "\<exists>r t'. edge_begin dbg env host q context t = Some (r, t')"
proof -
  have vacant: "\<exists>r. vacant_id env active x = Some r" for active x
    using vacant_draw [OF inj_on_subset [OF assms]] vacant_id_returns by (metis subset_UNIV)
  have "\<exists>r. edge_register env session t = Some r" for session t
    using vacant [of "et_active t" "et_env t"]
    by (auto simp: edge_register_def edge_lock_active_def split: sum.split)
  then show ?thesis
    by (fastforce simp: edge_begin_def split: sum.split prod.split option.split)
qed

section \<open>A host at work\<close>

text \<open>A counter as the generator, and a callback that sets a header.\<close>

definition counter_env :: "nat environment" where
  "counter_env =
     \<lparr>en_now = id, en_now_ms = (\<lambda>_. 0),
      en_new_v4 = (\<lambda>n. (\<lparr>uu_hyphenated = replicate (Suc n) CHR ''0'', uu_simple = [], uu_bytes = []\<rparr>, Suc n)),
      en_sleep = (\<lambda>_ n. n), en_order = id, en_round = Fin\<rparr>"

definition tagging :: "(unit, nat) edge_lifecycle_host" where
  "tagging = edge_new (\<lambda>a. act_return (Inr (MinimalContinue
     (ea_request (set_request_header ''x-tag'' ''1'' a))))) ()"

definition edge_sample_frame :: host_request where
  "edge_sample_frame =
     \<lparr>hq_schema = host_abi_schema, hq_method = ''GET'', hq_path = ''/'', hq_headers = [(''host'', ''a'')],
      hq_trusted_remote_ip = None, hq_content_length = None, hq_trusted_transport_secure = True\<rparr>"

lemma drawn_counter: "drawn counter_env n k = replicate (Suc (n + k)) CHR ''0''"
  by (induction k arbitrary: n) (simp_all add: counter_env_def)

lemma sample_frame_metadata:
  "into_request_metadata edge_sample_frame = Inr r \<longleftrightarrow>
   r = \<lparr>rq_method = ''GET'', rq_path = ''/'', rq_headers = [(''host'', ''a'')], rq_remote_ip = None,
     rq_content_length = None, rq_transport_secure = True\<rparr>"
  by (simp add: into_request_metadata_Inr host_request_validate_Inr edge_sample_frame_def host_method_byte_def
      ascii_defs is_ascii_control_def host_header_ok_def valid_host_header_name_def)

lemma edge_sample_execute:
  "\<exists>r. edge_execute id (el_inner tagging) edge_sample_frame sample_context n = (Some (Inr (EdgeContinue r)), n) \<and>
     bt_get (rq_headers r) ''x-tag'' = Some ''1''"
proof -
  let ?r = "\<lparr>rq_method = ''GET'', rq_path = ''/'', rq_headers = [(''host'', ''a'')], rq_remote_ip = None,
     rq_content_length = None, rq_transport_secure = True\<rparr>"
  let ?r' = "?r\<lparr>rq_headers := bt_insert ''x-tag'' ''1'' [(''host'', ''a'')]\<rparr>"
  have hs: "bt_insert ''x-tag'' ''1'' [(''host'', ''a'')] = [(''host'', ''a''), (''x-tag'', ''1'')]" by simp
  have "revalidate_request ?r' (capture_facts ?r) = Inr ?r'"
    by (simp add: revalidate_request_def bind_result_Inr validate_unchanged_Inr map_host_error_Inr hs
        into_request_metadata_Inr host_request_validate_Inr host_method_byte_def ascii_defs is_ascii_control_def
        host_header_ok_def valid_host_header_name_def ingress_owned_request_headers_def bt_get_def)
  moreover have "map_host_error (into_request_metadata edge_sample_frame) = Inr ?r"
    by (simp add: map_host_error_Inr sample_frame_metadata)
  ultimately show ?thesis
    by (simp add: edge_execute_def tagging_def edge_new_def edge_with_finalizer_def Let_def act_bind_def
        act_return_def set_request_header_def edge_set_header_def hs bt_get_def)
qed

theorem edge_minimal_contained_witness:
  "\<exists>r. edge_execute id (el_inner tagging) edge_sample_frame sample_context 0 = (Some (Inr (EdgeContinue r)), 0) \<and>
     bt_get (rq_headers r) ''x-tag'' = Some ''1'' \<and> bt_get (rq_headers r) ''host'' = Some ''a''"
proof -
  obtain r where r: "edge_execute id (el_inner tagging) edge_sample_frame sample_context 0 =
      (Some (Inr (EdgeContinue r)), 0)" "bt_get (rq_headers r) ''x-tag'' = Some ''1''"
    using edge_sample_execute by blast
  from edge_minimal_contained [OF r(1)] have "bt_get (rq_headers r) ''host'' = Some ''a''"
    by (simp add: ingress_owned_request_headers_def edge_sample_frame_def bt_get_def)
  with r show ?thesis by blast
qed

theorem edge_sessions_accounted_witness:
  "\<exists>session t. edge_run counter_env [(''0'', session)] [] t \<and> mset (et_active t) = {#(''0'', session)#}"
proof -
  let ?session = "\<lparr>es_request = sample_request, es_context = sample_context\<rparr>"
  have "edge_register counter_env ?session (edge_state_new 0) =
      Some (Inr ''0'', (edge_state_new 1)\<lparr>et_active := [(''0'', ?session)]\<rparr>)"
    by (simp add: edge_register_def edge_lock_active_def edge_state_new_def max_edge_minimal_active_sessions_def
        vacant_id.simps counter_env_def)
  from edge_run.registers [OF edge_run.created this]
  have run: "edge_run counter_env [(''0'', ?session)] [] ((edge_state_new 1)\<lparr>et_active := [(''0'', ?session)]\<rparr>)"
    by simp
  from edge_sessions_accounted [OF run] show ?thesis
    by (intro exI [of _ ?session] exI [of _ "(edge_state_new 1)\<lparr>et_active := [(''0'', ?session)]\<rparr>"])
      (use run in simp)
qed

theorem edge_begin_returns_witness:
  "\<exists>r t'. edge_begin id counter_env tagging edge_sample_frame sample_context (edge_state_new 0) = Some (r, t')"
  by (rule edge_begin_returns) (auto simp: inj_def drawn_counter replicate_eq_replicate)

end
