(* ===== verification/Ingress.thy ===== *)
theory Ingress
  imports Header_Admission Net "HOL-Library.Sublist"
begin

text \<open>
  \<^verbatim>\<open>src/src/rust/src/frameworks/ingress.rs\<close>: what the HTTP ingress adapters check before a request
  reaches the stages: the sizes declared in the request head, the budget of a decompressor, the
  metadata of proxies, the browser policy, and what a public problem response may show.
\<close>

section \<open>Checked arithmetic\<close>

definition checked_mul_u64 :: "u64 \<Rightarrow> u64 \<Rightarrow> u64 option" where
  "checked_mul_u64 a b = (if unat a * unat b < 2 ^ 64 then Some (a * b) else None)"

section \<open>Buffers\<close>

datatype http_ingress_adapter = Standalone | Scintilla | AwsLambdaHttp | GcpCloudRun | GcpCloudRunFunction

definition certified_http_ingress_adapters :: "http_ingress_adapter list" where
  "certified_http_ingress_adapters = [Standalone, Scintilla, AwsLambdaHttp, GcpCloudRun, GcpCloudRunFunction]"

record request_buffer_limits =
  rl_max_header_count :: nat
  rl_max_header_bytes :: nat
  rl_max_body_bytes :: u64
  rl_max_upload_bytes :: u64
  rl_max_decompressed_bytes :: u64
  rl_max_decompression_ratio :: u64

datatype buffer_admission_error =
  InvalidLimits | HeaderCountExceeded | HeaderBytesExceeded | HeaderNameInvalid | HeaderValueExceeded |
  BodyExceeded | UploadExceeded | DecompressedExceeded | DecompressionRatioExceeded

text \<open>The argument is a \<open>usize\<close>, which fits 64 bits.\<close>

definition from_body_limit :: "u64 \<Rightarrow> request_buffer_limits" where
  "from_body_limit body =
     \<lparr>rl_max_header_count = max_raw_headers, rl_max_header_bytes = max_header_bytes,
      rl_max_body_bytes = body, rl_max_upload_bytes = body, rl_max_decompressed_bytes = body,
      rl_max_decompression_ratio = 32\<rparr>"

definition limits_validate :: "request_buffer_limits \<Rightarrow> (buffer_admission_error, unit) result" where
  "limits_validate l =
     (if rl_max_header_count l = 0 \<or> rl_max_header_bytes l = 0 \<or> rl_max_body_bytes l = 0 \<or>
         rl_max_upload_bytes l = 0 \<or> rl_max_decompressed_bytes l = 0 \<or> rl_max_decompression_ratio l = 0
      then Inl InvalidLimits else Inr ())"

record request_buffer_metadata =
  rm_declared_body_bytes :: "u64 option"
  rm_upload :: bool

fun preflight_loop ::
    "request_buffer_limits \<Rightarrow> (string \<times> string) list \<Rightarrow> nat \<Rightarrow> (buffer_admission_error, unit) result" where
  "preflight_loop l [] used_bytes = Inr ()"
| "preflight_loop l ((name, v) # rest) used_bytes =
     (if name = [] \<or> length name > max_header_name_bytes then Inl HeaderNameInvalid
      else if length v > max_header_value_bytes then Inl HeaderValueExceeded
      else
        (case Option.bind (checked_add_usize used_bytes (length name)) (\<lambda>n. checked_add_usize n (length v)) of
           None \<Rightarrow> Inl HeaderBytesExceeded
         | Some n \<Rightarrow> if n > rl_max_header_bytes l then Inl HeaderBytesExceeded else preflight_loop l rest n))"

definition preflight_request_buffers ::
    "request_buffer_limits \<Rightarrow> (string \<times> string) list \<Rightarrow> request_buffer_metadata \<Rightarrow>
     (buffer_admission_error, unit) result" where
  "preflight_request_buffers l raw_headers m =
     bind_result (limits_validate l) (\<lambda>_.
     if length raw_headers > rl_max_header_count l then Inl HeaderCountExceeded
     else bind_result (preflight_loop l raw_headers 0) (\<lambda>_.
       (case rm_declared_body_bytes m of
          None \<Rightarrow> Inr ()
        | Some n \<Rightarrow>
            if n > rl_max_body_bytes l then Inl BodyExceeded
            else if rm_upload m \<and> n > rl_max_upload_bytes l then Inl UploadExceeded
            else Inr ())))"

record decompression_budget =
  db_limits :: request_buffer_limits
  db_compressed_bytes :: u64
  db_decompressed_bytes :: u64

definition budget_new :: "request_buffer_limits \<Rightarrow> (buffer_admission_error, decompression_budget) result" where
  "budget_new l =
     bind_result (limits_validate l) (\<lambda>_.
       Inr \<lparr>db_limits = l, db_compressed_bytes = 0, db_decompressed_bytes = 0\<rparr>)"

definition admit_chunk ::
    "u64 \<Rightarrow> u64 \<Rightarrow> decompression_budget \<Rightarrow> (buffer_admission_error, unit) result \<times> decompression_budget" where
  "admit_chunk compressed decompressed b =
     (case bind_result (ok_or DecompressionRatioExceeded (checked_add_u64 (db_compressed_bytes b) compressed)) (\<lambda>c.
           bind_result (ok_or DecompressedExceeded (checked_add_u64 (db_decompressed_bytes b) decompressed)) (\<lambda>d.
           if d > rl_max_decompressed_bytes (db_limits b) then Inl DecompressedExceeded
           else if c = 0 then (if d \<noteq> 0 then Inl DecompressionRatioExceeded else Inr (c, d))
           else bind_result (ok_or DecompressionRatioExceeded
                  (checked_mul_u64 c (rl_max_decompression_ratio (db_limits b)))) (\<lambda>maximum.
                  if d > maximum then Inl DecompressionRatioExceeded else Inr (c, d)))) of
        Inl e \<Rightarrow> (Inl e, b)
      | Inr (c, d) \<Rightarrow> (Inr (), b\<lparr>db_compressed_bytes := c, db_decompressed_bytes := d\<rparr>))"

section \<open>Public problems\<close>

record public_problem_body =
  pp_problem_type :: string
  pp_title :: string
  pp_status :: u16
  pp_code :: string
  pp_request_id :: "string option"

definition public_problem_code :: "string \<Rightarrow> string" where
  "public_problem_code v =
     (if v \<noteq> [] \<and> length v \<le> 64 \<and> list_all (\<lambda>b. is_ascii_lowercase b \<or> is_ascii_digit b \<or> b = CHR ''_'') v
      then v else ''middleware_rejection'')"

definition public_request_id :: "string \<Rightarrow> string option" where
  "public_request_id v =
     (if v = [] \<or> length v > 128 then None
      else then_some (list_all (\<lambda>b. is_ascii_alphanumeric b \<or>
        b \<in> {CHR ''-'', CHR ''_'', CHR ''.'', CHR '':'', CHR ''/''}) v) v)"

definition public_problem ::
    "http_ingress_adapter \<Rightarrow> u16 \<Rightarrow> string \<Rightarrow> string option \<Rightarrow> string option \<Rightarrow> public_problem_body" where
  "public_problem adapter status code request_id internal_diagnostic =
     \<lparr>pp_problem_type = ''about:blank'', pp_title = ''Request rejected'', pp_status = status,
      pp_code = public_problem_code code, pp_request_id = Option.bind request_id public_request_id\<rparr>"

text \<open>The encoder is a package; byte 34 is the quotation mark.\<close>

definition encode_public_problem :: "(public_problem_body \<Rightarrow> bytes option) \<Rightarrow> public_problem_body \<Rightarrow> bytes" where
  "encode_public_problem to_vec problem =
     (case to_vec problem of
        Some body \<Rightarrow> body
      | None \<Rightarrow> ''{'' @ [CHR 0x22] @ ''title'' @ [CHR 0x22] @ '':'' @ [CHR 0x22] @ ''Request rejected'' @ [CHR 0x22] @ ''}'')"

definition safe_problem_header_names :: "string list" where
  "safe_problem_header_names =
     [''retry-after'', ''ratelimit'', ''ratelimit-policy'', ''ratelimit-limit'', ''ratelimit-remaining'',
      ''ratelimit-reset'', ''x-request-id'', ''x-ores-request-id'']"

definition safe_problem_headers :: "(string \<times> string) list \<Rightarrow> headers" where
  "safe_problem_headers hs =
     bt_collect (List.map_filter (\<lambda>(name, v).
       let normalized = to_ascii_lowercase name in
       if normalized \<in> set safe_problem_header_names \<and> v \<noteq> [] \<and> length v \<le> 256 \<and>
          \<not> list_ex (\<lambda>b. b = CHR 0x00 \<or> b = CHR 0x0D \<or> b = CHR 0x0A) v
       then Some (normalized, v) else None) hs)"

section \<open>Proxies\<close>

record forwarded_request =
  fw_socket_peer :: ip_addr
  fw_socket_host :: string
  fw_socket_scheme :: string
  fw_forwarded_host :: "string option"
  fw_forwarded_scheme :: "string option"
  fw_forwarded_client :: "string option"

record effective_request_authority =
  eff_host :: string
  eff_scheme :: string
  eff_client_ip :: ip_addr
  eff_used_forwarded_metadata :: bool

datatype proxy_admission_error =
  UntrustedForwardingPeer | InvalidForwardedHost | InvalidForwardedScheme | InvalidForwardedClient

definition validate_forwarded_host :: "string \<Rightarrow> (proxy_admission_error, string) result" where
  "validate_forwarded_host v =
     (if v = [] \<or> length v > 253 \<or> has_whitespace v \<or> CHR ''/'' \<in> set v \<or> CHR ''@'' \<in> set v \<or> CHR '','' \<in> set v
      then Inl InvalidForwardedHost else Inr (to_ascii_lowercase v))"

definition validate_forwarded_scheme :: "string \<Rightarrow> (proxy_admission_error, string) result" where
  "validate_forwarded_scheme v =
     (let normalized = to_ascii_lowercase v
      in if normalized \<notin> {''http'', ''https''} then Inl InvalidForwardedScheme else Inr normalized)"

definition proxy_resolve ::
    "string list \<Rightarrow> forwarded_request \<Rightarrow> (proxy_admission_error, effective_request_authority) result" where
  "proxy_resolve trusted_proxy_cidrs q =
     (let has_forwarding = (fw_forwarded_host q \<noteq> None \<or> fw_forwarded_scheme q \<noteq> None \<or> fw_forwarded_client q \<noteq> None);
          trusted = list_ex (\<lambda>cidr. cidr_contains cidr (fw_socket_peer q)) trusted_proxy_cidrs
      in if has_forwarding \<and> \<not> trusted then Inl UntrustedForwardingPeer
         else
           bind_result (case fw_forwarded_host q of
               Some v \<Rightarrow> validate_forwarded_host v
             | None \<Rightarrow> validate_forwarded_host (fw_socket_host q)) (\<lambda>host.
           bind_result (case fw_forwarded_scheme q of
               Some v \<Rightarrow> validate_forwarded_scheme v
             | None \<Rightarrow> validate_forwarded_scheme (fw_socket_scheme q)) (\<lambda>scheme.
           bind_result (case fw_forwarded_client q of
               Some v \<Rightarrow> ok_or InvalidForwardedClient (parse_ip_addr v)
             | None \<Rightarrow> Inr (fw_socket_peer q)) (\<lambda>client_ip.
             Inr \<lparr>eff_host = host, eff_scheme = scheme, eff_client_ip = client_ip,
                  eff_used_forwarded_metadata = has_forwarding\<rparr>))))"

section \<open>Browsers\<close>

record browser_security_policy =
  bw_allowed_origins :: "string list"
  bw_allow_credentials :: bool
  bw_require_csrf_for_cookie_mutations :: bool
  bw_require_secure_session_cookies :: bool

record browser_request =
  bq_method :: string
  bq_origin :: "string option"
  bq_has_session_cookie :: bool
  bq_csrf_verified :: bool

datatype browser_admission_error = OriginDenied | CsrfRequired | CredentialedWildcardOrigin | InsecureSessionCookie

definition browser_validate :: "browser_security_policy \<Rightarrow> (browser_admission_error, unit) result" where
  "browser_validate p =
     (if bw_allow_credentials p \<and> list_ex (\<lambda>origin. origin = ''*'') (bw_allowed_origins p)
      then Inl CredentialedWildcardOrigin else Inr ())"

definition unsafe_method :: "string \<Rightarrow> bool" where
  "unsafe_method m \<longleftrightarrow> to_ascii_uppercase m \<in> {''POST'', ''PUT'', ''PATCH'', ''DELETE''}"

definition browser_admit_request ::
    "browser_security_policy \<Rightarrow> http_ingress_adapter \<Rightarrow> browser_request \<Rightarrow> (browser_admission_error, unit) result" where
  "browser_admit_request p adapter q =
     bind_result (browser_validate p) (\<lambda>_.
       if (case bq_origin q of
             None \<Rightarrow> False
           | Some origin \<Rightarrow> \<not> list_ex (\<lambda>c. c = ''*'' \<or> c = origin) (bw_allowed_origins p)) then Inl OriginDenied
       else if bw_require_csrf_for_cookie_mutations p \<and> bq_has_session_cookie q \<and> unsafe_method (bq_method q) \<and>
         \<not> bq_csrf_verified q then Inl CsrfRequired
       else Inr ())"

definition admit_session_set_cookie ::
    "browser_security_policy \<Rightarrow> http_ingress_adapter \<Rightarrow> string \<Rightarrow> (browser_admission_error, unit) result" where
  "admit_session_set_cookie p adapter set_cookie =
     (if \<not> bw_require_secure_session_cookies p then Inr ()
      else
        (let attributes = map (\<lambda>a. to_ascii_lowercase (trim a)) (drop 1 (split_on CHR '';'' set_cookie));
             secure = list_ex (\<lambda>v. v = ''secure'') attributes;
             http_only = list_ex (\<lambda>v. v = ''httponly'') attributes;
             same_site = list_ex (\<lambda>v. v = ''samesite=lax'' \<or> v = ''samesite=strict'') attributes
         in if \<not> secure \<or> \<not> http_only \<or> \<not> same_site then Inl InsecureSessionCookie else Inr ()))"

section \<open>The budget of a decompressor\<close>

text \<open>Chunks are offered one after another; a refused chunk is discarded and the next one is tried.\<close>

fun feed :: "(u64 \<times> u64) list \<Rightarrow> decompression_budget \<Rightarrow> (u64 \<times> u64) list \<times> decompression_budget" where
  "feed [] b = ([], b)"
| "feed ((c, d) # chunks) b =
     (case admit_chunk c d b of
        (Inr _, b') \<Rightarrow> (case feed chunks b' of (kept, b'') \<Rightarrow> ((c, d) # kept, b''))
      | (Inl _, b') \<Rightarrow> feed chunks b')"

definition compressed_total :: "(u64 \<times> u64) list \<Rightarrow> nat" where
  "compressed_total chunks = (\<Sum>(c, d) \<leftarrow> chunks. unat c)"

definition decompressed_total :: "(u64 \<times> u64) list \<Rightarrow> nat" where
  "decompressed_total chunks = (\<Sum>(c, d) \<leftarrow> chunks. unat d)"

lemma total_simps [simp]:
  "compressed_total [] = 0" "compressed_total ((c, d) # chunks) = unat c + compressed_total chunks"
  "decompressed_total [] = 0" "decompressed_total ((c, d) # chunks) = unat d + decompressed_total chunks"
  by (simp_all add: compressed_total_def decompressed_total_def)

definition fits :: "request_buffer_limits \<Rightarrow> nat \<Rightarrow> nat \<Rightarrow> bool" where
  "fits l c d \<longleftrightarrow>
     c < 2 ^ 64 \<and> d \<le> unat (rl_max_decompressed_bytes l) \<and> d \<le> c * unat (rl_max_decompression_ratio l) \<and>
     c * unat (rl_max_decompression_ratio l) < 2 ^ 64"

lemma unat_add_u64: "unat a + unat b < 2 ^ 64 \<Longrightarrow> unat (a + b :: u64) = unat a + unat b"
  by (simp add: unat_word_ariths)

lemma unat_mult_u64: "unat a * unat b < 2 ^ 64 \<Longrightarrow> unat (a * b :: u64) = unat a * unat b"
  by (simp add: unat_word_ariths)

lemma admit_chunk_exact:
  assumes "C = unat (db_compressed_bytes b) + unat c" "D = unat (db_decompressed_bytes b) + unat d"
  shows "if fits (db_limits b) C D
    then admit_chunk c d b = (Inr (), b\<lparr>db_compressed_bytes := db_compressed_bytes b + c,
      db_decompressed_bytes := db_decompressed_bytes b + d\<rparr>)
    else \<exists>e. admit_chunk c d b = (Inl e, b)"
proof -
  let ?c = "db_compressed_bytes b + c" and ?d = "db_decompressed_bytes b + d"
  let ?r = "rl_max_decompression_ratio (db_limits b)"
  have bound: "unat (rl_max_decompressed_bytes (db_limits b)) < 2 ^ 64" using unsigned_less [of "rl_max_decompressed_bytes (db_limits b)"] by simp
  consider "\<not> C < 2 ^ 64" | "C < 2 ^ 64" "\<not> D < 2 ^ 64" | "C < 2 ^ 64" "D < 2 ^ 64" by linarith
  then show ?thesis
  proof cases
    case 1
    with assms(1) show ?thesis by (simp add: admit_chunk_def checked_add_u64_def fits_def ok_or_def)
  next
    case 2
    with assms bound show ?thesis by (simp add: admit_chunk_def checked_add_u64_def fits_def ok_or_def)
  next
    case 3
    then have c: "unat ?c = C" and d: "unat ?d = D" using assms by (simp_all add: unat_add_u64)
    have zero: "?c = 0 \<longleftrightarrow> C = 0" "?d = 0 \<longleftrightarrow> D = 0" using c d by (metis unat_eq_0)+
    have sums: "checked_add_u64 (db_compressed_bytes b) c = Some ?c"
      "checked_add_u64 (db_decompressed_bytes b) d = Some ?d"
      using 3 assms by (simp_all add: checked_add_u64_def)
    show ?thesis
    proof (cases "C * unat ?r < 2 ^ 64")
      case True
      then have "unat (?c * ?r) = C * unat ?r" using c by (simp add: unat_mult_u64)
      with True 3 c d zero show ?thesis
        by (simp add: admit_chunk_def sums ok_or_def checked_mul_u64_def fits_def word_less_nat_alt)
    next
      case False
      then have "C \<noteq> 0" by (intro notI) simp
      with False 3 c d zero show ?thesis
        by (simp add: admit_chunk_def sums ok_or_def checked_mul_u64_def fits_def)
    qed
  qed
qed

lemma feed_totals:
  assumes "feed chunks b = (kept, b')" "fits (db_limits b) (unat (db_compressed_bytes b)) (unat (db_decompressed_bytes b))"
  shows "db_limits b' = db_limits b \<and> subseq kept chunks \<and>
    unat (db_compressed_bytes b') = unat (db_compressed_bytes b) + compressed_total kept \<and>
    unat (db_decompressed_bytes b') = unat (db_decompressed_bytes b) + decompressed_total kept \<and>
    fits (db_limits b) (unat (db_compressed_bytes b')) (unat (db_decompressed_bytes b'))"
  using assms
proof (induction chunks arbitrary: b kept)
  case (Cons chunk chunks)
  obtain c d where chunk: "chunk = (c, d)" by (rule prod.exhaust)
  let ?C = "unat (db_compressed_bytes b) + unat c" and ?D = "unat (db_decompressed_bytes b) + unat d"
  show ?case
  proof (cases "fits (db_limits b) ?C ?D")
    case True
    let ?b = "b\<lparr>db_compressed_bytes := db_compressed_bytes b + c, db_decompressed_bytes := db_decompressed_bytes b + d\<rparr>"
    have "admit_chunk c d b = (Inr (), ?b)" using admit_chunk_exact [OF refl refl, of b c d] True by simp
    with Cons.prems(1) chunk obtain kept' where feed: "feed chunks ?b = (kept', b')" "kept = (c, d) # kept'"
      by (auto split: prod.splits)
    have "?D < 2 ^ 64"
      using True unsigned_less [of "rl_max_decompressed_bytes (db_limits b)"] by (simp add: fits_def)
    with True have sums: "unat (db_compressed_bytes ?b) = ?C" "unat (db_decompressed_bytes ?b) = ?D"
      by (simp_all add: fits_def unat_add_u64)
    with True have "fits (db_limits ?b) (unat (db_compressed_bytes ?b)) (unat (db_decompressed_bytes ?b))" by simp
    from Cons.IH [OF feed(1) this] show ?thesis by (auto simp: sums [simplified] chunk feed(2))
  next
    case False
    then have "\<exists>e. admit_chunk c d b = (Inl e, b)" using admit_chunk_exact [OF refl refl, of b c d] by simp
    with Cons.prems(1) chunk have "feed chunks b = (kept, b')" by auto
    from Cons.IH [OF this Cons.prems(2)] show ?thesis by (auto simp: chunk)
  qed
qed simp

text \<open>
  C27. However a decompressor is fed, the output it keeps never exceeds the limit on decompressed bytes nor
  the permitted multiple of the input it consumed, the counters are the exact totals of the chunks that
  were kept, and the next chunk is refused exactly when keeping it would break one of these bounds or
  the 64-bit arithmetic of the check.
\<close>

theorem decompression_budget_exact:
  assumes "budget_new l = Inr b0" "feed chunks b0 = (kept, b)"
  shows "subseq kept chunks \<and>
    decompressed_total kept \<le> unat (rl_max_decompressed_bytes l) \<and>
    decompressed_total kept \<le> compressed_total kept * unat (rl_max_decompression_ratio l) \<and>
    unat (db_compressed_bytes b) = compressed_total kept \<and> unat (db_decompressed_bytes b) = decompressed_total kept \<and>
    (fst (admit_chunk c d b) = Inr () \<longleftrightarrow> fits l (compressed_total (kept @ [(c, d)])) (decompressed_total (kept @ [(c, d)])))"
proof -
  from assms(1) have b0: "b0 = \<lparr>db_limits = l, db_compressed_bytes = 0, db_decompressed_bytes = 0\<rparr>"
    by (simp add: budget_new_def bind_result_Inr)
  then have "fits (db_limits b0) (unat (db_compressed_bytes b0)) (unat (db_decompressed_bytes b0))"
    by (simp add: fits_def)
  from feed_totals [OF assms(2) this] have run: "db_limits b = l" "subseq kept chunks"
    "unat (db_compressed_bytes b) = compressed_total kept" "unat (db_decompressed_bytes b) = decompressed_total kept"
    "fits l (compressed_total kept) (decompressed_total kept)"
    by (auto simp: b0)
  have snoc: "compressed_total (kept @ [(c, d)]) = unat (db_compressed_bytes b) + unat c"
    "decompressed_total (kept @ [(c, d)]) = unat (db_decompressed_bytes b) + unat d"
    by (simp_all add: compressed_total_def decompressed_total_def run(3,4))
  have "fst (admit_chunk c d b) = Inr () \<longleftrightarrow> fits l (compressed_total (kept @ [(c, d)])) (decompressed_total (kept @ [(c, d)]))"
    using admit_chunk_exact [OF snoc] run(1) by (auto split: if_splits)
  with run show ?thesis by (simp add: fits_def)
qed

theorem decompression_budget_exact_witness:
  "\<exists>b. feed [(10, 300), (1, 100), (5, 100)] \<lparr>db_limits = from_body_limit 1000, db_compressed_bytes = 0,
       db_decompressed_bytes = 0\<rparr> = ([(10, 300), (5, 100)], b) \<and>
     unat (db_decompressed_bytes b) = 400 \<and> fst (admit_chunk 1000 601 b) \<noteq> Inr ()"
proof -
  let ?b0 = "\<lparr>db_limits = from_body_limit 1000, db_compressed_bytes = 0, db_decompressed_bytes = 0\<rparr>"
  have b0: "budget_new (from_body_limit 1000) = Inr ?b0"
    by (simp add: budget_new_def limits_validate_def from_body_limit_def max_raw_headers_def max_header_bytes_def)
  obtain kept b where run: "feed [(10, 300), (1, 100), (5, 100)] ?b0 = (kept, b)" by (rule prod.exhaust)
  then have kept: "kept = [(10, 300), (5, 100)]"
    by (simp add: admit_chunk_def from_body_limit_def checked_add_u64_def checked_mul_u64_def ok_or_def)
  from decompression_budget_exact [OF b0 run, of 1000 601] run show ?thesis
    by (intro exI [of _ b]) (simp add: kept fits_def from_body_limit_def)
qed

section \<open>Proxies\<close>

text \<open>
  C28. Forwarded metadata counts only when the socket peer lies in a trusted block: otherwise an admitted
  request has the host, the scheme and the address of its socket. The host that comes out is a bounded
  lowercase name without a path, user or list separator, and the scheme is http or https.
\<close>

theorem forwarded_metadata_trusted:
  assumes "proxy_resolve cidrs q = Inr a"
  shows "(if eff_used_forwarded_metadata a then list_ex (\<lambda>cidr. cidr_contains cidr (fw_socket_peer q)) cidrs
     else eff_host a = to_ascii_lowercase (fw_socket_host q) \<and> eff_client_ip a = fw_socket_peer q \<and>
       eff_scheme a = to_ascii_lowercase (fw_socket_scheme q)) \<and>
    eff_scheme a \<in> {''http'', ''https''} \<and> eff_host a \<noteq> [] \<and> length (eff_host a) \<le> 253 \<and>
    to_ascii_lowercase (eff_host a) = eff_host a \<and> set (eff_host a) \<inter> {CHR ''/'', CHR ''@'', CHR '',''} = {}"
proof -
  have host: "w \<noteq> [] \<and> length w \<le> 253 \<and> to_ascii_lowercase w = w \<and> set w \<inter> {CHR ''/'', CHR ''@'', CHR '',''} = {} \<and>
      w = to_ascii_lowercase v" if "validate_forwarded_host v = Inr w" for v w
  proof -
    have "c \<in> set v" if "lower_char x = c" "x \<in> set v" "c \<in> {CHR ''/'', CHR ''@'', CHR '',''}" for x c
    proof (cases "is_ascii_uppercase x")
      case True
      then have "code_of (lower_char x) = code_of x + 32" by (simp add: lower_char_def ascii_defs)
      with True that show ?thesis by (auto simp: ascii_defs)
    qed (use that in \<open>auto simp: lower_char_def\<close>)
    with that show ?thesis
      by (auto simp: validate_forwarded_host_def to_ascii_lowercase_def split: if_splits)
  qed
  have scheme: "w \<in> {''http'', ''https''} \<and> w = to_ascii_lowercase v" if "validate_forwarded_scheme v = Inr w" for v w
    using that by (auto simp: validate_forwarded_scheme_def Let_def split: if_splits)
  from assms obtain v s where "validate_forwarded_host v = Inr (eff_host a)"
    "validate_forwarded_scheme s = Inr (eff_scheme a)"
    "eff_used_forwarded_metadata a \<or> v = fw_socket_host q \<and> s = fw_socket_scheme q \<and> eff_client_ip a = fw_socket_peer q"
    "eff_used_forwarded_metadata a \<longrightarrow> list_ex (\<lambda>cidr. cidr_contains cidr (fw_socket_peer q)) cidrs"
    by (auto simp: proxy_resolve_def Let_def bind_result_Inr split: if_splits option.splits)
  then show ?thesis using host [of v "eff_host a"] scheme [of s "eff_scheme a"] by auto
qed

definition sample_forwarded :: forwarded_request where
  "sample_forwarded =
     \<lparr>fw_socket_peer = V4 0x0A000001, fw_socket_host = ''a.example'', fw_socket_scheme = ''http'',
      fw_forwarded_host = Some ''shop.example'', fw_forwarded_scheme = Some ''https'', fw_forwarded_client = None\<rparr>"

lemma sample_block: "cidr_contains ''10.0.0.0/8'' (V4 0x0A000001)"
proof -
  have "parse_ip_addr ''10.0.0.0'' = Some (V4 0x0A000000)"
    by (simp add: parse_ip_addr_def read_ipv4_addr_def read_separator_def read_number_def to_digit_def
        ascii_defs read_given_char_def word_of_groups_def opt_filter_def)
  moreover have "parse_u8 ''8'' = Some 8"
    by (simp add: parse_u8_def parse_unsigned_def to_digit_def ascii_defs opt_filter_def)
  ultimately show ?thesis by (simp add: cidr_contains_def parse_cidr_def masked_v4_eq drop_bit_eq_div)
qed

theorem forwarded_metadata_trusted_witness:
  "\<exists>a. proxy_resolve [''10.0.0.0/8''] sample_forwarded = Inr a \<and> eff_used_forwarded_metadata a \<and>
     eff_scheme a \<in> {''http'', ''https''} \<and> list_ex (\<lambda>cidr. cidr_contains cidr (V4 0x0A000001)) [''10.0.0.0/8'']"
proof -
  have "\<not> has_whitespace ''shop.example''" by (rule visible_no_whitespace) (simp add: visible_def)
  then have "\<exists>a. proxy_resolve [''10.0.0.0/8''] sample_forwarded = Inr a \<and> eff_used_forwarded_metadata a"
    by (simp add: proxy_resolve_def sample_forwarded_def sample_block validate_forwarded_host_def
        validate_forwarded_scheme_def to_ascii_lowercase_def lower_char_def ascii_defs Let_def)
  then obtain a where a: "proxy_resolve [''10.0.0.0/8''] sample_forwarded = Inr a" "eff_used_forwarded_metadata a"
    by blast
  with forwarded_metadata_trusted [OF a(1)] show ?thesis
    by (intro exI [of _ a]) (simp add: sample_forwarded_def)
qed

end
