(* ===== verification/Shared_Auth_Service.thy ===== *)
theory Shared_Auth_Service
  imports Shared_Auth
begin

text \<open>
  \<^verbatim>\<open>src/src/rust/src/shared_auth_service.rs\<close>: the protected stack of a service that consumes one token of
  the Shared Auth service. The rules for slugs and issuers are those of \<open>Shared_Auth\<close>, whose source
  repeats them.
\<close>

section \<open>Topologies\<close>

record service_topology =
  vt_github_org :: string
  vt_server_role :: server_role
  vt_issuer :: string
  vt_audience :: string

definition service_topology_issues :: "service_topology \<Rightarrow> validation_issue list" where
  "service_topology_issues t =
     opt_list (issue_if (\<not> valid_org_slug (vt_github_org t)) ''/sharedAuthServiceTopology/githubOrg''
       ''invalid_org_slug'' ''GitHub organization must be a non-empty organization slug'') @
     opt_list (issue_if (\<not> valid_https_issuer (vt_issuer t)) ''/sharedAuthServiceTopology/issuer''
       ''shared_auth_service_issuer_invalid''
       ''Shared Auth issuer must be a non-empty HTTPS URL without whitespace'') @
     opt_list (issue_if (trim (vt_audience t) = []) ''/sharedAuthServiceTopology/audience''
       ''shared_auth_service_audience_required'' ''Shared Auth audience must not be empty'')"

definition service_topology_new ::
    "string \<Rightarrow> server_role \<Rightarrow> string \<Rightarrow> string \<Rightarrow> (validation_issue list, service_topology) result" where
  "service_topology_new github_org role issuer audience =
     (let topology = \<lparr>vt_github_org = github_org, vt_server_role = role, vt_issuer = issuer, vt_audience = audience\<rparr>;
          issues = service_topology_issues topology
      in if issues = [] then Inr topology else Inl issues)"

definition service_data_plane :: "service_topology \<Rightarrow> data_plane" where
  "service_data_plane t = role_data_plane (vt_server_role t)"

section \<open>Protected stacks\<close>

datatype service_stack_error = ServiceValidation "validation_issue list" | ServiceRateLimitKey integration_error

text \<open>The text of an error; the package error is shown by the argument \<open>show_error\<close>.\<close>

definition service_stack_error_display :: "(integration_error \<Rightarrow> string) \<Rightarrow> service_stack_error \<Rightarrow> string" where
  "service_stack_error_display show_error e =
     (case e of
        ServiceValidation issues \<Rightarrow>
          ''Shared Auth service stack has '' @ show_nat (length issues) @ '' validation issue(s)''
      | ServiceRateLimitKey error \<Rightarrow> ''rate-limit key rejected: '' @ show_error error)"

record 'x service_stack =
  vs_inner :: "'x middleware_stack"
  vs_topology :: service_topology

definition is_none_or_empty :: "string option \<Rightarrow> bool" where
  "is_none_or_empty v \<longleftrightarrow> (case v of None \<Rightarrow> True | Some x \<Rightarrow> x = [])"

definition service_integration_issues :: "middleware_config \<Rightarrow> service_topology \<Rightarrow> validation_issue list" where
  "service_integration_issues cfg t =
     (let sa = mi_shared_auth (mc_integrations cfg) in
     opt_list (issue_if (sa_mode sa \<noteq> Http) ''/integrations/sharedAuth/mode''
       ''shared_auth_service_http_required''
       ''unified Shared Auth service verification requires HTTP/JWKS service mode'') @
     opt_list (issue_if (sa_fail_open sa) ''/integrations/sharedAuth/failOpen''
       ''shared_auth_service_fail_open_forbidden''
       ''protected Shared Auth service verification must fail closed'') @
     opt_list (issue_if (sa_issuer sa \<noteq> Some (vt_issuer t)) ''/integrations/sharedAuth/issuer''
       ''shared_auth_service_issuer_mismatch''
       ''middleware issuer must exactly match the Shared Auth service topology'') @
     opt_list (issue_if (sa_audience sa \<noteq> Some (vt_audience t)) ''/integrations/sharedAuth/audience''
       ''shared_auth_service_audience_mismatch''
       ''middleware audience must exactly match the Shared Auth service topology'') @
     opt_list (issue_if (is_none_or_empty (sa_jwks_uri sa) \<and> is_none_or_empty (sa_introspection_url sa))
       ''/integrations/sharedAuth'' ''shared_auth_service_verification_endpoint_required''
       ''Shared Auth service verification requires JWKS or introspection configuration''))"

definition service_build ::
    "'m hmac_ops \<Rightarrow> 'x environment \<Rightarrow> middleware_config \<Rightarrow> service_topology \<Rightarrow> 'x auth_verifier \<Rightarrow>
     bytes option \<Rightarrow> 'x \<Rightarrow> (service_stack_error, 'x service_stack \<times> 'x stack_world) result" where
  "service_build hmac env cfg t verifier hmac_key x =
     (let issues = validate_config cfg @ service_topology_issues t @ service_integration_issues cfg t
      in if issues \<noteq> [] then Inl (ServiceValidation issues)
         else
           (case stack_new hmac env cfg x of
              Inl issues \<Rightarrow> Inl (ServiceValidation issues)
            | Inr (s, w) \<Rightarrow>
                (let inner = with_auth_verifier s verifier
                 in case hmac_key of
                      None \<Rightarrow> Inr (\<lparr>vs_inner = inner, vs_topology = t\<rparr>, w)
                    | Some key \<Rightarrow>
                        (case with_rate_limit_hmac_key hmac inner key of
                           Inl e \<Rightarrow> Inl (ServiceRateLimitKey e)
                         | Inr inner \<Rightarrow> Inr (\<lparr>vs_inner = inner, vs_topology = t\<rparr>, w)))))"

definition service_stack_new ::
    "'m hmac_ops \<Rightarrow> 'x environment \<Rightarrow> middleware_config \<Rightarrow> service_topology \<Rightarrow> 'x auth_verifier \<Rightarrow>
     'x \<Rightarrow> (service_stack_error, 'x service_stack \<times> 'x stack_world) result" where
  "service_stack_new hmac env cfg t verifier x =
     (if sr_enabled (ms_rate_limit (mc_settings cfg)) \<and>
         sr_key_derivation (ms_rate_limit (mc_settings cfg)) = ExternalHmacSha256 then
        Inl (ServiceValidation [validation_issue_new ''/settings/rateLimit/keyDerivation''
          ''external_rate_limit_key_required''
          ''protected Shared Auth service stack requires an explicit external HMAC key''])
      else service_build hmac env cfg t verifier None x)"

definition service_stack_with_hmac_key ::
    "'m hmac_ops \<Rightarrow> 'x environment \<Rightarrow> middleware_config \<Rightarrow> service_topology \<Rightarrow> 'x auth_verifier \<Rightarrow>
     bytes \<Rightarrow> 'x \<Rightarrow> (service_stack_error, 'x service_stack \<times> 'x stack_world) result" where
  "service_stack_with_hmac_key hmac env cfg t verifier key x = service_build hmac env cfg t verifier (Some key) x"

definition service_begin ::
    "'x environment \<Rightarrow> 'x service_stack \<Rightarrow> request_metadata \<Rightarrow> 'x stack_world \<Rightarrow>
     (middleware_error, active_request) result \<times> 'x stack_world" where
  "service_begin env s request w = stack_begin env (vs_inner s) request w"

definition service_finish ::
    "'x environment \<Rightarrow> 'x service_stack \<Rightarrow> active_request \<Rightarrow> u16 \<Rightarrow> u64 option \<Rightarrow> 'x stack_world \<Rightarrow>
     headers \<times> 'x stack_world" where
  "service_finish env s active status response_bytes w =
     stack_finish env (vs_inner s) active status response_bytes w"

section \<open>Admission\<close>

text \<open>A configuration that fits a service topology.\<close>

definition service_config_ok :: "middleware_config \<Rightarrow> service_topology \<Rightarrow> bool" where
  "service_config_ok cfg t \<longleftrightarrow>
     (let sa = mi_shared_auth (mc_integrations cfg) in
     validate_config cfg = [] \<and> valid_org_slug (vt_github_org t) \<and> valid_https_issuer (vt_issuer t) \<and>
     trim (vt_audience t) \<noteq> [] \<and> sa_mode sa = Http \<and> \<not> sa_fail_open sa \<and>
     sa_issuer sa = Some (vt_issuer t) \<and> sa_audience sa = Some (vt_audience t) \<and>
     (\<not> is_none_or_empty (sa_jwks_uri sa) \<or> \<not> is_none_or_empty (sa_introspection_url sa)))"

lemma service_issues_Nil:
  "validate_config cfg @ service_topology_issues t @ service_integration_issues cfg t = [] \<longleftrightarrow> service_config_ok cfg t"
  by (auto simp: service_topology_issues_def service_integration_issues_def service_config_ok_def Let_def)

lemma service_build_Inr:
  assumes "service_build hmac env cfg t verifier key x = Inr (s, w)"
  shows "service_config_ok cfg t \<and> vs_topology s = t \<and> mk_config (vs_inner s) = cfg \<and> mk_auth (vs_inner s) = verifier \<and>
    mk_auth_error_exposure (vs_inner s) = SanitizeProviderDiagnostics"
proof -
  from assms have ok: "service_config_ok cfg t"
    by (auto simp: service_build_def Let_def service_issues_Nil [symmetric] split: if_splits)
  from assms obtain s0 where new: "stack_new hmac env cfg x = Inr (s0, w)"
    by (auto simp: service_build_def Let_def split: if_splits sum.splits option.splits)
  from assms ok new have "vs_topology s = t \<and> mk_config (vs_inner s) = mk_config s0 \<and> mk_auth (vs_inner s) = verifier \<and>
      mk_auth_error_exposure (vs_inner s) = SanitizeProviderDiagnostics"
    by (auto simp: service_build_def Let_def with_auth_verifier_def with_rate_limit_hmac_key_def bind_result_Inr
        with_rate_limit_key_deriver_def split: if_splits sum.splits option.splits)
  with ok stack_new_sel [OF new] show ?thesis by simp
qed

text \<open>
  A service stack exists only for a valid configuration that names exactly the issuer and the audience of
  its topology, verifies over HTTP and never fails open; with an external rate-limit key only when the
  key was given. It admits a request only when its verifier accepted it and named a user, and the
  context carries this user and tenant.
\<close>

theorem service_admission:
  assumes "service_stack_new hmac env cfg t verifier x0 = Inr (s, w0) \<or>
      service_stack_with_hmac_key hmac env cfg t verifier key x0 = Inr (s, w0)"
    and "service_begin env s request w = (Inr a, w')"
  shows "service_config_ok cfg t \<and>
    (\<exists>x auth x' user. verifier request x = (Some (Inr auth), x') \<and> ad_user_id auth = Some user \<and>
      rc_user_id (ar_context a) = Some user \<and> rc_tenant_id (ar_context a) = ad_tenant_id auth)"
proof -
  from assms(1) obtain k where "service_build hmac env cfg t verifier k x0 = Inr (s, w0)"
    by (auto simp: service_stack_new_def service_stack_with_hmac_key_def split: if_splits)
  note built = service_build_Inr [OF this]
  from assms(2) have "stack_begin env (vs_inner s) request w = (Inr a, w')" by (simp add: service_begin_def)
  then obtain base x auth w1 started decision where
    pre: "pre_auth (vs_inner s) request (w\<lparr>sw_env := x\<rparr>) = (Some (Inr auth), w1)" and
    start: "request_start env (vs_inner s) (authenticated_context base auth) request auth w1 =
       (Some (Inr (started, decision)), w')" and
    a: "a = \<lparr>ar_context = authenticated_context base auth, ar_started = started, ar_request = request,
          ar_rate_limit_decision = decision\<rparr>"
    by (rule stack_begin_InrE)
  from pre_auth_Inr [OF pre] obtain x' where auth: "verifier request x = (Some (Inr auth), x')" using built by auto
  have "sa_mode (mi_shared_auth (mc_integrations (mk_config (vs_inner s)))) = Http"
    using built by (auto simp: service_config_ok_def Let_def)
  with start have "rc_user_id (authenticated_context base auth) \<noteq> None"
    by (cases rule: request_start_cases) auto
  then have "ad_user_id auth \<noteq> None" by (simp add: authenticated_context_def)
  with built auth a show ?thesis by (auto simp: authenticated_context_def)
qed

section \<open>A service at work\<close>

definition sample_service_topology :: service_topology where
  "sample_service_topology =
     \<lparr>vt_github_org = ''ORESoftware'', vt_server_role = WebServerRole, vt_issuer = ''https://a.example'',
      vt_audience = ''svc''\<rparr>"

definition sample_service_config :: middleware_config where
  "sample_service_config =
     sample_protected_config\<lparr>mc_integrations := (mc_integrations sample_protected_config)
        \<lparr>mi_shared_auth := (mi_shared_auth (mc_integrations sample_protected_config))\<lparr>sa_issuer := Some ''https://a.example''\<rparr>\<rparr>\<rparr>"

definition sample_service_verifier :: "unit auth_verifier" where
  "sample_service_verifier request = act_return (Inr sample_auth)"

lemma sample_service_ok: "service_config_ok sample_service_config sample_service_topology"
proof -
  have "validate_config sample_service_config = []"
    using sample_protected_valid
    by (simp add: validate_config_Nil config_ok_def sample_service_config_def sample_protected_config_def on_defs
        is_production_def sample_production_config_def default_config_def trim_samples)
  moreover have "\<not> has_whitespace ''https://a.example''"
    by (rule visible_no_whitespace) (simp add: visible_def)
  ultimately show ?thesis
    by (simp add: service_config_ok_def sample_service_config_def sample_service_topology_def Let_def
        sample_protected_config_def valid_org_slug_def ascii_defs valid_https_issuer_def starts_with_def
        is_none_or_empty_def trim_samples)
qed

theorem service_admission_witness:
  "\<exists>s w0 a w'. service_stack_new sample_hmac sample_env sample_service_config sample_service_topology
      sample_service_verifier () = Inr (s, w0) \<and>
     service_begin sample_env s sample_request w0 = (Inr a, w') \<and> rc_user_id (ar_context a) = Some ''u1''"
proof -
  have valid: "validate_config sample_service_config = []"
    using sample_service_ok by (simp add: service_config_ok_def Let_def)
  obtain s0 w0 where s0: "stack_new sample_hmac sample_env sample_service_config () = Inr (s0, w0)"
    using stack_new_Inr [OF valid, of sample_hmac sample_env "()"] by blast
  let ?s = "\<lparr>vs_inner = with_auth_verifier s0 sample_service_verifier, vs_topology = sample_service_topology\<rparr>"
  have "\<not> sr_enabled (ms_rate_limit (mc_settings sample_service_config))"
    by (simp add: sample_service_config_def)
  then have new: "service_stack_new sample_hmac sample_env sample_service_config sample_service_topology
      sample_service_verifier () = Inr (?s, w0)"
    using service_issues_Nil [of sample_service_config sample_service_topology] sample_service_ok
    by (simp add: service_stack_new_def service_build_def s0)
  obtain a w' where "stack_begin sample_env (vs_inner ?s) sample_request w0 = (Inr a, w')"
    using sample_protected_begin_any [of "vs_inner ?s" "mc_integrations sample_service_config" sample_auth w0] stack_new_sel [OF s0]
    by (auto simp: with_auth_verifier_def sample_service_verifier_def act_return_def sample_auth_def
        sample_service_config_def fun_eq_iff)
  then have begun: "service_begin sample_env ?s sample_request w0 = (Inr a, w')" by (simp add: service_begin_def)
  have "rc_user_id (ar_context a) = Some ''u1''"
    using service_admission [OF disjI1 [OF new] begun]
    by (auto simp: sample_service_verifier_def sample_auth_def)
  with new begun show ?thesis by blast
qed

end
