(* ===== verification/Auth_Stage.thy ===== *)
theory Auth_Stage
  imports Stage
begin

text \<open>
  \<^verbatim>\<open>src/src/rust/src/auth_stage.rs\<close>: authentication as a stage. The provider is a function on the world of
  the pipeline, the enricher a function of the consumer; the log line of a rejection is not modelled.
\<close>

type_synonym ('j, 'w) static_auth_verifier =
  "request_metadata \<Rightarrow> 'w \<Rightarrow> (integration_error, auth_decision) result \<times> 'w"

type_synonym 'j decision_enricher = "'j stage_input \<Rightarrow> auth_decision \<Rightarrow> 'j stage_input"

definition noop_enricher :: "'j decision_enricher" where
  "noop_enricher i decision = i"

record ('j, 'w) auth_stage =
  as_name :: string
  as_verifier :: "('j, 'w) static_auth_verifier"
  as_enricher :: "'j decision_enricher"

definition auth_stage_from_provider :: "string \<Rightarrow> ('j, 'w) static_auth_verifier \<Rightarrow> ('j, 'w) auth_stage" where
  "auth_stage_from_provider name provider =
     \<lparr>as_name = name, as_verifier = provider, as_enricher = noop_enricher\<rparr>"

definition with_decision_enricher :: "('j, 'w) auth_stage \<Rightarrow> 'j decision_enricher \<Rightarrow> ('j, 'w) auth_stage" where
  "with_decision_enricher s enricher =
     \<lparr>as_name = as_name s, as_verifier = as_verifier s, as_enricher = enricher\<rparr>"

definition apply_decision :: "('j, 'w) auth_stage \<Rightarrow> 'j stage_input \<Rightarrow> auth_decision \<Rightarrow> 'j stage_input" where
  "apply_decision s i decision =
     as_enricher s (i\<lparr>si_context := (si_context i)\<lparr>rc_user_id := ad_user_id decision,
       rc_tenant_id := ad_tenant_id decision\<rparr>\<rparr>) decision"

definition reject_auth :: "string \<Rightarrow> integration_error \<Rightarrow> 'j stage_decision" where
  "reject_auth stage_name e = Reject (rejection_new 401 ''authentication_failed'' ''authentication failed'')"

definition evaluate_auth :: "('j, 'w) auth_stage \<Rightarrow> 'j stage_input \<Rightarrow> 'w \<Rightarrow> 'j stage_decision \<times> 'w" where
  "evaluate_auth s i w =
     (case as_verifier s (si_request i) w of
        (Inr decision, w') \<Rightarrow> (Continue (apply_decision s i decision), w')
      | (Inl e, w') \<Rightarrow> (reject_auth (as_name s) e, w'))"

definition auth_stage_handler :: "('j, 'w) auth_stage \<Rightarrow> ('j, 'w) stage_handler" where
  "auth_stage_handler s = \<lparr>sh_name = as_name s, sh_request = evaluate_auth s, sh_response = default_response\<rparr>"

text \<open>
  An authentication stage in front of a pipeline is a guard: when the provider fails, the answer is the
  same 401 problem whatever the error says, and neither a later stage nor the handler runs; when it
  succeeds, the pipeline behind it runs once, on the input with the user and tenant of the decision.
\<close>

theorem auth_stage_guards:
  "execute jc (auth_stage_handler s # stages) i handler w =
     (case as_verifier s (si_request i) w of
        (Inl e, w') \<Rightarrow>
          (response_problem jc (rejection_new 401 ''authentication_failed'' ''authentication failed''), w')
      | (Inr decision, w') \<Rightarrow>
          execute jc stages
            (as_enricher s (i\<lparr>si_context := (si_context i)\<lparr>rc_user_id := ad_user_id decision,
               rc_tenant_id := ad_tenant_id decision\<rparr>\<rparr>) decision) handler w')"
  by (simp add: execute_def execute_loop_onion unwind_def auth_stage_handler_def evaluate_auth_def
      apply_decision_def reject_auth_def default_response_def split: prod.split sum.split)

end
