(* ===== verification/Docs_Serving.thy ===== *)
theory Docs_Serving
  imports Bootstrap
begin

text \<open>
  \<^verbatim>\<open>src/src/rust/src/docs_serving.rs\<close>: whether a request is for an API document, and which representation
  it gets. A quality is a \<open>f32\<close>: the argument \<open>rnd\<close> rounds a decimal number to one.
\<close>

section \<open>Data\<close>

definition docs_format_header :: string where "docs_format_header = ''x-ores-docs-format''"
definition contract_digest_header :: string where "contract_digest_header = ''x-ores-contract-sha256''"

datatype representation = Html | Catalog | OpenApi | OpenRpc | Connect | HyperSchema

definition representation_as_str :: "representation \<Rightarrow> string" where
  "representation_as_str r =
     (case r of Html \<Rightarrow> ''html'' | Catalog \<Rightarrow> ''catalog'' | OpenApi \<Rightarrow> ''openapi'' | OpenRpc \<Rightarrow> ''openrpc''
      | Connect \<Rightarrow> ''connect'' | HyperSchema \<Rightarrow> ''hyper-schema'')"

definition representation_parse :: "string \<Rightarrow> representation option" where
  "representation_parse v =
     (let n = to_ascii_lowercase (trim v) in
      if n = ''html'' then Some Html else if n = ''catalog'' then Some Catalog
      else if n = ''openapi'' then Some OpenApi else if n = ''openrpc'' then Some OpenRpc
      else if n = ''connect'' then Some Connect else if n = ''hyper-schema'' then Some HyperSchema else None)"

definition content_type :: "representation \<Rightarrow> string" where
  "content_type r =
     (case r of
        Html \<Rightarrow> ''text/html; charset=utf-8''
      | Catalog \<Rightarrow> ''application/vnd.ores.api-docs+json; charset=utf-8''
      | OpenApi \<Rightarrow> ''application/vnd.oai.openapi+json; charset=utf-8''
      | OpenRpc \<Rightarrow> ''application/openrpc+json; charset=utf-8''
      | Connect \<Rightarrow> ''application/vnd.ores.connect+json; charset=utf-8''
      | HyperSchema \<Rightarrow> ''application/schema+json; charset=utf-8'')"

datatype docs_action = Pass | Serve | MethodNotAllowed | NotAcceptable | StoppedForEvaluation

definition action_as_str :: "docs_action \<Rightarrow> string" where
  "action_as_str a =
     (case a of Pass \<Rightarrow> ''pass'' | Serve \<Rightarrow> ''serve'' | MethodNotAllowed \<Rightarrow> ''method-not-allowed''
      | NotAcceptable \<Rightarrow> ''not-acceptable'' | StoppedForEvaluation \<Rightarrow> ''stopped-for-evaluation'')"

record docs_request =
  dq_method :: string
  dq_path :: string
  dq_accept :: "string option"
  dq_format :: "string option"
  dq_runtime_contract_digest :: "string option"
  dq_docs_contract_digest :: "string option"

record docs_decision =
  dd_action :: docs_action
  dd_status :: "u16 option"
  dd_representation :: "representation option"
  dd_head_only :: bool
  dd_headers :: headers

definition docs_with_headers :: "headers \<Rightarrow> (string \<times> string) list \<Rightarrow> headers" where
  "docs_with_headers base additions = bt_collect (base @ additions)"

definition base_headers :: "string \<Rightarrow> headers" where
  "base_headers ct =
     bt_collect
       [(''Cache-Control'', ''no-store''), (''Pragma'', ''no-cache''), (''X-Content-Type-Options'', ''nosniff''),
        (''Referrer-Policy'', ''no-referrer''),
        (''Permissions-Policy'', ''camera=(), microphone=(), geolocation=()''),
        (''Vary'', ''Accept, '' @ docs_format_header), (''Content-Type'', ct)]"

definition docs_pass :: docs_decision where
  "docs_pass = \<lparr>dd_action = Pass, dd_status = None, dd_representation = None, dd_head_only = False, dd_headers = []\<rparr>"

definition docs_reject :: "docs_action \<Rightarrow> u16 \<Rightarrow> bool \<Rightarrow> docs_decision" where
  "docs_reject action status allow =
     \<lparr>dd_action = action, dd_status = Some status, dd_representation = None, dd_head_only = False,
      dd_headers = docs_with_headers (base_headers ''application/json; charset=utf-8'')
        (opt_list (then_some allow (''Allow'', ''GET, HEAD'')))\<rparr>"

text \<open>\<open>.map(str::trim).filter(|v| !v.is_empty())\<close>.\<close>

definition trimmed :: "string option \<Rightarrow> string option" where
  "trimmed v = opt_filter (\<lambda>x. x \<noteq> []) (map_option trim v)"

text \<open>Byte 39 is the single quote.\<close>

definition docs_csp :: string where
  "docs_csp =
     (let none = CHR 0x27 # ''none'' @ [CHR 0x27]
      in ''default-src '' @ none @ ''; style-src '' @ CHR 0x27 # ''unsafe-inline'' @ CHR 0x27 # ''; img-src '' @ none @
         ''; frame-ancestors '' @ none @ ''; base-uri '' @ none @ ''; object-src '' @ none @ ''; form-action '' @ none @
         ''; connect-src '' @ none @ ''; script-src '' @ none)"

definition representation_headers :: "representation \<Rightarrow> string option \<Rightarrow> headers" where
  "representation_headers r docs_digest =
     (let frame_header = then_some (r = Html) (''X-Frame-Options'', ''DENY'');
          csp_header = then_some (r = Html) (''Content-Security-Policy'', docs_csp);
          digest_header = map_option (\<lambda>d. (contract_digest_header, d)) (trimmed docs_digest)
      in bt_collect (base_headers (content_type r) @ opt_list frame_header @ opt_list csp_header @
           opt_list digest_header))"

definition fixed_representation :: "string \<Rightarrow> representation option" where
  "fixed_representation path =
     (if path \<in> {''/api/docs.json'', ''/api-docs.json''} then Some Catalog
      else if path = ''/openapi.json'' then Some OpenApi
      else if path = ''/openrpc.json'' then Some OpenRpc
      else if path = ''/connect.json'' then Some Connect
      else if path = ''/hyper-schema.json'' then Some HyperSchema
      else None)"

definition is_generic_path :: "string \<Rightarrow> bool" where
  "is_generic_path path \<longleftrightarrow> path \<in> {''/docs/api'', ''/api/docs'', ''/api-docs''}"

section \<open>Content negotiation\<close>

record media_range =
  mr_media :: string
  mr_quality :: f64
  mr_index :: nat

text \<open>The fold over the parameters named \<open>q\<close>: the last one wins, a malformed one ends it.\<close>

fun quality_fold :: "rounding_fn \<Rightarrow> (string \<times> string) list \<Rightarrow> f64 \<Rightarrow> f64 option" where
  "quality_fold rnd [] q = Some q"
| "quality_fold rnd ((name, raw_value) # ps) q =
     (case parse_f64 rnd (trim raw_value) of
        None \<Rightarrow> None
      | Some parsed \<Rightarrow> if fle (Fin 0) parsed \<and> fle parsed (Fin 1) then quality_fold rnd ps parsed else None)"

definition parse_media_range :: "rounding_fn \<Rightarrow> nat \<Rightarrow> string \<Rightarrow> media_range option" where
  "parse_media_range rnd index raw_part =
     (let (media, parameters) = (case split_once CHR '';'' raw_part of Some p \<Rightarrow> p | None \<Rightarrow> (raw_part, []));
          media = to_ascii_lowercase (trim media)
      in if media = [] then None
         else
           Option.bind (quality_fold rnd
               (filter (\<lambda>(name, _). eq_ignore_ascii_case (trim name) ''q'')
                 (map (\<lambda>p. case split_once CHR ''='' p of Some nv \<Rightarrow> nv | None \<Rightarrow> (p, []))
                   (filter (\<lambda>p. trim p \<noteq> []) (split_on CHR '';'' parameters)))) (Fin 1)) (\<lambda>quality.
             then_some (\<not> fle quality (Fin 0)) \<lparr>mr_media = media, mr_quality = quality, mr_index = index\<rparr>))"

text \<open>
  Higher quality first, then the earlier index. The library sorts stably by this total order; the
  result is the insertion sort below.
\<close>

definition preferred :: "media_range \<Rightarrow> media_range \<Rightarrow> bool" where
  "preferred l r \<longleftrightarrow> \<not> fle (mr_quality l) (mr_quality r) \<or> mr_quality l = mr_quality r \<and> mr_index l \<le> mr_index r"

fun insert_range :: "media_range \<Rightarrow> media_range list \<Rightarrow> media_range list" where
  "insert_range x [] = [x]"
| "insert_range x (y # ys) = (if preferred x y then x # y # ys else y # insert_range x ys)"

definition sorted_by_preference :: "media_range list \<Rightarrow> media_range list" where
  "sorted_by_preference ranges = foldr insert_range ranges []"

definition parse_accept :: "rounding_fn \<Rightarrow> string option \<Rightarrow> media_range list" where
  "parse_accept rnd v =
     (case opt_filter (\<lambda>item. trim item \<noteq> []) v of
        None \<Rightarrow> []
      | Some v \<Rightarrow>
          sorted_by_preference
            (List.map_filter (\<lambda>(index, raw_part). parse_media_range rnd index raw_part) (enum_list (split_on CHR '','' v))))"

definition media_representation :: "string \<Rightarrow> representation option" where
  "media_representation media =
     (if media = ''*/*'' then Some Html
      else if media = ''application/*'' then Some Catalog
      else if media = ''text/html'' then Some Html
      else if media \<in> {''application/vnd.ores.api-docs+json'', ''application/json''} then Some Catalog
      else if media \<in> {''application/vnd.oai.openapi+json'', ''application/openapi+json''} then Some OpenApi
      else if media = ''application/openrpc+json'' then Some OpenRpc
      else if media = ''application/vnd.ores.connect+json'' then Some Connect
      else if media = ''application/schema+json'' then Some HyperSchema
      else None)"

fun find_representation :: "media_range list \<Rightarrow> representation option" where
  "find_representation [] = None"
| "find_representation (r # rs) =
     (case media_representation (mr_media r) of Some x \<Rightarrow> Some x | None \<Rightarrow> find_representation rs)"

definition blank_accept :: "string option \<Rightarrow> bool" where
  "blank_accept v \<longleftrightarrow> (case v of None \<Rightarrow> True | Some x \<Rightarrow> trim x = [])"

definition negotiate_generic :: "rounding_fn \<Rightarrow> string option \<Rightarrow> representation option" where
  "negotiate_generic rnd accept =
     (let ranges = parse_accept rnd accept
      in if ranges = [] then (if blank_accept accept then Some Html else None) else find_representation ranges)"

definition accepts_representation :: "rounding_fn \<Rightarrow> string option \<Rightarrow> representation \<Rightarrow> bool" where
  "accepts_representation rnd accept r =
     (case opt_filter (\<lambda>item. trim item \<noteq> []) accept of
        None \<Rightarrow> True
      | Some v \<Rightarrow>
          (let ranges = parse_accept rnd (Some v)
           in if ranges = [] then False
              else list_ex (\<lambda>range. mr_media range = ''*/*'' \<or>
                (r \<noteq> Html \<and> mr_media range \<in> {''application/*'', ''application/json''}) \<or>
                media_representation (mr_media range) = Some r) ranges))"

section \<open>The decision\<close>

definition valid_digest :: "string \<Rightarrow> bool" where
  "valid_digest v \<longleftrightarrow>
     length v = 64 \<and> list_all (\<lambda>b. is_ascii_digit b \<or> 97 \<le> code_of b \<and> code_of b \<le> 102) v"

definition digest_failure :: "string option \<Rightarrow> string option \<Rightarrow> bool" where
  "digest_failure runtime_digest docs_digest =
     (let runtime = trimmed runtime_digest; docs = trimmed docs_digest
      in if (case runtime of None \<Rightarrow> False | Some v \<Rightarrow> \<not> valid_digest v) \<or>
            (case docs of None \<Rightarrow> False | Some v \<Rightarrow> \<not> valid_digest v) then True
         else (case runtime of None \<Rightarrow> False | Some expected \<Rightarrow> docs \<noteq> Some expected))"

text \<open>\<open>expect\<close> on a fixed path that is known to be present is the branch None below: a panic.\<close>

definition docs_decide :: "rounding_fn \<Rightarrow> docs_request \<Rightarrow> docs_decision option" where
  "docs_decide rnd q =
     (let path = hd (split_on CHR ''?'' (dq_path q));
          generic = is_generic_path path; fixed = fixed_representation path
      in if \<not> generic \<and> fixed = None then Some docs_pass
         else
           (let m = to_ascii_uppercase (dq_method q)
            in if m \<notin> {''GET'', ''HEAD''} then Some (docs_reject MethodNotAllowed 405 True)
               else if digest_failure (dq_runtime_contract_digest q) (dq_docs_contract_digest q) then
                 Some (docs_reject StoppedForEvaluation 503 False)
               else
                 (case (case trimmed (dq_format q) of
                          Some v \<Rightarrow> map_option Some (representation_parse v)
                        | None \<Rightarrow> Some None) of
                    None \<Rightarrow> Some (docs_reject NotAcceptable 406 False)
                  | Some format \<Rightarrow>
                      (let serve = (\<lambda>r.
                         if \<not> accepts_representation rnd (dq_accept q) r then
                           Some (docs_reject NotAcceptable 406 False)
                         else
                           Some \<lparr>dd_action = Serve, dd_status = Some 200, dd_representation = Some r,
                             dd_head_only = (m = ''HEAD''),
                             dd_headers = representation_headers r (dq_docs_contract_digest q)\<rparr>)
                       in if generic then
                            (case (case format of Some r \<Rightarrow> Some r | None \<Rightarrow> negotiate_generic rnd (dq_accept q)) of
                               Some r \<Rightarrow> serve r
                             | None \<Rightarrow> Some (docs_reject NotAcceptable 406 False))
                          else
                            (case fixed of
                               None \<Rightarrow> None
                             | Some r \<Rightarrow>
                                 if (case format of None \<Rightarrow> False | Some selected \<Rightarrow> selected \<noteq> r) then
                                   Some (docs_reject NotAcceptable 406 False)
                                 else serve r)))))"

section \<open>Negotiation finds the preferred range\<close>

definition finite_quality :: "media_range \<Rightarrow> bool" where
  "finite_quality r \<longleftrightarrow> (\<exists>x. mr_quality r = Fin x \<and> 0 < x \<and> x \<le> 1)"

lemma preferred_order:
  "finite_quality a \<Longrightarrow> finite_quality b \<Longrightarrow> \<not> preferred a b \<Longrightarrow> preferred b a"
  "finite_quality a \<Longrightarrow> finite_quality b \<Longrightarrow> finite_quality c \<Longrightarrow> preferred a b \<Longrightarrow> preferred b c \<Longrightarrow> preferred a c"
  by (auto simp: finite_quality_def preferred_def)

lemma set_insert_range [simp]: "set (insert_range x ys) = insert x (set ys)"
  by (induction ys) auto

lemma set_sorted_by_preference [simp]: "set (sorted_by_preference rs) = set rs"
  by (induction rs) (auto simp: sorted_by_preference_def)

lemma sorted_insert_range:
  assumes "sorted_wrt preferred ys" "finite_quality x" "\<forall>y \<in> set ys. finite_quality y"
  shows "sorted_wrt preferred (insert_range x ys)"
  using assms
proof (induction ys)
  case (Cons y ys)
  then show ?case by (auto intro: preferred_order)
qed simp

lemma sorted_by_preference_sorted:
  "\<forall>r \<in> set rs. finite_quality r \<Longrightarrow> sorted_wrt preferred (sorted_by_preference rs)"
proof (induction rs)
  case (Cons r rs)
  have "set (foldr insert_range rs []) = set rs"
    using set_sorted_by_preference [of rs] by (simp only: sorted_by_preference_def)
  with Cons show ?case by (auto simp: sorted_by_preference_def intro!: sorted_insert_range)
qed (simp add: sorted_by_preference_def)

lemma quality_fold_range:
  "quality_fold rnd ps q = Some q' \<Longrightarrow> fle (Fin 0) q \<Longrightarrow> fle q (Fin 1) \<Longrightarrow> fle (Fin 0) q' \<and> fle q' (Fin 1)"
  by (induction rnd ps q rule: quality_fold.induct) (auto split: option.splits if_splits)

lemma parse_media_range_finite:
  assumes "parse_media_range rnd index part = Some r"
  shows "finite_quality r"
proof -
  from assms have "\<exists>ps. quality_fold rnd ps (Fin 1) = Some (mr_quality r)" and pos: "\<not> fle (mr_quality r) (Fin 0)"
    by (auto simp: parse_media_range_def Let_def then_some_def Option.bind_eq_Some_conv
        split: prod.splits if_splits)
  then obtain ps where ps: "quality_fold rnd ps (Fin 1) = Some (mr_quality r)" by blast
  from quality_fold_range [OF ps] pos show ?thesis
    by (cases "mr_quality r") (auto simp: finite_quality_def)
qed

lemma parse_accept_sorted:
  "sorted_wrt preferred (parse_accept rnd v) \<and> (\<forall>r \<in> set (parse_accept rnd v). finite_quality r)"
  using parse_media_range_finite
  by (auto simp: parse_accept_def List.map_filter_def split: option.splits intro!: sorted_by_preference_sorted)

text \<open>The representation of the range that is preferred among those that are supported.\<close>

definition best_supported :: "rounding_fn \<Rightarrow> string option \<Rightarrow> representation \<Rightarrow> bool" where
  "best_supported rnd accept x \<longleftrightarrow>
     (\<exists>r \<in> set (parse_accept rnd accept). media_representation (mr_media r) = Some x \<and>
       (\<forall>r' \<in> set (parse_accept rnd accept). media_representation (mr_media r') \<noteq> None \<longrightarrow> preferred r r'))"

lemma find_representation_Some:
  assumes "find_representation rs = Some x" "sorted_wrt preferred rs" "\<forall>r \<in> set rs. finite_quality r"
  shows "\<exists>r \<in> set rs. media_representation (mr_media r) = Some x \<and>
    (\<forall>r' \<in> set rs. media_representation (mr_media r') \<noteq> None \<longrightarrow> preferred r r')"
  using assms
proof (induction rs)
  case (Cons r rs)
  have refl: "preferred r r" using preferred_order(1) [of r r] Cons.prems(3) by auto
  show ?case
  proof (cases "media_representation (mr_media r)")
    case None
    with Cons show ?thesis by auto
  next
    case (Some y)
    with Cons.prems refl show ?thesis by auto
  qed
qed simp

lemma negotiate_generic_exact:
  "negotiate_generic rnd accept = Some x \<Longrightarrow> blank_accept accept \<and> x = Html \<or> best_supported rnd accept x"
  using find_representation_Some [of "parse_accept rnd accept" x] parse_accept_sorted [of rnd accept]
  by (auto simp: negotiate_generic_def best_supported_def Let_def split: if_splits)

section \<open>What a decision says\<close>

lemma base_headers_get:
  "bt_get (base_headers ct) ''Cache-Control'' = Some ''no-store''"
  "bt_get (base_headers ct) ''X-Content-Type-Options'' = Some ''nosniff''"
  "bt_get (base_headers ct) ''Content-Type'' = Some ct"
  by (simp_all add: base_headers_def bt_get_collect)

lemma collect_extend:
  "bt_ok m \<Longrightarrow> bt_get (bt_collect (m @ xs)) k = (case map_of (rev xs) k of Some v \<Rightarrow> Some v | None \<Rightarrow> bt_get m k)"
  using bt_get_collect [of m k] by (simp add: bt_get_collect bt_collect_id map_add_def split: option.split)

lemma base_headers_ok: "bt_ok (base_headers ct)"
  by (simp add: base_headers_def)

lemma decision_headers:
  "bt_get (dd_headers (docs_reject a status allow)) ''Cache-Control'' = Some ''no-store''"
  "bt_get (dd_headers (docs_reject a status allow)) ''X-Content-Type-Options'' = Some ''nosniff''"
  "bt_get (representation_headers r d) ''Cache-Control'' = Some ''no-store''"
  "bt_get (representation_headers r d) ''X-Content-Type-Options'' = Some ''nosniff''"
  "bt_get (representation_headers r d) ''Content-Type'' = Some (content_type r)"
  by (auto simp: docs_reject_def docs_with_headers_def representation_headers_def Let_def collect_extend
      base_headers_ok base_headers_get opt_list_def then_some_def contract_digest_header_def split: option.split)

text \<open>The path without its query, and whether it names a document.\<close>

definition docs_path :: "docs_request \<Rightarrow> string" where
  "docs_path q = hd (split_on CHR ''?'' (dq_path q))"

definition is_docs_path :: "string \<Rightarrow> bool" where
  "is_docs_path path \<longleftrightarrow> is_generic_path path \<or> fixed_representation path \<noteq> None"

text \<open>The representations a request may be given.\<close>

definition may_serve :: "rounding_fn \<Rightarrow> docs_request \<Rightarrow> representation \<Rightarrow> bool" where
  "may_serve rnd q r \<longleftrightarrow>
     to_ascii_uppercase (dq_method q) \<in> {''GET'', ''HEAD''} \<and>
     \<not> digest_failure (dq_runtime_contract_digest q) (dq_docs_contract_digest q) \<and>
     accepts_representation rnd (dq_accept q) r \<and>
     (case trimmed (dq_format q) of
        Some v \<Rightarrow> representation_parse v = Some r \<and> (is_generic_path (docs_path q) \<or> fixed_representation (docs_path q) = Some r)
      | None \<Rightarrow>
          if is_generic_path (docs_path q) then negotiate_generic rnd (dq_accept q) = Some r
          else fixed_representation (docs_path q) = Some r)"

text \<open>
  A decision is always reached. A request passes through exactly when its path, without the query, names no
  document; it is served exactly a representation that its method, its digests, its format and its
  \<open>Accept\<close> header allow, which on a generic path is that of the most preferred supported range; and
  every other answer is one of 405, 503 and 406. Whatever is answered is not cached and not sniffed.
\<close>

theorem docs_decision_exact:
  "\<exists>d. docs_decide rnd q = Some d \<and>
     (dd_action d = Pass \<longleftrightarrow> \<not> is_docs_path (docs_path q)) \<and>
     (dd_action d = Serve \<longleftrightarrow> is_docs_path (docs_path q) \<and> (\<exists>r. may_serve rnd q r)) \<and>
     (case dd_action d of
        Pass \<Rightarrow> d = docs_pass
      | Serve \<Rightarrow> \<exists>r. dd_representation d = Some r \<and> may_serve rnd q r \<and> dd_status d = Some 200 \<and>
          bt_get (dd_headers d) ''Content-Type'' = Some (content_type r) \<and>
          (if is_generic_path (docs_path q) \<and> trimmed (dq_format q) = None
           then blank_accept (dq_accept q) \<and> r = Html \<or> best_supported rnd (dq_accept q) r else True)
      | MethodNotAllowed \<Rightarrow> dd_status d = Some 405
      | NotAcceptable \<Rightarrow> dd_status d = Some 406
      | StoppedForEvaluation \<Rightarrow> dd_status d = Some 503) \<and>
     (dd_action d = Pass \<or>
      bt_get (dd_headers d) ''Cache-Control'' = Some ''no-store'' \<and>
      bt_get (dd_headers d) ''X-Content-Type-Options'' = Some ''nosniff'')"
proof -
  have neg: "blank_accept a \<and> r = Html \<or> best_supported rnd a r" if "negotiate_generic rnd a = Some r" for a r
    using negotiate_generic_exact [OF that] .
  have rej: "dd_action (docs_reject a status allow) = a" "dd_status (docs_reject a status allow) = Some status" for a status allow
    by (simp_all add: docs_reject_def)
  show ?thesis
    using neg [of "dq_accept q"]
    by (auto simp: docs_decide_def docs_path_def [symmetric] is_docs_path_def may_serve_def Let_def docs_pass_def
        rej decision_headers split: option.splits if_splits)
qed

end
