(* ===== verification/Core_Rate_Limiter.thy ===== *)
theory Core_Rate_Limiter
  imports Rate_Limit Float64 "HOL-Library.Multiset"
begin

text \<open>
  The adapter to the deterministic rate limiter of another package,
  \<^verbatim>\<open>src/integrations/ores-rate-limit-core-rust/src/core_rate_limiter.rs\<close>.

  The package's policies, states and keys, their constructors and its transition function are the
  record \<open>core_ops\<close>; its decisions and errors are the variants the adapter matches on. The store is
  behind an asynchronous mutex that one evaluation holds to its end, so an evaluation is one step. The
  store's hash map is the list of its entries in the order in which it iterates over them; an insertion
  may put the entries into any order, which is the argument \<open>arrange\<close>.
\<close>

section \<open>The package\<close>

datatype deny_reason = LimitExceeded | BackendUnavailable | LocallyBlocked

datatype core_decision =
    Bypass (bypass_reason: string)
  | CoreAllow (core_remaining: u64) (core_reset_after_ms: u64) (core_observed_only: bool)
  | CoreDeny (core_retry_after_ms: u64) (core_deny_reason: deny_reason)

datatype 'e core_transition_error =
  InvalidPolicy 'e | ZeroCost | CostExceedsCapacity | ClockMovedBackwards | StateAlgorithmMismatch

record ('p, 's, 'k, 'e) core_ops =
  co_token_bucket :: "u64 \<Rightarrow> u64 \<Rightarrow> u64 \<Rightarrow> 'p"
  co_sliding_window :: "u64 \<Rightarrow> u64 \<Rightarrow> 'p"
  co_fixed_window :: "u64 \<Rightarrow> u64 \<Rightarrow> 'p"
  co_set_enforce :: "'p \<Rightarrow> 'p"
  co_validate :: "'p \<Rightarrow> (string, 'p) result"
  co_parse_key :: "string \<Rightarrow> 'k option"
  co_empty :: 's
  co_transition :: "'p \<Rightarrow> 's \<Rightarrow> u64 \<Rightarrow> u64 \<Rightarrow> ('e core_transition_error, 's \<times> core_decision) result"
  co_error_string :: "'e core_transition_error \<Rightarrow> string"

section \<open>Policies of a request\<close>

definition parse_principal ::
    "('p, 's, 'k, 'e) core_ops \<Rightarrow> string \<Rightarrow> (integration_error, 'k) result" where
  "parse_principal ops digest =
     (if length digest \<noteq> 64 \<or>
         \<not> list_all (\<lambda>c. CHR ''0'' \<le> c \<and> c \<le> CHR ''9'' \<or> CHR ''a'' \<le> c \<and> c \<le> CHR ''f'') digest then
        Inl \<lparr>ie_code = ''rate_limit_core_principal_invalid'',
             ie_message = ''rate-limit principal must be exactly 64 lowercase hex characters''\<rparr>
      else ok_or \<lparr>ie_code = ''rate_limit_core_principal_invalid'',
                  ie_message = ''rate-limit principal could not be decoded''\<rparr>
             (co_parse_key ops digest))"

lemma word_mod_decreases: "right \<noteq> 0 \<Longrightarrow> unat (left mod right) < unat (right :: u64)"
  by (simp add: unat_mod unat_gt_0)

text \<open>The loop of Euclid's algorithm.\<close>

function greatest_common_divisor :: "u64 \<Rightarrow> u64 \<Rightarrow> u64" where
  "greatest_common_divisor left right =
     (if right \<noteq> 0 then greatest_common_divisor right (left mod right) else left)"
  by pat_completeness auto
termination
  by (relation "measure (\<lambda>(left, right). unat right)") (simp_all add: word_mod_decreases)

declare greatest_common_divisor.simps [simp del]

text \<open>\<open>f64::round\<close>: to the nearest integer, halves away from zero; and \<open>checked_mul\<close> on \<open>u64\<close>.\<close>

fun fround :: "f64 \<Rightarrow> f64" where
  "fround (Fin a) = Fin (if 0 \<le> a then of_int \<lfloor>a + 1 / 2\<rfloor> else of_int \<lceil>a - 1 / 2\<rceil>)"
| "fround x = x"

definition flt :: "f64 \<Rightarrow> f64 \<Rightarrow> bool" where
  "flt a b \<longleftrightarrow> fle a b \<and> \<not> fle b a"

definition checked_mul_word :: "u64 \<Rightarrow> u64 \<Rightarrow> u64 option" where
  "checked_mul_word a b = (if unat a * unat b < 2 ^ 64 then Some (a * b) else None)"

definition precision :: u64 where "precision = 1000000"

definition refill_out_of_range :: "string \<Rightarrow> integration_error" where
  "refill_out_of_range message = \<lparr>ie_code = ''rate_limit_core_refill_out_of_range'', ie_message = message\<rparr>"

definition rational_refill :: "rounding_fn \<Rightarrow> f64 \<Rightarrow> (integration_error, u64 \<times> u64) result" where
  "rational_refill rnd rate_per_second =
     (if \<not> is_finite rate_per_second \<or> fle rate_per_second (Fin 0) then
        Inl \<lparr>ie_code = ''rate_limit_core_refill_invalid'',
             ie_message = ''token-bucket refill rate must be finite and positive''\<rparr>
      else
        let scaled = fmul rnd rate_per_second (Fin 1000000) in
        if \<not> is_finite scaled \<or> flt scaled (Fin 1) \<or> flt (rnd (2 ^ 64 - 1)) scaled then
          Inl (refill_out_of_range ''token-bucket refill rate is outside the supported range'')
        else
          let numerator = saturating_cast (fround scaled);
              divisor = greatest_common_divisor numerator precision;
              tokens = numerator div divisor
          in bind_result
               (ok_or (refill_out_of_range ''token-bucket refill interval overflowed'')
                 (checked_mul_word 1000 (precision div divisor)))
               (\<lambda>interval_ms. Inr (tokens, interval_ms)))"

definition core_policy ::
    "rounding_fn \<Rightarrow> ('p, 's, 'k, 'e) core_ops \<Rightarrow> f64 rate_limit_request \<Rightarrow> (integration_error, 'p) result" where
  "core_policy rnd ops request =
     (let capacity = ucast (lr_capacity request) :: u64 in
      bind_result
        (case lr_algorithm request of
           TokenBucket \<Rightarrow>
             bind_result (rational_refill rnd (lr_refill_per_second request))
               (\<lambda>(tokens, interval_ms). Inr (co_token_bucket ops capacity tokens interval_ms))
         | SlidingWindowCounter \<Rightarrow> Inr (co_sliding_window ops capacity (lr_window_ms request))
         | FixedWindow \<Rightarrow> Inr (co_fixed_window ops capacity (lr_window_ms request))
         | Concurrency \<Rightarrow>
             Inl \<lparr>ie_code = ''rate_limit_core_concurrency_unsupported'',
                  ie_message = ''concurrency limits require a cancellation-safe permit adapter''\<rparr>)
        (\<lambda>policy.
           case co_validate ops (co_set_enforce ops policy) of
             Inl message \<Rightarrow> Inl \<lparr>ie_code = ''rate_limit_core_policy_invalid'', ie_message = message\<rparr>
           | Inr policy \<Rightarrow> Inr policy))"

section \<open>Decisions and errors\<close>

definition core_deny_code :: "deny_reason \<Rightarrow> string" where
  "core_deny_code reason =
     (case reason of
        LimitExceeded \<Rightarrow> ''limit-exceeded''
      | BackendUnavailable \<Rightarrow> ''backend-unavailable''
      | LocallyBlocked \<Rightarrow> ''locally-blocked'')"

definition map_decision :: "'f rate_limit_request \<Rightarrow> core_decision \<Rightarrow> rate_limit_decision" where
  "map_decision request decision =
     (case decision of
        Bypass reason \<Rightarrow>
          \<lparr>ld_kind = Allowed, ld_source = LocalMemory, ld_policy_id = lr_policy_id request,
           ld_layer = lr_layer request, ld_algorithm = lr_algorithm request,
           ld_limit = lr_capacity request, ld_remaining = lr_capacity request,
           ld_retry_after_ms = None, ld_reset_after_ms = None, ld_reason_code = Some reason\<rparr>
      | CoreAllow remaining reset_after_ms observed_only \<Rightarrow>
          \<lparr>ld_kind = (if observed_only then DegradedAllowed else Allowed), ld_source = LocalMemory,
           ld_policy_id = lr_policy_id request, ld_layer = lr_layer request,
           ld_algorithm = lr_algorithm request, ld_limit = lr_capacity request,
           ld_remaining = (if unat remaining < 2 ^ 32 then ucast remaining else - 1),
           ld_retry_after_ms = None, ld_reset_after_ms = Some reset_after_ms,
           ld_reason_code = then_some observed_only ''observe-only-overage''\<rparr>
      | CoreDeny retry_after_ms reason \<Rightarrow>
          \<lparr>ld_kind = Denied, ld_source = LocalMemory, ld_policy_id = lr_policy_id request,
           ld_layer = lr_layer request, ld_algorithm = lr_algorithm request,
           ld_limit = lr_capacity request, ld_remaining = 0,
           ld_retry_after_ms = Some retry_after_ms, ld_reset_after_ms = Some retry_after_ms,
           ld_reason_code = Some (core_deny_code reason)\<rparr>)"

definition transition_error_code :: "'e core_transition_error \<Rightarrow> string" where
  "transition_error_code error =
     (case error of
        InvalidPolicy _ \<Rightarrow> ''rate_limit_core_policy_invalid''
      | ZeroCost \<Rightarrow> ''rate_limit_core_zero_cost''
      | CostExceedsCapacity \<Rightarrow> ''rate_limit_core_cost_exceeds_capacity''
      | ClockMovedBackwards \<Rightarrow> ''rate_limit_core_clock_moved_backwards''
      | StateAlgorithmMismatch \<Rightarrow> ''rate_limit_core_state_algorithm_mismatch'')"

definition transition_error ::
    "('p, 's, 'k, 'e) core_ops \<Rightarrow> 'e core_transition_error \<Rightarrow> integration_error" where
  "transition_error ops error =
     \<lparr>ie_code = transition_error_code error, ie_message = co_error_string ops error\<rparr>"

section \<open>The store\<close>

record 'k core_state_key =
  sk_policy_id :: string
  sk_principal :: 'k

record 's core_state_entry =
  se_state :: 's
  se_last_seen_ms :: u64
  se_generation :: u64

type_synonym ('s, 'k) core_entries = "('k core_state_key \<times> 's core_state_entry) list"

record ('s, 'k) core_state_store =
  ss_entries :: "('s, 'k) core_entries"
  ss_next_generation :: u64

definition state_store_default :: "('s, 'k) core_state_store" where
  "state_store_default = \<lparr>ss_entries = [], ss_next_generation = 0\<rparr>"

record core_limiter =
  cl_max_entries :: nat
  cl_ttl :: duration
  cl_started :: instant

definition core_with_bounds ::
    "nat \<Rightarrow> duration \<Rightarrow> instant \<Rightarrow> (integration_error, core_limiter) result" where
  "core_with_bounds max_entries ttl now =
     (if max_entries = 0 \<or> ttl = 0 then
        Inl \<lparr>ie_code = ''rate_limit_core_bounds_invalid'',
             ie_message = ''core rate-limit state capacity and TTL must be positive''\<rparr>
      else Inr \<lparr>cl_max_entries = max_entries, cl_ttl = ttl, cl_started = now\<rparr>)"

definition default_core_state_capacity :: nat where "default_core_state_capacity = 10000"
definition default_core_state_ttl :: duration where "default_core_state_ttl = 30 * 1000000000"

definition duration_ms :: "duration \<Rightarrow> u64" where
  "duration_ms d = of_nat (min (d div 1000000) (2 ^ 64 - 1))"

definition core_elapsed_ms :: "core_limiter \<Rightarrow> instant \<Rightarrow> u64" where
  "core_elapsed_ms cl now = duration_ms (now - cl_started cl)"

definition core_live :: "u64 \<Rightarrow> u64 \<Rightarrow> 's core_state_entry \<Rightarrow> bool" where
  "core_live now_ms ttl_ms entry \<longleftrightarrow>
     now_ms < se_last_seen_ms entry \<or> now_ms - se_last_seen_ms entry < ttl_ms"

text \<open>\<open>min_by_key\<close>, which keeps the first of equal elements.\<close>

definition entry_age :: "'k core_state_key \<times> 's core_state_entry \<Rightarrow> nat \<times> nat" where
  "entry_age e = (unat (se_last_seen_ms (snd e)), unat (se_generation (snd e)))"

definition age_less :: "nat \<times> nat \<Rightarrow> nat \<times> nat \<Rightarrow> bool" where
  "age_less a b \<longleftrightarrow> fst a < fst b \<or> fst a = fst b \<and> snd a < snd b"

fun oldest_entry :: "('s, 'k) core_entries \<Rightarrow> ('k core_state_key \<times> 's core_state_entry) option" where
  "oldest_entry [] = None"
| "oldest_entry (e # es) =
     Some (foldl (\<lambda>best x. if age_less (entry_age x) (entry_age best) then x else best) e es)"

definition entries_remove :: "'k core_state_key \<Rightarrow> ('s, 'k) core_entries \<Rightarrow> ('s, 'k) core_entries" where
  "entries_remove k m = filter (\<lambda>e. fst e \<noteq> k) m"

definition entries_insert ::
    "(('s, 'k) core_entries \<Rightarrow> ('s, 'k) core_entries) \<Rightarrow> 'k core_state_key \<Rightarrow> 's core_state_entry \<Rightarrow>
     ('s, 'k) core_entries \<Rightarrow> ('s, 'k) core_entries" where
  "entries_insert arrange k v m = arrange ((k, v) # entries_remove k m)"

definition entries_contains :: "('s, 'k) core_entries \<Rightarrow> 'k core_state_key \<Rightarrow> bool" where
  "entries_contains m k \<longleftrightarrow> map_of m k \<noteq> None"

definition make_room_for ::
    "nat \<Rightarrow> 'k core_state_key \<Rightarrow> ('s, 'k) core_entries \<Rightarrow> ('s, 'k) core_entries" where
  "make_room_for max_entries k m =
     (if \<not> entries_contains m k \<and> length m \<ge> max_entries then
        case oldest_entry m of Some (oldest, _) \<Rightarrow> entries_remove oldest m | None \<Rightarrow> m
      else m)"

definition next_generation_after :: "u64 \<Rightarrow> u64" where
  "next_generation_after g = (let g = g + 1 in if g = 0 then 1 else g)"

text \<open>What an evaluation does under its lock, once the key and the policy of the request are known.\<close>

definition evaluate_locked ::
    "('p, 's, 'k, 'e) core_ops \<Rightarrow> (('s, 'k) core_entries \<Rightarrow> ('s, 'k) core_entries) \<Rightarrow> core_limiter \<Rightarrow>
     f64 rate_limit_request \<Rightarrow> u64 \<Rightarrow> 'k core_state_key \<Rightarrow> 'p \<Rightarrow> ('s, 'k) core_state_store \<Rightarrow>
     (integration_error, rate_limit_decision) result \<times> ('s, 'k) core_state_store" where
  "evaluate_locked ops arrange cl request now_ms key policy store0 =
     (let store = store0\<lparr>ss_entries :=
            filter (\<lambda>e. core_live now_ms (duration_ms (cl_ttl cl)) (snd e)) (ss_entries store0)\<rparr>;
          previous = (case map_of (ss_entries store) key of None \<Rightarrow> co_empty ops | Some entry \<Rightarrow> se_state entry)
      in case co_transition ops policy previous now_ms (ucast (lr_cost request)) of
           Inl error \<Rightarrow> (Inl (transition_error ops error), store)
         | Inr (next_state, decision) \<Rightarrow>
             (let entries = make_room_for (cl_max_entries cl) key (ss_entries store);
                  generation = next_generation_after (ss_next_generation store)
              in (Inr (map_decision request decision),
                  \<lparr>ss_entries = entries_insert arrange key
                     \<lparr>se_state = next_state, se_last_seen_ms = now_ms, se_generation = generation\<rparr> entries,
                   ss_next_generation = generation\<rparr>)))"

definition evaluate_at ::
    "rounding_fn \<Rightarrow> ('p, 's, 'k, 'e) core_ops \<Rightarrow> (('s, 'k) core_entries \<Rightarrow> ('s, 'k) core_entries) \<Rightarrow>
     core_limiter \<Rightarrow> f64 rate_limit_request \<Rightarrow> u64 \<Rightarrow> ('s, 'k) core_state_store \<Rightarrow>
     (integration_error, rate_limit_decision) result \<times> ('s, 'k) core_state_store" where
  "evaluate_at rnd ops arrange cl request now_ms store =
     (case parse_principal ops (rp_digest (lr_principal request)) of
        Inl e \<Rightarrow> (Inl e, store)
      | Inr principal' \<Rightarrow>
          (case core_policy rnd ops request of
             Inl e \<Rightarrow> (Inl e, store)
           | Inr policy \<Rightarrow>
               evaluate_locked ops arrange cl request now_ms
                 \<lparr>sk_policy_id = lr_policy_id request, sk_principal = principal'\<rparr> policy store))"

definition core_evaluate ::
    "rounding_fn \<Rightarrow> ('p, 's, 'k, 'e) core_ops \<Rightarrow> (('s, 'k) core_entries \<Rightarrow> ('s, 'k) core_entries) \<Rightarrow>
     core_limiter \<Rightarrow> instant \<Rightarrow> f64 rate_limit_request \<Rightarrow> ('s, 'k) core_state_store \<Rightarrow>
     (integration_error, rate_limit_decision) result \<times> ('s, 'k) core_state_store" where
  "core_evaluate rnd ops arrange cl now request store =
     evaluate_at rnd ops arrange cl request (core_elapsed_ms cl now) store"

definition legacy_request :: "string \<Rightarrow> u32 \<Rightarrow> f64 \<Rightarrow> f64 rate_limit_request" where
  "legacy_request key capacity refill_per_second =
     \<lparr>lr_principal = \<lparr>rp_digest = key, rp_key_version = ''legacy-v1''\<rparr>,
      lr_policy_id = ''legacy-token-bucket'', lr_algorithm = TokenBucket, lr_layer = ApplicationLayer,
      lr_capacity = capacity, lr_refill_per_second = refill_per_second, lr_window_ms = 1000, lr_cost = 1\<rparr>"

definition core_allow ::
    "rounding_fn \<Rightarrow> ('p, 's, 'k, 'e) core_ops \<Rightarrow> (('s, 'k) core_entries \<Rightarrow> ('s, 'k) core_entries) \<Rightarrow>
     core_limiter \<Rightarrow> instant \<Rightarrow> string \<Rightarrow> u32 \<Rightarrow> f64 \<Rightarrow> ('s, 'k) core_state_store \<Rightarrow>
     bool \<times> ('s, 'k) core_state_store" where
  "core_allow rnd ops arrange cl now key capacity refill_per_second store =
     (case evaluate_at rnd ops arrange cl (legacy_request key capacity refill_per_second)
         (core_elapsed_ms cl now) store of
        (r, store') \<Rightarrow> (case r of Inl _ \<Rightarrow> False | Inr decision \<Rightarrow> decision_is_allowed decision, store'))"

section \<open>Euclid's algorithm and the refill\<close>

lemma greatest_common_divisor_gcd: "unat (greatest_common_divisor a b) = gcd (unat a) (unat b)"
proof (induction a b rule: greatest_common_divisor.induct)
  case (1 left right)
  show ?case
  proof (cases "right = 0")
    case False
    then have "unat (greatest_common_divisor left right) = gcd (unat right) (unat left mod unat right)"
      using 1 by (subst greatest_common_divisor.simps) (simp add: unat_mod)
    then show ?thesis by (simp add: gcd_red_nat [of "unat left" "unat right"])
  qed (simp add: greatest_common_divisor.simps)
qed

text \<open>The numerator: the scaled rate, rounded, and cut off at the width.\<close>

lemma numerator_bounds:
  assumes "1 \<le> x"
  shows "1 \<le> unat (saturating_cast (fround (Fin x)) :: u64) \<and>
    (x < 2 ^ 64 - 1 \<longrightarrow> \<bar>real (unat (saturating_cast (fround (Fin x)) :: u64)) - x\<bar> \<le> 1 / 2)"
proof -
  let ?z = "\<lfloor>x + 1 / 2\<rfloor>"
  from assms have z: "1 \<le> ?z" by linarith
  have cast: "saturating_cast (fround (Fin x)) = (if ?z \<ge> 2 ^ 64 then - 1 else of_int ?z :: u64)"
    using assms z by (simp add: saturating_cast_def)
  show ?thesis
  proof (cases "?z \<ge> 2 ^ 64")
    case True
    then have "18446744073709551616 \<le> x + 1 / 2" by (simp add: le_floor_iff)
    then have "\<not> x < 2 ^ 64 - 1" by simp
    with True show ?thesis unfolding cast by (simp add: unsigned_minus_1_eq_mask mask_eq_exp_minus_1)
  next
    case False
    with z have "int (unat (of_int ?z :: u64)) = ?z" by (simp add: unat_eq_nat_uint uint_word_of_int_eq take_bit_int_eq_self)
    then have eq: "real (unat (of_int ?z :: u64)) = of_int ?z" and "1 \<le> unat (of_int ?z :: u64)"
      using z by linarith+
    have "\<bar>of_int ?z - x\<bar> \<le> 1 / 2" by linarith
    with False eq \<open>1 \<le> unat (of_int ?z :: u64)\<close> show ?thesis unfolding cast by simp
  qed
qed

lemma reduced_fraction:
  assumes num: "1 \<le> unat num" and g: "g = greatest_common_divisor num precision"
  shows "\<exists>tokens interval. checked_mul_word 1000 (precision div g) = Some interval \<and> num div g = tokens \<and>
    unat tokens * 1000000000 = unat num * unat interval \<and> 1 \<le> unat tokens \<and>
    (\<exists>d. unat interval = 1000 * d \<and> 1 \<le> d \<and> d \<le> 1000000 \<and> coprime (unat tokens) d)"
proof -
  have p: "unat precision = 1000000" by (simp add: precision_def)
  have ug: "unat g = gcd (unat num) 1000000" by (simp add: g greatest_common_divisor_gcd p)
  let ?d = "1000000 div unat g" and ?t = "unat num div unat g"
  have dvd: "unat g dvd unat num" "unat g dvd 1000000" and pos: "0 < unat g" by (simp_all add: ug)
  from dvd(2) pos have d: "1 \<le> ?d" "?d \<le> 1000000" by (auto simp: Suc_leI dvd_imp_le div_greater_zero_iff)
  have small: "1000 * ?d < 2 ^ 64" by (rule le_less_trans [of _ "1000 * 1000000"]) simp_all
  have t: "1 \<le> ?t" using dvd(1) pos num by (simp add: Suc_leI dvd_imp_le div_greater_zero_iff)
  have cop: "coprime ?t ?d" unfolding ug using num by (intro div_gcd_coprime) auto
  have ud: "unat (precision div g) = ?d" by (simp add: unat_div p)
  with d have "checked_mul_word 1000 (precision div g) = Some (1000 * (precision div g))"
    using small by (simp add: checked_mul_word_def ud)
  moreover have ui: "unat (1000 * (precision div g)) = 1000 * ?d"
    using small by (simp add: unat_word_ariths(2) ud)
  moreover have "?t * 1000000000 = unat num * (1000 * ?d)"
  proof -
    have "?t * 1000000 = unat num * ?d" using dvd by (metis dvd_div_mult dvd_mult_div_cancel mult.commute div_mult_swap)
    then show ?thesis by simp
  qed
  ultimately show ?thesis using t d cop by (auto simp: unat_div)
qed

text \<open>
  A refill rate becomes a fraction of tokens over milliseconds in lowest terms: the rate in millionths of
  a token, rounded to the nearest, over a thousand million. The interval is a whole number of
  seconds of at most a million, at least one token is refilled, and the multiplication that is
  checked for overflow cannot overflow.
\<close>

theorem rational_refill_exact:
  "case rational_refill rnd rate of
     Inl e \<Rightarrow> e \<noteq> refill_out_of_range ''token-bucket refill interval overflowed''
   | Inr (tokens, interval_ms) \<Rightarrow>
       \<exists>r n. \<exists>k::nat. rate = Fin r \<and> 0 < r \<and> fmul rnd rate (Fin 1000000) = Fin n \<and> 1 \<le> k \<and>
         (n < 2 ^ 64 - 1 \<longrightarrow> \<bar>real k - n\<bar> \<le> 1 / 2) \<and>
         unat tokens * 1000000000 = k * unat interval_ms \<and> 1 \<le> unat tokens \<and>
         (\<exists>d. unat interval_ms = 1000 * d \<and> 1 \<le> d \<and> d \<le> 1000000 \<and> coprime (unat tokens) d)"
proof -
  show ?thesis
  proof (cases rate)
    case (Fin r)
    show ?thesis
    proof (cases "fmul rnd rate (Fin 1000000)")
      case (Fin n)
      show ?thesis
      proof (cases "r \<le> 0 \<or> flt (Fin n) (Fin 1) \<or> flt (rnd (2 ^ 64 - 1)) (Fin n)")
        case False
        then have "1 \<le> n" by (auto simp: flt_def)
        note bounds = numerator_bounds [OF this]
        from reduced_fraction [OF bounds [THEN conjunct1] refl] obtain tokens interval where
          interval: "checked_mul_word 1000 (precision div
              greatest_common_divisor (saturating_cast (fround (Fin n))) precision) = Some interval"
          and tokens: "saturating_cast (fround (Fin n)) div
              greatest_common_divisor (saturating_cast (fround (Fin n))) precision = tokens"
          and rest: "unat tokens * 1000000000 = unat (saturating_cast (fround (Fin n)) :: u64) * unat interval"
            "1 \<le> unat tokens" "\<exists>d. unat interval = 1000 * d \<and> 1 \<le> d \<and> d \<le> 1000000 \<and> coprime (unat tokens) d"
          by blast
        have "rational_refill rnd rate = Inr (tokens, interval)"
          using False Fin unfolding \<open>rate = Fin r\<close>
          by (simp add: rational_refill_def is_finite_def Let_def ok_or_def interval tokens del: fround.simps)
        with bounds rest False Fin show ?thesis unfolding \<open>rate = Fin r\<close> by fastforce
      qed (use Fin \<open>rate = Fin r\<close> in \<open>auto simp: rational_refill_def is_finite_def refill_out_of_range_def Let_def\<close>)
    qed (use Fin in \<open>auto simp: rational_refill_def is_finite_def refill_out_of_range_def Let_def\<close>)
  qed (auto simp: rational_refill_def is_finite_def refill_out_of_range_def)
qed

lemma rational_refill_exact_witness:
  "rational_refill Fin (Fin (5 / 2)) = Inr (5, 2000) \<and>
   (\<exists>k::nat. \<bar>real k - 2500000\<bar> \<le> 1 / 2 \<and> 5 * 1000000000 = k * 2000)"
proof -
  have gcd: "greatest_common_divisor 2500000 1000000 = 500000"
    by (simp add: greatest_common_divisor.simps)
  have run: "rational_refill Fin (Fin (5 / 2)) = Inr (5, 2000)"
    by (simp add: rational_refill_def is_finite_def flt_def saturating_cast_def gcd precision_def
        checked_mul_word_def ok_or_def Let_def)
  with rational_refill_exact [of "Fin (5 / 2)" Fin] show ?thesis by auto
qed

section \<open>The store\<close>

definition arranges :: "(('s, 'k) core_entries \<Rightarrow> ('s, 'k) core_entries) \<Rightarrow> bool" where
  "arranges arrange \<longleftrightarrow> (\<forall>m. mset (arrange m) = mset m)"

lemma arranges_simps:
  assumes "arranges arrange"
  shows "set (arrange m) = set m" "length (arrange m) = length m"
    "distinct (map fst (arrange m)) \<longleftrightarrow> distinct (map fst m)"
proof -
  from assms have m: "mset (arrange m) = mset m" by (simp add: arranges_def)
  then show "set (arrange m) = set m" "length (arrange m) = length m"
    by (metis set_mset_mset) (metis m size_mset)
  from m have "mset (map fst (arrange m)) = mset (map fst m)" by simp
  then show "distinct (map fst (arrange m)) \<longleftrightarrow> distinct (map fst m)" by (rule mset_eq_imp_distinct_iff)
qed

text \<open>Keys and generations are unique, and no generation is later than the counter.\<close>

definition core_entries_ok :: "u64 \<Rightarrow> ('s, 'k) core_entries \<Rightarrow> bool" where
  "core_entries_ok g m \<longleftrightarrow> distinct (map fst m) \<and> inj_on (\<lambda>e. se_generation (snd e)) (set m) \<and>
     (\<forall>e \<in> set m. se_generation (snd e) \<le> g)"

lemma entries_ok_subset:
  "core_entries_ok g m \<Longrightarrow> distinct (map fst m') \<Longrightarrow> set m' \<subseteq> set m \<Longrightarrow> core_entries_ok g m'"
  by (auto simp: core_entries_ok_def intro: inj_on_subset)

lemma core_entries_filter: "core_entries_ok g m \<Longrightarrow> core_entries_ok g (filter p m)"
  by (rule entries_ok_subset) (auto simp: core_entries_ok_def distinct_map_filter)

lemma entries_ok_same: "core_entries_ok g m \<Longrightarrow> distinct (map fst m') \<Longrightarrow> set m' = set m \<Longrightarrow> map_of m' = map_of m \<and> length m' = length m"
  by (simp add: core_entries_ok_def map_of_inject_set) (metis distinct_card distinct_map)

lemma age_less_linear:
  "core_entries_ok g m \<Longrightarrow> x \<in> set m \<Longrightarrow> y \<in> set m \<Longrightarrow> \<not> age_less (entry_age y) (entry_age x) \<Longrightarrow>
   x = y \<or> age_less (entry_age x) (entry_age y)"
  by (auto simp: core_entries_ok_def inj_on_def age_less_def entry_age_def)
    (metis linorder_neqE_nat word_unat_eq_iff)

lemma age_less_trans: "age_less a b \<Longrightarrow> age_less b c \<Longrightarrow> age_less a c"
  by (auto simp: age_less_def)

lemma age_less_irrefl [simp]: "\<not> age_less a a"
  by (simp add: age_less_def)

definition oldest_of :: "('k core_state_key \<times> 's core_state_entry) set \<Rightarrow> 'k core_state_key \<times> 's core_state_entry \<Rightarrow> bool" where
  "oldest_of M e \<longleftrightarrow> e \<in> M \<and> (\<forall>x \<in> M. x = e \<or> age_less (entry_age e) (entry_age x))"

lemma oldest_of_unique: "oldest_of M a \<Longrightarrow> oldest_of M b \<Longrightarrow> a = b"
  unfolding oldest_of_def using age_less_trans age_less_irrefl by metis

lemma oldest_foldl:
  assumes "core_entries_ok g m" "set (b # es) \<subseteq> set m"
  shows "oldest_of (set (b # es)) (foldl (\<lambda>best x. if age_less (entry_age x) (entry_age best) then x else best) b es)"
  using assms(2)
proof (induction es arbitrary: b)
  case (Cons x es)
  let ?b = "if age_less (entry_age x) (entry_age b) then x else b"
  let ?y = "if age_less (entry_age x) (entry_age b) then b else x"
  from Cons.prems have "oldest_of (set (?b # es)) (foldl (\<lambda>best x. if age_less (entry_age x) (entry_age best) then x else best) ?b es)"
    by (intro Cons.IH) auto
  moreover have "?y = ?b \<or> age_less (entry_age ?b) (entry_age ?y)"
    using age_less_linear [OF assms(1), of b x] Cons.prems by auto
  moreover have "set (b # x # es) = insert ?y (set (?b # es))" by auto
  ultimately show ?case
    by (auto simp: oldest_of_def dest: age_less_trans split: if_splits)
qed (simp add: oldest_of_def)

lemma oldest_entry_exact:
  assumes "core_entries_ok g m" "m \<noteq> []"
  shows "\<exists>e. oldest_entry m = Some e \<and> oldest_of (set m) e"
  using oldest_foldl [OF assms(1)] assms(2) by (cases m) auto

text \<open>What is still valid at a time, and the entry that makes room.\<close>

definition live_entries :: "core_limiter \<Rightarrow> u64 \<Rightarrow> ('s, 'k) core_entries \<Rightarrow> ('s, 'k) core_entries" where
  "live_entries cl now_ms m = filter (\<lambda>e. core_live now_ms (duration_ms (cl_ttl cl)) (snd e)) m"

lemma make_room_exact:
  assumes "core_entries_ok g m" "length m \<le> n" "0 < n"
  shows "make_room_for n k m =
      (if k \<in> fst ` set m \<or> length m < n then m
       else entries_remove (fst (THE e. oldest_of (set m) e)) m)"
    "k \<notin> fst ` set m \<Longrightarrow> length (make_room_for n k m) < n"
proof -
  have contains: "entries_contains m k \<longleftrightarrow> k \<in> fst ` set m"
    by (simp add: entries_contains_def map_of_eq_None_iff)
  show "make_room_for n k m = (if k \<in> fst ` set m \<or> length m < n then m
       else entries_remove (fst (THE e. oldest_of (set m) e)) m)"
  proof (cases "k \<in> fst ` set m \<or> length m < n")
    case False
    with assms(3) have "m \<noteq> []" by auto
    from oldest_entry_exact [OF assms(1) this] obtain e where
      e: "oldest_entry m = Some e" "oldest_of (set m) e" by blast
    then have "(THE e. oldest_of (set m) e) = e" by (blast intro: the_equality oldest_of_unique)
    with e False contains show ?thesis by (cases e) (simp add: make_room_for_def)
  qed (auto simp: make_room_for_def contains)
  assume k: "k \<notin> fst ` set m"
  show "length (make_room_for n k m) < n"
  proof (cases "length m < n")
    case False
    with assms(3) have "m \<noteq> []" by auto
    from oldest_entry_exact [OF assms(1) this] obtain e where
      e: "oldest_entry m = Some e" "oldest_of (set m) e" by blast
    then have "e \<in> set m" by (simp add: oldest_of_def)
    then have "length (entries_remove (fst e) m) < length m"
      unfolding entries_remove_def by (intro length_filter_less) auto
    with e False k contains assms(2) show ?thesis by (cases e) (simp add: make_room_for_def)
  qed (simp add: make_room_for_def contains)
qed

lemma map_of_entries_remove: "map_of (entries_remove k m) = (map_of m)(k := None)"
  unfolding entries_remove_def by (induction m) auto

lemma entries_remove_ok: "core_entries_ok g m \<Longrightarrow> core_entries_ok g (entries_remove k m)"
  unfolding entries_remove_def by (rule core_entries_filter)

lemma make_room_ok: "core_entries_ok g m \<Longrightarrow> core_entries_ok g (make_room_for n k m)"
  by (auto simp: make_room_for_def entries_remove_ok split: option.split)

lemma make_room_length: "length (make_room_for n k m) \<le> length m"
  by (auto simp: make_room_for_def entries_remove_def split: option.split intro: length_filter_le)

text \<open>An insertion with the next generation.\<close>

lemma entries_insert_exact:
  assumes "arranges arrange" "core_entries_ok g m" "unat g + 1 < 2 ^ 64" "se_generation v = g + 1"
  shows "core_entries_ok (g + 1) (entries_insert arrange k v m) \<and>
    set (entries_insert arrange k v m) = insert (k, v) (set (entries_remove k m)) \<and>
    map_of (entries_insert arrange k v m) = (map_of m)(k \<mapsto> v) \<and>
    length (entries_insert arrange k v m) \<le> (if k \<in> fst ` set m then length m else Suc (length m))"
proof -
  let ?m = "entries_remove k m"
  have set: "set (entries_insert arrange k v m) = insert (k, v) (set ?m)"
    by (simp add: entries_insert_def arranges_simps [OF assms(1)])
  have rem: "core_entries_ok g ?m" by (rule entries_remove_ok [OF assms(2)])
  have fresh: "k \<notin> fst ` set ?m" by (auto simp: entries_remove_def)
  have "g < g + 1" using assms(3) by (simp add: word_less_nat_alt unat_word_ariths(1))
  have lt: "se_generation (snd e) < g + 1" if "e \<in> set ?m" for e
    using rem that \<open>g < g + 1\<close> unfolding core_entries_ok_def by (meson le_less_trans)
  have "se_generation (snd (k, v)) \<notin> (\<lambda>e. se_generation (snd e)) ` (set ?m - {(k, v)})"
    using lt assms(4) by (metis (no_types, lifting) DiffD1 imageE order_less_irrefl snd_conv)
  then have "inj_on (\<lambda>e. se_generation (snd e)) (set ((k, v) # ?m))"
    using rem by (simp add: core_entries_ok_def)
  moreover have "se_generation (snd e) \<le> g + 1" if "e \<in> set ((k, v) # ?m)" for e
    using that lt [of e] assms(4) by (cases "e \<in> set ?m") (simp_all add: less_imp_le)
  ultimately have new: "core_entries_ok (g + 1) ((k, v) # ?m)"
    using rem fresh by (simp add: core_entries_ok_def)
  then have dist: "distinct (map fst (arrange ((k, v) # ?m)))"
    by (simp add: arranges_simps [OF assms(1)] core_entries_ok_def del: list.map)
  note same = arranges_simps(1) [OF assms(1), of "(k, v) # ?m"]
  have ok: "core_entries_ok (g + 1) (entries_insert arrange k v m)"
    unfolding entries_insert_def by (rule entries_ok_subset [OF new dist]) (simp add: same)
  have "map_of (entries_insert arrange k v m) = map_of ((k, v) # ?m) \<and>
      length (entries_insert arrange k v m) = length ((k, v) # ?m)"
    unfolding entries_insert_def by (rule entries_ok_same [OF new dist same])
  moreover have "length ?m < length m" if "k \<in> fst ` set m"
    using that unfolding entries_remove_def by (auto intro!: length_filter_less)
  moreover have "length ?m \<le> length m" by (simp add: entries_remove_def)
  ultimately show ?thesis using ok set by (cases "k \<in> fst ` set m") (simp_all add: map_of_entries_remove Suc_leI)
qed

definition store_ok :: "core_limiter \<Rightarrow> nat \<Rightarrow> ('s, 'k) core_state_store \<Rightarrow> bool" where
  "store_ok cl n s \<longleftrightarrow> core_entries_ok (ss_next_generation s) (ss_entries s) \<and>
     length (ss_entries s) \<le> cl_max_entries cl \<and> unat (ss_next_generation s) \<le> n"

definition core_state_of :: "('p, 's, 'k, 'e) core_ops \<Rightarrow> 's core_state_entry option \<Rightarrow> 's" where
  "core_state_of ops e = (case e of None \<Rightarrow> co_empty ops | Some entry \<Rightarrow> se_state entry)"

lemma evaluate_locked_cases:
  assumes "evaluate_locked ops arrange cl request now_ms key policy s = (r, s')"
  defines "live \<equiv> live_entries cl now_ms (ss_entries s)"
  shows "(case co_transition ops policy (core_state_of ops (map_of live key)) now_ms (ucast (lr_cost request)) of
      Inl error \<Rightarrow> r = Inl (transition_error ops error) \<and> s' = s\<lparr>ss_entries := live\<rparr>
    | Inr (next_state, decision) \<Rightarrow> r = Inr (map_decision request decision) \<and>
        s' = \<lparr>ss_entries = entries_insert arrange key
                \<lparr>se_state = next_state, se_last_seen_ms = now_ms,
                 se_generation = next_generation_after (ss_next_generation s)\<rparr>
                (make_room_for (cl_max_entries cl) key live),
              ss_next_generation = next_generation_after (ss_next_generation s)\<rparr>)"
  using assms(1) unfolding live_def
  by (auto simp: evaluate_locked_def live_entries_def core_state_of_def Let_def
      split: sum.splits prod.splits)

lemma evaluate_locked_Inl:
  "evaluate_locked ops arrange cl request now_ms key policy s = (Inl e, s') \<Longrightarrow>
   ss_entries s' = live_entries cl now_ms (ss_entries s)"
  by (drule evaluate_locked_cases) (auto split: sum.splits prod.splits)

lemma next_generation_exact: "unat g + 1 < 2 ^ 64 \<Longrightarrow> next_generation_after g = g + 1"
  by (auto simp: next_generation_after_def Let_def unat_eq_zero [symmetric] unat_word_ariths(1))

text \<open>The inserted entry and what it displaced, over the entries as a set.\<close>

lemma evaluate_insert:
  fixes now_ms :: u64 and st :: 's and key :: "'k core_state_key" and s :: "('s, 'k) core_state_store"
  assumes arr: "arranges arrange" and ok: "store_ok cl n s" and n: "n < 2 ^ 64 - 1" and max: "0 < cl_max_entries cl"
  defines "live \<equiv> live_entries cl now_ms (ss_entries s)" and "g \<equiv> next_generation_after (ss_next_generation s)"
  defines "room \<equiv> make_room_for (cl_max_entries cl) key live"
  defines "entries \<equiv> entries_insert arrange key \<lparr>se_state = st, se_last_seen_ms = now_ms, se_generation = g\<rparr> room"
  shows "store_ok cl (Suc n) \<lparr>ss_entries = entries, ss_next_generation = g\<rparr> \<and>
    set entries = insert (key, \<lparr>se_state = st, se_last_seen_ms = now_ms, se_generation = g\<rparr>) (set (entries_remove key room)) \<and>
    map_of entries = (map_of room)(key \<mapsto> \<lparr>se_state = st, se_last_seen_ms = now_ms, se_generation = g\<rparr>)"
proof -
  let ?v = "\<lparr>se_state = st, se_last_seen_ms = now_ms, se_generation = g\<rparr>"
  from ok n have small: "unat (ss_next_generation s) + 1 < 2 ^ 64" by (simp add: store_ok_def)
  from next_generation_exact [OF this] have g: "g = ss_next_generation s + 1" by (simp add: g_def)
  from ok have live: "core_entries_ok (ss_next_generation s) live" "length live \<le> cl_max_entries cl"
    by (auto simp: live_def live_entries_def store_ok_def intro: core_entries_filter le_trans [OF length_filter_le])
  from make_room_ok [OF live(1)] have room: "core_entries_ok (ss_next_generation s) room" by (simp add: room_def)
  from entries_insert_exact [OF arr room small, of ?v key] g
  have ins: "core_entries_ok g entries" "set entries = insert (key, ?v) (set (entries_remove key room))"
      "map_of entries = (map_of room)(key \<mapsto> ?v)"
      "length entries \<le> (if key \<in> fst ` set room then length room else Suc (length room))"
    by (simp_all add: entries_def)
  have "key \<in> fst ` set room" if "key \<in> fst ` set live"
    using that make_room_exact(1) [OF live max, of key] by (simp add: room_def)
  with ins(4) make_room_exact(2) [OF live max, of key] make_room_length [of "cl_max_entries cl" key live] live(2)
  have "length entries \<le> cl_max_entries cl"
    by (cases "key \<in> fst ` set live") (auto simp: room_def split: if_splits)
  moreover have "unat g \<le> Suc n" using ok small by (simp add: store_ok_def g unat_word_ariths(1))
  ultimately show ?thesis using ins by (simp add: store_ok_def)
qed

section \<open>Runs\<close>

fun core_run ::
    "rounding_fn \<Rightarrow> ('p, 's, 'k, 'e) core_ops \<Rightarrow> (('s, 'k) core_entries \<Rightarrow> ('s, 'k) core_entries) \<Rightarrow>
     core_limiter \<Rightarrow> (f64 rate_limit_request \<times> u64) list \<Rightarrow> ('s, 'k) core_state_store \<Rightarrow>
     (integration_error, rate_limit_decision) result list \<times> ('s, 'k) core_state_store" where
  "core_run rnd ops arrange cl [] s = ([], s)"
| "core_run rnd ops arrange cl ((request, now_ms) # evs) s =
     (case evaluate_at rnd ops arrange cl request now_ms s of
        (r, s') \<Rightarrow> (case core_run rnd ops arrange cl evs s' of (rs, s'') \<Rightarrow> (r # rs, s'')))"

lemma store_ok_default: "store_ok cl 0 state_store_default"
  by (simp add: store_ok_def core_entries_ok_def state_store_default_def)

lemma store_ok_live: "store_ok cl n s \<Longrightarrow> store_ok cl (Suc n) (s\<lparr>ss_entries := live_entries cl now_ms (ss_entries s)\<rparr>)"
  by (auto simp: store_ok_def live_entries_def core_entries_filter intro: le_trans [OF length_filter_le])

lemma store_ok_Suc: "store_ok cl n s \<Longrightarrow> store_ok cl (Suc n) s"
  by (simp add: store_ok_def)

lemma evaluate_at_ok:
  assumes "arranges arrange" "store_ok cl n s" "n < 2 ^ 64 - 1" "0 < cl_max_entries cl"
    and "evaluate_at rnd ops arrange cl request now_ms s = (r, s')"
  shows "store_ok cl (Suc n) s'"
proof (cases "parse_principal ops (rp_digest (lr_principal request))")
  case parsed: (Inr p)
  show ?thesis
  proof (cases "core_policy rnd ops request")
    case (Inr policy)
    with parsed assms(5) have "evaluate_locked ops arrange cl request now_ms
        \<lparr>sk_policy_id = lr_policy_id request, sk_principal = p\<rparr> policy s = (r, s')"
      by (simp add: evaluate_at_def)
    from evaluate_locked_cases [OF this] evaluate_insert [OF assms(1-4)] store_ok_live [OF assms(2)] show ?thesis
      by (auto split: sum.splits prod.splits)
  qed (use parsed assms(2,5) in \<open>auto simp: evaluate_at_def intro: store_ok_Suc\<close>)
qed (use assms(2,5) in \<open>auto simp: evaluate_at_def intro: store_ok_Suc\<close>)

lemma core_run_ok:
  assumes "arranges arrange" "0 < cl_max_entries cl"
  shows "core_run rnd ops arrange cl evs s = (rs, s') \<Longrightarrow> store_ok cl n s \<Longrightarrow> n + length evs \<le> 2 ^ 64 - 1 \<Longrightarrow>
    store_ok cl (n + length evs) s'"
proof (induction evs arbitrary: n s rs)
  case (Cons ev evs)
  obtain request now_ms where ev: "ev = (request, now_ms)" by (cases ev)
  obtain r s1 where step: "evaluate_at rnd ops arrange cl request now_ms s = (r, s1)" by fastforce
  obtain rs' where rest: "core_run rnd ops arrange cl evs s1 = (rs', s')"
    using Cons.prems(1) step ev by (auto split: prod.splits)
  from Cons.prems(3) have "n < 2 ^ 64 - 1" by simp
  from Cons.IH [OF rest evaluate_at_ok [OF assms(1) Cons.prems(2) this assms(2) step]] Cons.prems(3) show ?case by simp
qed simp

text \<open>Two stores with the same entries in different orders.\<close>

definition same_store :: "('s, 'k) core_state_store \<Rightarrow> ('s, 'k) core_state_store \<Rightarrow> bool" where
  "same_store a b \<longleftrightarrow> set (ss_entries a) = set (ss_entries b) \<and> ss_next_generation a = ss_next_generation b"

lemma same_store_refl: "same_store a a"
  by (simp add: same_store_def)

lemma same_live:
  fixes now_ms :: u64
  assumes "store_ok cl n a" "store_ok cl n b" "same_store a b" "0 < cl_max_entries cl"
  defines "la \<equiv> live_entries cl now_ms (ss_entries a)" and "lb \<equiv> live_entries cl now_ms (ss_entries b)"
  shows "set la = set lb \<and> map_of la = map_of lb \<and>
    set (make_room_for (cl_max_entries cl) key la) = set (make_room_for (cl_max_entries cl) key lb)"
proof -
  have ok: "core_entries_ok (ss_next_generation a) la \<and> length la \<le> cl_max_entries cl"
    "core_entries_ok (ss_next_generation a) lb \<and> length lb \<le> cl_max_entries cl"
    using assms(1-3) by (auto simp: store_ok_def same_store_def la_def lb_def live_entries_def core_entries_filter
        intro: le_trans [OF length_filter_le])
  have set: "set la = set lb" using assms(3) by (simp add: la_def lb_def live_entries_def same_store_def)
  from ok have "distinct (map fst la)" by (simp add: core_entries_ok_def)
  from entries_ok_same [OF ok(2) [THEN conjunct1] this set]
  have same: "map_of la = map_of lb" "length la = length lb" by simp_all
  have "make_room_for (cl_max_entries cl) key la = (if key \<in> fst ` set la \<or> length la < cl_max_entries cl then la
       else entries_remove (fst (THE e. oldest_of (set la) e)) la)"
    "make_room_for (cl_max_entries cl) key lb = (if key \<in> fst ` set la \<or> length la < cl_max_entries cl then lb
       else entries_remove (fst (THE e. oldest_of (set la) e)) lb)"
    using make_room_exact(1) [OF ok(1) [THEN conjunct1] ok(1) [THEN conjunct2] assms(4), of key]
      make_room_exact(1) [OF ok(2) [THEN conjunct1] ok(2) [THEN conjunct2] assms(4), of key]
    by (simp_all only: set same)
  with set same show ?thesis by (simp add: entries_remove_def)
qed

lemma evaluate_at_same:
  assumes arr: "arranges f" "arranges g" and ok: "store_ok cl n a" "store_ok cl n b" "same_store a b"
    and n: "n < 2 ^ 64 - 1" and max: "0 < cl_max_entries cl"
    and eval: "evaluate_at rnd ops f cl request now_ms a = (ra, a')" "evaluate_at rnd ops g cl request now_ms b = (rb, b')"
  shows "ra = rb \<and> same_store a' b'"
proof (cases "parse_principal ops (rp_digest (lr_principal request))")
  case parsed: (Inr p)
  show ?thesis
  proof (cases "core_policy rnd ops request")
    case (Inr policy)
    let ?key = "\<lparr>sk_policy_id = lr_policy_id request, sk_principal = p\<rparr>"
    from parsed Inr eval have "evaluate_locked ops f cl request now_ms ?key policy a = (ra, a')"
      "evaluate_locked ops g cl request now_ms ?key policy b = (rb, b')"
      by (simp_all add: evaluate_at_def)
    note cases = this [THEN evaluate_locked_cases]
    have counter: "ss_next_generation b = ss_next_generation a" using ok(3) by (simp add: same_store_def)
    note live = same_live [OF ok max, of now_ms ?key]
    note ins = evaluate_insert [OF arr(1) ok(1) n max, of ?key _ now_ms] evaluate_insert [OF arr(2) ok(2) n max, of ?key _ now_ms, unfolded counter]
    show ?thesis
      using cases live
      by (auto simp: same_store_def counter ins [THEN conjunct2, THEN conjunct1] entries_remove_def
          split: sum.splits prod.splits)
  qed (use parsed ok(3) eval in \<open>auto simp: evaluate_at_def\<close>)
qed (use ok(3) eval in \<open>auto simp: evaluate_at_def\<close>)

lemma core_run_same:
  assumes arr: "arranges f" "arranges g" and max: "0 < cl_max_entries cl"
  shows "core_run rnd ops f cl evs a = (ras, a') \<Longrightarrow> core_run rnd ops g cl evs b = (rbs, b') \<Longrightarrow>
    store_ok cl n a \<Longrightarrow> store_ok cl n b \<Longrightarrow> same_store a b \<Longrightarrow> n + length evs \<le> 2 ^ 64 - 1 \<Longrightarrow>
    ras = rbs \<and> same_store a' b'"
proof (induction evs arbitrary: n a b ras rbs)
  case (Cons ev evs)
  obtain request now_ms where ev: "ev = (request, now_ms)" by (cases ev)
  obtain ra a1 where sa: "evaluate_at rnd ops f cl request now_ms a = (ra, a1)" by fastforce
  obtain rb b1 where sb: "evaluate_at rnd ops g cl request now_ms b = (rb, b1)" by fastforce
  obtain ras' where ra: "core_run rnd ops f cl evs a1 = (ras', a')" "ras = ra # ras'"
    using Cons.prems(1) sa ev by (auto split: prod.splits)
  obtain rbs' where rb: "core_run rnd ops g cl evs b1 = (rbs', b')" "rbs = rb # rbs'"
    using Cons.prems(2) sb ev by (auto split: prod.splits)
  from Cons.prems(6) have n: "n < 2 ^ 64 - 1" by simp
  from evaluate_at_same [OF arr Cons.prems(3-5) n max sa sb] have same: "ra = rb" "same_store a1 b1" by simp_all
  from Cons.IH [OF ra(1) rb(1) evaluate_at_ok [OF arr(1) Cons.prems(3) n max sa]
      evaluate_at_ok [OF arr(2) Cons.prems(4) n max sb] same(2)] Cons.prems(6) same(1) ra(2) rb(2)
  show ?case by simp
qed auto

text \<open>
  The order in which the hash map iterates does not matter: two limiters of the same package and bounds
  whose maps order their entries differently answer every sequence of requests alike, fewer than
  \<open>2 ^ 64\<close> of them, and hold the same entries afterwards.
\<close>

theorem core_order_irrelevant:
  assumes "arranges f" "arranges g" "core_with_bounds max_entries ttl t0 = Inr cl" "length evs < 2 ^ 64"
    and "core_run rnd ops f cl evs state_store_default = (rs, a)"
    and "core_run rnd ops g cl evs state_store_default = (rs', b)"
  shows "rs' = rs \<and> map_of (ss_entries b) = map_of (ss_entries a) \<and> length (ss_entries b) = length (ss_entries a)"
proof -
  from assms(3) have max: "0 < cl_max_entries cl" by (auto simp: core_with_bounds_def split: if_splits)
  have len: "0 + length evs \<le> 2 ^ 64 - 1" using assms(4) by simp
  from core_run_same [OF assms(1,2) max assms(5,6) store_ok_default store_ok_default same_store_refl len]
  have same: "rs' = rs" "set (ss_entries b) = set (ss_entries a)" by (simp_all add: same_store_def)
  from core_run_ok [OF assms(1) max assms(5) store_ok_default len] core_run_ok [OF assms(2) max assms(6) store_ok_default len]
  have "core_entries_ok (ss_next_generation a) (ss_entries a)" "distinct (map fst (ss_entries b))"
    by (auto simp: store_ok_def core_entries_ok_def)
  from entries_ok_same [OF this same(2)] same(1) show ?thesis by simp
qed

text \<open>A package of counters, at which the properties are applied.\<close>

definition counter_core :: "(u64, u64, string, unit) core_ops" where
  "counter_core =
     \<lparr>co_token_bucket = (\<lambda>capacity _ _. capacity), co_sliding_window = (\<lambda>capacity _. capacity),
      co_fixed_window = (\<lambda>capacity _. capacity), co_set_enforce = (\<lambda>p. p),
      co_validate = (\<lambda>p. if p = 0 then Inl ''capacity'' else Inr p), co_parse_key = Some, co_empty = 0,
      co_transition = (\<lambda>p st _ cost.
        if st + cost \<le> p then Inr (st + cost, CoreAllow (p - (st + cost)) 0 False)
        else Inr (st, CoreDeny 1000 LimitExceeded)),
      co_error_string = (\<lambda>_. ''error'')\<rparr>"

definition window_request :: "char \<Rightarrow> f64 rate_limit_request" where
  "window_request c =
     \<lparr>lr_principal = \<lparr>rp_digest = replicate 64 c, rp_key_version = ''v1''\<rparr>, lr_policy_id = ''login'',
      lr_algorithm = FixedWindow, lr_layer = ApplicationLayer, lr_capacity = 2, lr_refill_per_second = Fin 1,
      lr_window_ms = 1000, lr_cost = 1\<rparr>"

lemma arranges_examples: "arranges (\<lambda>m. m)" "arranges rev"
  by (simp_all add: arranges_def)

lemma core_order_irrelevant_witness:
  "\<exists>rs a b. core_run Fin counter_core (\<lambda>m. m) \<lparr>cl_max_entries = 2, cl_ttl = 1000000, cl_started = 0\<rparr>
      [(window_request CHR ''a'', 0), (window_request CHR ''b'', 0), (window_request CHR ''c'', 0)]
      state_store_default = (rs, a) \<and>
    core_run Fin counter_core rev \<lparr>cl_max_entries = 2, cl_ttl = 1000000, cl_started = 0\<rparr>
      [(window_request CHR ''a'', 0), (window_request CHR ''b'', 0), (window_request CHR ''c'', 0)]
      state_store_default = (rs, b) \<and> map_of (ss_entries b) = map_of (ss_entries a)"
proof -
  let ?cl = "\<lparr>cl_max_entries = 2, cl_ttl = 1000000, cl_started = 0\<rparr>"
  let ?evs = "[(window_request CHR ''a'', 0), (window_request CHR ''b'', 0), (window_request CHR ''c'', 0)]"
  obtain rs a where a: "core_run Fin counter_core (\<lambda>m. m) ?cl ?evs state_store_default = (rs, a)" by fastforce
  obtain rs' b where b: "core_run Fin counter_core rev ?cl ?evs state_store_default = (rs', b)" by fastforce
  have "core_with_bounds 2 1000000 0 = Inr ?cl" by (simp add: core_with_bounds_def)
  from core_order_irrelevant [OF arranges_examples this _ a b] a b show ?thesis by auto
qed

definition live_map :: "core_limiter \<Rightarrow> u64 \<Rightarrow> ('s, 'k) core_state_store \<Rightarrow> 'k core_state_key \<Rightarrow> 's core_state_entry option" where
  "live_map cl now_ms s = (\<lambda>k. opt_filter (core_live now_ms (duration_ms (cl_ttl cl))) (map_of (ss_entries s) k))"

text \<open>The specification of the displacement, over maps.\<close>

definition makes_room ::
    "nat \<Rightarrow> ('k core_state_key \<Rightarrow> 's core_state_entry option) \<Rightarrow> 'k core_state_key \<Rightarrow>
     ('k core_state_key \<Rightarrow> 's core_state_entry option) \<Rightarrow> bool" where
  "makes_room max_entries m key kept \<longleftrightarrow>
     (if key \<in> dom m \<or> card (dom m) < max_entries then kept = m
      else \<exists>old e. m old = Some e \<and> kept = m(old := None) \<and>
        (\<forall>k v. m k = Some v \<longrightarrow> k = old \<or> age_less (entry_age (old, e)) (entry_age (k, v))))"

lemma map_of_filter_values:
  "distinct (map fst m) \<Longrightarrow> map_of (filter (\<lambda>e. p (snd e)) m) k = opt_filter p (map_of m k)"
  by (induction m) (auto simp: opt_filter_def map_of_eq_None_iff split: option.splits)

lemma live_map_exact:
  "distinct (map fst (ss_entries s)) \<Longrightarrow> map_of (live_entries cl now_ms (ss_entries s)) = live_map cl now_ms s"
  by (rule ext) (simp add: live_map_def live_entries_def map_of_filter_values)

lemma make_room_spec:
  assumes ok: "core_entries_ok g m" and len: "length m \<le> n" "0 < n"
  shows "makes_room n (map_of m) key (map_of (make_room_for n key m))"
proof -
  from ok have d: "distinct (map fst m)" by (simp add: core_entries_ok_def)
  then have dom: "dom (map_of m) = fst ` set m" "card (fst ` set m) = length m"
    using distinct_card [OF d] by (simp_all add: dom_map_of_conv_image_fst)
  show ?thesis
  proof (cases "key \<in> fst ` set m \<or> length m < n")
    case False
    with len(2) have "m \<noteq> []" by auto
    from oldest_entry_exact [OF ok this] obtain e where e: "oldest_of (set m) e" by blast
    then have the: "(THE e. oldest_of (set m) e) = e" by (blast intro: the_equality oldest_of_unique)
    from e have "map_of m (fst e) = Some (snd e)" using d by (simp add: oldest_of_def)
    moreover have "k = fst e \<or> age_less (entry_age (fst e, snd e)) (entry_age (k, v))" if "map_of m k = Some v" for k v
      using e map_of_SomeD [OF that] by (auto simp: oldest_of_def)
    ultimately have "\<exists>old ea. map_of m old = Some ea \<and> (map_of m)(fst e := None) = (map_of m)(old := None) \<and>
        (\<forall>k v. map_of m k = Some v \<longrightarrow> k = old \<or> age_less (entry_age (old, ea)) (entry_age (k, v)))"
      by blast
    with False show ?thesis
      by (simp add: makes_room_def make_room_exact(1) [OF ok len] the map_of_entries_remove dom)
  qed (auto simp: makes_room_def make_room_exact(1) [OF ok len] dom)
qed

text \<open>
  C29. In every reachable store an evaluation that is answered asked the package for the transition of the
  state that its policy and principal have, if it was not idle for the time to live, and stored the
  new state; every other live entry stays, but for the one longest unseen when the store was full and
  the key new. A refused evaluation changes no live entry, and the store never exceeds its bound.
\<close>

theorem core_evaluation_exact:
  assumes arr: "arranges arrange" and cl: "core_with_bounds n ttl t0 = Inr cl" and len: "length evs < 2 ^ 64 - 1"
    and run: "core_run rnd ops arrange cl evs state_store_default = (rs, s)"
    and eval: "evaluate_at rnd ops arrange cl request now_ms s = (r, s')"
  shows "length (ss_entries s') \<le> n \<and>
    (case r of
       Inl _ \<Rightarrow> map_of (ss_entries s') \<in> {map_of (ss_entries s), live_map cl now_ms s}
     | Inr d \<Rightarrow> \<exists>p policy next_state decision kept g.
         parse_principal ops (rp_digest (lr_principal request)) = Inr p \<and> core_policy rnd ops request = Inr policy \<and>
         (let key = \<lparr>sk_policy_id = lr_policy_id request, sk_principal = p\<rparr> in
          co_transition ops policy (core_state_of ops (live_map cl now_ms s key)) now_ms (ucast (lr_cost request)) =
            Inr (next_state, decision) \<and>
          d = map_decision request decision \<and> makes_room n (live_map cl now_ms s) key kept \<and>
          map_of (ss_entries s') =
            kept(key \<mapsto> \<lparr>se_state = next_state, se_last_seen_ms = now_ms, se_generation = g\<rparr>)))"
proof -
  from cl have max: "0 < cl_max_entries cl" "cl_max_entries cl = n"
    by (auto simp: core_with_bounds_def split: if_splits)
  from core_run_ok [OF arr max(1) run store_ok_default] len have ok: "store_ok cl (length evs) s" by simp
  then have live: "map_of (live_entries cl now_ms (ss_entries s)) = live_map cl now_ms s"
    by (intro live_map_exact) (simp add: store_ok_def core_entries_ok_def)
  have room: "makes_room n (live_map cl now_ms s) key
      (map_of (make_room_for n key (live_entries cl now_ms (ss_entries s))))" for key
    unfolding live [symmetric] using ok max
    by (intro make_room_spec [of "ss_next_generation s"])
      (auto simp: live_entries_def store_ok_def core_entries_filter intro: le_trans [OF length_filter_le])
  from evaluate_at_ok [OF arr ok len max(1) eval] have "length (ss_entries s') \<le> n" by (simp add: store_ok_def max(2))
  moreover have "\<exists>p policy next_state decision kept g.
         parse_principal ops (rp_digest (lr_principal request)) = Inr p \<and> core_policy rnd ops request = Inr policy \<and>
         (let key = \<lparr>sk_policy_id = lr_policy_id request, sk_principal = p\<rparr> in
          co_transition ops policy (core_state_of ops (live_map cl now_ms s key)) now_ms (ucast (lr_cost request)) =
            Inr (next_state, decision) \<and>
          d = map_decision request decision \<and> makes_room n (live_map cl now_ms s) key kept \<and>
          map_of (ss_entries s') =
            kept(key \<mapsto> \<lparr>se_state = next_state, se_last_seen_ms = now_ms, se_generation = g\<rparr>))"
    if r: "r = Inr d" for d
  proof -
    from eval r obtain p policy where
      parsed: "parse_principal ops (rp_digest (lr_principal request)) = Inr p" "core_policy rnd ops request = Inr policy"
      and locked: "evaluate_locked ops arrange cl request now_ms
        \<lparr>sk_policy_id = lr_policy_id request, sk_principal = p\<rparr> policy s = (Inr d, s')"
      by (auto simp: evaluate_at_def split: sum.splits)
    from evaluate_locked_cases [OF locked] evaluate_insert [OF arr ok len max(1)]
      room [of "\<lparr>sk_policy_id = lr_policy_id request, sk_principal = p\<rparr>"]
    show ?thesis
      unfolding Let_def live max(2)
      by (intro exI [of _ p] exI [of _ policy]) (auto simp: parsed split: sum.splits prod.splits)
  qed
  moreover have "map_of (ss_entries s') \<in> {map_of (ss_entries s), live_map cl now_ms s}" if "r = Inl e" for e
    using eval that by (auto simp: evaluate_at_def live dest: evaluate_locked_Inl split: sum.splits)
  ultimately show ?thesis by (simp split: sum.split)
qed

lemma core_evaluation_exact_witness:
  "\<exists>rs s d s'. core_run Fin counter_core (\<lambda>m. m) \<lparr>cl_max_entries = 1, cl_ttl = 1000000000, cl_started = 0\<rparr>
      [(window_request CHR ''a'', 0)] state_store_default = (rs, s) \<and>
    evaluate_at Fin counter_core (\<lambda>m. m) \<lparr>cl_max_entries = 1, cl_ttl = 1000000000, cl_started = 0\<rparr>
      (window_request CHR ''b'') 5 s = (Inr d, s') \<and> decision_is_allowed d \<and> length (ss_entries s) = 1 \<and>
    length (ss_entries s') \<le> 1"
proof -
  let ?cl = "\<lparr>cl_max_entries = 1, cl_ttl = 1000000000, cl_started = 0\<rparr>"
  note eval = evaluate_at_def parse_principal_def window_request_def counter_core_def core_policy_def ok_or_def
    evaluate_locked_def state_store_default_def Let_def list_all_iff less_eq_char_def bind_result_def map_decision_def
    entries_insert_def make_room_for_def entries_contains_def entries_remove_def next_generation_after_def
    decision_is_allowed_def kind_is_allowed_def core_live_def duration_ms_def
  obtain rs s where run: "core_run Fin counter_core (\<lambda>m. m) ?cl [(window_request CHR ''a'', 0)] state_store_default = (rs, s)"
    by fastforce
  then have "length (ss_entries s) = 1" by (auto simp: eval split: if_splits)
  moreover from run obtain d s' where step: "evaluate_at Fin counter_core (\<lambda>m. m) ?cl (window_request CHR ''b'') 5 s = (Inr d, s')"
    "decision_is_allowed d" by (auto simp: eval split: if_splits)
  moreover have "core_with_bounds 1 1000000000 0 = Inr ?cl" by (simp add: core_with_bounds_def)
  from core_evaluation_exact [OF arranges_examples(1) this _ run step(1)] have "length (ss_entries s') \<le> 1" by simp
  ultimately show ?thesis using run by blast
qed

end
