(* ===== verification/Operation.thy ===== *)
theory Operation
  imports Context_Registry
begin

text \<open>
  The operation boundary of \<^verbatim>\<open>src/src/rust/src/operation.rs\<close>: an asynchronous callback run to one
  typed outcome under a deadline and a cancellation.

  A future is a state that a poll function advances; the record \<open>op_env\<close> has the poll functions of the
  callback and of the cancellation, what dropping them does, the clock with its sleep, and the
  emission of a failure event, all over a world \<open>'w\<close>. A poll of the callback may unwind, which is the
  value \<^const>\<open>None\<close>. A boundary is polled once at the start and then after each of its wake-ups:
  each is what happens to the world before the next poll, and a list that ends leaves it pending. Task-local carriers,
  log contexts and spans belong to other packages; what they are given is the record \<open>op_scope\<close> that a
  poll and an emission receive.
\<close>

section \<open>Descriptors and failures\<close>

datatype operation_transport = HttpTransport | LambdaTransport | TcpTransport | WebSocketTransport

definition transport_as_str :: "operation_transport \<Rightarrow> string" where
  "transport_as_str t =
     (case t of
        HttpTransport \<Rightarrow> ''http''
      | LambdaTransport \<Rightarrow> ''lambda''
      | TcpTransport \<Rightarrow> ''tcp''
      | WebSocketTransport \<Rightarrow> ''websocket'')"

datatype operation_scope = RequestScope | ConnectionScope | MessageScope | CallbackScope

definition scope_as_str :: "operation_scope \<Rightarrow> string" where
  "scope_as_str s =
     (case s of
        RequestScope \<Rightarrow> ''request''
      | ConnectionScope \<Rightarrow> ''connection''
      | MessageScope \<Rightarrow> ''message''
      | CallbackScope \<Rightarrow> ''callback'')"

datatype operation_failure_kind = ErrorFailure | PanicFailure | CancelledFailure | DeadlineFailure

definition failure_kind_as_str :: "operation_failure_kind \<Rightarrow> string" where
  "failure_kind_as_str k =
     (case k of
        ErrorFailure \<Rightarrow> ''error''
      | PanicFailure \<Rightarrow> ''panic''
      | CancelledFailure \<Rightarrow> ''cancelled''
      | DeadlineFailure \<Rightarrow> ''deadline_exceeded'')"

record operation_descriptor =
  od_transport :: operation_transport
  od_scope :: operation_scope
  od_name :: string

record operation_failure =
  of_kind :: operation_failure_kind
  of_code :: string
  of_transport :: operation_transport
  of_scope :: operation_scope
  of_operation :: string
  of_request_id :: string
  of_trace_id :: string
  of_error_type :: string

datatype 't operation_outcome = Completed 't | Failed operation_failure

definition outcome_is_completed :: "'t operation_outcome \<Rightarrow> bool" where
  "outcome_is_completed outcome \<longleftrightarrow> (case outcome of Completed _ \<Rightarrow> True | Failed _ \<Rightarrow> False)"

definition outcome_failure :: "'t operation_outcome \<Rightarrow> operation_failure option" where
  "outcome_failure outcome = (case outcome of Completed _ \<Rightarrow> None | Failed failure \<Rightarrow> Some failure)"

definition operation_safe_token :: "string \<Rightarrow> nat \<Rightarrow> bool" where
  "operation_safe_token v max_len \<longleftrightarrow>
     v \<noteq> [] \<and> length v \<le> max_len \<and> list_all (\<lambda>b. is_ascii_alphanumeric b \<or> b \<in> set ''_-.:'') v"

definition normalize_descriptor :: "operation_descriptor \<Rightarrow> operation_descriptor" where
  "normalize_descriptor d =
     (if \<not> operation_safe_token (od_name d) 128 then d\<lparr>od_name := ''operation''\<rparr> else d)"

text \<open>The text behind the last \<open>::\<close>; the name of the error type is the argument.\<close>

fun after_last_path_separator :: "string \<Rightarrow> string" where
  "after_last_path_separator s =
     (case s of
        [] \<Rightarrow> []
      | c # rest \<Rightarrow>
          if contains_str ''::'' rest then after_last_path_separator rest
          else if starts_with ''::'' s then drop 2 s else s)"

declare after_last_path_separator.simps [simp del]

definition bounded_error_type :: "string \<Rightarrow> string" where
  "bounded_error_type type_name =
     (let short = after_last_path_separator type_name in
      if operation_safe_token short 64 then short else ''error'')"

section \<open>Scopes and events\<close>

record operation_span =
  sp_request_id :: string
  sp_trace_id :: string
  sp_span_id :: string
  sp_user_id :: string
  sp_tenant_id :: string
  sp_operation_name :: string
  sp_operation_transport :: string
  sp_operation_scope :: string

definition span_of :: "request_context \<Rightarrow> operation_descriptor \<Rightarrow> operation_span" where
  "span_of c d =
     \<lparr>sp_request_id = rc_request_id c, sp_trace_id = rc_trace_id c,
      sp_span_id = case_option [] id (rc_span_id c), sp_user_id = case_option [] id (rc_user_id c),
      sp_tenant_id = case_option [] id (rc_tenant_id c), sp_operation_name = od_name d,
      sp_operation_transport = transport_as_str (od_transport d),
      sp_operation_scope = scope_as_str (od_scope d)\<rparr>"

text \<open>The carrier of the context, the source of the log context, and the span.\<close>

record op_scope =
  os_canonical :: canonical_context
  os_log_source :: request_context
  os_span :: operation_span

definition scope_of :: "request_context \<Rightarrow> operation_descriptor \<Rightarrow> op_scope" where
  "scope_of c d = \<lparr>os_canonical = to_canonical c, os_log_source = c, os_span = span_of c d\<rparr>"

datatype ('f, 'a) poll = Ready 'a | Pending 'f

record ('f, 'c, 'w, 'e, 't) op_env =
  oe_poll :: "op_scope \<Rightarrow> 'f \<Rightarrow> 'w \<Rightarrow> ('f, ('e, 't) result) poll option \<times> 'w"
  oe_drop :: "'f \<Rightarrow> 'w \<Rightarrow> 'w"
  oe_poll_cancel :: "'c \<Rightarrow> 'w \<Rightarrow> ('c, unit) poll option \<times> 'w"
  oe_drop_cancel :: "'c \<Rightarrow> 'w \<Rightarrow> 'w"
  oe_now :: "'w \<Rightarrow> instant"
  oe_checked_add :: "instant \<Rightarrow> duration \<Rightarrow> instant option"
  oe_elapsed :: "instant \<Rightarrow> 'w \<Rightarrow> bool \<times> 'w"
  oe_emit :: "op_scope \<Rightarrow> operation_failure \<Rightarrow> 'w \<Rightarrow> 'w"
  oe_type_name :: string

definition operation_failure_code :: "operation_failure_kind \<Rightarrow> string" where
  "operation_failure_code kind =
     (case kind of
        ErrorFailure \<Rightarrow> ''operation_failed''
      | PanicFailure \<Rightarrow> ''operation_panicked''
      | CancelledFailure \<Rightarrow> ''operation_cancelled''
      | DeadlineFailure \<Rightarrow> ''operation_deadline_exceeded'')"

definition failure_of ::
    "request_context \<Rightarrow> operation_descriptor \<Rightarrow> operation_failure_kind \<Rightarrow> string \<Rightarrow> operation_failure" where
  "failure_of c d kind error_type =
     \<lparr>of_kind = kind, of_code = operation_failure_code kind, of_transport = od_transport d, of_scope = od_scope d,
      of_operation = od_name d, of_request_id = rc_request_id c, of_trace_id = rc_trace_id c,
      of_error_type = error_type\<rparr>"

definition report_failure ::
    "('f, 'c, 'w, 'e, 't) op_env \<Rightarrow> request_context \<Rightarrow> operation_descriptor \<Rightarrow> operation_failure_kind \<Rightarrow>
     string \<Rightarrow> 'w \<Rightarrow> 't operation_outcome \<times> 'w" where
  "report_failure env c d kind error_type w =
     (let failure = failure_of c d kind error_type in (Failed failure, oe_emit env (scope_of c d) failure w))"

section \<open>Boundaries\<close>

datatype 't boundary_event = OutcomeEvent "'t operation_outcome" | CancelledEvent | DeadlineEvent

text \<open>\<open>Unwound\<close> is a panic that leaves the boundary: the one of a cancellation.\<close>

datatype 'a run = Running | Unwound | Done 'a

definition poll_scoped ::
    "('f, 'c, 'w, 'e, 't) op_env \<Rightarrow> request_context \<Rightarrow> operation_descriptor \<Rightarrow> 'f \<Rightarrow> 'w \<Rightarrow>
     ('f, 't operation_outcome) poll \<times> 'w" where
  "poll_scoped env c d f w =
     (case oe_poll env (scope_of c d) f w of
        (Some (Pending f'), w') \<Rightarrow> (Pending f', w')
      | (Some (Ready (Inr v)), w') \<Rightarrow> (Ready (Completed v), w')
      | (Some (Ready (Inl _)), w') \<Rightarrow>
          (case report_failure env c d ErrorFailure (bounded_error_type (oe_type_name env)) w' of
             (outcome, w'') \<Rightarrow> (Ready outcome, w''))
      | (None, w') \<Rightarrow>
          (case report_failure env c d PanicFailure ''panic'' w' of
             (outcome, w'') \<Rightarrow> (Ready outcome, w'')))"

text \<open>The boundary without controls.\<close>

fun run_scoped ::
    "('f, 'c, 'w, 'e, 't) op_env \<Rightarrow> request_context \<Rightarrow> operation_descriptor \<Rightarrow> ('w \<Rightarrow> 'w) list \<Rightarrow> 'f \<Rightarrow> 'w \<Rightarrow>
     't operation_outcome run \<times> 'w" where
  "run_scoped env c d wakes f w =
     (case poll_scoped env c d f w of
        (Ready outcome, w') \<Rightarrow> (Done outcome, w')
      | (Pending f', w') \<Rightarrow>
          (case wakes of [] \<Rightarrow> (Running, w') | wake # wakes' \<Rightarrow> run_scoped env c d wakes' f' (wake w')))"

declare run_scoped.simps [simp del]

definition run_operation_boundary ::
    "('f, 'c, 'w, 'e, 't) op_env \<Rightarrow> request_context \<Rightarrow> operation_descriptor \<Rightarrow> ('w \<Rightarrow> 'w) list \<Rightarrow> 'f \<Rightarrow> 'w \<Rightarrow>
     't operation_outcome run \<times> 'w" where
  "run_operation_boundary env c d wakes f w = run_scoped env c (normalize_descriptor d) wakes f w"

datatype expiry = Never | Immediately | At instant

definition expiry_of :: "duration option \<Rightarrow> instant option \<Rightarrow> expiry" where
  "expiry_of timeout deadline =
     (case (timeout, deadline) of
        (None, _) \<Rightarrow> Never
      | (Some budget, _) \<Rightarrow>
          if budget = 0 then Immediately
          else (case deadline of None \<Rightarrow> Immediately | Some at \<Rightarrow> At at))"

definition poll_expiry :: "('f, 'c, 'w, 'e, 't) op_env \<Rightarrow> expiry \<Rightarrow> 'w \<Rightarrow> bool \<times> 'w" where
  "poll_expiry env expiry w =
     (case expiry of Never \<Rightarrow> (False, w) | Immediately \<Rightarrow> (True, w) | At at \<Rightarrow> oe_elapsed env at w)"

text \<open>
  The biased selection. When it ends, the futures that did not finish are dropped, the last one
  declared first.
\<close>

fun select_loop ::
    "('f, 'c, 'w, 'e, 't) op_env \<Rightarrow> request_context \<Rightarrow> operation_descriptor \<Rightarrow> expiry \<Rightarrow> ('w \<Rightarrow> 'w) list \<Rightarrow>
     'c \<Rightarrow> 'f \<Rightarrow> 'w \<Rightarrow> 't boundary_event run \<times> 'w" where
  "select_loop env c d expiry wakes cancellation f w =
     (case oe_poll_cancel env cancellation w of
        (None, w1) \<Rightarrow> (Unwound, oe_drop env f w1)
      | (Some (Ready _), w1) \<Rightarrow> (Done CancelledEvent, oe_drop env f w1)
      | (Some (Pending cancellation'), w1) \<Rightarrow>
          (case poll_expiry env expiry w1 of
             (True, w2) \<Rightarrow> (Done DeadlineEvent, oe_drop_cancel env cancellation' (oe_drop env f w2))
           | (False, w2) \<Rightarrow>
               (case poll_scoped env c d f w2 of
                  (Ready outcome, w3) \<Rightarrow> (Done (OutcomeEvent outcome), oe_drop_cancel env cancellation' w3)
                | (Pending f', w3) \<Rightarrow>
                    (case wakes of
                       [] \<Rightarrow> (Running, w3)
                     | wake # wakes' \<Rightarrow> select_loop env c d expiry wakes' cancellation' f' (wake w3)))))"

declare select_loop.simps [simp del]

definition run_controlled ::
    "('f, 'c, 'w, 'e, 't) op_env \<Rightarrow> request_context \<Rightarrow> operation_descriptor \<Rightarrow> duration option \<Rightarrow>
     ('w \<Rightarrow> 'w) list \<Rightarrow> 'c \<Rightarrow> 'f \<Rightarrow> 'w \<Rightarrow> 't operation_outcome run \<times> 'w" where
  "run_controlled env c d0 timeout wakes cancellation f w =
     (let d = normalize_descriptor d0;
          deadline = Option.bind timeout (oe_checked_add env (oe_now env w))
      in case select_loop env c d (expiry_of timeout deadline) wakes cancellation f w of
           (Running, w') \<Rightarrow> (Running, w')
         | (Unwound, w') \<Rightarrow> (Unwound, w')
         | (Done event, w') \<Rightarrow>
             (case (case event of
                      OutcomeEvent outcome \<Rightarrow> (outcome, w')
                    | CancelledEvent \<Rightarrow> report_failure env c d CancelledFailure ''Cancelled'' w'
                    | DeadlineEvent \<Rightarrow> report_failure env c d DeadlineFailure ''DeadlineExceeded'' w') of
                (outcome, w'') \<Rightarrow> (Done outcome, w'')))"

text \<open>The variants; \<open>std::future::pending\<close> is a cancellation that is never ready.\<close>

definition never_cancelled :: "('f, 'c, 'w, 'e, 't) op_env \<Rightarrow> ('f, unit, 'w, 'e, 't) op_env" where
  "never_cancelled env =
     \<lparr>oe_poll = oe_poll env, oe_drop = oe_drop env, oe_poll_cancel = (\<lambda>c w. (Some (Pending c), w)),
      oe_drop_cancel = (\<lambda>_ w. w), oe_now = oe_now env, oe_checked_add = oe_checked_add env,
      oe_elapsed = oe_elapsed env, oe_emit = oe_emit env, oe_type_name = oe_type_name env\<rparr>"

definition run_with_timeout ::
    "('f, 'c, 'w, 'e, 't) op_env \<Rightarrow> request_context \<Rightarrow> operation_descriptor \<Rightarrow> duration \<Rightarrow> ('w \<Rightarrow> 'w) list \<Rightarrow>
     'f \<Rightarrow> 'w \<Rightarrow> 't operation_outcome run \<times> 'w" where
  "run_with_timeout env c d timeout wakes f w =
     run_controlled (never_cancelled env) c d (Some timeout) wakes () f w"

definition run_with_cancellation ::
    "('f, 'c, 'w, 'e, 't) op_env \<Rightarrow> request_context \<Rightarrow> operation_descriptor \<Rightarrow> ('w \<Rightarrow> 'w) list \<Rightarrow>
     'c \<Rightarrow> 'f \<Rightarrow> 'w \<Rightarrow> 't operation_outcome run \<times> 'w" where
  "run_with_cancellation env c d wakes cancellation f w = run_controlled env c d None wakes cancellation f w"

definition run_with_timeout_and_cancellation ::
    "('f, 'c, 'w, 'e, 't) op_env \<Rightarrow> request_context \<Rightarrow> operation_descriptor \<Rightarrow> duration \<Rightarrow> ('w \<Rightarrow> 'w) list \<Rightarrow>
     'c \<Rightarrow> 'f \<Rightarrow> 'w \<Rightarrow> 't operation_outcome run \<times> 'w" where
  "run_with_timeout_and_cancellation env c d timeout wakes cancellation f w =
     run_controlled env c d (Some timeout) wakes cancellation f w"

section \<open>Tokens\<close>

lemma operation_token: "operation_safe_token ''operation'' 128" "operation_safe_token ''error'' 64"
    "operation_safe_token ''panic'' 64" "operation_safe_token ''Cancelled'' 64" "operation_safe_token ''DeadlineExceeded'' 64"
  by (simp_all add: operation_safe_token_def ascii_defs)

lemma normalized_name: "operation_safe_token (od_name (normalize_descriptor d)) 128"
  by (simp add: normalize_descriptor_def operation_token)

lemma bounded_error_type_token: "operation_safe_token (bounded_error_type n) 64"
  by (simp add: bounded_error_type_def operation_token Let_def)

section \<open>What a boundary does\<close>

text \<open>
  What a poll of the callback gives, and a log of the polls with what they gave, of the drops of the callback
  and of the reported failures.
\<close>

datatype 't polled = Later | Gave 't | Errored | Panicking

definition polled_as :: "('f, ('e, 't) result) poll option \<Rightarrow> 't polled" where
  "polled_as p =
     (case p of
        None \<Rightarrow> Panicking
      | Some (Pending _) \<Rightarrow> Later
      | Some (Ready (Inr v)) \<Rightarrow> Gave v
      | Some (Ready (Inl _)) \<Rightarrow> Errored)"

datatype 't op_event = Polled "'t polled" | Dropped | Reported op_scope operation_failure

definition traced :: "('f, 'c, 'w, 'e, 't) op_env \<Rightarrow> ('w \<Rightarrow> 't op_event list) \<Rightarrow> ('w \<Rightarrow> 'w) list \<Rightarrow> bool" where
  "traced env log wakes \<longleftrightarrow>
     (\<forall>s f w. log (snd (oe_poll env s f w)) = log w @ [Polled (polled_as (fst (oe_poll env s f w)))]) \<and>
     (\<forall>f w. log (oe_drop env f w) = log w @ [Dropped]) \<and>
     (\<forall>s x w. log (oe_emit env s x w) = log w @ [Reported s x]) \<and>
     (\<forall>c w. log (snd (oe_poll_cancel env c w)) = log w) \<and> (\<forall>c w. log (oe_drop_cancel env c w) = log w) \<and>
     (\<forall>t w. log (snd (oe_elapsed env t w)) = log w) \<and> (\<forall>wake \<in> set wakes. \<forall>w. log (wake w) = log w)"

lemma traced_log:
  assumes "traced env log wakes"
  shows "oe_poll env s f w = (p, w') \<Longrightarrow> log w' = log w @ [Polled (polled_as p)]"
    "log (oe_drop env f w) = log w @ [Dropped]" "log (oe_emit env s x w) = log w @ [Reported s x]"
    "oe_poll_cancel env k w = (q, w') \<Longrightarrow> log w' = log w" "log (oe_drop_cancel env k w) = log w"
    "poll_expiry env e w = (b, w') \<Longrightarrow> log w' = log w"
  using assms unfolding traced_def poll_expiry_def
  by (auto split: expiry.splits) (metis fst_conv snd_conv)+

text \<open>How the log ends for an outcome.\<close>

definition ended :: "request_context \<Rightarrow> operation_descriptor \<Rightarrow> 't operation_outcome \<Rightarrow> 't op_event list" where
  "ended c d outcome =
     (case outcome of
        Completed v \<Rightarrow> [Polled (Gave v)]
      | Failed x \<Rightarrow>
          [case of_kind x of
             ErrorFailure \<Rightarrow> Polled Errored
           | PanicFailure \<Rightarrow> Polled Panicking
           | CancelledFailure \<Rightarrow> Dropped
           | DeadlineFailure \<Rightarrow> Dropped, Reported (scope_of c d) x])"

text \<open>A failure describes the operation and its context, with bounded text only.\<close>

definition failure_ok :: "request_context \<Rightarrow> operation_descriptor \<Rightarrow> operation_failure \<Rightarrow> bool" where
  "failure_ok c d x \<longleftrightarrow> x = failure_of c d (of_kind x) (of_error_type x) \<and> operation_safe_token (of_error_type x) 64"

definition outcome_ok :: "request_context \<Rightarrow> operation_descriptor \<Rightarrow> 't operation_outcome \<Rightarrow> bool" where
  "outcome_ok c d outcome \<longleftrightarrow> (case outcome of Completed _ \<Rightarrow> True | Failed x \<Rightarrow> failure_ok c d x)"

lemma report_failure_exact:
  assumes "report_failure env c d kind error_type w = (outcome, w')" "operation_safe_token error_type 64" "traced env log wakes"
  shows "\<exists>x. outcome = Failed x \<and> of_kind x = kind \<and> failure_ok c d x \<and> log w' = log w @ [Reported (scope_of c d) x]"
  using assms(1,2) traced_log(3) [OF assms(3)]
  by (auto simp: report_failure_def failure_ok_def failure_of_def Let_def)

text \<open>An outcome that a poll gave.\<close>

definition by_poll :: "'t operation_outcome \<Rightarrow> bool" where
  "by_poll outcome \<longleftrightarrow>
     (case outcome of Completed _ \<Rightarrow> True | Failed x \<Rightarrow> of_kind x \<in> {ErrorFailure, PanicFailure})"

lemma poll_scoped_exact:
  assumes "poll_scoped env c d f w = (p, w')" "traced env log wakes"
  shows "case p of
      Pending _ \<Rightarrow> log w' = log w @ [Polled Later]
    | Ready outcome \<Rightarrow> outcome_ok c d outcome \<and> by_poll outcome \<and> log w' = log w @ ended c d outcome"
proof -
  obtain r w1 where poll: "oe_poll env (scope_of c d) f w = (r, w1)" by fastforce
  note log = traced_log(1) [OF assms(2) poll]
  have failed: "\<exists>x. outcome = Failed x \<and> of_kind x = kind \<and> failure_ok c d x \<and> log w' = log w1 @ [Reported (scope_of c d) x]"
    if "report_failure env c d kind e w1 = (outcome, w')" "e = ''panic'' \<or> e = bounded_error_type (oe_type_name env)" for kind e outcome
    using that report_failure_exact [OF that(1) _ assms(2)] by (auto simp: operation_token bounded_error_type_token)
  show ?thesis
  proof (cases r)
    case None
    with assms(1) poll failed [of PanicFailure "''panic''"] log show ?thesis
      by (auto simp: poll_scoped_def outcome_ok_def ended_def by_poll_def polled_as_def split: prod.splits)
  next
    case (Some q)
    then show ?thesis
    proof (cases q)
      case (Ready v)
      with Some assms(1) poll failed [of ErrorFailure "bounded_error_type (oe_type_name env)"] log show ?thesis
        by (cases v) (auto simp: poll_scoped_def outcome_ok_def ended_def by_poll_def polled_as_def split: prod.splits)
    qed (use Some assms(1) poll log in \<open>auto simp: poll_scoped_def polled_as_def\<close>)
  qed
qed

text \<open>An event of the selection, and the log up to it.\<close>

definition event_log ::
    "request_context \<Rightarrow> operation_descriptor \<Rightarrow> nat \<Rightarrow> 't boundary_event \<Rightarrow> 't op_event list \<Rightarrow> bool" where
  "event_log c d n event l \<longleftrightarrow>
     (case event of
        OutcomeEvent outcome \<Rightarrow> outcome_ok c d outcome \<and> by_poll outcome \<and>
          l = replicate n (Polled Later) @ ended c d outcome
      | _ \<Rightarrow> l = replicate n (Polled Later) @ [Dropped])"

lemma traced_Cons: "traced env log (wake # wakes) \<Longrightarrow> traced env log wakes \<and> log (wake w) = log w"
  by (auto simp: traced_def)

text \<open>What \<open>m\<close> further polls of the selection write.\<close>

definition select_log ::
    "('f, 'c, 'w, 'e, 't) op_env \<Rightarrow> request_context \<Rightarrow> operation_descriptor \<Rightarrow> expiry \<Rightarrow> nat \<Rightarrow>
     't boundary_event run \<Rightarrow> 't op_event list \<Rightarrow> bool" where
  "select_log env c d expiry m r l \<longleftrightarrow>
     (case r of
        Running \<Rightarrow> expiry \<noteq> Immediately \<and> l = replicate m (Polled Later)
      | Unwound \<Rightarrow> \<exists>n k v. l = replicate n (Polled Later) @ [Dropped] \<and> fst (oe_poll_cancel env k v) = None
      | Done event \<Rightarrow> \<exists>n. event_log c d n event l \<and>
          (expiry = Immediately \<longrightarrow> n = 0 \<and> (\<forall>outcome. event \<noteq> OutcomeEvent outcome)))"

lemma select_log_Suc:
  assumes "select_log env c d expiry m r l" "expiry \<noteq> Immediately"
  shows "select_log env c d expiry (Suc m) r (Polled Later # l)"
proof -
  have "\<exists>n'. event_log c d n' event (Polled Later # l)" if "event_log c d n event l" for event n
    by (intro exI [of _ "Suc n"]) (use that in \<open>auto simp: event_log_def split: boundary_event.splits\<close>)
  moreover have "\<exists>n'. Polled Later # replicate n (Polled Later) @ [Dropped] = replicate n' (Polled Later) @ [Dropped]" for n
    by (intro exI [of _ "Suc n"]) simp
  ultimately show ?thesis using assms by (auto simp: select_log_def split: run.splits)
qed

text \<open>One poll of the selection: it ends, or it leaves everything pending.\<close>

lemma select_once:
  assumes "traced env log wakes"
  shows "(\<exists>r w' l. select_loop env c d expiry wakes k f w = (r, w') \<and> log w' = log w @ l \<and>
        r \<noteq> Running \<and> (\<forall>m. select_log env c d expiry m r l)) \<or>
    expiry \<noteq> Immediately \<and> (\<exists>k' f' w3. log w3 = log w @ [Polled Later] \<and>
      select_loop env c d expiry wakes k f w =
        (case wakes of [] \<Rightarrow> (Running, w3) | wake # wakes' \<Rightarrow> select_loop env c d expiry wakes' k' f' (wake w3)))"
proof -
  note log = traced_log [OF assms]
  obtain q w1 where cancel: "oe_poll_cancel env k w = (q, w1)" by fastforce
  have l1: "log w1 = log w" by (rule log(4) [OF cancel])
  have dropped: "\<forall>m. select_log env c d expiry m (Done event) [Dropped]"
    if "event = CancelledEvent \<or> event = DeadlineEvent" for event
    using that by (auto simp: select_log_def event_log_def intro!: exI [of _ 0])
  consider "q = None" | "q = Some (Ready ())" | k' where "q = Some (Pending k')"
    by (cases q) (auto, metis old.unit.exhaust poll.exhaust)
  then show ?thesis
  proof cases
    case 3
    obtain b w2 where exp: "poll_expiry env expiry w1 = (b, w2)" by fastforce
    have l2: "log w2 = log w" using log(6) [OF exp] l1 by simp
    show ?thesis
    proof (cases b)
      case True
      then have "select_loop env c d expiry wakes k f w = (Done DeadlineEvent, oe_drop_cancel env k' (oe_drop env f w2))"
        using cancel 3 exp by (subst select_loop.simps) simp
      with dropped [of DeadlineEvent] show ?thesis by (auto simp: log(2,5) l2)
    next
      case False
      then have later: "expiry \<noteq> Immediately" using exp by (auto simp: poll_expiry_def)
      obtain p w3 where poll: "poll_scoped env c d f w2 = (p, w3)" by fastforce
      note polled = poll_scoped_exact [OF poll assms]
      show ?thesis
      proof (cases p)
        case (Ready outcome)
        then have run: "select_loop env c d expiry wakes k f w = (Done (OutcomeEvent outcome), oe_drop_cancel env k' w3)"
          using cancel 3 exp False poll by (subst select_loop.simps) simp
        have "event_log c d 0 (OutcomeEvent outcome) (ended c d outcome)"
          using polled Ready by (simp add: event_log_def)
        with later have "\<forall>m. select_log env c d expiry m (Done (OutcomeEvent outcome)) (ended c d outcome)"
          by (auto simp: select_log_def)
        with run polled Ready l2 show ?thesis by (auto simp: log(5))
      next
        case (Pending f')
        with cancel 3 exp False poll have "select_loop env c d expiry wakes k f w =
            (case wakes of [] \<Rightarrow> (Running, w3) | wake # wakes' \<Rightarrow> select_loop env c d expiry wakes' k' f' (wake w3))"
          by (subst select_loop.simps) simp
        with polled Pending l2 later show ?thesis
          by (intro disjI2 conjI exI [of _ k'] exI [of _ f'] exI [of _ w3]) simp_all
      qed
    qed
  next
    case 2
    with cancel have "select_loop env c d expiry wakes k f w = (Done CancelledEvent, oe_drop env f w1)"
      by (subst select_loop.simps) simp
    with dropped [of CancelledEvent] show ?thesis by (auto simp: log(2) l1)
  next
    case 1
    with cancel have run: "select_loop env c d expiry wakes k f w = (Unwound, oe_drop env f w1)"
      by (subst select_loop.simps) simp
    have "\<forall>m. select_log env c d expiry m Unwound [Dropped]"
      using cancel 1 by (auto simp: select_log_def intro!: exI [of _ 0] exI [of _ k] exI [of _ w])
    with run show ?thesis by (auto simp: log(2) l1)
  qed
qed

lemma select_loop_log:
  assumes "traced env log wakes"
  shows "\<exists>l. log (snd (select_loop env c d expiry wakes k f w)) = log w @ l \<and>
    select_log env c d expiry (Suc (length wakes)) (fst (select_loop env c d expiry wakes k f w)) l"
  using assms
proof (induction wakes arbitrary: k f w)
  case Nil
  from select_once [OF Nil, of c d expiry k f w] show ?case by (auto simp: select_log_def)
next
  case (Cons wake wakes)
  from traced_Cons [OF Cons.prems] have tr: "traced env log wakes" "\<And>v. log (wake v) = log v"
    using Cons.prems by (auto simp: traced_def)
  from select_once [OF Cons.prems, of c d expiry k f w] consider
      r w' l where "select_loop env c d expiry (wake # wakes) k f w = (r, w')" "log w' = log w @ l"
        "select_log env c d expiry (Suc (Suc (length wakes))) r l"
    | k' f' w3 where "expiry \<noteq> Immediately" "log w3 = log w @ [Polled Later]"
        "select_loop env c d expiry (wake # wakes) k f w = select_loop env c d expiry wakes k' f' (wake w3)"
    by auto
  then show ?case
  proof cases
    case 1
    then show ?thesis by auto
  next
    case 2
    from Cons.IH [OF tr(1), of k' f' "wake w3"] select_log_Suc [OF _ 2(1)] 2(2,3) show ?thesis
      by (fastforce simp: tr(2))
  qed
qed

text \<open>
  C30. A boundary answers for whatever its callback does. When it ends, the callback was pending in all polls
  but the last: its value completes the boundary, its error and its panic are failures of their kind, and a
  cancellation or the deadline drops it; every failure is then reported, once, in the scope of its context,
  and a completion never. A failure names the operation, the request and the trace with bounded text. With a
  zero or unrepresentable budget the callback is never polled. A panic leaves the boundary only if it is the
  cancellation that panics, and while the boundary is pending nothing is reported.
\<close>

theorem boundary_reports_once:
  assumes "run_controlled env c d timeout wakes k f w = (r, w')" "traced env log wakes"
  shows "let never_polled = (expiry_of timeout (Option.bind timeout (oe_checked_add env (oe_now env w))) = Immediately)
    in case r of
      Done outcome \<Rightarrow> \<exists>n. log w' = log w @ replicate n (Polled Later) @ ended c (normalize_descriptor d) outcome \<and>
        outcome_ok c (normalize_descriptor d) outcome \<and>
        operation_safe_token (od_name (normalize_descriptor d)) 128 \<and>
        (never_polled \<longrightarrow> n = 0 \<and> \<not> by_poll outcome)
    | Unwound \<Rightarrow> (\<exists>n. log w' = log w @ replicate n (Polled Later) @ [Dropped]) \<and>
        (\<exists>k v. fst (oe_poll_cancel env k v) = None)
    | Running \<Rightarrow> \<not> never_polled \<and> log w' = log w @ replicate (Suc (length wakes)) (Polled Later)"
proof -
  let ?d = "normalize_descriptor d" and ?e = "expiry_of timeout (Option.bind timeout (oe_checked_add env (oe_now env w)))"
  obtain q w1 where sel: "select_loop env c ?d ?e wakes k f w = (q, w1)" by fastforce
  from select_loop_log [OF assms(2), of c ?d ?e k f w] sel obtain l where
    l: "log w1 = log w @ l" "select_log env c ?d ?e (Suc (length wakes)) q l" by auto
  show ?thesis
  proof (cases q)
    case Running
    with assms(1) sel l show ?thesis by (auto simp: run_controlled_def Let_def select_log_def)
  next
    case Unwound
    with assms(1) sel l show ?thesis by (auto simp: run_controlled_def Let_def select_log_def)
  next
    case (Done event)
    with l obtain n where n: "event_log c ?d n event l" "?e = Immediately \<longrightarrow> n = 0 \<and> (\<forall>outcome. event \<noteq> OutcomeEvent outcome)"
      by (auto simp: select_log_def)
    obtain outcome where r: "r = Done outcome" and
      rest: "(case event of
                  OutcomeEvent outcome \<Rightarrow> (outcome, w1)
                | CancelledEvent \<Rightarrow> report_failure env c ?d CancelledFailure ''Cancelled'' w1
                | DeadlineEvent \<Rightarrow> report_failure env c ?d DeadlineFailure ''DeadlineExceeded'' w1) = (outcome, w')"
      using assms(1) sel Done by (auto simp: run_controlled_def Let_def split: prod.splits)
    have "log w' = log w @ replicate n (Polled Later) @ ended c ?d outcome \<and> outcome_ok c ?d outcome \<and>
        (?e = Immediately \<longrightarrow> n = 0 \<and> \<not> by_poll outcome)"
    proof (cases event)
      case (OutcomeEvent x)
      with l(1) n rest show ?thesis by (auto simp: event_log_def)
    next
      case CancelledEvent
      with rest report_failure_exact [of env c ?d CancelledFailure "''Cancelled''" w1 outcome w', OF _ operation_token(4) assms(2)]
        l(1) n show ?thesis by (auto simp: event_log_def ended_def outcome_ok_def by_poll_def)
    next
      case DeadlineEvent
      with rest report_failure_exact [of env c ?d DeadlineFailure "''DeadlineExceeded''" w1 outcome w', OF _ operation_token(5) assms(2)]
        l(1) n show ?thesis by (auto simp: event_log_def ended_def outcome_ok_def by_poll_def)
    qed
    then show ?thesis unfolding r Let_def run.case using normalized_name [of d] by blast
  qed
qed

section \<open>A boundary ends\<close>

text \<open>The wake-up at which the sleep until the deadline is over, whatever happened before.\<close>

definition timer_fires :: "('f, 'c, 'w, 'e, 't) op_env \<Rightarrow> instant \<Rightarrow> ('w \<Rightarrow> 'w) \<Rightarrow> bool" where
  "timer_fires env at wake \<longleftrightarrow> (\<forall>k v. fst (oe_elapsed env at (snd (oe_poll_cancel env k (wake v)))))"

lemma select_loop_deadline:
  assumes "fst (oe_elapsed env at (snd (oe_poll_cancel env k w)))"
  shows "fst (select_loop env c d (At at) wakes k f w) \<noteq> Running"
  using assms by (subst select_loop.simps) (auto simp: poll_expiry_def split: prod.splits option.splits poll.splits)

lemma select_loop_ends:
  "wake \<in> set wakes \<Longrightarrow> timer_fires env at wake \<Longrightarrow> fst (select_loop env c d (At at) wakes k f w) \<noteq> Running"
proof (induction wakes arbitrary: k f w)
  case (Cons x wakes)
  have "fst (select_loop env c d (At at) wakes k' f' (x v)) \<noteq> Running" for k' f' v
  proof (cases "x = wake")
    case True
    with Cons.prems(2) show ?thesis by (intro select_loop_deadline) (simp add: timer_fires_def)
  qed (use Cons in auto)
  then show ?case
    by (subst select_loop.simps) (auto split: prod.splits option.splits poll.splits bool.splits)
qed simp

lemma run_controlled_ends:
  assumes "\<And>at. oe_checked_add env (oe_now env w) budget = Some at \<Longrightarrow>
      budget = 0 \<or> (\<exists>wake \<in> set wakes. timer_fires env at wake)"
  shows "fst (run_controlled env c d (Some budget) wakes k f w) \<noteq> Running"
proof -
  let ?e = "expiry_of (Some budget) (oe_checked_add env (oe_now env w) budget)"
  have "fst (select_loop env c (normalize_descriptor d) ?e wakes k f w) \<noteq> Running"
  proof (cases "?e = Immediately")
    case True
    then show ?thesis
      by (subst select_loop.simps) (auto simp: poll_expiry_def split: prod.splits option.splits poll.splits)
  next
    case False
    then obtain at where "oe_checked_add env (oe_now env w) budget = Some at" "budget \<noteq> 0" "?e = At at"
      by (auto simp: expiry_of_def split: if_splits option.splits)
    with assms select_loop_ends show ?thesis by metis
  qed
  then show ?thesis
    by (auto simp: run_controlled_def Let_def split: prod.splits run.splits)
qed

text \<open>
  C31. A boundary with a budget ends: once a wake-up comes at which the timer of its deadline has fired, it is
  not pending any more, however the callback and the cancellation behave; with a zero budget or one
  that no instant can represent it ends at its first poll.
\<close>

theorem deadline_ends_boundary:
  assumes "\<And>at. oe_checked_add env (oe_now env w) budget = Some at \<Longrightarrow>
      budget = 0 \<or> (\<exists>wake \<in> set wakes. timer_fires env at wake)"
  shows "fst (run_with_timeout_and_cancellation env c d budget wakes k f w) \<noteq> Running"
  unfolding run_with_timeout_and_cancellation_def using assms by (rule run_controlled_ends)

section \<open>An example\<close>

text \<open>A world of a clock and a log; a callback that counts down and panics at seven; an eager timer.\<close>

definition sample_op_env :: "(nat, unit, instant \<times> nat op_event list, unit, nat) op_env" where
  "sample_op_env =
     \<lparr>oe_poll = (\<lambda>s f w.
        let p = (if f = 7 then None else Some (if f = 0 then Ready (Inr 42) else Pending (f - 1)))
        in (p, (fst w, snd w @ [Polled (polled_as p)]))),
      oe_drop = (\<lambda>f w. (fst w, snd w @ [Dropped])), oe_poll_cancel = (\<lambda>k w. (Some (Pending k), w)),
      oe_drop_cancel = (\<lambda>k w. w), oe_now = fst,
      oe_checked_add = (\<lambda>t d. if t + d < 2 ^ 64 then Some (t + d) else None),
      oe_elapsed = (\<lambda>t w. (t \<le> fst w, w)), oe_emit = (\<lambda>s x w. (fst w, snd w @ [Reported s x])),
      oe_type_name = ''std::io::Error''\<rparr>"

definition sample_op_context :: request_context where
  "sample_op_context =
     \<lparr>rc_request_id = ''r1'', rc_trace_id = ''t1'', rc_span_id = None, rc_tenant_id = None, rc_user_id = None,
      rc_locale = None, rc_started_at_unix_ms = 0, rc_deadline_unix_ms = None, rc_baggage = []\<rparr>"

definition sample_descriptor :: operation_descriptor where
  "sample_descriptor = \<lparr>od_transport = TcpTransport, od_scope = CallbackScope, od_name = ''a b''\<rparr>"

definition sleep_to :: "instant \<Rightarrow> instant \<times> nat op_event list \<Rightarrow> instant \<times> nat op_event list" where
  "sleep_to t w = (max t (fst w), snd w)"

lemma boundary_reports_once_witness:
  "\<exists>x. run_controlled sample_op_env sample_op_context sample_descriptor (Some 10) [sleep_to 3, sleep_to 20] () 5 (0, []) =
      (Done (Failed x), (20, [Polled Later, Polled Later, Dropped, Reported (scope_of sample_op_context
         (normalize_descriptor sample_descriptor)) x])) \<and>
    of_kind x = DeadlineFailure \<and> of_operation x = ''operation'' \<and> operation_safe_token (of_error_type x) 64"
proof -
  have run: "run_controlled sample_op_env sample_op_context sample_descriptor (Some 10) [sleep_to 3, sleep_to 20] () 5 (0, []) =
      (Done (Failed (failure_of sample_op_context (normalize_descriptor sample_descriptor) DeadlineFailure ''DeadlineExceeded'')),
       (20, [Polled Later, Polled Later, Dropped, Reported (scope_of sample_op_context (normalize_descriptor sample_descriptor))
          (failure_of sample_op_context (normalize_descriptor sample_descriptor) DeadlineFailure ''DeadlineExceeded'')]))"
    by (simp add: run_controlled_def sample_op_env_def expiry_of_def select_loop.simps poll_expiry_def poll_scoped_def
        sleep_to_def report_failure_def Let_def polled_as_def)
  have "traced sample_op_env snd [sleep_to 3, sleep_to 20]"
    by (simp add: traced_def sample_op_env_def sleep_to_def Let_def)
  from boundary_reports_once [OF run this] have "outcome_ok sample_op_context (normalize_descriptor sample_descriptor)
      (Failed (failure_of sample_op_context (normalize_descriptor sample_descriptor) DeadlineFailure ''DeadlineExceeded'')
        :: nat operation_outcome)" by (auto simp: Let_def)
  then show ?thesis unfolding run
    by (auto simp: outcome_ok_def failure_ok_def failure_of_def normalize_descriptor_def sample_descriptor_def
        operation_safe_token_def ascii_defs)
qed

lemma deadline_ends_boundary_witness:
  "fst (run_with_timeout_and_cancellation sample_op_env sample_op_context sample_descriptor 10 [sleep_to 20] () 5 (0, [])) \<noteq> Running"
proof (rule deadline_ends_boundary)
  fix at
  assume "oe_checked_add sample_op_env (oe_now sample_op_env (0, [])) 10 = Some at"
  then have "at = 10" by (simp add: sample_op_env_def)
  then have "timer_fires sample_op_env at (sleep_to 20)" by (simp add: timer_fires_def sample_op_env_def sleep_to_def le_max_iff_disj)
  then show "(10 :: nat) = 0 \<or> (\<exists>wake \<in> set [sleep_to 20]. timer_fires sample_op_env at wake)" by simp
qed

end
