(* ===== verification/Config_Discovery.thy ===== *)
theory Config_Discovery
  imports Runtime_Manifest Rate_Limit
begin

text \<open>
  \<^verbatim>\<open>src/src/rust/src/config_discovery.rs\<close>, the loading of the runtime manifest in
  \<^verbatim>\<open>src/src/rust/src/runtime_manifest.rs\<close>, and its evidence in
  \<^verbatim>\<open>src/src/rust/src/runtime_manifest_evidence.rs\<close>.

  A path is its text, of valid UTF-8; its parent and its joins are those of the standard library on
  Unix. The file system is the record \<open>file_system\<close> of what its queries answer during one discovery.
  A warning is the path it names; the logger that sends it belongs to another package.
\<close>

section \<open>Paths\<close>

abbreviation slash :: char where "slash \<equiv> CHR ''/''"

definition path_join :: "string \<Rightarrow> string \<Rightarrow> string" where
  "path_join base name =
     (if starts_with ''/'' name then name
      else if base = [] \<or> last base = slash then base @ name else base @ ''/'' @ name)"

text \<open>The pieces between separators that are components: empty ones are not, nor is a dot behind the first piece.\<close>

definition component_indices :: "string list \<Rightarrow> nat list" where
  "component_indices pieces =
     filter (\<lambda>i. pieces ! i \<noteq> [] \<and> (pieces ! i \<noteq> ''.'' \<or> i = 0)) [0..<length pieces]"

definition path_parent :: "string \<Rightarrow> string option" where
  "path_parent s =
     (let pieces = split_on slash s in
      case rev (component_indices pieces) of
        [] \<Rightarrow> None
      | [i] \<Rightarrow> Some (if starts_with ''/'' s then ''/'' else [])
      | i # j # _ \<Rightarrow> Some (join_with [slash] (take (Suc j) pieces)))"

text \<open>\<open>ancestors().take(n)\<close>.\<close>

primrec ancestors_take :: "nat \<Rightarrow> string \<Rightarrow> string list" where
  "ancestors_take 0 s = []"
| "ancestors_take (Suc n) s =
     s # (case path_parent s of None \<Rightarrow> [] | Some p \<Rightarrow> ancestors_take n p)"

section \<open>Origins\<close>

definition max_ancestors :: nat where "max_ancestors = 64"
definition max_config_bytes :: nat where "max_config_bytes = 256 * 1024"

datatype discovery_error =
    NotFound string string
  | Unreadable string
  | InvalidConfigDocument string
  | NoStartingDirectory

definition discovery_error_code :: "discovery_error \<Rightarrow> string" where
  "discovery_error_code e =
     (case e of
        NotFound _ _ \<Rightarrow> ''config_not_found''
      | Unreadable _ \<Rightarrow> ''config_unreadable''
      | InvalidConfigDocument _ \<Rightarrow> ''config_invalid_document''
      | NoStartingDirectory \<Rightarrow> ''config_no_starting_directory'')"

definition discovery_error_display :: "discovery_error \<Rightarrow> string" where
  "discovery_error_display e =
     (case e of
        NotFound file_name searched_from \<Rightarrow>
          discovery_error_code e @ '': no '' @ file_name @ '' found in '' @ searched_from @
          '' or any permitted parent directory''
      | Unreadable path \<Rightarrow> discovery_error_code e @ '': cannot read '' @ path
      | InvalidConfigDocument path \<Rightarrow>
          discovery_error_code e @ '': '' @ path @ '' is not a regular UTF-8 document within '' @
          show_nat max_config_bytes @ '' bytes''
      | NoStartingDirectory \<Rightarrow> discovery_error_code e @ '': no starting directory'')"

record discovered =
  dc_path :: string
  dc_source :: string
  dc_at_repo_root :: bool

record origin =
  or_explicit_file :: "string option"
  or_explicit_dir :: "string option"
  or_env_file :: "string option"
  or_env_dir :: "string option"
  or_working_directory :: "string option"

datatype start = StartFile string | StartDirectory string

definition cleaned :: "string \<Rightarrow> string option" where
  "cleaned v = (let trimmed = trim v in then_some (trimmed \<noteq> []) trimmed)"

definition normalise_dir :: "string \<Rightarrow> string" where
  "normalise_dir v =
     (let trimmed = rev (dropWhile (\<lambda>c. c = slash) (rev v)) in if trimmed = [] then ''/'' else trimmed)"

definition resolve_start :: "origin \<Rightarrow> (discovery_error, start) result" where
  "resolve_start r =
     (case Option.bind (or_explicit_file r) cleaned of
        Some text \<Rightarrow> Inr (StartFile text)
      | None \<Rightarrow>
     (case Option.bind (or_explicit_dir r) cleaned of
        Some text \<Rightarrow> Inr (StartDirectory (normalise_dir text))
      | None \<Rightarrow>
     (case Option.bind (or_env_file r) cleaned of
        Some text \<Rightarrow> Inr (StartFile text)
      | None \<Rightarrow>
     (case Option.bind (or_env_dir r) cleaned of
        Some text \<Rightarrow> Inr (StartDirectory (normalise_dir text))
      | None \<Rightarrow>
     (case Option.bind (or_working_directory r) cleaned of
        Some text \<Rightarrow> Inr (StartDirectory (normalise_dir text))
      | None \<Rightarrow> Inl NoStartingDirectory)))))"

text \<open>The environment and the working directory of the process are arguments.\<close>

definition origin_from_env :: "(string \<Rightarrow> string option) \<Rightarrow> string option \<Rightarrow> string \<Rightarrow> origin" where
  "origin_from_env env current_dir env_prefix =
     \<lparr>or_explicit_file = None, or_explicit_dir = None,
      or_env_file = env (env_prefix @ ''_CONFIG_FILE''), or_env_dir = env (env_prefix @ ''_CONFIG_DIR''),
      or_working_directory = current_dir\<rparr>"

section \<open>Files\<close>

record file_metadata =
  fm_is_symlink :: bool
  fm_is_file :: bool
  fm_len :: nat

record file_system =
  fs_canonicalize :: "string \<Rightarrow> string option"
  fs_exists :: "string \<Rightarrow> bool"
  fs_is_file :: "string \<Rightarrow> bool"
  fs_symlink_metadata :: "string \<Rightarrow> file_metadata option"
  fs_read_to_string :: "string \<Rightarrow> string option"

definition is_repo_root :: "file_system \<Rightarrow> string \<Rightarrow> bool" where
  "is_repo_root fs directory \<longleftrightarrow> fs_exists fs (path_join directory ''.git'')"

definition read_checked :: "file_system \<Rightarrow> string \<Rightarrow> (discovery_error, string) result" where
  "read_checked fs path =
     bind_result (ok_or (Unreadable path) (fs_symlink_metadata fs path)) (\<lambda>m.
       if fm_is_symlink m \<or> \<not> fm_is_file m \<or> fm_len m > max_config_bytes then Inl (InvalidConfigDocument path)
       else bind_result (ok_or (InvalidConfigDocument path) (fs_read_to_string fs path)) (\<lambda>source.
         if CHR 0x00 \<in> set source then Inl (InvalidConfigDocument path) else Inr source))"

fun walk_loop :: "file_system \<Rightarrow> string \<Rightarrow> string \<Rightarrow> string list \<Rightarrow> (discovery_error, discovered) result" where
  "walk_loop fs file_name start [] = Inl (NotFound file_name start)"
| "walk_loop fs file_name start (ancestor # rest) =
     (let candidate = path_join ancestor file_name in
      if fs_is_file fs candidate then
        bind_result (read_checked fs candidate) (\<lambda>source.
          Inr \<lparr>dc_path = candidate, dc_source = source, dc_at_repo_root = is_repo_root fs ancestor\<rparr>)
      else if is_repo_root fs ancestor then Inl (NotFound file_name start)
      else walk_loop fs file_name start rest)"

definition walk_up :: "file_system \<Rightarrow> string \<Rightarrow> string \<Rightarrow> (discovery_error, discovered) result" where
  "walk_up fs directory file_name =
     (let start = (case fs_canonicalize fs directory of None \<Rightarrow> directory | Some p \<Rightarrow> p)
      in walk_loop fs file_name start (ancestors_take max_ancestors start))"

definition warn_if_not_repo_root :: "discovered \<Rightarrow> string list" where
  "warn_if_not_repo_root found = (if dc_at_repo_root found then [] else [dc_path found])"

definition discover ::
    "file_system \<Rightarrow> string \<Rightarrow> origin \<Rightarrow> (discovery_error, discovered) result \<times> string list" where
  "discover fs file_name r =
     (let found = bind_result (resolve_start r) (\<lambda>start.
            case start of
              StartFile path \<Rightarrow>
                (let at_repo_root = (case path_parent path of None \<Rightarrow> False | Some p \<Rightarrow> is_repo_root fs p)
                 in bind_result (read_checked fs path) (\<lambda>source.
                      Inr \<lparr>dc_path = path, dc_source = source, dc_at_repo_root = at_repo_root\<rparr>))
            | StartDirectory directory \<Rightarrow> walk_up fs directory file_name)
      in (found, case found of Inl _ \<Rightarrow> [] | Inr f \<Rightarrow> warn_if_not_repo_root f))"

section \<open>Loading the manifest\<close>

definition manifest_file_name :: string where "manifest_file_name = ''.ores-mw.toml''"
definition manifest_env_prefix :: string where "manifest_env_prefix = ''ORES_MW''"

datatype manifest_load_error = DiscoveryFailed discovery_error | ManifestFailed runtime_manifest_error

definition load_error_code :: "manifest_load_error \<Rightarrow> string" where
  "load_error_code e =
     (case e of DiscoveryFailed d \<Rightarrow> discovery_error_code d | ManifestFailed m \<Rightarrow> manifest_error_code m)"

definition load_error_display :: "manifest_load_error \<Rightarrow> string" where
  "load_error_display e =
     (case e of DiscoveryFailed d \<Rightarrow> discovery_error_display d | ManifestFailed m \<Rightarrow> manifest_error_display m)"

text \<open>The document that admits the stack; \<^const>\<open>None\<close> is a panic of the parser.\<close>

definition admitted_document ::
    "file_system \<Rightarrow> origin \<Rightarrow> string option \<Rightarrow> string \<Rightarrow> (manifest_load_error, discovered) result option" where
  "admitted_document fs r target_name expected_stack_config =
     (case fst (discover fs manifest_file_name r) of
        Inl e \<Rightarrow> Some (Inl (DiscoveryFailed e))
      | Inr found \<Rightarrow>
          map_option (\<lambda>v. case v of Inl e \<Rightarrow> Inl (ManifestFailed e) | Inr _ \<Rightarrow> Inr found)
            (admit_server_stack (dc_source found) target_name expected_stack_config))"

definition admit_server_stack_from ::
    "file_system \<Rightarrow> origin \<Rightarrow> string option \<Rightarrow> string \<Rightarrow> (manifest_load_error, string) result option" where
  "admit_server_stack_from fs r target_name expected_stack_config =
     map_option (\<lambda>v. bind_result v (\<lambda>found. Inr (dc_path found)))
       (admitted_document fs r target_name expected_stack_config)"

definition admit_server_stack_from_env ::
    "file_system \<Rightarrow> (string \<Rightarrow> string option) \<Rightarrow> string option \<Rightarrow> string option \<Rightarrow> string \<Rightarrow>
     (manifest_load_error, string) result option" where
  "admit_server_stack_from_env fs env current_dir target_name expected_stack_config =
     admit_server_stack_from fs (origin_from_env env current_dir manifest_env_prefix) target_name
       expected_stack_config"

section \<open>Evidence\<close>

definition evidence_schema :: string where "evidence_schema = ''ores.middleware.runtime-config-admission/v1''"

record admission_evidence =
  ae_schema :: string
  ae_path :: string
  ae_source_sha256 :: string
  ae_source_bytes :: nat
  ae_at_repo_root :: bool
  ae_target_name :: "string option"
  ae_expected_stack_config :: string

definition evidence_valid_digest :: "admission_evidence \<Rightarrow> bool" where
  "evidence_valid_digest e \<longleftrightarrow>
     length (ae_source_sha256 e) = 64 \<and>
     list_all (\<lambda>b. is_ascii_digit b \<or> CHR ''a'' \<le> b \<and> b \<le> CHR ''f'') (ae_source_sha256 e)"

text \<open>The hash function of the bytes is the argument \<open>sha256\<close>.\<close>

definition admit_server_stack_with_evidence_from ::
    "(bytes \<Rightarrow> bytes) \<Rightarrow> file_system \<Rightarrow> origin \<Rightarrow> string option \<Rightarrow> string \<Rightarrow>
     (manifest_load_error, admission_evidence) result option" where
  "admit_server_stack_with_evidence_from sha256 fs r target_name expected_stack_config =
     map_option (\<lambda>v. bind_result v (\<lambda>found.
       Inr \<lparr>ae_schema = evidence_schema, ae_path = dc_path found,
            ae_source_sha256 = hex_bytes (sha256 (dc_source found)),
            ae_source_bytes = length (dc_source found), ae_at_repo_root = dc_at_repo_root found,
            ae_target_name = target_name, ae_expected_stack_config = expected_stack_config\<rparr>))
       (admitted_document fs r target_name expected_stack_config)"

definition admit_server_stack_with_evidence_from_env ::
    "(bytes \<Rightarrow> bytes) \<Rightarrow> file_system \<Rightarrow> (string \<Rightarrow> string option) \<Rightarrow> string option \<Rightarrow> string option \<Rightarrow> string \<Rightarrow>
     (manifest_load_error, admission_evidence) result option" where
  "admit_server_stack_with_evidence_from_env sha256 fs env current_dir target_name expected_stack_config =
     admit_server_stack_with_evidence_from sha256 fs (origin_from_env env current_dir manifest_env_prefix)
       target_name expected_stack_config"

section \<open>Ancestors\<close>

lemma join_with_append:
  "xs \<noteq> [] \<Longrightarrow> ys \<noteq> [] \<Longrightarrow> join_with [c] (xs @ ys) = join_with [c] xs @ c # join_with [c] ys"
proof (induction xs)
  case (Cons x xs)
  then show ?case by (cases xs; cases ys) auto
qed simp

lemma prefix_join_take:
  assumes "0 < k"
  shows "prefix (join_with [c] (take k (split_on c s))) s"
proof (cases "k < length (split_on c s)")
  case True
  then have "take k (split_on c s) \<noteq> []" "drop k (split_on c s) \<noteq> []" using assms by auto
  from join_with_append [OF this, of c] have "s = join_with [c] (take k (split_on c s)) @
      c # join_with [c] (drop k (split_on c s))" by simp
  then show ?thesis unfolding prefix_def by blast
qed simp

lemma path_parent_prefix: "path_parent s = Some p \<Longrightarrow> prefix p s"
  by (auto simp: path_parent_def Let_def starts_with_prefix prefix_join_take split: list.splits if_splits)

lemma ancestors_take_prefix: "a \<in> set (ancestors_take n s) \<Longrightarrow> prefix a s"
proof (induction n arbitrary: s)
  case (Suc n)
  then show ?case by (auto split: option.splits) (metis path_parent_prefix prefix_order.trans)
qed simp

lemma ancestors_take_length: "length (ancestors_take n s) \<le> n"
  by (induction n arbitrary: s) (auto split: option.split)

section \<open>What is found\<close>

text \<open>The walk comes to the \<open>i\<close>-th directory: no nearer one has the file or is a repository root.\<close>

definition reached :: "file_system \<Rightarrow> string \<Rightarrow> string list \<Rightarrow> nat \<Rightarrow> bool" where
  "reached fs file_name dirs i \<longleftrightarrow> i < length dirs \<and>
     (\<forall>j < i. \<not> fs_is_file fs (path_join (dirs ! j) file_name) \<and> \<not> is_repo_root fs (dirs ! j))"

definition nearest :: "file_system \<Rightarrow> string \<Rightarrow> string list \<Rightarrow> nat \<Rightarrow> bool" where
  "nearest fs file_name dirs i \<longleftrightarrow> reached fs file_name dirs i \<and> fs_is_file fs (path_join (dirs ! i) file_name)"

definition found_at :: "file_system \<Rightarrow> string \<Rightarrow> string \<Rightarrow> discovered" where
  "found_at fs directory path =
     \<lparr>dc_path = path, dc_source = the (fs_read_to_string fs path), dc_at_repo_root = is_repo_root fs directory\<rparr>"

definition document_ok :: "file_system \<Rightarrow> string \<Rightarrow> bool" where
  "document_ok fs path \<longleftrightarrow>
     (\<exists>m source. fs_symlink_metadata fs path = Some m \<and> \<not> fm_is_symlink m \<and> fm_is_file m \<and>
       fm_len m \<le> max_config_bytes \<and> fs_read_to_string fs path = Some source \<and> CHR 0x00 \<notin> set source)"

lemma read_checked_exact:
  "read_checked fs path =
     (if document_ok fs path then Inr (the (fs_read_to_string fs path))
      else if fs_symlink_metadata fs path = None then Inl (Unreadable path) else Inl (InvalidConfigDocument path))"
  by (auto simp: read_checked_def document_ok_def ok_or_def split: option.splits)

text \<open>Why a path cannot be taken.\<close>

definition document_fault :: "file_system \<Rightarrow> string \<Rightarrow> discovery_error option" where
  "document_fault fs path =
     (if document_ok fs path then None
      else if fs_symlink_metadata fs path = None then Some (Unreadable path) else Some (InvalidConfigDocument path))"

lemma document_fault_None: "document_fault fs path = None \<longleftrightarrow> document_ok fs path"
  by (simp add: document_fault_def)

lemma read_checked_fault:
  "read_checked fs path =
     (case document_fault fs path of None \<Rightarrow> Inr (the (fs_read_to_string fs path)) | Some e \<Rightarrow> Inl e)"
  by (simp add: read_checked_exact document_fault_def)

lemma reached_Cons:
  "reached fs file_name (d # dirs) i \<longleftrightarrow>
     i = 0 \<or> (\<exists>j. i = Suc j \<and> \<not> fs_is_file fs (path_join d file_name) \<and> \<not> is_repo_root fs d \<and> reached fs file_name dirs j)"
  by (cases i) (auto simp: reached_def less_Suc_eq_0_disj)

lemma walk_loop_exact:
  "(case walk_loop fs file_name start dirs of
      Inr f \<Rightarrow> \<exists>i. nearest fs file_name dirs i \<and> document_ok fs (path_join (dirs ! i) file_name) \<and>
        f = found_at fs (dirs ! i) (path_join (dirs ! i) file_name)
    | Inl e \<Rightarrow> (e = NotFound file_name start \<and> (\<nexists>i. nearest fs file_name dirs i)) \<or>
        (\<exists>i. nearest fs file_name dirs i \<and> document_fault fs (path_join (dirs ! i) file_name) = Some e))"
proof (induction dirs)
  case Nil
  show ?case by (simp add: nearest_def reached_def)
next
  case (Cons d dirs)
  show ?case
  proof (cases "fs_is_file fs (path_join d file_name)")
    case True
    then have "nearest fs file_name (d # dirs) 0" by (simp add: nearest_def reached_def)
    with True show ?thesis
      by (auto simp: Let_def read_checked_fault document_fault_None found_at_def split: option.split intro!: exI [of _ 0])
  next
    case False
    then have step: "nearest fs file_name (d # dirs) i \<longleftrightarrow>
        (\<exists>j. i = Suc j \<and> \<not> is_repo_root fs d \<and> nearest fs file_name dirs j)" for i
      by (auto simp: nearest_def reached_Cons)
    with False Cons.IH show ?thesis
      by (auto simp: Let_def split: sum.splits)
  qed
qed

definition search_start :: "file_system \<Rightarrow> string \<Rightarrow> string" where
  "search_start fs directory = (case fs_canonicalize fs directory of None \<Rightarrow> directory | Some p \<Rightarrow> p)"

definition search_dirs :: "file_system \<Rightarrow> string \<Rightarrow> string list" where
  "search_dirs fs directory = ancestors_take max_ancestors (search_start fs directory)"

lemma search_dirs_bounds:
  "nearest fs file_name (search_dirs fs d) i \<Longrightarrow> i < 64 \<and> prefix (search_dirs fs d ! i) (search_start fs d)"
  using ancestors_take_length [of max_ancestors "search_start fs d"]
  by (auto simp: nearest_def reached_def search_dirs_def max_ancestors_def intro!: ancestors_take_prefix [OF nth_mem])

lemma walk_up_loop: "walk_up fs d file_name = walk_loop fs file_name (search_start fs d) (search_dirs fs d)"
  by (simp add: walk_up_def search_start_def search_dirs_def Let_def)

lemma document_ok_read: "document_ok fs path \<Longrightarrow> \<exists>source. fs_read_to_string fs path = Some source"
  by (auto simp: document_ok_def)

lemma discover_document:
  assumes "fst (discover fs file_name r) = Inr f"
  shows "document_ok fs (dc_path f) \<and> fs_read_to_string fs (dc_path f) = Some (dc_source f)"
proof -
  from assms obtain start where r: "resolve_start r = Inr start"
    by (auto simp: discover_def bind_result_Inr)
  show ?thesis
  proof (cases start)
    case (StartFile path)
    with assms r show ?thesis
      by (auto simp: discover_def read_checked_exact bind_result_Inr Let_def dest: document_ok_read split: if_splits)
  next
    case (StartDirectory d)
    with assms r have "walk_loop fs file_name (search_start fs d) (search_dirs fs d) = Inr f"
      by (simp add: discover_def walk_up_loop Let_def)
    with walk_loop_exact [where fs = fs and file_name = file_name and start = "search_start fs d" and dirs = "search_dirs fs d"] show ?thesis
      by (auto simp: found_at_def dest: document_ok_read)
  qed
qed

lemma admitted_document_Inr:
  assumes "admitted_document fs r target expected = Some (Inr found)"
  shows "fst (discover fs manifest_file_name r) = Inr found \<and>
    admit_server_stack (dc_source found) target expected = Some (Inr ())"
proof (cases "fst (discover fs manifest_file_name r)")
  case (Inr f)
  with assms obtain v where "admit_server_stack (dc_source f) target expected = Some v"
    "(case v of Inl e \<Rightarrow> Inl (ManifestFailed e) | Inr _ \<Rightarrow> Inr f) = Inr found"
    by (auto simp: admitted_document_def)
  with Inr show ?thesis by (cases v) auto
qed (use assms in \<open>simp add: admitted_document_def\<close>)

text \<open>
  C32. Discovery takes a file that is named outright, or fails with what is wrong with it; from a directory it
  takes the nearest file among the directory and its at most 63 parents, without passing a repository root,
  or fails with what is wrong with this file, and it reports a missing file exactly when none of them has
  one. What it takes is a regular file of bounded size without a NUL that is no symbolic link. It warns
  exactly when the directory of the file, named outright or found, is not a repository root.
\<close>

theorem discovery_exact:
  "case discover fs file_name r of
     (Inr f, warnings) \<Rightarrow>
       document_ok fs (dc_path f) \<and> fs_read_to_string fs (dc_path f) = Some (dc_source f) \<and>
       warnings = (if dc_at_repo_root f then [] else [dc_path f]) \<and>
       (case resolve_start r of
          Inl _ \<Rightarrow> False
        | Inr (StartFile path) \<Rightarrow> dc_path f = path \<and>
            (dc_at_repo_root f \<longleftrightarrow> (\<exists>p. path_parent path = Some p \<and> is_repo_root fs p))
        | Inr (StartDirectory d) \<Rightarrow> \<exists>i. nearest fs file_name (search_dirs fs d) i \<and> i < 64 \<and>
            prefix (search_dirs fs d ! i) (search_start fs d) \<and>
            dc_path f = path_join (search_dirs fs d ! i) file_name \<and>
            (dc_at_repo_root f \<longleftrightarrow> is_repo_root fs (search_dirs fs d ! i)))
   | (Inl e, warnings) \<Rightarrow>
       warnings = [] \<and>
       (case resolve_start r of
          Inl e' \<Rightarrow> e = e'
        | Inr (StartFile path) \<Rightarrow> document_fault fs path = Some e
        | Inr (StartDirectory d) \<Rightarrow>
            if \<exists>i. nearest fs file_name (search_dirs fs d) i
            then \<exists>i. nearest fs file_name (search_dirs fs d) i \<and>
              document_fault fs (path_join (search_dirs fs d ! i) file_name) = Some e
            else e = NotFound file_name (search_start fs d))"
proof (cases "resolve_start r")
  case (Inl e)
  then show ?thesis by (simp add: discover_def)
next
  case (Inr start)
  show ?thesis
  proof (cases start)
    case (StartFile path)
    with Inr show ?thesis
      by (auto simp: discover_def read_checked_fault warn_if_not_repo_root_def Let_def document_fault_None
          dest: document_ok_read split: option.splits)
  next
    case (StartDirectory d)
    with walk_loop_exact [where fs = fs and file_name = file_name and start = "search_start fs d" and dirs = "search_dirs fs d"] StartDirectory Inr
      search_dirs_bounds [of fs file_name d] show ?thesis
      by (auto simp: discover_def walk_up_loop warn_if_not_repo_root_def found_at_def dest: document_ok_read split: sum.splits)
  qed
qed

text \<open>
  C33. Evidence is given exactly for the document that the plain admission takes: its path, the digest of all of
  its bytes and their number, and the manifest in these bytes admits the stack that was asked for.
\<close>

theorem evidence_binds_document:
  assumes "\<And>bs. length (sha256 bs) = 32"
    and "admit_server_stack_with_evidence_from sha256 fs r target expected = Some (Inr e)"
  shows "admit_server_stack_from fs r target expected = Some (Inr (ae_path e)) \<and>
    (\<exists>source. fs_read_to_string fs (ae_path e) = Some source \<and> document_ok fs (ae_path e) \<and>
       admit_server_stack source target expected = Some (Inr ()) \<and>
       ae_source_sha256 e = hex_bytes (sha256 source) \<and> ae_source_bytes e = length source) \<and>
    ae_target_name e = target \<and> ae_expected_stack_config e = expected \<and> evidence_valid_digest e"
proof -
  have digit: "is_ascii_digit (hex_digit d) \<or> CHR ''a'' \<le> hex_digit d \<and> hex_digit d \<le> CHR ''f''" if "d < 16" for d
    using that by (auto simp: hex_digit_def ascii_defs less_eq_char_def)
  have digest: "evidence_valid_digest e" if "ae_source_sha256 e = hex_bytes (sha256 bs)" for bs
  proof -
    have "length (hex_bytes bs') = 2 * length bs'" for bs' by (induction bs') (auto simp: hex_bytes_def)
    moreover have "list_all (\<lambda>b. is_ascii_digit b \<or> CHR ''a'' \<le> b \<and> b \<le> CHR ''f'') (hex_bytes bs')" for bs'
      by (induction bs') (auto simp: hex_bytes_def digit less_mult_imp_div_less)
    ultimately show ?thesis using that assms(1) by (simp add: evidence_valid_digest_def)
  qed
  from assms(2) obtain found where
    found: "admitted_document fs r target expected = Some (Inr found)"
    and e: "ae_path e = dc_path found" "ae_source_sha256 e = hex_bytes (sha256 (dc_source found))"
      "ae_source_bytes e = length (dc_source found)" "ae_target_name e = target" "ae_expected_stack_config e = expected"
    by (auto simp: admit_server_stack_with_evidence_from_def bind_result_Inr)
  from admitted_document_Inr [OF found] have admitted: "admit_server_stack (dc_source found) target expected = Some (Inr ())"
    and "document_ok fs (dc_path found)" "fs_read_to_string fs (dc_path found) = Some (dc_source found)"
    using discover_document [of fs manifest_file_name r found] by simp_all
  with found e admitted digest [OF e(2)] show ?thesis by (simp add: admit_server_stack_from_def)
qed

text \<open>A working directory whose parent, the root of a repository, has the sample manifest.\<close>

definition sample_fs :: file_system where
  "sample_fs =
     \<lparr>fs_canonicalize = Some, fs_exists = (\<lambda>p. p = ''/r/.git''),
      fs_is_file = (\<lambda>p. p = ''/r/.ores-mw.toml''),
      fs_symlink_metadata = (\<lambda>p. if p = ''/r/.ores-mw.toml'' then
         Some \<lparr>fm_is_symlink = False, fm_is_file = True, fm_len = 300\<rparr> else None),
      fs_read_to_string = (\<lambda>p. if p = ''/r/.ores-mw.toml'' then Some (print_manifest sample_manifest) else None)\<rparr>"

definition sample_origin :: origin where
  "sample_origin = origin_from_env (\<lambda>_. None) (Some ''/r/a'') ''ORES_MW''"

lemma sample_source:
  "length (print_manifest sample_manifest) \<le> max_manifest_bytes \<and> CHR 0x00 \<notin> set (print_manifest sample_manifest)"
  by (simp add: print_manifest_def manifest_lines_def target_lines_def key_line_def quoted_def sample_manifest_def
      max_manifest_bytes_def)

lemma sample_document_admitted: "admit_server_stack (print_manifest sample_manifest) None ''conf/stack.json'' = Some (Inr ())"
proof -
  have parse: "manifest_parse (print_manifest sample_manifest) = Some (Inr sample_manifest)"
    using manifest_round_trip_witness by simp
  have "safe_stack_path ''conf/stack.json''"
    by (simp add: safe_stack_path_def ends_with_def starts_with_def)
  moreover have "bind_result (manifest_checked sample_manifest) (\<lambda>m.
      bind_result (manifest_select m None) (\<lambda>t. admit_stack t ''conf/stack.json'')) = Inr ()"
    by (simp add: manifest_checked_def manifest_select_def admit_stack_def ok_or_def
        sample_manifest_def valid_target_name_def ascii_defs)
  ultimately show ?thesis
    using sample_source by (simp add: admit_server_stack_def parse)
qed

lemma sample_found:
  "fst (discover sample_fs manifest_file_name sample_origin) =
     Inr \<lparr>dc_path = ''/r/.ores-mw.toml'', dc_source = print_manifest sample_manifest, dc_at_repo_root = True\<rparr>"
proof -
  have "trim ''/r/a'' = ''/r/a''" by (rule trim_all_visible) (simp add: visible_def)
  then have start: "resolve_start sample_origin = Inr (StartDirectory ''/r/a'')"
    by (simp add: sample_origin_def origin_from_env_def resolve_start_def cleaned_def normalise_dir_def)
  have dirs: "\<exists>rest. search_dirs sample_fs ''/r/a'' = ''/r/a'' # ''/r'' # rest"
  proof -
    have "path_parent ''/r/a'' = Some ''/r''"
      by (simp add: path_parent_def component_indices_def starts_with_def)
    moreover have n: "max_ancestors = Suc (Suc 62)" by (simp add: max_ancestors_def)
    ultimately show ?thesis
      unfolding search_dirs_def n ancestors_take.simps by (simp add: search_start_def sample_fs_def)
  qed
  have "read_checked sample_fs ''/r/.ores-mw.toml'' = Inr (print_manifest sample_manifest)"
    using sample_source by (simp add: read_checked_def sample_fs_def ok_or_def max_config_bytes_def)
  with start dirs show ?thesis
    by (auto simp: discover_def walk_up_loop Let_def sample_fs_def is_repo_root_def path_join_def
        manifest_file_name_def starts_with_def)
qed

lemma evidence_binds_document_witness:
  "\<exists>e. admit_server_stack_with_evidence_from (\<lambda>_. replicate 32 CHR 0xAB) sample_fs sample_origin None ''conf/stack.json'' =
      Some (Inr e) \<and> ae_path e = ''/r/.ores-mw.toml'' \<and>
    admit_server_stack_from sample_fs sample_origin None ''conf/stack.json'' = Some (Inr ''/r/.ores-mw.toml'')"
proof -
  have "admitted_document sample_fs sample_origin None ''conf/stack.json'' =
      Some (Inr \<lparr>dc_path = ''/r/.ores-mw.toml'', dc_source = print_manifest sample_manifest, dc_at_repo_root = True\<rparr>)"
    by (simp add: admitted_document_def sample_found sample_document_admitted)
  then obtain e where e: "admit_server_stack_with_evidence_from (\<lambda>_. replicate 32 CHR 0xAB) sample_fs sample_origin None
      ''conf/stack.json'' = Some (Inr e)" "ae_path e = ''/r/.ores-mw.toml''"
    by (simp add: admit_server_stack_with_evidence_from_def)
  from evidence_binds_document [OF _ e(1)] e show ?thesis by auto
qed

end
