(* ===== verification/Lambda.thy ===== *)
theory Lambda
  imports Operation Config_Discovery Bootstrap
begin

text \<open>
  The boundary of callbacks that are not HTTP requests, \<^verbatim>\<open>src/src/rust/src/lambda.rs\<close>, with the
  capabilities of \<^verbatim>\<open>src/src/rust/src/lambda_capabilities.rs\<close>: its admission, the limits it reads
  from the environment, and its runs through the operation boundary.

  The wall clock \<open>now\<close> and the identifier \<open>uuid\<close> that is generated for an absent trace are
  arguments, as is whether a file can be opened.
\<close>

section \<open>Data\<close>

definition max_token_bytes :: nat where "max_token_bytes = 128"

datatype lambda_trigger = QueueTrigger | ScheduleTrigger | DirectTrigger

definition trigger_as_str :: "lambda_trigger \<Rightarrow> string" where
  "trigger_as_str t =
     (case t of QueueTrigger \<Rightarrow> ''queue'' | ScheduleTrigger \<Rightarrow> ''schedule'' | DirectTrigger \<Rightarrow> ''direct'')"

record lambda_metadata =
  li_invocation_id :: string
  li_trace_id :: "string option"
  li_function_name :: string
  li_trigger :: lambda_trigger
  li_payload_bytes :: u64
  li_deadline_unix_ms :: "u64 option"

datatype lambda_error =
    LambdaManifest manifest_load_error
  | LambdaBootstrap bootstrap_error
  | LambdaInvalidMetadata string
  | LambdaStackConfig string
  | LambdaPayloadTooLarge u64 u64

definition lambda_error_code :: "lambda_error \<Rightarrow> string" where
  "lambda_error_code e =
     (case e of
        LambdaManifest m \<Rightarrow> load_error_code m
      | LambdaBootstrap b \<Rightarrow> be_code b
      | LambdaInvalidMetadata _ \<Rightarrow> ''invalid_lambda_invocation_metadata''
      | LambdaStackConfig _ \<Rightarrow> ''lambda_stack_config_invalid''
      | LambdaPayloadTooLarge _ _ \<Rightarrow> ''lambda_payload_too_large'')"

definition lambda_error_display :: "lambda_error \<Rightarrow> string" where
  "lambda_error_display e =
     (case e of
        LambdaManifest m \<Rightarrow> ''lambda middleware manifest admission failed: '' @ load_error_display m
      | LambdaBootstrap b \<Rightarrow> ''lambda middleware bootstrap failed: '' @ bootstrap_error_display b
      | LambdaInvalidMetadata field \<Rightarrow> ''invalid trusted Lambda metadata field: '' @ field
      | LambdaStackConfig path \<Rightarrow>
          ''Lambda middleware stack config is not a readable regular file: '' @ path
      | LambdaPayloadTooLarge payload_bytes limit \<Rightarrow>
          ''Lambda payload exceeds configured middleware limit ('' @ show_word payload_bytes @ '' > '' @
          show_word limit @ '')'')"

record lambda_policy =
  lp_timeout_ms :: u64
  lp_max_payload_bytes :: u64

record lambda_boundary =
  lb_policy :: lambda_policy
  lb_manifest_path :: string
  lb_target_name :: "string option"
  lb_stack_config :: string

record admitted_invocation =
  ai_context :: request_context
  ai_descriptor :: operation_descriptor
  ai_timeout :: duration

definition lambda_invocation_capabilities :: "string list" where
  "lambda_invocation_capabilities =
     [''request-context'', ''panic-recovery'', ''request-id'', ''trace-context'', ''structured-logging'',
      ''deadline-timeout'', ''payload-limit'']"

section \<open>Limits from the environment\<close>

definition validate_environment :: "(string \<Rightarrow> string) \<Rightarrow> string \<Rightarrow> (bootstrap_error, unit) result" where
  "validate_environment dbg v =
     (let n = to_ascii_lowercase (trim v) in
      if n \<in> {''development'', ''dev'', ''local'', ''test'', ''testing'', ''staging'', ''stage'',
              ''production'', ''prod''} then Inr ()
      else Inl \<lparr>be_variable = Some ''ORES_MIDDLEWARE_ENV'', be_code = ''invalid_value'',
                be_message = ''unsupported runtime environment '' @ dbg n\<rparr>)"

text \<open>\<open>parse_positive\<close> at \<open>u64\<close>, the width it is used with.\<close>

definition parse_positive ::
    "(string \<Rightarrow> string) \<Rightarrow> string option \<Rightarrow> string \<Rightarrow> u64 \<Rightarrow> (bootstrap_error, u64) result" where
  "parse_positive dbg v variable dflt =
     (case v of
        None \<Rightarrow> Inr dflt
      | Some v \<Rightarrow>
          bind_result
            (ok_or \<lparr>be_variable = Some variable, be_code = ''invalid_number'',
                    be_message = ''expected a positive numeric value, got '' @ dbg v\<rparr>
              (map_option of_nat (parse_unsigned (2 ^ 64) (trim v))))
            (\<lambda>parsed.
              if parsed = 0 then
                Inl \<lparr>be_variable = Some variable, be_code = ''invalid_number'',
                     be_message = ''value must be positive''\<rparr>
              else Inr parsed))"

definition lambda_first_value :: "(string \<Rightarrow> string option) \<Rightarrow> string list \<Rightarrow> string option" where
  "lambda_first_value lookup names =
     (case List.map_filter lookup names of [] \<Rightarrow> None | v # _ \<Rightarrow> Some v)"

definition invocation_policy_from_lookup ::
    "(string \<Rightarrow> string) \<Rightarrow> string \<Rightarrow> (string \<Rightarrow> string option) \<Rightarrow> (bootstrap_error, lambda_policy) result" where
  "invocation_policy_from_lookup dbg service_name lookup =
     (let defaults = default_config service_name in
      bind_result
        (case lambda_first_value lookup [''ORES_MIDDLEWARE_ENV'', ''APP_ENV'', ''RUST_ENV''] of
           None \<Rightarrow> Inr ()
         | Some v \<Rightarrow> validate_environment dbg v) (\<lambda>_.
      bind_result
        (parse_positive dbg (lookup ''ORES_MIDDLEWARE_TIMEOUT_MS'') ''ORES_MIDDLEWARE_TIMEOUT_MS''
          (ms_timeout_ms (mc_settings defaults))) (\<lambda>timeout_ms.
      bind_result
        (parse_positive dbg (lookup ''ORES_MIDDLEWARE_MAX_BODY_BYTES'') ''ORES_MIDDLEWARE_MAX_BODY_BYTES''
          (of_nat (ms_max_body_bytes (mc_settings defaults)))) (\<lambda>max_payload_bytes.
      Inr \<lparr>lp_timeout_ms = timeout_ms, lp_max_payload_bytes = max_payload_bytes\<rparr>))))"

definition admit_stack_config_file ::
    "file_system \<Rightarrow> (string \<Rightarrow> bool) \<Rightarrow> string \<Rightarrow> (lambda_error, string) result" where
  "admit_stack_config_file fs can_open path =
     (case fs_symlink_metadata fs path of
        None \<Rightarrow> Inl (LambdaStackConfig path)
      | Some m \<Rightarrow>
          if fm_is_symlink m \<or> \<not> fm_is_file m then Inl (LambdaStackConfig path)
          else if \<not> can_open path then Inl (LambdaStackConfig path)
          else Inr path)"

text \<open>\<^const>\<open>None\<close> is a panic of the manifest parser.\<close>

definition lambda_from_env ::
    "(string \<Rightarrow> string) \<Rightarrow> file_system \<Rightarrow> (string \<Rightarrow> bool) \<Rightarrow> (string \<Rightarrow> string option) \<Rightarrow> string option \<Rightarrow>
     string \<Rightarrow> string option \<Rightarrow> string \<Rightarrow> (lambda_error, lambda_boundary) result option" where
  "lambda_from_env dbg fs can_open env current_dir service_name target_name expected_stack_config =
     map_option (\<lambda>admitted.
       case admitted of
         Inl e \<Rightarrow> Inl (LambdaManifest e)
       | Inr manifest_path \<Rightarrow>
           bind_result (admit_stack_config_file fs can_open expected_stack_config) (\<lambda>stack_config.
             case invocation_policy_from_lookup dbg service_name env of
               Inl e \<Rightarrow> Inl (LambdaBootstrap e)
             | Inr policy \<Rightarrow>
                 Inr \<lparr>lb_policy = policy, lb_manifest_path = manifest_path, lb_target_name = target_name,
                      lb_stack_config = stack_config\<rparr>))
       (admit_server_stack_from_env fs env current_dir target_name expected_stack_config)"

section \<open>Admission\<close>

definition lambda_valid_token :: "string \<Rightarrow> bool" where
  "lambda_valid_token v \<longleftrightarrow>
     v \<noteq> [] \<and> length v \<le> max_token_bytes \<and>
     list_all (\<lambda>b. is_ascii_alphanumeric b \<or> b \<in> set ''-_.:'') v"

definition lambda_valid_trace_id :: "string \<Rightarrow> bool" where
  "lambda_valid_trace_id v \<longleftrightarrow>
     length v = 32 \<and> v \<noteq> ''00000000000000000000000000000000'' \<and> list_all is_ascii_hexdigit v"

definition lambda_admit ::
    "lambda_boundary \<Rightarrow> string \<Rightarrow> u64 \<Rightarrow> lambda_metadata \<Rightarrow> (lambda_error, admitted_invocation) result" where
  "lambda_admit b uuid now m =
     (if \<not> lambda_valid_token (li_invocation_id m) then Inl (LambdaInvalidMetadata ''invocation_id'')
      else if \<not> lambda_valid_token (li_function_name m) then Inl (LambdaInvalidMetadata ''function_name'')
      else if li_payload_bytes m > lp_max_payload_bytes (lb_policy b) then
        Inl (LambdaPayloadTooLarge (li_payload_bytes m) (lp_max_payload_bytes (lb_policy b)))
      else
        bind_result
          (case li_trace_id m of
             Some trace_id \<Rightarrow>
               if lambda_valid_trace_id trace_id then Inr (to_ascii_lowercase trace_id)
               else Inl (LambdaInvalidMetadata ''trace_id'')
           | None \<Rightarrow> Inr uuid)
          (\<lambda>trace_id.
            let configured_deadline = saturating_add now (lp_timeout_ms (lb_policy b));
                deadline_unix_ms = (case li_deadline_unix_ms m of
                  None \<Rightarrow> configured_deadline | Some provider \<Rightarrow> min provider configured_deadline)
            in Inr
              \<lparr>ai_context =
                 \<lparr>rc_request_id = li_invocation_id m, rc_trace_id = trace_id, rc_span_id = None,
                  rc_tenant_id = None, rc_user_id = None, rc_locale = None, rc_started_at_unix_ms = now,
                  rc_deadline_unix_ms = Some deadline_unix_ms,
                  rc_baggage = bt_collect
                    [(''otel.lambda.trigger'', trigger_as_str (li_trigger m)),
                     (''otel.lambda.function'', li_function_name m)]\<rparr>,
               ai_descriptor =
                 \<lparr>od_transport = LambdaTransport, od_scope = CallbackScope,
                  od_name = ''lambda.'' @ li_function_name m\<rparr>,
               ai_timeout = unat (saturating_sub deadline_unix_ms now) * 1000000\<rparr>))"

definition lambda_run ::
    "('f, 'c, 'w, 'e, 't) op_env \<Rightarrow> lambda_boundary \<Rightarrow> string \<Rightarrow> u64 \<Rightarrow> lambda_metadata \<Rightarrow>
     ('w \<Rightarrow> 'w) list \<Rightarrow> 'f \<Rightarrow> 'w \<Rightarrow> (lambda_error, 't operation_outcome run \<times> 'w) result" where
  "lambda_run env b uuid now m wakes f w =
     bind_result (lambda_admit b uuid now m) (\<lambda>a.
       Inr (run_with_timeout env (ai_context a) (ai_descriptor a) (ai_timeout a) wakes f w))"

definition lambda_run_with_cancellation ::
    "('f, 'c, 'w, 'e, 't) op_env \<Rightarrow> lambda_boundary \<Rightarrow> string \<Rightarrow> u64 \<Rightarrow> lambda_metadata \<Rightarrow>
     ('w \<Rightarrow> 'w) list \<Rightarrow> 'c \<Rightarrow> 'f \<Rightarrow> 'w \<Rightarrow> (lambda_error, 't operation_outcome run \<times> 'w) result" where
  "lambda_run_with_cancellation env b uuid now m wakes cancellation f w =
     bind_result (lambda_admit b uuid now m) (\<lambda>a.
       Inr (run_with_timeout_and_cancellation env (ai_context a) (ai_descriptor a) (ai_timeout a) wakes
         cancellation f w))"

section \<open>What is admitted\<close>

lemma lambda_operation_name:
  assumes "lambda_valid_token v"
  shows "od_name (normalize_descriptor \<lparr>od_transport = t, od_scope = s, od_name = ''lambda.'' @ v\<rparr>) =
    (if length v \<le> 121 then ''lambda.'' @ v else ''operation'')"
proof -
  have "operation_safe_token (''lambda.'' @ v) 128 \<longleftrightarrow> length v \<le> 121"
    using assms by (auto simp: operation_safe_token_def lambda_valid_token_def list_all_iff ascii_defs)
  then show ?thesis by (simp add: normalize_descriptor_def)
qed

lemma unat_min: "unat (min a b) = min (unat a) (unat b)"
  by (simp add: min_def word_le_nat_alt)

text \<open>
  C34. An invocation is admitted exactly when its identifier and function name are bounded tokens, its payload
  is within the limit and a trace it brings is valid. It runs as itself: without a user or a tenant,
  whatever the payload says, under the earlier of its own and the configured deadline and for no longer
  than the configured time; an expired one gets no time. Its operation carries the name of the
  function up to 121 bytes of it, and the anonymous name for the admitted names that are longer.
\<close>

theorem lambda_admission_exact:
  "(case lambda_admit b uuid now m of
      Inl e \<Rightarrow> lambda_error_code e \<in> {''invalid_lambda_invocation_metadata'', ''lambda_payload_too_large''} \<and>
        \<not> (lambda_valid_token (li_invocation_id m) \<and> lambda_valid_token (li_function_name m) \<and>
           li_payload_bytes m \<le> lp_max_payload_bytes (lb_policy b) \<and>
           pred_option lambda_valid_trace_id (li_trace_id m))
    | Inr a \<Rightarrow>
        lambda_valid_token (li_invocation_id m) \<and> lambda_valid_token (li_function_name m) \<and>
        li_payload_bytes m \<le> lp_max_payload_bytes (lb_policy b) \<and>
        pred_option lambda_valid_trace_id (li_trace_id m) \<and>
        rc_request_id (ai_context a) = li_invocation_id m \<and> rc_user_id (ai_context a) = None \<and>
        rc_tenant_id (ai_context a) = None \<and>
        rc_trace_id (ai_context a) = case_option uuid to_ascii_lowercase (li_trace_id m) \<and>
        (\<exists>d. rc_deadline_unix_ms (ai_context a) = Some d \<and>
           unat d = min (case_option (2 ^ 64 - 1) unat (li_deadline_unix_ms m))
             (min (unat now + unat (lp_timeout_ms (lb_policy b))) (2 ^ 64 - 1)) \<and>
           ai_timeout a = (unat d - unat now) * 1000000) \<and>
        ai_timeout a \<le> unat (lp_timeout_ms (lb_policy b)) * 1000000 \<and>
        od_name (normalize_descriptor (ai_descriptor a)) =
          (if length (li_function_name m) \<le> 121 then ''lambda.'' @ li_function_name m else ''operation''))"
proof (cases "lambda_admit b uuid now m")
  case (Inl e)
  then show ?thesis
    by (auto simp: lambda_admit_def lambda_error_code_def bind_result_def Let_def split: if_splits option.splits)
next
  case (Inr a)
  let ?t = "lp_timeout_ms (lb_policy b)"
  let ?c = "saturating_add now ?t"
  let ?d = "case li_deadline_unix_ms m of None \<Rightarrow> ?c | Some provider \<Rightarrow> min provider ?c"
  from Inr have ok: "lambda_valid_token (li_invocation_id m)" "lambda_valid_token (li_function_name m)"
      "li_payload_bytes m \<le> lp_max_payload_bytes (lb_policy b)" "pred_option lambda_valid_trace_id (li_trace_id m)"
    and a: "rc_request_id (ai_context a) = li_invocation_id m" "rc_user_id (ai_context a) = None"
      "rc_tenant_id (ai_context a) = None" "rc_trace_id (ai_context a) = case_option uuid to_ascii_lowercase (li_trace_id m)"
      "rc_deadline_unix_ms (ai_context a) = Some ?d" "ai_timeout a = unat (saturating_sub ?d now) * 1000000"
      "ai_descriptor a = \<lparr>od_transport = LambdaTransport, od_scope = CallbackScope, od_name = ''lambda.'' @ li_function_name m\<rparr>"
    by (auto simp: lambda_admit_def bind_result_def Let_def split: if_splits option.splits)
  have d: "unat ?d = min (case_option (2 ^ 64 - 1) unat (li_deadline_unix_ms m)) (min (unat now + unat ?t) (2 ^ 64 - 1))"
    by (auto simp: unat_saturating_add unat_min split: option.split)
  from a(6) have "ai_timeout a = (unat ?d - unat now) * 1000000" by (simp add: unat_saturating_sub)
  moreover from d have "unat ?d - unat now \<le> unat ?t" by linarith
  ultimately show ?thesis
    using ok a(1-5) d lambda_operation_name [OF ok(2)] by (simp add: Inr a(7))
qed

section \<open>Limits agree with the server's\<close>

definition request_limits :: "middleware_config \<Rightarrow> u64 \<times> nat" where
  "request_limits c = (ms_timeout_ms (mc_settings c), ms_max_body_bytes (mc_settings c))"

lemma environment_step_limits: "environment_step dbg lookup c = Inr c' \<Longrightarrow> request_limits c' = request_limits c"
  by (auto simp: environment_step_def bind_result_Inr Let_def request_limits_def on_defs)

lemma tls_step_limits: "tls_step dbg lookup c = Inr c' \<Longrightarrow> request_limits c' = request_limits c"
  by (auto simp: tls_step_def Let_def request_limits_def on_defs split: option.splits if_splits)

lemma later_overrides_limits: "keeps request_limits (run_steps (drop 2 (override_steps dbg rnd lookup)))"
  by (rule keeps_run_steps)
    (simp add: override_steps_def, intro conjI keeps_override; simp add: request_limits_def on_defs)

definition numeric_override :: "string option \<Rightarrow> nat \<Rightarrow> nat option" where
  "numeric_override v dflt = (case v of None \<Rightarrow> Some dflt | Some v \<Rightarrow> parse_unsigned (2 ^ 64) (trim v))"

lemma run_steps_two:
  "run_steps (s1 # s2 # rest) c = Inr c' \<longleftrightarrow>
    (\<exists>c1 c2. s1 c = Inr c1 \<and> s2 c1 = Inr c2 \<and> run_steps rest c2 = Inr c')"
  by (auto simp: bind_result_Inr)

lemma first_overrides_limits:
  assumes "run_steps (override_steps dbg rnd lookup) c = Inr c'"
  shows "\<exists>t n. numeric_override (lookup ''ORES_MIDDLEWARE_TIMEOUT_MS'') (unat (ms_timeout_ms (mc_settings c))) = Some t \<and>
    numeric_override (lookup ''ORES_MIDDLEWARE_MAX_BODY_BYTES'') (ms_max_body_bytes (mc_settings c)) = Some n \<and>
    request_limits c' = (of_nat t, n)"
proof -
  let ?s1 = "override lookup ''ORES_MIDDLEWARE_TIMEOUT_MS'' (parse_number dbg (2 ^ 64))
        (\<lambda>n. on_settings (\<lambda>s. s\<lparr>ms_timeout_ms := of_nat n\<rparr>))"
  let ?s2 = "override lookup ''ORES_MIDDLEWARE_MAX_BODY_BYTES'' (parse_number dbg (2 ^ 64))
        (\<lambda>n. on_settings (\<lambda>s. s\<lparr>ms_max_body_bytes := n\<rparr>))"
  have "override_steps dbg rnd lookup = ?s1 # ?s2 # drop 2 (override_steps dbg rnd lookup)"
    unfolding override_steps_def by simp
  from assms [unfolded arg_cong [where f = run_steps, OF this] run_steps_two] obtain c1 c2 where steps: "?s1 c = Inr c1" "?s2 c1 = Inr c2"
    and rest: "run_steps (drop 2 (override_steps dbg rnd lookup)) c2 = Inr c'"
    by blast
  from rest later_overrides_limits have "request_limits c' = request_limits c2" unfolding keeps_def by blast
  with steps show ?thesis
    by (auto simp: override_def bind_result_Inr numeric_override_def parse_number_def ok_or_def request_limits_def
        on_settings_def split: option.splits)
qed

lemma parse_positive_override:
  assumes "numeric_override v (unat dflt) = Some n" "of_nat n \<noteq> (0 :: u64)"
  shows "parse_positive dbg v variable dflt = Inr (of_nat n)"
  using assms by (auto simp: parse_positive_def numeric_override_def ok_or_def split: option.splits)

lemma parse_environment_valid: "parse_environment dbg v = Inr e \<Longrightarrow> validate_environment dbg v = Inr ()"
  by (auto simp: parse_environment_def validate_environment_def normalized_owned_def Let_def split: if_splits)

lemma numeric_override_bound: "numeric_override v d = Some n \<Longrightarrow> d < 2 ^ 64 \<Longrightarrow> n < 2 ^ 64"
  by (auto simp: numeric_override_def parse_unsigned_def Let_def opt_filter_def split: option.splits if_splits)

text \<open>
  C35. The boundary takes the limits of the server: whenever the environment gives the server a configuration,
  it gives the boundary the time and the payload bound of this configuration, and both are positive.
\<close>

theorem lambda_limits_agree:
  assumes "config_from_lookup dbg rnd service_name lookup = Inr c"
  shows "\<exists>policy. invocation_policy_from_lookup dbg service_name lookup = Inr policy \<and>
    lp_timeout_ms policy = ms_timeout_ms (mc_settings c) \<and>
    unat (lp_max_payload_bytes policy) = ms_max_body_bytes (mc_settings c) \<and>
    0 < lp_timeout_ms policy \<and> 0 < lp_max_payload_bytes policy"
proof -
  let ?d = "default_config service_name"
  from assms obtain c1 c2 where env: "environment_step dbg lookup ?d = Inr c1" and tls: "tls_step dbg lookup c1 = Inr c2"
    and steps: "run_steps (override_steps dbg rnd lookup) c2 = Inr c" and valid: "config_ok c"
    by (auto simp: config_from_lookup_def bind_result_Inr Let_def validate_config_Nil split: if_splits)
  have d: "request_limits c2 = request_limits ?d"
    using environment_step_limits [OF env] tls_step_limits [OF tls] by simp
  from first_overrides_limits [OF steps] d obtain t n where
    t: "numeric_override (lookup ''ORES_MIDDLEWARE_TIMEOUT_MS'') (unat (ms_timeout_ms (mc_settings ?d))) = Some t"
    and n: "numeric_override (lookup ''ORES_MIDDLEWARE_MAX_BODY_BYTES'') (ms_max_body_bytes (mc_settings ?d)) = Some n"
    and c: "ms_timeout_ms (mc_settings c) = of_nat t" "ms_max_body_bytes (mc_settings c) = n"
    by (auto simp: request_limits_def)
  have dflt: "ms_max_body_bytes (mc_settings ?d) < 2 ^ 64"
    "unat (of_nat (ms_max_body_bytes (mc_settings ?d)) :: u64) = ms_max_body_bytes (mc_settings ?d)"
    by (simp_all add: default_config_def)
  from numeric_override_bound [OF n dflt(1)] have n64: "unat (of_nat n :: u64) = n"
    by (simp add: unat_of_nat take_bit_nat_eq_self)
  from valid c have pos: "of_nat t \<noteq> (0 :: u64)" "n \<noteq> 0" by (auto simp: config_ok_def)
  then have nz: "of_nat n \<noteq> (0 :: u64)" using n64 by (metis unat_0)
  have parsed: "parse_positive dbg (lookup ''ORES_MIDDLEWARE_TIMEOUT_MS'') ''ORES_MIDDLEWARE_TIMEOUT_MS''
      (ms_timeout_ms (mc_settings ?d)) = Inr (of_nat t)"
    "parse_positive dbg (lookup ''ORES_MIDDLEWARE_MAX_BODY_BYTES'') ''ORES_MIDDLEWARE_MAX_BODY_BYTES''
      (of_nat (ms_max_body_bytes (mc_settings ?d))) = Inr (of_nat n)"
    by (rule parse_positive_override [OF t pos(1)], rule parse_positive_override [OF _ nz], simp only: dflt(2) n)
  have "(case lambda_first_value lookup [''ORES_MIDDLEWARE_ENV'', ''APP_ENV'', ''RUST_ENV''] of
      None \<Rightarrow> Inr () | Some v \<Rightarrow> validate_environment dbg v) = Inr ()"
    using env by (auto simp: environment_step_def bind_result_Inr first_value_def lambda_first_value_def
        split: list.splits dest: parse_environment_valid)
  with parsed have "invocation_policy_from_lookup dbg service_name lookup =
      Inr \<lparr>lp_timeout_ms = of_nat t, lp_max_payload_bytes = of_nat n\<rparr>"
    by (simp add: invocation_policy_from_lookup_def)
  with c n64 pos nz show ?thesis by (simp add: word_gt_0)
qed

text \<open>
  C0. An invocation that has expired before it is admitted is answered by one report of its deadline: the
  callback is dropped without ever being polled, whatever it is and however often the boundary is woken.
\<close>

theorem lambda_expired_not_run:
  assumes "lambda_admit b uuid now m = Inr a" "li_deadline_unix_ms m = Some d" "d \<le> now"
  shows "lambda_run env b uuid now m wakes f w =
    Inr (let descriptor = normalize_descriptor (ai_descriptor a);
             failure = failure_of (ai_context a) descriptor DeadlineFailure ''DeadlineExceeded''
         in (Done (Failed failure), oe_emit env (scope_of (ai_context a) descriptor) failure (oe_drop env f w)))"
proof -
  from assms have "ai_timeout a = 0"
    by (auto simp: lambda_admit_def bind_result_def Let_def saturating_sub_def min_def split: if_splits option.splits)
  with assms(1) show ?thesis
    by (simp add: lambda_run_def run_with_timeout_def run_controlled_def expiry_of_def select_loop.simps poll_expiry_def
        never_cancelled_def report_failure_def Let_def)
qed

section \<open>Examples\<close>

definition sample_boundary :: lambda_boundary where
  "sample_boundary =
     \<lparr>lb_policy = \<lparr>lp_timeout_ms = 5000, lp_max_payload_bytes = 1024\<rparr>, lb_manifest_path = ''.ores-mw.toml'',
      lb_target_name = None, lb_stack_config = ''conf/stack.json''\<rparr>"

definition sample_invocation :: lambda_metadata where
  "sample_invocation =
     \<lparr>li_invocation_id = ''i-1'', li_trace_id = None, li_function_name = ''mail'', li_trigger = QueueTrigger,
      li_payload_bytes = 10, li_deadline_unix_ms = Some 100\<rparr>"

lemma sample_invocation_admitted: "\<exists>a. lambda_admit sample_boundary ''u'' 200 sample_invocation = Inr a"
  by (simp add: lambda_admit_def sample_boundary_def sample_invocation_def lambda_valid_token_def max_token_bytes_def
      ascii_defs Let_def)

lemma lambda_admission_exact_witness:
  "\<exists>a. lambda_admit sample_boundary ''u'' 200 sample_invocation = Inr a \<and> ai_timeout a = 0 \<and>
    rc_trace_id (ai_context a) = ''u''"
proof -
  obtain a where a: "lambda_admit sample_boundary ''u'' 200 sample_invocation = Inr a"
    using sample_invocation_admitted by blast
  from lambda_admission_exact [where b = sample_boundary and uuid = "''u''" and now = 200 and m = sample_invocation]
  show ?thesis
    by (auto simp: a) (simp_all add: sample_invocation_def sample_boundary_def)
qed

lemma lambda_limits_agree_witness:
  "\<exists>policy. invocation_policy_from_lookup id ''svc'' sample_lookup = Inr policy \<and>
     lp_timeout_ms policy = ms_timeout_ms (mc_settings sample_production_config)"
  using lambda_limits_agree [OF sample_lookup_config] by blast

lemma lambda_expired_not_run_witness:
  "\<exists>x scope. lambda_run sample_op_env sample_boundary ''u'' 200 sample_invocation [sleep_to 20] 5 (0, []) =
     Inr (Done (Failed x), (0, [Dropped, Reported scope x])) \<and> of_kind x = DeadlineFailure"
proof -
  obtain a where a: "lambda_admit sample_boundary ''u'' 200 sample_invocation = Inr a"
    using sample_invocation_admitted by blast
  have "li_deadline_unix_ms sample_invocation = Some 100" "(100 :: u64) \<le> 200"
    by (simp_all add: sample_invocation_def)
  from lambda_expired_not_run [OF a this, where env = sample_op_env and wakes = "[sleep_to 20]" and f = 5 and w = "(0, [])"]
  show ?thesis by (simp add: sample_op_env_def Let_def failure_of_def)
qed

end
