(* ===== verification/Archive_Audit.thy ===== *)
theory Archive_Audit
  imports Config_Discovery
begin

text \<open>
  The acceptance audit of release archives, \<^verbatim>\<open>src/tools/zed-archive-audit\<close>: what a pair of archives must
  hold for a receipt, and the exit code of the tool.

  Decompression and the archive format belong to other packages: \<open>decode\<close> gives the entries of the bytes of
  an archive, \<open>sha256\<close> is the hash function. Paths are those of Unix.
\<close>

section \<open>Constants and data\<close>

definition max_archive_bytes :: u64 where "max_archive_bytes = 268435456"
definition max_unpacked_bytes :: u64 where "max_unpacked_bytes = 536870912"
definition max_archive_entries :: nat where "max_archive_entries = 20000"
definition max_archive_path_bytes :: nat where "max_archive_path_bytes = 1024"

definition required_suffixes :: "string list" where
  "required_suffixes =
     [''.zpkg.toml'', ''contracts/authority-topology.json'', ''src/rust/Cargo.toml'', ''src/ts/package.json'',
      ''src/golang/go.mod'', ''src/gleam/gleam.toml'', ''src/elixir/mix.exs'', ''src/erlang/rebar.config'']"

definition forbidden_components :: "string list" where
  "forbidden_components =
     [''.git'', ''target'', ''node_modules'', ''dist'', ''build'', ''_build'', ''deps'', ''tmp'']"

datatype audit_error_code =
    AuditIo | ArchiveTooLarge | InvalidGzipOrTar | TooManyEntries | UnpackedArchiveTooLarge | InvalidPath
  | DuplicatePath | ForbiddenPath | UnsupportedEntryType | MissingRequiredEntry | DuplicateRequiredEntry
  | NonReproducibleArchive | InvalidSourceCommit | InvalidZedVersion

record audit_error =
  au_code :: audit_error_code
  au_detail :: string

definition audit_failure :: "audit_error_code \<Rightarrow> string \<Rightarrow> audit_error" where
  "audit_failure code detail = \<lparr>au_code = code, au_detail = detail\<rparr>"

definition audit_error_display :: "audit_error \<Rightarrow> string" where
  "audit_error_display e = au_detail e"

record file_record =
  fr_path :: string
  fr_bytes :: u64
  fr_sha256 :: string

record archive_summary =
  sm_archive_sha256 :: string
  sm_archive_bytes :: u64
  sm_entry_count :: nat
  sm_file_count :: nat
  sm_unpacked_bytes :: u64
  sm_tree_sha256 :: string
  sm_required_entries :: "(string, string) btree_map"
  sm_files :: "file_record list"

record acceptance_receipt =
  rec_schema :: string
  rec_status :: string
  rec_source_commit :: string
  rec_zed_version :: string
  rec_byte_reproducible :: bool
  rec_archive :: archive_summary

definition sha256_hex :: "(bytes \<Rightarrow> bytes) \<Rightarrow> bytes \<Rightarrow> string" where
  "sha256_hex sha256 bs = hex_bytes (sha256 bs)"

definition valid_lower_hex :: "string \<Rightarrow> nat \<Rightarrow> bool" where
  "valid_lower_hex v n \<longleftrightarrow>
     length v = n \<and> list_all (\<lambda>b. is_ascii_digit b \<or> 97 \<le> code_of b \<and> code_of b \<le> 102) v"

section \<open>Paths\<close>

text \<open>\<open>Path::to_str\<close> succeeds on well-formed UTF-8.\<close>

definition byte_in :: "nat \<Rightarrow> nat \<Rightarrow> char \<Rightarrow> bool" where
  "byte_in low high b \<longleftrightarrow> low \<le> code_of b \<and> code_of b \<le> high"

fun valid_utf8 :: "bytes \<Rightarrow> bool" where
  "valid_utf8 [] = True"
| "valid_utf8 (a # s) =
     (if code_of a < 128 then valid_utf8 s
      else if byte_in 194 223 a then
        (case s of b # s \<Rightarrow> byte_in 128 191 b \<and> valid_utf8 s | _ \<Rightarrow> False)
      else if byte_in 224 239 a then
        (case s of
           b # c # s \<Rightarrow>
             byte_in (if code_of a = 224 then 160 else 128) (if code_of a = 237 then 159 else 191) b \<and>
             byte_in 128 191 c \<and> valid_utf8 s
         | _ \<Rightarrow> False)
      else if byte_in 240 244 a then
        (case s of
           b # c # d # s \<Rightarrow>
             byte_in (if code_of a = 240 then 144 else 128) (if code_of a = 244 then 143 else 191) b \<and>
             byte_in 128 191 c \<and> byte_in 128 191 d \<and> valid_utf8 s
         | _ \<Rightarrow> False)
      else False)"

text \<open>\<open>Path::components\<close>: empty components and all but a leading \<open>.\<close> are dropped.\<close>

datatype path_component = RootDir | CurDir | ParentDir | NormalComponent string

definition path_components :: "string \<Rightarrow> path_component list" where
  "path_components p =
     (let parts = split_on (CHR ''/'') p in
      (if starts_with ''/'' p then [RootDir] else if hd parts = ''.'' then [CurDir] else []) @
      map (\<lambda>c. if c = ''..'' then ParentDir else NormalComponent c)
        (filter (\<lambda>c. c \<noteq> [] \<and> c \<noteq> ''.'') parts))"

definition is_normal :: "path_component \<Rightarrow> bool" where
  "is_normal c = (case c of NormalComponent _ \<Rightarrow> True | _ \<Rightarrow> False)"

definition canonical_path :: "bytes \<Rightarrow> (audit_error, string) result" where
  "canonical_path path =
     (if \<not> valid_utf8 path then Inl (audit_failure InvalidPath ''archive path is not valid UTF-8'')
      else if path = [] \<or> length path > max_archive_path_bytes \<or> starts_with ''/'' path \<or> starts_with ''./'' path \<or>
          contains_str ''//'' path \<or> CHR 0x5C \<in> set path \<or> has_control path then
        Inl (audit_failure InvalidPath ''archive contains a non-canonical path'')
      else if \<not> list_all is_normal (path_components path) then
        Inl (audit_failure InvalidPath
          ''archive path contains traversal, root, prefix, or current-directory syntax'')
      else Inr path)"

definition path_is_forbidden :: "string \<Rightarrow> bool" where
  "path_is_forbidden path \<longleftrightarrow>
     list_ex (\<lambda>c. c \<in> set forbidden_components \<or> c = ''.env'' \<or> starts_with ''.env.'' c \<or> ends_with ''.log'' c)
       (split_on (CHR ''/'') path)"

section \<open>The tree digest\<close>

definition tree_material :: "file_record list \<Rightarrow> bytes" where
  "tree_material files =
     concat (map (\<lambda>r. fr_path r @ [CHR 0x00] @ show_word (fr_bytes r) @ [CHR 0x00] @ fr_sha256 r @ [CHR 0x0A]) files)"

definition tree_digest :: "(bytes \<Rightarrow> bytes) \<Rightarrow> (string, file_record) btree_map \<Rightarrow> string" where
  "tree_digest sha256 files = sha256_hex sha256 (tree_material (map snd files))"

section \<open>Inspection\<close>

datatype tar_kind = TarFile | TarDirectory | TarOther

text \<open>An entry: its path, its kind, its declared size and its content, where they can be read.\<close>

record tar_entry =
  te_path :: "bytes option"
  te_kind :: tar_kind
  te_size :: u64
  te_content :: "bytes option"

record audit_state =
  as_seen :: "string list"
  as_files :: "(string, file_record) btree_map"
  as_unpacked :: u64
  as_count :: nat

definition audit_file ::
    "(bytes \<Rightarrow> bytes) \<Rightarrow> string \<Rightarrow> tar_entry \<Rightarrow> audit_state \<Rightarrow> (audit_error, audit_state) result" where
  "audit_file sha256 path entry st =
     bind_result
       (ok_or (audit_failure UnpackedArchiveTooLarge ''archive size accounting overflowed'')
         (checked_add_u64 (as_unpacked st) (te_size entry)))
       (\<lambda>unpacked.
         if unpacked > max_unpacked_bytes then
           Inl (audit_failure UnpackedArchiveTooLarge ''archive exceeds the 512 MiB unpacked boundary'')
         else
           case te_content entry of
             None \<Rightarrow> Inl (audit_failure InvalidGzipOrTar (''unable to read archive entry: '' @ path))
           | Some content \<Rightarrow>
               if of_nat (length content) \<noteq> te_size entry then
                 Inl (audit_failure InvalidGzipOrTar (''archive entry size mismatch: '' @ path))
               else Inr (st\<lparr>as_unpacked := unpacked,
                 as_files := bt_insert path
                   \<lparr>fr_path = path, fr_bytes = te_size entry, fr_sha256 = sha256_hex sha256 content\<rparr>
                   (as_files st)\<rparr>))"

definition audit_entry ::
    "(bytes \<Rightarrow> bytes) \<Rightarrow> tar_entry option \<Rightarrow> audit_state \<Rightarrow> (audit_error, audit_state) result" where
  "audit_entry sha256 e st0 =
     (let st = st0\<lparr>as_count := as_count st0 + 1\<rparr> in
      if as_count st > max_archive_entries then
        Inl (audit_failure TooManyEntries ''archive exceeds the 20,000-entry boundary'')
      else
        case e of
          None \<Rightarrow> Inl (audit_failure InvalidGzipOrTar ''archive contains an unreadable entry'')
        | Some entry \<Rightarrow>
            (case te_path entry of
               None \<Rightarrow> Inl (audit_failure InvalidPath ''archive contains an invalid encoded path'')
             | Some raw \<Rightarrow>
                 bind_result (canonical_path raw) (\<lambda>path.
                   case bs_insert path (as_seen st) of (seen, fresh) \<Rightarrow>
                     if \<not> fresh then
                       Inl (audit_failure DuplicatePath (''archive contains duplicate path: '' @ path))
                     else if path_is_forbidden path then
                       Inl (audit_failure ForbiddenPath (''archive contains excluded path: '' @ path))
                     else
                       (case te_kind entry of
                          TarDirectory \<Rightarrow> Inr (st\<lparr>as_seen := seen\<rparr>)
                        | TarOther \<Rightarrow> Inl (audit_failure UnsupportedEntryType
                            (''archive entry is not a regular file or directory: '' @ path))
                        | TarFile \<Rightarrow> audit_file sha256 path entry (st\<lparr>as_seen := seen\<rparr>)))))"

fun audit_entries ::
    "(bytes \<Rightarrow> bytes) \<Rightarrow> tar_entry option list \<Rightarrow> audit_state \<Rightarrow> (audit_error, audit_state) result" where
  "audit_entries sha256 [] st = Inr st"
| "audit_entries sha256 (e # es) st = bind_result (audit_entry sha256 e st) (audit_entries sha256 es)"

definition suffix_matches :: "string \<Rightarrow> string \<Rightarrow> bool" where
  "suffix_matches sfx path \<longleftrightarrow> path = sfx \<or> ends_with (''/'' @ sfx) path"

fun audit_required ::
    "string list \<Rightarrow> (string, file_record) btree_map \<Rightarrow> (string, string) btree_map \<Rightarrow>
     (audit_error, (string, string) btree_map) result" where
  "audit_required [] files acc = Inr acc"
| "audit_required (sfx # sfxs) files acc =
     (case filter (suffix_matches sfx) (map fst files) of
        [] \<Rightarrow> Inl (audit_failure MissingRequiredEntry
          (''archive is missing required regular-file entry suffix: '' @ sfx))
      | [path] \<Rightarrow> audit_required sfxs files (bt_insert sfx path acc)
      | _ \<Rightarrow> Inl (audit_failure DuplicateRequiredEntry
          (''archive contains multiple regular files for required suffix: '' @ sfx)))"

text \<open>What the file system answers: whether a path is a regular file and its length, and its bytes.\<close>

record audit_fs =
  af_metadata :: "string \<Rightarrow> (bool \<times> u64) option"
  af_read :: "string \<Rightarrow> bytes option"

text \<open>The metadata and the bytes are read one after the other, from \<open>fs1\<close> and from \<open>fs2\<close>.\<close>

definition inspect_archive ::
    "(bytes \<Rightarrow> bytes) \<Rightarrow> (bytes \<Rightarrow> tar_entry option list option) \<Rightarrow> audit_fs \<Rightarrow> audit_fs \<Rightarrow> string \<Rightarrow>
     (audit_error, archive_summary) result" where
  "inspect_archive sha256 decode fs1 fs2 path =
     bind_result (ok_or (audit_failure AuditIo ''unable to read archive metadata'') (af_metadata fs1 path))
       (\<lambda>(is_file, len).
         if \<not> is_file then Inl (audit_failure AuditIo ''archive input is not a regular file'')
         else if len > max_archive_bytes then
           Inl (audit_failure ArchiveTooLarge ''archive exceeds the 256 MiB compressed boundary'')
         else
           bind_result (ok_or (audit_failure AuditIo ''unable to read archive bytes'') (af_read fs2 path)) (\<lambda>bs.
           bind_result
             (ok_or (audit_failure InvalidGzipOrTar ''archive is not a readable gzip-compressed tar stream'')
               (decode bs)) (\<lambda>entries.
           bind_result
             (audit_entries sha256 entries \<lparr>as_seen = [], as_files = [], as_unpacked = 0, as_count = 0\<rparr>) (\<lambda>st.
           bind_result (audit_required required_suffixes (as_files st) []) (\<lambda>required.
           Inr \<lparr>sm_archive_sha256 = sha256_hex sha256 bs, sm_archive_bytes = len, sm_entry_count = as_count st,
                sm_file_count = length (as_files st), sm_unpacked_bytes = as_unpacked st,
                sm_tree_sha256 = tree_digest sha256 (as_files st), sm_required_entries = required,
                sm_files = map snd (as_files st)\<rparr>)))))"

text \<open>\<open>fs n\<close> is the file system at the \<open>n\<close>-th access.\<close>

definition audit_pair ::
    "(bytes \<Rightarrow> bytes) \<Rightarrow> (bytes \<Rightarrow> tar_entry option list option) \<Rightarrow> (nat \<Rightarrow> audit_fs) \<Rightarrow>
     string \<Rightarrow> string \<Rightarrow> string \<Rightarrow> string \<Rightarrow> (audit_error, acceptance_receipt) result" where
  "audit_pair sha256 decode fs first second source_commit zed_version =
     (if \<not> valid_lower_hex source_commit 40 then
        Inl (audit_failure InvalidSourceCommit ''source commit must be a 40-character lowercase hexadecimal SHA'')
      else if trim zed_version = [] \<or> length zed_version > 128 \<or> has_control zed_version then
        Inl (audit_failure InvalidZedVersion ''Zed version is empty, oversized, or contains a control character'')
      else
        bind_result (ok_or (audit_failure AuditIo ''unable to read first archive'') (af_read (fs 0) first)) (\<lambda>b1.
        bind_result (ok_or (audit_failure AuditIo ''unable to read second archive'') (af_read (fs 1) second)) (\<lambda>b2.
        if b1 \<noteq> b2 then
          Inl (audit_failure NonReproducibleArchive
            (''Zed archives differ byte-for-byte: first='' @ sha256_hex sha256 b1 @ '' second='' @
             sha256_hex sha256 b2))
        else
          bind_result (inspect_archive sha256 decode (fs 2) (fs 3) first) (\<lambda>archive.
          bind_result (inspect_archive sha256 decode (fs 4) (fs 5) second) (\<lambda>summary.
          if archive \<noteq> summary then
            Inl (audit_failure NonReproducibleArchive ''Zed archive summaries differ after byte equality check'')
          else Inr \<lparr>rec_schema = ''ores.zed-release-acceptance/v1'', rec_status = ''passed'',
            rec_source_commit = source_commit, rec_zed_version = trim zed_version,
            rec_byte_reproducible = True, rec_archive = archive\<rparr>)))))"

section \<open>The command line\<close>

record audit_arguments =
  ag_first :: string
  ag_second :: string
  ag_source_commit :: string
  ag_zed_version :: string
  ag_receipt :: string

record partial_arguments =
  pa_first :: "string option"
  pa_second :: "string option"
  pa_source_commit :: "string option"
  pa_zed_version :: "string option"
  pa_receipt :: "string option"

definition set_argument :: "string \<Rightarrow> string \<Rightarrow> partial_arguments \<Rightarrow> partial_arguments" where
  "set_argument flag v p =
     (if flag = ''--first'' then p\<lparr>pa_first := Some v\<rparr>
      else if flag = ''--second'' then p\<lparr>pa_second := Some v\<rparr>
      else if flag = ''--source-commit'' then p\<lparr>pa_source_commit := Some v\<rparr>
      else if flag = ''--zed-version'' then p\<lparr>pa_zed_version := Some v\<rparr>
      else p\<lparr>pa_receipt := Some v\<rparr>)"

definition value_flags :: "string list" where
  "value_flags = [''--first'', ''--second'', ''--source-commit'', ''--zed-version'', ''--receipt'']"

fun parse_flags :: "string list \<Rightarrow> partial_arguments \<Rightarrow> (string, partial_arguments) result" where
  "parse_flags [] p = Inr p"
| "parse_flags (flag # rest) p =
     (if flag \<in> set value_flags then
        (case rest of [] \<Rightarrow> Inl (flag @ '' requires a value'') | v # rest \<Rightarrow> parse_flags rest (set_argument flag v p))
      else if flag = ''-h'' \<or> flag = ''--help'' then Inl []
      else Inl (''unknown argument: '' @ flag))"

definition parse_audit_args :: "string list \<Rightarrow> (string, audit_arguments) result" where
  "parse_audit_args args =
     bind_result (parse_flags args
       \<lparr>pa_first = None, pa_second = None, pa_source_commit = None, pa_zed_version = None, pa_receipt = None\<rparr>) (\<lambda>p.
     bind_result (ok_or ''--first is required'' (pa_first p)) (\<lambda>first.
     bind_result (ok_or ''--second is required'' (pa_second p)) (\<lambda>second.
     bind_result (ok_or ''--source-commit is required'' (pa_source_commit p)) (\<lambda>source_commit.
     bind_result (ok_or ''--zed-version is required'' (pa_zed_version p)) (\<lambda>zed_version.
     bind_result (ok_or ''--receipt is required'' (pa_receipt p)) (\<lambda>receipt.
     Inr \<lparr>ag_first = first, ag_second = second, ag_source_commit = source_commit, ag_zed_version = zed_version,
          ag_receipt = receipt\<rparr>))))))"

text \<open>The receipt is written to a temporary file beside its path, which a rename then replaces.\<close>

record 'w receipt_fs =
  rf_create_dir_all :: "string \<Rightarrow> 'w \<Rightarrow> bool \<times> 'w"
  rf_write :: "string \<Rightarrow> string \<Rightarrow> 'w \<Rightarrow> bool \<times> 'w"
  rf_rename :: "string \<Rightarrow> string \<Rightarrow> 'w \<Rightarrow> bool \<times> 'w"

text \<open>The JSON of a receipt and of an error, and its printing.\<close>

record 'j audit_json =
  aj_receipt :: "acceptance_receipt \<Rightarrow> 'j option"
  aj_error :: "audit_error \<Rightarrow> 'j"
  aj_pretty :: "'j \<Rightarrow> string option"

definition path_file_name :: "string \<Rightarrow> string option" where
  "path_file_name p =
     (case rev (path_components p) of NormalComponent c # _ \<Rightarrow> Some c | _ \<Rightarrow> None)"

definition write_json ::
    "'w receipt_fs \<Rightarrow> 'j audit_json \<Rightarrow> string \<Rightarrow> 'j \<Rightarrow> 'w \<Rightarrow> (string, unit) result \<times> 'w" where
  "write_json rf aj path v w =
     (case path_parent path of
        None \<Rightarrow> (Inl ''receipt path must have a parent directory'', w)
      | Some parent \<Rightarrow>
          (case rf_create_dir_all rf parent w of (created, w) \<Rightarrow>
             if \<not> created then (Inl ''unable to create receipt directory'', w)
             else
               let temporary = path_join parent
                 (''.'' @ (case path_file_name path of None \<Rightarrow> ''zed-acceptance-receipt'' | Some name \<Rightarrow> name) @
                  ''.tmp'') in
               case aj_pretty aj v of
                 None \<Rightarrow> (Inl ''unable to encode receipt'', w)
               | Some encoded \<Rightarrow>
                   (case rf_write rf temporary (encoded @ [CHR 0x0A]) w of (written, w) \<Rightarrow>
                      if \<not> written then (Inl ''unable to write temporary receipt'', w)
                      else
                        (case rf_rename rf temporary path w of (renamed, w) \<Rightarrow>
                           if \<not> renamed then (Inl ''unable to commit receipt atomically'', w)
                           else (Inr (), w)))))"

text \<open>The exit code of the tool.\<close>

definition audit_main ::
    "(bytes \<Rightarrow> bytes) \<Rightarrow> (bytes \<Rightarrow> tar_entry option list option) \<Rightarrow> (nat \<Rightarrow> audit_fs) \<Rightarrow> 'w receipt_fs \<Rightarrow>
     'j audit_json \<Rightarrow> string list \<Rightarrow> 'w \<Rightarrow> u8 \<times> 'w" where
  "audit_main sha256 decode fs rf aj args w =
     (case parse_audit_args args of
        Inl message \<Rightarrow> (if message = [] then 0 else 64, w)
      | Inr a \<Rightarrow>
          (case audit_pair sha256 decode fs (ag_first a) (ag_second a) (ag_source_commit a) (ag_zed_version a) of
             Inr receipt \<Rightarrow>
               (case aj_receipt aj receipt of
                  None \<Rightarrow> (1, w)
                | Some v \<Rightarrow>
                    (case write_json rf aj (ag_receipt a) v w of
                       (Inl _, w) \<Rightarrow> (1, w)
                     | (Inr _, w) \<Rightarrow> (0, w)))
           | Inl e \<Rightarrow>
               (case write_json rf aj (ag_receipt a) (aj_error aj e) w of
                  (Inl _, w) \<Rightarrow> (1, w)
                | (Inr _, w) \<Rightarrow> (2, w))))"

section \<open>Which paths are admitted\<close>

definition path_admitted :: "bytes \<Rightarrow> bool" where
  "path_admitted p \<longleftrightarrow>
     valid_utf8 p \<and> p \<noteq> [] \<and> length p \<le> max_archive_path_bytes \<and> \<not> starts_with ''/'' p \<and>
     \<not> starts_with ''./'' p \<and> \<not> contains_str ''//'' p \<and> CHR 0x5C \<notin> set p \<and> \<not> has_control p \<and>
     p \<noteq> ''.'' \<and> ''..'' \<notin> set (split_on (CHR ''/'') p)"

lemma hd_split_on_dot: "hd (split_on c p) = ''.'' \<Longrightarrow> p = ''.'' \<or> starts_with [CHR ''.'', c] p"
proof (cases p)
  case (Cons a s)
  assume hd: "hd (split_on c p) = ''.''"
  with Cons have a: "a = CHR ''.''" "hd (split_on c s) = []" 
    by (auto split: if_splits list.splits)
  then show ?thesis using Cons by (cases s) (auto simp: starts_with_def split: if_splits list.splits)
qed simp

lemma normal_components:
  assumes "\<not> starts_with ''/'' p" "\<not> starts_with ''./'' p"
  shows "list_all is_normal (path_components p) \<longleftrightarrow> p \<noteq> ''.'' \<and> ''..'' \<notin> set (split_on (CHR ''/'') p)"
proof -
  have "hd (split_on (CHR ''/'') p) = ''.'' \<longleftrightarrow> p = ''.''"
    using hd_split_on_dot [of "CHR ''/''" p] assms(2) by auto
  then show ?thesis using assms(1)
    by (auto simp: path_components_def Let_def list_all_iff is_normal_def)
qed

lemma canonical_path_exact: "canonical_path p = Inr q \<longleftrightarrow> q = p \<and> path_admitted p"
  using normal_components [of p] by (auto simp: canonical_path_def path_admitted_def)

text \<open>A current-directory component behind the first is admitted, so two paths of one file are not duplicates.\<close>

lemma interior_dot_admitted:
  "canonical_path ''a/./b'' = Inr ''a/./b'' \<and> canonical_path ''a/b'' = Inr ''a/b'' \<and>
   path_components ''a/./b'' = path_components ''a/b''"
  by (simp add: canonical_path_def path_components_def is_normal_def byte_in_def max_archive_path_bytes_def
      starts_with_def Let_def)

section \<open>What an inspection establishes\<close>

definition entry_path :: "tar_entry option \<Rightarrow> string" where
  "entry_path e = (case Option.bind e te_path of None \<Rightarrow> [] | Some p \<Rightarrow> p)"

definition entry_file :: "(bytes \<Rightarrow> bytes) \<Rightarrow> tar_entry option \<Rightarrow> (string \<times> file_record) option" where
  "entry_file sha256 e =
     (case e of
        None \<Rightarrow> None
      | Some x \<Rightarrow>
          if te_kind x = TarFile then
            Some (entry_path e, \<lparr>fr_path = entry_path e, fr_bytes = te_size x,
              fr_sha256 = sha256_hex sha256 (case te_content x of None \<Rightarrow> [] | Some c \<Rightarrow> c)\<rparr>)
          else None)"

definition entry_size :: "tar_entry option \<Rightarrow> nat" where
  "entry_size e = (case e of None \<Rightarrow> 0 | Some x \<Rightarrow> if te_kind x = TarFile then unat (te_size x) else 0)"

definition entry_admitted :: "tar_entry option \<Rightarrow> bool" where
  "entry_admitted e =
     (case e of
        None \<Rightarrow> False
      | Some x \<Rightarrow>
          (case te_path x of None \<Rightarrow> False | Some p \<Rightarrow> path_admitted p \<and> \<not> path_is_forbidden p) \<and>
          (case te_kind x of
             TarDirectory \<Rightarrow> True
           | TarOther \<Rightarrow> False
           | TarFile \<Rightarrow> (case te_content x of None \<Rightarrow> False | Some c \<Rightarrow> of_nat (length c) = te_size x)))"

definition audit_advance :: "(bytes \<Rightarrow> bytes) \<Rightarrow> audit_state \<Rightarrow> tar_entry option \<Rightarrow> audit_state" where
  "audit_advance sha256 st e =
     \<lparr>as_seen = fst (bs_insert (entry_path e) (as_seen st)),
      as_files = (case entry_file sha256 e of None \<Rightarrow> as_files st | Some (p, r) \<Rightarrow> bt_insert p r (as_files st)),
      as_unpacked = as_unpacked st + of_nat (entry_size e), as_count = as_count st + 1\<rparr>"

definition bounded_state :: "audit_state \<Rightarrow> bool" where
  "bounded_state st \<longleftrightarrow> unat (as_unpacked st) \<le> unat max_unpacked_bytes \<and> as_count st \<le> max_archive_entries"

lemma audit_file_exact:
  assumes "unat (as_unpacked st) \<le> unat max_unpacked_bytes"
  shows "audit_file sha256 p x st = Inr st' \<longleftrightarrow>
    unat (as_unpacked st) + unat (te_size x) \<le> unat max_unpacked_bytes \<and>
    (\<exists>c. te_content x = Some c \<and> of_nat (length c) = te_size x \<and>
       st' = st\<lparr>as_unpacked := as_unpacked st + te_size x, as_files := bt_insert p
         \<lparr>fr_path = p, fr_bytes = te_size x, fr_sha256 = sha256_hex sha256 c\<rparr> (as_files st)\<rparr>)"
proof (cases "unat (as_unpacked st) + unat (te_size x) < 2 ^ 64")
  case True
  then have "unat (as_unpacked st + te_size x) = unat (as_unpacked st) + unat (te_size x)"
    by (simp add: unat_word_ariths)
  with True show ?thesis
    by (auto simp: audit_file_def checked_add_u64_def ok_or_def word_less_nat_alt not_less split: option.splits)
next
  case False
  then have "\<not> unat (as_unpacked st) + unat (te_size x) \<le> unat max_unpacked_bytes"
    by (simp add: max_unpacked_bytes_def)
  with False show ?thesis by (simp add: audit_file_def checked_add_u64_def ok_or_def)
qed

lemma audit_entry_exact:
  assumes "bounded_state st"
  shows "audit_entry sha256 e st = Inr st' \<longleftrightarrow>
    as_count st < max_archive_entries \<and> entry_admitted e \<and> entry_path e \<notin> set (as_seen st) \<and>
    unat (as_unpacked st) + entry_size e \<le> unat max_unpacked_bytes \<and> st' = audit_advance sha256 st e"
proof (cases "\<exists>x p. e = Some x \<and> te_path x = Some p \<and> path_admitted p")
  case True
  then obtain x p where x: "e = Some x" "te_path x = Some p" "path_admitted p" by blast
  have canonical: "canonical_path p = Inr p" using x(3) by (simp add: canonical_path_exact)
  obtain seen fresh where bs: "bs_insert p (as_seen st) = (seen, fresh)" by force
  then have fresh: "fresh \<longleftrightarrow> p \<notin> set (as_seen st)" by (metis snd_bs_insert snd_conv)
  let ?st = "st\<lparr>as_count := Suc (as_count st), as_seen := seen\<rparr>"
  from assms have bound: "unat (as_unpacked ?st) \<le> unat max_unpacked_bytes" "unat (as_unpacked st) \<le> unat max_unpacked_bytes"
    by (simp_all add: bounded_state_def)
  have "audit_entry sha256 e st = Inr st' \<longleftrightarrow> as_count st < max_archive_entries \<and> p \<notin> set (as_seen st) \<and> \<not> path_is_forbidden p \<and>
      (case te_kind x of TarDirectory \<Rightarrow> st' = ?st | TarOther \<Rightarrow> False | TarFile \<Rightarrow> audit_file sha256 p x ?st = Inr st')"
    using x(1,2) by (auto simp: audit_entry_def canonical bs fresh Let_def split: tar_kind.split)
  moreover have advance: "audit_advance sha256 st (Some x) =
      (if te_kind x = TarFile then ?st\<lparr>as_unpacked := as_unpacked st + te_size x, as_files := bt_insert p
         \<lparr>fr_path = p, fr_bytes = te_size x, fr_sha256 = sha256_hex sha256 (case te_content x of None \<Rightarrow> [] | Some c \<Rightarrow> c)\<rparr>
         (as_files st)\<rparr> else ?st)"
    using x(1,2) by (simp add: audit_advance_def entry_path_def entry_file_def entry_size_def bs)
  moreover have "(as_count st < max_archive_entries \<and> p \<notin> set (as_seen st) \<and> \<not> path_is_forbidden p \<and>
      (case te_kind x of TarDirectory \<Rightarrow> st' = ?st | TarOther \<Rightarrow> False | TarFile \<Rightarrow> audit_file sha256 p x ?st = Inr st')) \<longleftrightarrow>
      as_count st < max_archive_entries \<and> entry_admitted e \<and> entry_path e \<notin> set (as_seen st) \<and>
      unat (as_unpacked st) + entry_size e \<le> unat max_unpacked_bytes \<and> st' = audit_advance sha256 st e"
    by (cases "te_kind x")
      (use x bound(2) in \<open>auto simp: advance audit_file_exact [OF bound(1)] entry_admitted_def entry_path_def
        entry_size_def split: option.splits\<close>)
  ultimately show ?thesis by simp
next
  case False
  then show ?thesis
    by (cases e)
      (auto simp: audit_entry_def entry_admitted_def Let_def bind_result_Inr canonical_path_exact split: option.splits)
qed

lemma audit_entries_exact:
  assumes "bounded_state st"
  shows "audit_entries sha256 es st = Inr st' \<longleftrightarrow>
    as_count st + length es \<le> max_archive_entries \<and> list_all entry_admitted es \<and> distinct (map entry_path es) \<and>
    set (map entry_path es) \<inter> set (as_seen st) = {} \<and>
    unat (as_unpacked st) + sum_list (map entry_size es) \<le> unat max_unpacked_bytes \<and>
    st' = foldl (audit_advance sha256) st es"
  using assms
proof (induction es arbitrary: st)
  case Nil
  then show ?case by (auto simp: bounded_state_def)
next
  case (Cons e es)
  let ?st = "audit_advance sha256 st e"
  show ?case
  proof (cases "as_count st < max_archive_entries \<and> unat (as_unpacked st) + entry_size e \<le> unat max_unpacked_bytes")
    case True
    have "unat max_unpacked_bytes < 2 ^ 64" by (simp add: max_unpacked_bytes_def)
    with True have size: "entry_size e < 2 ^ 64" "unat (as_unpacked st) + entry_size e < 2 ^ 64" by linarith+
    then have unpacked: "unat (as_unpacked ?st) = unat (as_unpacked st) + entry_size e"
      by (simp add: audit_advance_def unat_word_ariths unat_of_nat)
    with True have "bounded_state ?st" by (simp add: bounded_state_def audit_advance_def)
    from Cons.IH [OF this] unpacked show ?thesis
      unfolding audit_entries.simps bind_result_Inr audit_entry_exact [OF Cons.prems]
      using True by (auto simp: audit_advance_def)
  next
    case False
    then show ?thesis by (auto simp: bind_result_Inr audit_entry_exact [OF Cons.prems])
  qed
qed

text \<open>The state behind the entries, and the required files.\<close>

definition archive_files :: "(bytes \<Rightarrow> bytes) \<Rightarrow> tar_entry option list \<Rightarrow> (string, file_record) btree_map" where
  "archive_files sha256 es = bt_collect (List.map_filter (entry_file sha256) es)"

lemma foldl_advance:
  "as_files (foldl (audit_advance sha256) st es) = bt_extend (as_files st) (List.map_filter (entry_file sha256) es) \<and>
   as_count (foldl (audit_advance sha256) st es) = as_count st + length es \<and>
   as_unpacked (foldl (audit_advance sha256) st es) = as_unpacked st + of_nat (sum_list (map entry_size es))"
  by (induction es arbitrary: st)
    (auto simp: audit_advance_def bt_extend_def List.map_filter_def split: option.splits)

definition file_paths :: "tar_entry option list \<Rightarrow> string list" where
  "file_paths es = map entry_path (filter (\<lambda>e. case e of None \<Rightarrow> False | Some x \<Rightarrow> te_kind x = TarFile) es)"

lemma file_paths_entry_file: "file_paths es = map fst (List.map_filter (entry_file sha256) es)"
  by (induction es) (auto simp: file_paths_def entry_file_def List.map_filter_def split: option.splits)

lemma keys_bt_extend: "fst ` set (bt_extend m kvs) = fst ` set m \<union> fst ` set kvs"
  by (induction kvs arbitrary: m) (auto simp: bt_extend_def)

lemma keys_archive_files: "fst ` set (archive_files sha256 es) = set (file_paths es)"
  by (simp add: archive_files_def bt_collect_def keys_bt_extend file_paths_entry_file [of _ sha256] del: List.map_filter_def)

lemma audit_required_exact:
  "audit_required sfxs files acc = Inr m \<longleftrightarrow>
    list_all (\<lambda>s. length (filter (suffix_matches s) (map fst files)) = 1) sfxs \<and>
    m = bt_extend acc (map (\<lambda>s. (s, hd (filter (suffix_matches s) (map fst files)))) sfxs)"
proof -
  define g where "g s = filter (suffix_matches s) (map fst files)" for s
  show ?thesis unfolding g_def [symmetric]
  proof (induction sfxs arbitrary: acc)
    case (Cons s sfxs)
    show ?case unfolding audit_required.simps g_def [symmetric]
      by (cases "g s" rule: remdups_adj.cases) (auto simp: Cons.IH bt_extend_def)
  qed (auto simp: bt_extend_def)
qed

text \<open>
  An acceptable archive: every entry is admitted, no path occurs twice, the files fit into the bound, and each
  required suffix has exactly one file.
\<close>

definition archive_acceptable :: "tar_entry option list \<Rightarrow> bool" where
  "archive_acceptable es \<longleftrightarrow>
     length es \<le> max_archive_entries \<and> list_all entry_admitted es \<and> distinct (map entry_path es) \<and>
     sum_list (map entry_size es) \<le> unat max_unpacked_bytes \<and>
     list_all (\<lambda>s. length (filter (suffix_matches s) (file_paths es)) = 1) required_suffixes"

definition summary_of :: "(bytes \<Rightarrow> bytes) \<Rightarrow> bytes \<Rightarrow> u64 \<Rightarrow> tar_entry option list \<Rightarrow> archive_summary" where
  "summary_of sha256 bs len es =
     \<lparr>sm_archive_sha256 = sha256_hex sha256 bs, sm_archive_bytes = len, sm_entry_count = length es,
      sm_file_count = length (file_paths es), sm_unpacked_bytes = of_nat (sum_list (map entry_size es)),
      sm_tree_sha256 = sha256_hex sha256 (tree_material (map snd (archive_files sha256 es))),
      sm_required_entries = bt_collect (map (\<lambda>s. (s, hd (filter (suffix_matches s) (sort (file_paths es))))) required_suffixes),
      sm_files = map snd (archive_files sha256 es)\<rparr>"

lemma distinct_file_paths: "distinct (map entry_path es) \<Longrightarrow> distinct (file_paths es)"
  by (induction es) (auto simp: file_paths_def)

lemma archive_files_keys:
  assumes "distinct (file_paths es)"
  shows "map fst (archive_files sha256 es) = sort (file_paths es)"
proof (rule sorted_distinct_set_unique)
  have "bt_ok (archive_files sha256 es)" by (simp add: archive_files_def)
  then show "sorted (map fst (archive_files sha256 es))" "distinct (map fst (archive_files sha256 es))"
    by (auto simp: bt_ok_def strict_sorted_iff)
qed (use assms keys_archive_files [of sha256 es] in auto)

lemma inspect_archive_exact:
  "inspect_archive sha256 decode fs1 fs2 path = Inr s \<longleftrightarrow>
    (\<exists>len bs es. af_metadata fs1 path = Some (True, len) \<and> len \<le> max_archive_bytes \<and> af_read fs2 path = Some bs \<and>
       decode bs = Some es \<and> archive_acceptable es \<and> s = summary_of sha256 bs len es)"
proof -
  let ?init = "\<lparr>as_seen = [], as_files = [], as_unpacked = 0, as_count = 0\<rparr>"
  let ?st = "foldl (audit_advance sha256) ?init"
  have init: "bounded_state ?init" by (simp add: bounded_state_def)
  have after: "as_files (?st es) = archive_files sha256 es" "as_count (?st es) = length es"
    "as_unpacked (?st es) = of_nat (sum_list (map entry_size es))" for es
    by (simp_all add: foldl_advance archive_files_def bt_collect_def)
  have lengths: "length (filter (suffix_matches x \<circ> fst) (archive_files sha256 es)) =
      length (filter (suffix_matches x) (file_paths es))" if "distinct (map entry_path es)" for x es
    using archive_files_keys [OF distinct_file_paths [OF that], of sha256]
    by (metis filter_sort length_filter_map length_sort)
  have files: "length (archive_files sha256 es) = length (file_paths es)" if "distinct (map entry_path es)" for es
    using archive_files_keys [OF distinct_file_paths [OF that], of sha256] by (metis length_map length_sort)
  have core: "bind_result (audit_entries sha256 es ?init) (\<lambda>st.
        bind_result (audit_required required_suffixes (as_files st) []) (\<lambda>required.
        Inr \<lparr>sm_archive_sha256 = sha256_hex sha256 bs, sm_archive_bytes = len, sm_entry_count = as_count st,
             sm_file_count = length (as_files st), sm_unpacked_bytes = as_unpacked st,
             sm_tree_sha256 = tree_digest sha256 (as_files st), sm_required_entries = required,
             sm_files = map snd (as_files st)\<rparr>)) = Inr s \<longleftrightarrow>
      archive_acceptable es \<and> s = summary_of sha256 bs len es" for es bs len
    unfolding bind_result_Inr audit_entries_exact [OF init] audit_required_exact
    by (auto simp: after archive_acceptable_def summary_of_def archive_files_keys distinct_file_paths lengths files
        tree_digest_def bt_collect_def)
  show ?thesis
    unfolding inspect_archive_def
    by (auto simp: ok_or_def core not_less split: option.split prod.split)
qed

text \<open>
  C36. A receipt is issued, while the files do not change, exactly for a lowercase commit and a printable version
  over two regular files with the same bytes and the same length, of at most 256 MiB, that hold an acceptable
  archive: at most 20,000 readable entries with admitted paths that all differ, each a directory or a file whose
  content has the declared length, 512 MiB in all, and each required file exactly once. The receipt then
  lists exactly the files of the archive in the order of their paths.
\<close>

theorem audit_receipt_exact:
  "audit_pair sha256 decode (\<lambda>_. fs) first second commit version = Inr r \<longleftrightarrow>
    valid_lower_hex commit 40 \<and> trim version \<noteq> [] \<and> length version \<le> 128 \<and> \<not> has_control version \<and>
    (\<exists>len bs es. af_metadata fs first = Some (True, len) \<and> af_metadata fs second = Some (True, len) \<and>
       len \<le> max_archive_bytes \<and> af_read fs first = Some bs \<and> af_read fs second = Some bs \<and>
       decode bs = Some es \<and> archive_acceptable es \<and>
       r = \<lparr>rec_schema = ''ores.zed-release-acceptance/v1'', rec_status = ''passed'', rec_source_commit = commit,
            rec_zed_version = trim version, rec_byte_reproducible = True, rec_archive = summary_of sha256 bs len es\<rparr>)"
proof -
  have len: "summary_of sha256 bs len es = summary_of sha256 bs len' es \<longleftrightarrow> len = len'" for bs len len' es
    by (auto simp: summary_of_def)
  show ?thesis unfolding audit_pair_def
    by (auto simp: bind_result_Inr ok_or_def inspect_archive_exact not_less len split: option.splits if_splits)
qed

section \<open>The tree digest binds the files\<close>

definition decimal_value :: "string \<Rightarrow> nat" where
  "decimal_value = foldl (\<lambda>n c. 10 * n + (code_of c - 48)) 0"

lemma decimal_value_show_nat: "decimal_value (show_nat n) = n"
proof (induction n rule: show_nat.induct)
  case (1 n)
  have d: "n mod 10 < 10" by simp
  then have "code_of (char_of (48 + n mod 10) :: char) = 48 + n mod 10" by (simp add: of_char_of)
  then show ?case
    using 1 d by (subst show_nat.simps) (auto simp: Let_def decimal_value_def)
qed

lemma show_word_inj: "show_word a = show_word b \<Longrightarrow> a = b"
  unfolding show_word_def by (metis decimal_value_show_nat word_unat_eq_iff)

lemma show_nat_digits: "c \<in> set (show_nat n) \<Longrightarrow> is_ascii_digit c"
proof (induction n rule: show_nat.induct)
  case (1 n)
  have "n mod 10 < 10" by simp
  then have "is_ascii_digit (char_of (48 + n mod 10))" by (simp add: is_ascii_digit_def of_char_of)
  with 1 show ?case by (subst (asm) (2) show_nat.simps) (auto simp: Let_def split: if_splits)
qed

lemma hex_bytes_digit: "c \<in> set (hex_bytes bs) \<Longrightarrow> 48 \<le> code_of c"
proof -
  have "48 \<le> code_of (hex_digit d)" if "d < 16" for d using that by (auto simp: hex_digit_def of_char_of)
  moreover assume "c \<in> set (hex_bytes bs)"
  ultimately show ?thesis by (auto simp: hex_bytes_def less_mult_imp_div_less)
qed

lemma has_control_NUL: "\<not> has_control p \<Longrightarrow> CHR 0x00 \<notin> set p"
  by (induction p) auto

definition record_plain :: "file_record \<Rightarrow> bool" where
  "record_plain r \<longleftrightarrow> CHR 0x00 \<notin> set (fr_path r) \<and> CHR 0x0A \<notin> set (fr_sha256 r)"

lemma cut_at_first:
  fixes c :: char
  assumes "u @ c # v = u' @ c # v'" "c \<notin> set u" "c \<notin> set u'"
  shows "u = u' \<and> v = v'"
  using arg_cong [where f = "split_once c", OF assms(1)] split_once_append [OF assms(2), of v]
    split_once_append [OF assms(3), of v'] by simp

lemma tree_material_inj:
  assumes "tree_material fs = tree_material fs'" "list_all record_plain fs" "list_all record_plain fs'"
  shows "fs = fs'"
  using assms
proof (induction fs arbitrary: fs')
  case Nil
  then show ?case by (cases fs') (auto simp: tree_material_def)
next
  case (Cons r fs)
  then obtain r' gs where fs': "fs' = r' # gs" by (cases fs') (auto simp: tree_material_def)
  have digits: "CHR 0x00 \<notin> set (show_word w)" for w :: u64
    by (auto simp: show_word_def is_ascii_digit_def dest!: show_nat_digits)
  have "fr_path r @ CHR 0x00 # show_word (fr_bytes r) @ CHR 0x00 # fr_sha256 r @ CHR 0x0A # tree_material fs =
      fr_path r' @ CHR 0x00 # show_word (fr_bytes r') @ CHR 0x00 # fr_sha256 r' @ CHR 0x0A # tree_material gs"
    using Cons.prems(1) by (simp add: fs' tree_material_def)
  note eq = this
  have plain: "CHR 0x00 \<notin> set (fr_path r)" "CHR 0x00 \<notin> set (fr_path r')" "CHR 0x0A \<notin> set (fr_sha256 r)"
    "CHR 0x0A \<notin> set (fr_sha256 r')"
    using Cons.prems(2,3) by (simp_all add: fs' record_plain_def)
  note path = cut_at_first [OF eq plain(1,2)]
  note size = cut_at_first [OF path [THEN conjunct2] digits digits]
  note digest = cut_at_first [OF size [THEN conjunct2] plain(3,4)]
  from Cons.IH [OF digest [THEN conjunct2]] Cons.prems(2,3) have "fs = gs" by (simp add: fs')
  with path size digest show ?case by (cases r; cases r') (auto simp: fs' dest: show_word_inj)
qed

lemma archive_files_plain:
  assumes "list_all entry_admitted es"
  shows "list_all record_plain (map snd (archive_files sha256 es))"
proof -
  have entry: "record_plain r" if "entry_file sha256 e = Some (p, r)" "e \<in> set es" for e p r
  proof -
    from that assms have "entry_admitted e" by (auto simp: list_all_iff)
    with that(1) have "path_admitted (fr_path r)" "\<exists>c. fr_sha256 r = hex_bytes c"
      by (auto simp: entry_admitted_def entry_file_def entry_path_def sha256_hex_def split: option.splits if_splits)
    then show ?thesis
      using hex_bytes_digit [of "CHR 0x0A"] by (auto simp: record_plain_def path_admitted_def dest: has_control_NUL)
  qed
  have "set (archive_files sha256 es) \<subseteq> set (List.map_filter (entry_file sha256) es)"
    unfolding archive_files_def by (rule set_bt_collect_subset)
  then show ?thesis using entry by (fastforce simp: list_all_iff List.map_filter_def)
qed

text \<open>
  C37. The tree digest binds the files: it is the hash of a text that no two accepted archives share unless they
  hold the same files, with the same paths, sizes and digests in the same order.
\<close>

theorem tree_digest_binds_files:
  assumes "inspect_archive sha256 decode fs1 fs2 path = Inr s" "inspect_archive sha256 decode' fs1' fs2' path' = Inr s'"
  shows "sm_tree_sha256 s = sha256_hex sha256 (tree_material (sm_files s)) \<and>
    (tree_material (sm_files s) = tree_material (sm_files s') \<longleftrightarrow> sm_files s = sm_files s')"
  using assms tree_material_inj [OF _ archive_files_plain archive_files_plain]
  by (auto simp: inspect_archive_exact summary_of_def archive_acceptable_def)

section \<open>The exit code\<close>

text \<open>The tool succeeds exactly when it is asked for help or has committed the receipt of an acceptance.\<close>

lemma audit_main_success:
  "fst (audit_main sha256 decode fs rf aj args w) = 0 \<longleftrightarrow>
    parse_audit_args args = Inl [] \<or>
    (\<exists>a r v. parse_audit_args args = Inr a \<and>
       audit_pair sha256 decode fs (ag_first a) (ag_second a) (ag_source_commit a) (ag_zed_version a) = Inr r \<and>
       aj_receipt aj r = Some v \<and> fst (write_json rf aj (ag_receipt a) v w) = Inr ())"
  by (auto simp: audit_main_def split: sum.split option.split prod.split)

lemma write_json_committed:
  assumes "write_json rf aj path v w = (Inr (), w')"
  shows "\<exists>temporary encoded w1 w2. aj_pretty aj v = Some encoded \<and>
    rf_write rf temporary (encoded @ [CHR 0x0A]) w1 = (True, w2) \<and> rf_rename rf temporary path w2 = (True, w')"
  using assms by (auto simp: write_json_def Let_def split: option.splits prod.splits if_splits)

section \<open>Example\<close>

definition sample_entry :: "string \<Rightarrow> tar_entry option" where
  "sample_entry p = Some \<lparr>te_path = Some (''package/'' @ p), te_kind = TarFile, te_size = 2, te_content = Some ''{}''\<rparr>"

definition sample_entries :: "tar_entry option list" where
  "sample_entries = map sample_entry required_suffixes"

definition sample_audit_fs :: audit_fs where
  "sample_audit_fs = \<lparr>af_metadata = (\<lambda>_. Some (True, 5)), af_read = (\<lambda>_. Some ''bytes'')\<rparr>"

lemma sample_entries_eval: "entry_path (sample_entry p) = ''package/'' @ p" "entry_size (sample_entry p) = 2"
  "file_paths (map sample_entry ps) = map ((@) ''package/'') ps"
  "entry_admitted (sample_entry p) \<longleftrightarrow> path_admitted (''package/'' @ p) \<and> \<not> path_is_forbidden (''package/'' @ p)"
  by (simp_all add: entry_path_def entry_size_def file_paths_def entry_admitted_def sample_entry_def comp_def)

lemma sample_entries_acceptable: "archive_acceptable sample_entries"
proof -
  have paths: "list_all (\<lambda>p. path_admitted (''package/'' @ p)) required_suffixes"
    by code_simp
  have plain: "list_all (\<lambda>p. \<not> path_is_forbidden (''package/'' @ p)) required_suffixes"
    by code_simp
  have distinct: "distinct (map (\<lambda>p. ''package/'' @ p) required_suffixes)"
    by code_simp
  have required: "list_all (\<lambda>s. length (filter (suffix_matches s) (map ((@) ''package/'') required_suffixes)) = 1)
      required_suffixes"
    by code_simp
  have "length required_suffixes = 8" by (simp add: required_suffixes_def)
  then have "sum_list (map (\<lambda>_. 2) required_suffixes) = (16 :: nat)" by (simp add: sum_list_triv)
  with paths plain distinct required show ?thesis
    by (simp add: archive_acceptable_def sample_entries_def sample_entries_eval max_unpacked_bytes_def comp_def
        max_archive_entries_def list_all_iff \<open>length required_suffixes = 8\<close>)
qed

lemma tree_digest_binds_files_witness:
  "\<exists>s. inspect_archive id (\<lambda>_. Some sample_entries) sample_audit_fs sample_audit_fs ''a.tgz'' = Inr s \<and>
    sm_tree_sha256 s = sha256_hex id (tree_material (sm_files s))"
proof -
  have "inspect_archive id (\<lambda>_. Some sample_entries) sample_audit_fs sample_audit_fs ''a.tgz'' =
      Inr (summary_of id ''bytes'' 5 sample_entries)"
    unfolding inspect_archive_exact using sample_entries_acceptable
    by (simp add: sample_audit_fs_def max_archive_bytes_def)
  with tree_digest_binds_files [OF this this] show ?thesis by blast
qed

end
