(* ===== verification/Artifacts.thy ===== *)
theory Artifacts
  imports Archive_Audit
begin

text \<open>
  What a middleware package publishes and where it may run: the artifacts of a package and their selection
  (\<^verbatim>\<open>runtime_artifact.rs\<close>), the placement of middleware and the profiles of its execution
  (\<^verbatim>\<open>placement.rs\<close>), and the lifecycle contract of edge proxies (\<^verbatim>\<open>edge_proxy.rs\<close>).
\<close>

section \<open>Artifacts of a package\<close>

datatype artifact_kind = JavaScriptModule | WebAssemblyModule | NativeLibrary | BeamModule | ProcessRpc

datatype runtime_profile = PortableJavaScript | PortableWasm | NativeProfile | IsolatedProcess

datatype middleware_provider = GenericProvider | CloudflareProvider | CaddyProvider | NginxProvider | HaproxyProvider

record artifact_descriptor =
  ad_id :: string
  ad_language :: string
  ad_kind :: artifact_kind
  ad_profile :: runtime_profile
  ad_provider :: middleware_provider
  ad_path :: string
  ad_semantic_contract_sha256 :: string

definition is_edge_portable :: "artifact_descriptor \<Rightarrow> bool" where
  "is_edge_portable a \<longleftrightarrow> ad_profile a \<in> {PortableJavaScript, PortableWasm}"

definition is_provider_overlay :: "artifact_descriptor \<Rightarrow> bool" where
  "is_provider_overlay a \<longleftrightarrow> ad_provider a \<noteq> GenericProvider"

record package_manifest =
  pm_spec_version :: u32
  pm_name :: string
  pm_version :: string
  pm_semantic_contract_sha256 :: string
  pm_phases :: "string list"
  pm_capabilities :: "string list"
  pm_artifacts :: "artifact_descriptor list"

record package_violation =
  pv_code :: string
  pv_artifact_id :: "string option"
  pv_message :: string

definition is_sha256_hex :: "string \<Rightarrow> bool" where
  "is_sha256_hex v \<longleftrightarrow>
     (if length v \<noteq> 64 then False
      else list_all (\<lambda>b. is_ascii_digit b \<or> 97 \<le> code_of b \<and> code_of b \<le> 102) v)"

definition profile_kind_matches :: "artifact_descriptor \<Rightarrow> bool" where
  "profile_kind_matches a =
     (case ad_profile a of
        PortableJavaScript \<Rightarrow> ad_kind a = JavaScriptModule
      | PortableWasm \<Rightarrow> ad_kind a = WebAssemblyModule
      | NativeProfile \<Rightarrow> ad_kind a = NativeLibrary \<or> ad_kind a = BeamModule
      | IsolatedProcess \<Rightarrow> ad_kind a = ProcessRpc)"

definition package_violation_if :: "bool \<Rightarrow> string \<Rightarrow> string option \<Rightarrow> string \<Rightarrow> package_violation list" where
  "package_violation_if b code artifact message =
     (if b then [\<lparr>pv_code = code, pv_artifact_id = artifact, pv_message = message\<rparr>] else [])"

text \<open>The loop over the artifacts, with the set of the identifiers it has seen.\<close>

fun artifact_violations :: "string \<Rightarrow> string list \<Rightarrow> artifact_descriptor list \<Rightarrow> package_violation list" where
  "artifact_violations digest ids [] = []"
| "artifact_violations digest ids (a # rest) =
     (case bs_insert (ad_id a) ids of (ids, fresh) \<Rightarrow>
        package_violation_if (\<not> fresh) ''duplicate_artifact_id'' (Some (ad_id a))
          ''artifact ids must be unique within a middleware package'' @
        package_violation_if (ad_semantic_contract_sha256 a \<noteq> digest) ''semantic_contract_digest_mismatch'' (Some (ad_id a))
          ''every artifact must identify the package semantic contract digest'' @
        package_violation_if (trim (ad_path a) = [] \<or> trim (ad_language a) = []) ''invalid_artifact_identity''
          (Some (ad_id a)) ''artifact language and path are required'' @
        package_violation_if (\<not> profile_kind_matches a) ''artifact_profile_kind_mismatch'' (Some (ad_id a))
          ''artifact kind is incompatible with its runtime profile'' @
        artifact_violations digest ids rest)"

definition validate_package :: "package_manifest \<Rightarrow> package_violation list" where
  "validate_package m =
     package_violation_if (pm_spec_version m \<noteq> 1) ''unsupported_spec_version'' None
       ''middleware package spec_version must be 1'' @
     package_violation_if (trim (pm_name m) = [] \<or> trim (pm_version m) = []) ''missing_package_identity'' None
       ''middleware package name and version are required'' @
     package_violation_if (\<not> is_sha256_hex (pm_semantic_contract_sha256 m)) ''invalid_semantic_contract_digest'' None
       ''semantic_contract_sha256 must be 64 lowercase hexadecimal characters'' @
     package_violation_if (pm_artifacts m = []) ''missing_artifacts'' None
       ''middleware package must publish at least one artifact'' @
     artifact_violations (pm_semantic_contract_sha256 m) [] (pm_artifacts m)"

definition select_artifact ::
    "package_manifest \<Rightarrow> middleware_provider \<Rightarrow> runtime_profile list \<Rightarrow> artifact_descriptor option" where
  "select_artifact m provider supported_profiles =
     (if validate_package m \<noteq> [] then None
      else
        let provider_specific =
          find (\<lambda>a. ad_provider a = provider \<and> ad_profile a \<in> set supported_profiles) (pm_artifacts m) in
        if provider_specific \<noteq> None then provider_specific
        else find (\<lambda>a. ad_provider a = GenericProvider \<and> ad_profile a \<in> set supported_profiles) (pm_artifacts m))"

section \<open>Placement\<close>

datatype middleware_placement = EdgePlacement | TransportPlacement | ApplicationPlacement

datatype execution_profile = EdgeMinimalProfile | EdgeFetchProfile | BackendProfile

definition is_p2_compatible :: "execution_profile \<Rightarrow> bool" where
  "is_p2_compatible p \<longleftrightarrow> p \<in> {EdgeMinimalProfile, EdgeFetchProfile}"

definition is_p3_backend :: "execution_profile \<Rightarrow> bool" where
  "is_p3_backend p \<longleftrightarrow> p = BackendProfile"

definition permits_connection_handoff :: "execution_profile \<Rightarrow> bool" where
  "permits_connection_handoff p \<longleftrightarrow> p = EdgeMinimalProfile"

definition has_response_access :: "execution_profile \<Rightarrow> bool" where
  "has_response_access p \<longleftrightarrow> p \<in> {EdgeFetchProfile, BackendProfile}"

definition allows_request_header_mutation :: "execution_profile \<Rightarrow> bool" where
  "allows_request_header_mutation p \<longleftrightarrow> True"

definition allows_outbound_fetch :: "execution_profile \<Rightarrow> bool" where
  "allows_outbound_fetch p \<longleftrightarrow> True"

definition allows_native_backend_access :: "execution_profile \<Rightarrow> bool" where
  "allows_native_backend_access p \<longleftrightarrow> p = BackendProfile"

datatype execution_target =
    CloudflareWorker | KubernetesIngress | LoadBalancer | ServiceMesh | WebServer | ApiServer | LambdaFunction

definition target_placement :: "execution_target \<Rightarrow> middleware_placement" where
  "target_placement t =
     (case t of
        CloudflareWorker \<Rightarrow> EdgePlacement
      | KubernetesIngress \<Rightarrow> EdgePlacement
      | LoadBalancer \<Rightarrow> EdgePlacement
      | ServiceMesh \<Rightarrow> TransportPlacement
      | WebServer \<Rightarrow> ApplicationPlacement
      | ApiServer \<Rightarrow> ApplicationPlacement
      | LambdaFunction \<Rightarrow> ApplicationPlacement)"

record middleware_capabilities =
  mk_placements :: "middleware_placement list"
  mk_requires_request_body :: bool
  mk_requires_authenticated_identity :: bool
  mk_requires_database :: bool

definition portable_capabilities :: "middleware_placement list \<Rightarrow> middleware_capabilities" where
  "portable_capabilities placements =
     \<lparr>mk_placements = placements, mk_requires_request_body = False, mk_requires_authenticated_identity = False,
      mk_requires_database = False\<rparr>"

record placement_violation =
  plv_code :: string
  plv_message :: string

definition placement_violation_if :: "bool \<Rightarrow> string \<Rightarrow> string \<Rightarrow> placement_violation list" where
  "placement_violation_if b code message = (if b then [\<lparr>plv_code = code, plv_message = message\<rparr>] else [])"

definition validate_target :: "middleware_capabilities \<Rightarrow> execution_target \<Rightarrow> placement_violation list" where
  "validate_target c target =
     (let placement = target_placement target in
      placement_violation_if (placement \<notin> set (mk_placements c)) ''unsupported-placement''
        ''middleware capability does not permit this execution placement'' @
      placement_violation_if (mk_requires_database c \<and> placement \<noteq> ApplicationPlacement)
        ''database-required-outside-application''
        ''database-dependent middleware must execute at the application boundary'' @
      placement_violation_if (mk_requires_authenticated_identity c \<and> target = CloudflareWorker)
        ''authenticated-identity-at-untrusted-edge''
        ''authenticated identity middleware must not assume origin identity at the Cloudflare edge'')"

definition validate_profile :: "middleware_capabilities \<Rightarrow> execution_profile \<Rightarrow> placement_violation list" where
  "validate_profile c profile =
     placement_violation_if (profile = EdgeMinimalProfile \<and> mk_requires_request_body c)
       ''request-body-outside-edge-minimal'' ''edge_minimal middleware may not require request-body access'' @
     placement_violation_if (is_p2_compatible profile \<and> mk_requires_database c)
       ''database-outside-backend-profile'' ''database-dependent middleware requires the backend profile''"

section \<open>Edge proxies\<close>

datatype edge_proxy_kind = CaddyProxy | NginxProxy | HaproxyProxy

definition proxy_middleware_provider :: "edge_proxy_kind \<Rightarrow> middleware_provider" where
  "proxy_middleware_provider k =
     (case k of CaddyProxy \<Rightarrow> CaddyProvider | NginxProxy \<Rightarrow> NginxProvider | HaproxyProxy \<Rightarrow> HaproxyProvider)"

record proxy_capabilities =
  pc_automatic_tls :: bool
  pc_runtime_mutation :: bool
  pc_graceful_generation_reload :: bool
  pc_static_file_serving :: bool
  pc_layer4_proxying :: bool

record proxy_generation =
  pg_generation_id :: string
  pg_application_generation_sha256 :: string
  pg_rendered_config_sha256 :: string

datatype proxy_phase = Prepared | Validated | Staged | ActivePhase | Draining | Retired | RolledBack

record proxy_receipt =
  pr_proxy :: edge_proxy_kind
  pr_generation :: proxy_generation
  pr_phase :: proxy_phase

record proxy_error =
  pe_code :: string
  pe_message :: string

definition proxy_error_display :: "proxy_error \<Rightarrow> string" where
  "proxy_error_display e = pe_message e @ '' ('' @ pe_code e @ '')''"

text \<open>\<open>derive(Debug)\<close> of the phase.\<close>

definition proxy_phase_debug :: "proxy_phase \<Rightarrow> string" where
  "proxy_phase_debug p =
     (case p of Prepared \<Rightarrow> ''Prepared'' | Validated \<Rightarrow> ''Validated'' | Staged \<Rightarrow> ''Staged'' | ActivePhase \<Rightarrow> ''Active''
      | Draining \<Rightarrow> ''Draining'' | Retired \<Rightarrow> ''Retired'' | RolledBack \<Rightarrow> ''RolledBack'')"

definition require_phase :: "proxy_receipt \<Rightarrow> proxy_phase \<Rightarrow> (proxy_error, unit) result" where
  "require_phase receipt expected =
     (if pr_phase receipt \<noteq> expected then
        Inl \<lparr>pe_code = ''invalid_edge_proxy_phase'',
             pe_message = ''edge proxy lifecycle expected '' @ proxy_phase_debug expected @ '', received '' @
               proxy_phase_debug (pr_phase receipt)\<rparr>
      else Inr ())"

definition require_same_application_generation ::
    "proxy_receipt \<Rightarrow> proxy_receipt \<Rightarrow> (proxy_error, unit) result" where
  "require_same_application_generation left right =
     (if pg_application_generation_sha256 (pr_generation left) \<noteq>
         pg_application_generation_sha256 (pr_generation right) then
        Inl \<lparr>pe_code = ''application_generation_mismatch'',
             pe_message = ''proxy lifecycle receipts refer to different ORES application generations''\<rparr>
      else Inr ())"

record proxy_descriptor =
  pd_kind :: edge_proxy_kind
  pd_capabilities :: proxy_capabilities

definition edge_proxy_descriptor :: "edge_proxy_kind \<Rightarrow> proxy_descriptor" where
  "edge_proxy_descriptor k =
     \<lparr>pd_kind = k, pd_capabilities = (case k of
        CaddyProxy \<Rightarrow>
          \<lparr>pc_automatic_tls = True, pc_runtime_mutation = True, pc_graceful_generation_reload = True,
           pc_static_file_serving = True, pc_layer4_proxying = False\<rparr>
      | NginxProxy \<Rightarrow>
          \<lparr>pc_automatic_tls = False, pc_runtime_mutation = False, pc_graceful_generation_reload = True,
           pc_static_file_serving = True, pc_layer4_proxying = True\<rparr>
      | HaproxyProxy \<Rightarrow>
          \<lparr>pc_automatic_tls = False, pc_runtime_mutation = True, pc_graceful_generation_reload = True,
           pc_static_file_serving = False, pc_layer4_proxying = True\<rparr>)\<rparr>"

section \<open>What a valid package promises\<close>

lemma package_violation_if_Nil [simp]: "package_violation_if b code a message = [] \<longleftrightarrow> \<not> b"
  by (simp add: package_violation_if_def)

lemma placement_violation_if_Nil [simp]: "placement_violation_if b code message = [] \<longleftrightarrow> \<not> b"
  by (simp add: placement_violation_if_def)

text \<open>The type of an artifact: its kind fits its profile.\<close>

definition artifact_typed :: "string \<Rightarrow> artifact_descriptor \<Rightarrow> bool" where
  "artifact_typed digest a \<longleftrightarrow>
     (ad_profile a, ad_kind a) \<in>
       {(PortableJavaScript, JavaScriptModule), (PortableWasm, WebAssemblyModule), (NativeProfile, NativeLibrary),
        (NativeProfile, BeamModule), (IsolatedProcess, ProcessRpc)} \<and>
     ad_semantic_contract_sha256 a = digest \<and> trim (ad_path a) \<noteq> [] \<and> trim (ad_language a) \<noteq> []"

definition package_typed :: "package_manifest \<Rightarrow> bool" where
  "package_typed m \<longleftrightarrow>
     pm_spec_version m = 1 \<and> trim (pm_name m) \<noteq> [] \<and> trim (pm_version m) \<noteq> [] \<and>
     is_sha256_hex (pm_semantic_contract_sha256 m) \<and> pm_artifacts m \<noteq> [] \<and>
     distinct (map ad_id (pm_artifacts m)) \<and> list_all (artifact_typed (pm_semantic_contract_sha256 m)) (pm_artifacts m)"

lemma profile_kind_typed:
  "artifact_typed digest a \<longleftrightarrow> profile_kind_matches a \<and> ad_semantic_contract_sha256 a = digest \<and>
     trim (ad_path a) \<noteq> [] \<and> trim (ad_language a) \<noteq> []"
  by (cases "ad_profile a"; cases "ad_kind a") (simp_all add: artifact_typed_def profile_kind_matches_def)

lemma artifact_violations_Nil:
  "artifact_violations digest ids as = [] \<longleftrightarrow>
    distinct (map ad_id as) \<and> set (map ad_id as) \<inter> set ids = {} \<and> list_all (artifact_typed digest) as"
proof (induction as arbitrary: ids)
  case (Cons a as)
  obtain ids' fresh where ins: "bs_insert (ad_id a) ids = (ids', fresh)" by force
  then have "set ids' = insert (ad_id a) (set ids)" "fresh \<longleftrightarrow> ad_id a \<notin> set ids"
    using set_bs_insert [of "ad_id a" ids] snd_bs_insert [of "ad_id a" ids] by simp_all
  then show ?case by (auto simp: ins Cons.IH profile_kind_typed)
qed simp

lemma validate_package_exact: "validate_package m = [] \<longleftrightarrow> package_typed m"
  by (auto simp: validate_package_def package_typed_def artifact_violations_Nil)

text \<open>
  C38. A selected artifact is well typed: it belongs to a package that validates, its kind is one its
  profile admits, the host supports this profile, and it identifies the contract of its package. It is the first
  of the provider, or, when the provider has none that is supported, the first portable one; nothing is selected
  exactly when the package does not validate or has no such artifact.
\<close>

theorem selected_artifact_typed:
  "(case select_artifact m provider supported of
      Some a \<Rightarrow>
        package_typed m \<and> artifact_typed (pm_semantic_contract_sha256 m) a \<and> ad_profile a \<in> set supported \<and>
        (\<exists>before after. pm_artifacts m = before @ a # after \<and>
           list_all (\<lambda>x. \<not> (ad_provider x = ad_provider a \<and> ad_profile x \<in> set supported)) before) \<and>
        (if ad_provider a = provider then True
         else ad_provider a = GenericProvider \<and>
           list_all (\<lambda>x. \<not> (ad_provider x = provider \<and> ad_profile x \<in> set supported)) (pm_artifacts m))
    | None \<Rightarrow>
        \<not> (package_typed m \<and>
           list_ex (\<lambda>x. ad_provider x \<in> {provider, GenericProvider} \<and> ad_profile x \<in> set supported) (pm_artifacts m)))"
proof (cases "package_typed m")
  case True
  let ?P = "\<lambda>p a. ad_provider a = p \<and> ad_profile a \<in> set supported"
  have found: "\<exists>before after. pm_artifacts m = before @ a # after \<and> list_all (\<lambda>x. \<not> ?P p x) before \<and>
      ?P p a \<and> artifact_typed (pm_semantic_contract_sha256 m) a"
    if "find (?P p) (pm_artifacts m) = Some a" for p a
  proof -
    from that obtain i where i: "i < length (pm_artifacts m)" "?P p (pm_artifacts m ! i)" "a = pm_artifacts m ! i"
        "\<forall>j < i. \<not> ?P p (pm_artifacts m ! j)"
      by (auto simp: find_Some_iff)
    then have "pm_artifacts m = take i (pm_artifacts m) @ a # drop (Suc i) (pm_artifacts m)"
      by (simp add: id_take_nth_drop)
    moreover from i have "list_all (\<lambda>x. \<not> ?P p x) (take i (pm_artifacts m))"
      by (auto simp: list_all_length)
    moreover from i True have "artifact_typed (pm_semantic_contract_sha256 m) a"
      by (auto simp: package_typed_def list_all_length)
    ultimately show ?thesis using i(2,3) by blast
  qed
  show ?thesis
  proof (cases "find (?P provider) (pm_artifacts m)")
    case (Some a)
    with found [OF this] True show ?thesis
      by (simp add: select_artifact_def validate_package_exact) blast
  next
    case None
    then have none: "list_all (\<lambda>x. \<not> ?P provider x) (pm_artifacts m)" by (auto simp: find_None_iff list_all_iff)
    show ?thesis
    proof (cases "find (?P GenericProvider) (pm_artifacts m)")
      case (Some a)
      with None none found [OF Some] True show ?thesis
        by (auto simp: select_artifact_def validate_package_exact)
    next
      case generic: None
      then have "list_all (\<lambda>x. \<not> ?P GenericProvider x) (pm_artifacts m)" by (auto simp: find_None_iff list_all_iff)
      with None generic none True show ?thesis
        by (auto simp: select_artifact_def validate_package_exact list_all_iff list_ex_iff)
    qed
  qed
next
  case False
  then show ?thesis by (simp add: select_artifact_def validate_package_exact)
qed

text \<open>Middleware that may run on a target and under a profile has what it requires there.\<close>

lemma placement_exact:
  "validate_target c t = [] \<and> validate_profile c p = [] \<longleftrightarrow>
    target_placement t \<in> set (mk_placements c) \<and>
    (mk_requires_database c \<longrightarrow> target_placement t = ApplicationPlacement \<and> allows_native_backend_access p) \<and>
    (mk_requires_request_body c \<longrightarrow> \<not> permits_connection_handoff p) \<and>
    (mk_requires_authenticated_identity c \<longrightarrow> t \<noteq> CloudflareWorker)"
  by (cases p) (auto simp: validate_target_def validate_profile_def Let_def is_p2_compatible_def
      allows_native_backend_access_def permits_connection_handoff_def)

lemma profiles_partition:
  "is_p3_backend p \<longleftrightarrow> \<not> is_p2_compatible p"
  "permits_connection_handoff p \<longleftrightarrow> \<not> has_response_access p"
  by (cases p; simp add: is_p3_backend_def is_p2_compatible_def permits_connection_handoff_def has_response_access_def)+

text \<open>Portable middleware validates on every target of its placements and under every profile.\<close>

lemma portable_everywhere:
  "validate_target (portable_capabilities ps) t = [] \<longleftrightarrow> target_placement t \<in> set ps"
  "validate_profile (portable_capabilities ps) p = []"
  by (simp_all add: portable_capabilities_def validate_target_def validate_profile_def Let_def)

text \<open>The guards of the lifecycle accept exactly receipts of the phase and of one application generation.\<close>

lemma proxy_guards_exact:
  "require_phase r p = Inr u \<longleftrightarrow> pr_phase r = p"
  "require_same_application_generation l r = Inr u \<longleftrightarrow>
    pg_application_generation_sha256 (pr_generation l) = pg_application_generation_sha256 (pr_generation r)"
  by (auto simp: require_phase_def require_same_application_generation_def)

section \<open>Example\<close>

definition sample_package :: package_manifest where
  "sample_package =
     \<lparr>pm_spec_version = 1, pm_name = ''auth'', pm_version = ''1.2.3'',
      pm_semantic_contract_sha256 = replicate 64 (CHR ''a''), pm_phases = [], pm_capabilities = [],
      pm_artifacts =
        [\<lparr>ad_id = ''js'', ad_language = ''typescript'', ad_kind = JavaScriptModule, ad_profile = PortableJavaScript,
          ad_provider = GenericProvider, ad_path = ''dist/js'',
          ad_semantic_contract_sha256 = replicate 64 (CHR ''a'')\<rparr>,
         \<lparr>ad_id = ''cf'', ad_language = ''typescript'', ad_kind = JavaScriptModule, ad_profile = PortableJavaScript,
          ad_provider = CloudflareProvider, ad_path = ''dist/cf'',
          ad_semantic_contract_sha256 = replicate 64 (CHR ''a'')\<rparr>]\<rparr>"

lemma sample_package_selects:
  "map_option ad_id (select_artifact sample_package CloudflareProvider [PortableJavaScript]) = Some ''cf''"
  "map_option ad_id (select_artifact sample_package CaddyProvider [PortableJavaScript]) = Some ''js''"
proof -
  have "trim v = v" if "v \<in> {''auth'', ''1.2.3'', ''typescript'', ''dist/js'', ''dist/cf''}" for v
    using that by (intro trim_visible) (auto simp: visible_def)
  then have "package_typed sample_package"
    by (simp add: package_typed_def sample_package_def artifact_typed_def is_sha256_hex_def list_all_iff)
  then show "map_option ad_id (select_artifact sample_package CloudflareProvider [PortableJavaScript]) = Some ''cf''"
    "map_option ad_id (select_artifact sample_package CaddyProvider [PortableJavaScript]) = Some ''js''"
    by (simp_all add: select_artifact_def validate_package_exact) (simp_all add: sample_package_def)
qed

end
