(* ===== verification/Contract_Stages.thy ===== *)
theory Contract_Stages
  imports Security Bootstrap Lambda
begin

text \<open>
  The boundaries around a handler that are small: the stage that validates decoded payloads
  (\<^verbatim>\<open>validation.rs\<close>), the answer of the router to unmatched requests (\<^verbatim>\<open>fallthrough.rs\<close>), the limits on
  payloads (\<^verbatim>\<open>payload.rs\<close>), the descriptor of the crate (\<^verbatim>\<open>lib.rs\<close>) and the conversion of configuration errors
  (\<^verbatim>\<open>compat.rs\<close>).
\<close>

section \<open>The validation stage\<close>

record contract_violation =
  cv_path :: string
  cv_code :: string

text \<open>A validator is an action on the world with the violations it finds.\<close>

type_synonym ('j, 'w) request_contract_validator =
  "'j stage_input \<Rightarrow> 'w \<Rightarrow> (contract_violation list, unit) result \<times> 'w"

definition validation_request :: "('j, 'w) request_contract_validator \<Rightarrow> 'j stage_input \<Rightarrow> 'w \<Rightarrow> 'j stage_decision \<times> 'w" where
  "validation_request validator i w =
     (case validator i w of
        (Inr _, w) \<Rightarrow> (Continue i, w)
      | (Inl violations, w) \<Rightarrow>
          (Reject (rejection_with_header
             (rejection_new 422 ''request_contract_invalid''
               ''decoded request payload does not satisfy the selected contract'')
             ''x-ores-validation-error-count'' (show_nat (length violations))), w))"

definition validation_stage :: "('j, 'w) request_contract_validator \<Rightarrow> ('j, 'w) stage_handler" where
  "validation_stage validator =
     \<lparr>sh_name = ''request-contract-validation'', sh_request = validation_request validator,
      sh_response = default_response\<rparr>"

text \<open>A validator that only looks is a gate.\<close>

definition contract_holds :: "('j stage_input \<Rightarrow> (contract_violation list, unit) result) \<Rightarrow> 'j stage_input \<Rightarrow> bool" where
  "contract_holds v i \<longleftrightarrow> v i = Inr ()"

interpretation validation: gate_stage "validation_stage (\<lambda>i w. (v i, w))" "contract_holds v" for v
  by unfold_locales
    (auto simp: validation_stage_def validation_request_def contract_holds_def split: sum.splits)

section \<open>The final answer of a router\<close>

definition unmatched_route_error_code :: string where "unmatched_route_error_code = ''ores.route.unmatched''"
definition unmatched_route_problem_type :: string where
  "unmatched_route_problem_type = ''urn:ores:error:route-unmatched''"
definition unmatched_route_title :: string where "unmatched_route_title = ''No route matched''"
definition unmatched_route_detail :: string where
  "unmatched_route_detail = ''The request target is not handled by this server.''"

datatype fallthrough_status_mode = FallthroughNotFound | MisdirectedAuthority

definition fallthrough_status_code :: "fallthrough_status_mode \<Rightarrow> u16" where
  "fallthrough_status_code m = (case m of FallthroughNotFound \<Rightarrow> 404 | MisdirectedAuthority \<Rightarrow> 421)"

record fallthrough_config =
  fc_status_mode :: fallthrough_status_mode

definition default_fallthrough :: fallthrough_config where
  "default_fallthrough = \<lparr>fc_status_mode = FallthroughNotFound\<rparr>"

definition misdirected_authority :: fallthrough_config where
  "misdirected_authority = \<lparr>fc_status_mode = MisdirectedAuthority\<rparr>"

record fallthrough_response =
  ft_status :: u16
  ft_headers :: "(string \<times> string) list"
  ft_body :: bytes

definition unmatched_problem :: "'j json_codec \<Rightarrow> u16 \<Rightarrow> bytes option" where
  "unmatched_problem jc status =
     jc_struct_to_vec jc
       [(''type'', jc_string jc unmatched_route_problem_type), (''title'', jc_string jc unmatched_route_title),
        (''status'', jc_number jc (unat status)), (''code'', jc_string jc unmatched_route_error_code),
        (''detail'', jc_string jc unmatched_route_detail)]"

text \<open>\<^const>\<open>None\<close> is the panic when the document cannot be encoded.\<close>

definition final_fallthrough_response ::
    "'j json_codec \<Rightarrow> string \<Rightarrow> fallthrough_config \<Rightarrow> fallthrough_response option" where
  "final_fallthrough_response jc verb config =
     (let status = fallthrough_status_code (fc_status_mode config) in
      map_option (\<lambda>encoded.
        \<lparr>ft_status = status,
         ft_headers =
           [(''content-type'', ''application/problem+json; charset=utf-8''), (''cache-control'', ''no-store''),
            (''x-content-type-options'', ''nosniff''), (''content-length'', show_nat (length encoded))],
         ft_body = (if verb = ''HEAD'' then [] else encoded)\<rparr>)
        (unmatched_problem jc status))"

section \<open>Payloads\<close>

definition rpc_payload_policy_schema :: string where "rpc_payload_policy_schema = ''ores.rpc-payload-policy/v1''"

datatype payload_codec = JsonCodec | MessagepackCodec | CborCodec | ProtobufCodec | RawCodec

definition codec_wire_name :: "payload_codec \<Rightarrow> string" where
  "codec_wire_name c =
     (case c of JsonCodec \<Rightarrow> ''json'' | MessagepackCodec \<Rightarrow> ''messagepack'' | CborCodec \<Rightarrow> ''cbor''
      | ProtobufCodec \<Rightarrow> ''protobuf'' | RawCodec \<Rightarrow> ''raw'')"

definition requires_opaque_byte_preservation :: "payload_codec \<Rightarrow> bool" where
  "requires_opaque_byte_preservation c \<longleftrightarrow> c \<in> {ProtobufCodec, RawCodec}"

datatype transport_framing = HttpBodyFraming | TcpLengthDelimited | WebsocketMessage

definition framing_wire_name :: "transport_framing \<Rightarrow> string" where
  "framing_wire_name f =
     (case f of HttpBodyFraming \<Rightarrow> ''http_body'' | TcpLengthDelimited \<Rightarrow> ''tcp_length_delimited''
      | WebsocketMessage \<Rightarrow> ''websocket_message'')"

record payload_metadata =
  pl_codec :: payload_codec
  pl_framing :: transport_framing
  pl_media_type :: "string option"
  pl_encoded_bytes :: nat
  pl_decoded_bytes :: "nat option"
  pl_preserve_opaque_bytes :: bool

definition validate_payload :: "payload_metadata \<Rightarrow> nat \<Rightarrow> nat \<Rightarrow> (string, unit) result" where
  "validate_payload p max_encoded_bytes max_decoded_bytes =
     (if max_encoded_bytes = 0 \<or> max_decoded_bytes = 0 then Inl ''payload limits must be positive''
      else if pl_encoded_bytes p > max_encoded_bytes then Inl ''encoded payload exceeds configured limit''
      else if (case pl_decoded_bytes p of None \<Rightarrow> False | Some v \<Rightarrow> v > max_decoded_bytes) then
        Inl ''decoded payload exceeds configured limit''
      else if requires_opaque_byte_preservation (pl_codec p) \<and> \<not> pl_preserve_opaque_bytes p then
        Inl ''protobuf/raw payloads require opaque-byte preservation''
      else Inr ())"

section \<open>The crate\<close>

definition middleware_capability_names :: "string list" where
  "middleware_capability_names =
     [''request-context'', ''panic-recovery'', ''request-id'', ''trace-context'', ''structured-logging'',
      ''metrics-red'', ''deadline-timeout'', ''payload-limit'', ''rate-limit'', ''auth'', ''sync-observer'',
      ''json'', ''headers'', ''compression'', ''tls-policy'', ''security-headers'', ''idempotency'', ''ip-policy'',
      ''cache-etag'', ''content-negotiation'', ''fault-injection'', ''test-auth-bypass'', ''schema-capture'']"

record adapter_descriptor =
  dsc_contract_version :: string
  dsc_language :: string
  dsc_runtime :: string
  dsc_package_name :: string
  dsc_framework_adapters :: "string list"
  dsc_capabilities :: "string list"
  dsc_operation_symbols :: "(string, string) btree_map"

definition crate_descriptor :: adapter_descriptor where
  "crate_descriptor =
     \<lparr>dsc_contract_version = contract_version, dsc_language = ''rust'', dsc_runtime = ''tokio'',
      dsc_package_name = ''ores-middleware'',
      dsc_framework_adapters = [''axum'', ''mash'', ''leptos'', ''dioxus''],
      dsc_capabilities = middleware_capability_names,
      dsc_operation_symbols = bt_collect
        [(''descriptor'', ''descriptor''), (''defaultConfig'', ''default_config''),
         (''validateConfig'', ''validate_config''), (''createMiddleware'', ''MiddlewareStack::new''),
         (''runWithContext'', ''run_with_context''), (''currentContext'', ''current_context''),
         (''capabilities'', ''capabilities'')]\<rparr>"

text \<open>The error of the standard library that a bootstrap error becomes.\<close>

datatype io_error_kind = InvalidInput

record io_error =
  io_kind :: io_error_kind
  io_source :: bootstrap_error

definition io_error_from :: "bootstrap_error \<Rightarrow> io_error" where
  "io_error_from e = \<lparr>io_kind = InvalidInput, io_source = e\<rparr>"

section \<open>What the boundaries guarantee\<close>

text \<open>Behind the validation stage nothing runs for a payload that breaks its contract, and the answer counts.\<close>

lemma validation_blocks:
  "\<not> contract_holds v i \<Longrightarrow> short_circuits (validation_stage (\<lambda>i w. (v i, w)) # stages) i w"
  by (rule validation.blocks)

lemma validation_answer:
  "validation_request (\<lambda>i w. (v i, w)) i w =
    (case v i of
       Inr _ \<Rightarrow> (Continue i, w)
     | Inl violations \<Rightarrow>
         (Reject \<lparr>sj_status = 422, sj_code = ''request_contract_invalid'',
            sj_message = ''decoded request payload does not satisfy the selected contract'',
            sj_headers = [(''x-ores-validation-error-count'', show_nat (length violations))]\<rparr>, w))"
  by (simp add: validation_request_def rejection_with_header_def rejection_new_def split: sum.split)

text \<open>
  The final answer of a router depends on the method only through the body, which HEAD leaves out: status
  and headers, the length of the body a GET would get included, are the same for every method, and
  nothing of the request is in the answer.
\<close>

lemma fallthrough_head_like_get:
  "map_option (\<lambda>r. r\<lparr>ft_body := (if verb = ''HEAD'' then [] else ft_body r)\<rparr>)
     (final_fallthrough_response jc ''GET'' config) = final_fallthrough_response jc verb config \<and>
   (case final_fallthrough_response jc ''GET'' config of
      None \<Rightarrow> unmatched_problem jc (fallthrough_status_code (fc_status_mode config)) = None
    | Some r \<Rightarrow> ft_status r \<in> {404, 421} \<and>
        map_of (ft_headers r) ''content-length'' = Some (show_nat (length (ft_body r))) \<and>
        map_of (ft_headers r) ''cache-control'' = Some ''no-store'')"
  by (cases "unmatched_problem jc (fallthrough_status_code (fc_status_mode config))"; cases "fc_status_mode config")
    (simp_all add: final_fallthrough_response_def Let_def fallthrough_status_code_def)

lemma validate_payload_exact:
  "validate_payload p e d = Inr () \<longleftrightarrow>
    0 < e \<and> 0 < d \<and> pl_encoded_bytes p \<le> e \<and> pred_option (\<lambda>v. v \<le> d) (pl_decoded_bytes p) \<and>
    (requires_opaque_byte_preservation (pl_codec p) \<longrightarrow> pl_preserve_opaque_bytes p)"
  by (auto simp: validate_payload_def not_less split: option.splits)

text \<open>The wire names are injective, so a name determines its codec and its framing.\<close>

lemma wire_names_injective:
  "codec_wire_name a = codec_wire_name b \<longleftrightarrow> a = b" "framing_wire_name f = framing_wire_name g \<longleftrightarrow> f = g"
  by (cases a; cases b; simp add: codec_wire_name_def) (cases f; cases g; simp add: framing_wire_name_def)

text \<open>The callback boundary claims only capabilities that the crate has.\<close>

lemma lambda_capabilities_claimed:
  "list_all (\<lambda>c. List.member middleware_capability_names c) lambda_invocation_capabilities"
  by code_simp

end
