(* ===== verification/Telemetry.thy ===== *)
theory Telemetry
  imports Context_Registry Float64 Config_Discovery Stage
begin

text \<open>
  Telemetry of the server, \<^verbatim>\<open>src/src/rust/src/otel.rs\<close>: whether and where traces are exported, which traces
  are sampled, what a log context holds, and the loggers of requests; and the ambient request context of
  \<^verbatim>\<open>context.rs\<close>.

  Loggers, transports, events, the parser of URIs and the carrier of contexts are those of other packages. What
  this code reads of their values is a record, what it calls is an argument.
\<close>

section \<open>Errors and data\<close>

datatype ('c, 'g) server_otel_error =
    OtelConfig 'c
  | ServiceNameMismatch string string
  | UnsupportedAutoSend
  | MissingExporterEndpointEnv
  | MissingExporterEndpoint string
  | InvalidExporterEndpoint string
  | MissingOpenTelemetryTransport
  | OtelLogger 'g

definition server_otel_error_display ::
    "(string \<Rightarrow> string) \<Rightarrow> ('c \<Rightarrow> string) \<Rightarrow> ('g \<Rightarrow> string) \<Rightarrow> ('c, 'g) server_otel_error \<Rightarrow> string" where
  "server_otel_error_display dbg show_config show_logger e =
     (case e of
        OtelConfig c \<Rightarrow> ''invalid .ores-otel.toml runtime: '' @ show_config c
      | ServiceNameMismatch expected actual \<Rightarrow>
          ''resolved telemetry service_name '' @ dbg actual @ '' does not match process service '' @ dbg expected
      | UnsupportedAutoSend \<Rightarrow>
          ''logging.auto_send=true is not supported by the Rust middleware request logger''
      | MissingExporterEndpointEnv \<Rightarrow>
          ''an OTLP exporter protocol requires exporter.endpoint_env to name the endpoint environment variable''
      | MissingExporterEndpoint name \<Rightarrow>
          ''OTLP exporter endpoint environment variable '' @ name @ '' is missing or blank''
      | InvalidExporterEndpoint reason \<Rightarrow> ''invalid OTLP exporter endpoint: '' @ reason
      | MissingOpenTelemetryTransport \<Rightarrow>
          ''an OTLP exporter protocol requires an explicit application-owned OpenTelemetry transport''
      | OtelLogger g \<Rightarrow> ''telemetry logger error: '' @ show_logger g)"

datatype ('c, 'g) otel_error_source = ConfigSource 'c | LoggerSource 'g

definition server_otel_error_source :: "('c, 'g) server_otel_error \<Rightarrow> ('c, 'g) otel_error_source option" where
  "server_otel_error_source e =
     (case e of OtelConfig c \<Rightarrow> Some (ConfigSource c) | OtelLogger g \<Rightarrow> Some (LoggerSource g) | _ \<Rightarrow> None)"

datatype otel_log_level = OtelTrace | OtelDebug | OtelInfo | OtelWarn | OtelError | OtelFatal

datatype log_level = TraceLevel | DebugLevel | InfoLevel | WarnLevel | ErrorLevel | FatalLevel

definition log_level_of :: "otel_log_level \<Rightarrow> log_level" where
  "log_level_of l =
     (case l of OtelTrace \<Rightarrow> TraceLevel | OtelDebug \<Rightarrow> DebugLevel | OtelInfo \<Rightarrow> InfoLevel | OtelWarn \<Rightarrow> WarnLevel
      | OtelError \<Rightarrow> ErrorLevel | OtelFatal \<Rightarrow> FatalLevel)"

text \<open>What is read of a resolved configuration; a protocol of \<^const>\<open>None\<close> exports nothing.\<close>

record otel_config =
  oc_service_name :: "string option"
  oc_enabled :: bool
  oc_logging_enabled :: bool
  oc_auto_send :: bool
  oc_level :: otel_log_level
  oc_console :: bool
  oc_tracing_enabled :: bool
  oc_sample_ratio :: f64
  oc_protocol :: "string option"
  oc_endpoint_env :: "string option"

record 't logger_options =
  lo_app_name :: string
  lo_name :: "string option"
  lo_max_level :: log_level
  lo_console :: bool
  lo_transports :: "'t list"
  lo_otel_enabled :: bool

record 'l server_otel_runtime =
  sor_config :: otel_config
  sor_logger :: "'l option"
  sor_exporter_endpoint :: "string option"

text \<open>What is read of a parsed URI.\<close>

record uri_view =
  uv_scheme :: "string option"
  uv_authority :: "string option"
  uv_query :: "string option"

text \<open>The logging package.\<close>

record ('l, 't, 'c, 'g, 'o, 'w) otel_ops =
  ot_parse_uri :: "string \<Rightarrow> uri_view option"
  ot_resolve_endpoint :: "otel_config \<Rightarrow> (string \<Rightarrow> string option) \<Rightarrow> string option"
  ot_is_open_telemetry :: "'t \<Rightarrow> bool"
  ot_logger_new :: "'t logger_options \<Rightarrow> 'l"
  ot_logger_close :: "'l \<Rightarrow> 'w \<Rightarrow> ('g, unit) result \<times> 'w"
  ot_set_server_role :: "'o \<Rightarrow> 'o"
  ot_effective_env :: "'o \<Rightarrow> string \<Rightarrow> string option"
  ot_load :: "'o \<Rightarrow> ('c, otel_config) result"
  ot_process_options :: 'o

section \<open>The runtime\<close>

definition runtime_close ::
    "('l, 't, 'c, 'g, 'o, 'w) otel_ops \<Rightarrow> 'l server_otel_runtime \<Rightarrow> 'w \<Rightarrow>
     (('c, 'g) server_otel_error, unit) result \<times> 'w" where
  "runtime_close ops rt w =
     (case sor_logger rt of
        None \<Rightarrow> (Inr (), w)
      | Some logger \<Rightarrow>
          (case ot_logger_close ops logger w of
             (Inl g, w) \<Rightarrow> (Inl (OtelLogger g), w)
           | (Inr _, w) \<Rightarrow> (Inr (), w)))"

definition validate_exporter_endpoint ::
    "('l, 't, 'c, 'g, 'o, 'w) otel_ops \<Rightarrow> string \<Rightarrow> (('c, 'g) server_otel_error, unit) result" where
  "validate_exporter_endpoint ops raw =
     (if raw = [] \<or> has_control raw \<or> has_whitespace raw then
        Inl (InvalidExporterEndpoint ''endpoint must be non-empty and contain no whitespace/control characters'')
      else if CHR ''#'' \<in> set raw then Inl (InvalidExporterEndpoint ''fragments are forbidden'')
      else
        bind_result (ok_or (InvalidExporterEndpoint ''expected an absolute URI'') (ot_parse_uri ops raw)) (\<lambda>uri.
        if uv_scheme uri \<notin> {Some ''http'', Some ''https''} then
          Inl (InvalidExporterEndpoint ''only http and https schemes are supported'')
        else
          bind_result (ok_or (InvalidExporterEndpoint ''a host authority is required'') (uv_authority uri))
            (\<lambda>authority.
              if CHR ''@'' \<in> set authority then
                Inl (InvalidExporterEndpoint ''embedded credentials/userinfo are forbidden'')
              else if uv_query uri \<noteq> None then Inl (InvalidExporterEndpoint ''query strings are forbidden'')
              else Inr ())))"

definition exporter_endpoint_of ::
    "('l, 't, 'c, 'g, 'o, 'w) otel_ops \<Rightarrow> otel_config \<Rightarrow> (string \<Rightarrow> string option) \<Rightarrow> 't list \<Rightarrow>
     (('c, 'g) server_otel_error, string option) result" where
  "exporter_endpoint_of ops config environment transports =
     (if oc_enabled config \<and> oc_tracing_enabled config \<and> oc_protocol config \<noteq> None then
        bind_result (ok_or MissingExporterEndpointEnv (oc_endpoint_env config)) (\<lambda>endpoint_env.
        bind_result (ok_or (MissingExporterEndpoint endpoint_env) (ot_resolve_endpoint ops config environment))
          (\<lambda>endpoint.
        bind_result (validate_exporter_endpoint ops endpoint) (\<lambda>_.
        if \<not> list_ex (ot_is_open_telemetry ops) transports then Inl MissingOpenTelemetryTransport
        else Inr (Some endpoint))))
      else Inr None)"

definition server_otel_runtime_from_resolved ::
    "('l, 't, 'c, 'g, 'o, 'w) otel_ops \<Rightarrow> otel_config \<Rightarrow> (string \<Rightarrow> string option) \<Rightarrow> string \<Rightarrow>
     string option \<Rightarrow> 't list \<Rightarrow> (('c, 'g) server_otel_error, 'l server_otel_runtime) result" where
  "server_otel_runtime_from_resolved ops config environment expected logger_name transports =
     (case (case oc_service_name config of
              None \<Rightarrow> None
            | Some actual \<Rightarrow> if actual \<noteq> expected then Some (ServiceNameMismatch expected actual) else None) of
        Some e \<Rightarrow> Inl e
      | None \<Rightarrow>
          if oc_auto_send config then Inl UnsupportedAutoSend
          else
            bind_result (exporter_endpoint_of ops config environment transports) (\<lambda>exporter_endpoint.
              Inr \<lparr>sor_config = config,
                   sor_logger =
                     (if oc_enabled config \<and> oc_logging_enabled config then
                        Some (ot_logger_new ops
                          \<lparr>lo_app_name = expected, lo_name = logger_name, lo_max_level = log_level_of (oc_level config),
                           lo_console = oc_console config, lo_transports = transports,
                           lo_otel_enabled = oc_tracing_enabled config\<rparr>)
                      else None),
                   sor_exporter_endpoint = exporter_endpoint\<rparr>))"

definition load_server_otel_runtime ::
    "('l, 't, 'c, 'g, 'o, 'w) otel_ops \<Rightarrow> string \<Rightarrow> string option \<Rightarrow> 'o \<Rightarrow> 't list \<Rightarrow>
     (('c, 'g) server_otel_error, 'l server_otel_runtime) result" where
  "load_server_otel_runtime ops expected logger_name options transports =
     (let options = ot_set_server_role ops options;
          environment = ot_effective_env ops options in
      case ot_load ops options of
        Inl c \<Rightarrow> Inl (OtelConfig c)
      | Inr config \<Rightarrow>
          server_otel_runtime_from_resolved ops config environment expected logger_name transports)"

definition load_server_otel_runtime_from_process_env ::
    "('l, 't, 'c, 'g, 'o, 'w) otel_ops \<Rightarrow> string \<Rightarrow> string option \<Rightarrow> 't list \<Rightarrow>
     (('c, 'g) server_otel_error, 'l server_otel_runtime) result" where
  "load_server_otel_runtime_from_process_env ops expected logger_name transports =
     load_server_otel_runtime ops expected logger_name (ot_process_options ops) transports"

section \<open>Sampling\<close>

definition u64_from_be_bytes :: "bytes \<Rightarrow> u64" where
  "u64_from_be_bytes bs = of_nat (foldl (\<lambda>n b. 256 * n + code_of b) 0 bs)"

text \<open>\<open>u64::MAX as f64\<close> rounds to \<open>2 ^ 64\<close>.\<close>

definition should_sample_trace :: "(bytes \<Rightarrow> bytes) \<Rightarrow> rounding_fn \<Rightarrow> string \<Rightarrow> f64 \<Rightarrow> bool" where
  "should_sample_trace sha256 rnd trace_id sample_ratio =
     (if fle sample_ratio (Fin 0) then False
      else if fle (Fin 1) sample_ratio then True
      else
        let bucket = u64_from_be_bytes (take 8 (sha256 trace_id));
            threshold = saturating_cast (fmul rnd sample_ratio (Fin (2 ^ 64)))
        in bucket \<le> threshold)"

section \<open>Log contexts\<close>

record 'j log_context =
  lg_logged_in_user :: "(string, 'j) btree_map"
  lg_fields :: "(string, 'j) btree_map"
  lg_trace_id :: "string option"
  lg_trace_ids :: "string list"
  lg_span_id :: "string option"
  lg_baggage :: "(string, string) btree_map"
  lg_routine_id :: "string option"
  lg_tags :: "string list"

text \<open>The context before the package brings it into its normal form.\<close>

definition raw_log_context :: "'j json_codec \<Rightarrow> request_context \<Rightarrow> 'j log_context" where
  "raw_log_context jc c =
     (let fields = bt_collect (concat
            [[(''request.id'', jc_string jc (rc_request_id c))],
             [(''trace.id'', jc_string jc (rc_trace_id c))],
             [(''request.started_at_unix_ms'', jc_number jc (unat (rc_started_at_unix_ms c)))],
             opt_list (map_option (\<lambda>v. (''user.id'', jc_string jc v)) (rc_user_id c)),
             opt_list (map_option (\<lambda>v. (''tenant.id'', jc_string jc v)) (rc_tenant_id c)),
             opt_list (map_option (\<lambda>v. (''request.locale'', jc_string jc v)) (rc_locale c)),
             opt_list (map_option (\<lambda>v. (''request.deadline_unix_ms'', jc_number jc (unat v)))
               (rc_deadline_unix_ms c))]);
          logged_in_user =
            (case rc_user_id c of None \<Rightarrow> [] | Some v \<Rightarrow> bt_collect [(''id'', jc_string jc v)]);
          baggage = bt_collect (filter (\<lambda>kv. starts_with ''otel.'' (fst kv)) (rc_baggage c));
          trace_ids = (if rc_trace_id c = [] then [] else [rc_trace_id c])
      in \<lparr>lg_logged_in_user = logged_in_user, lg_fields = fields,
          lg_trace_id = then_some (rc_trace_id c \<noteq> []) (rc_trace_id c), lg_trace_ids = trace_ids,
          lg_span_id = rc_span_id c, lg_baggage = baggage, lg_routine_id = Some (rc_request_id c),
          lg_tags = [''ores-middleware'', ''request'']\<rparr>)"

definition to_ores_log_context ::
    "('j log_context \<Rightarrow> 'j log_context) \<Rightarrow> 'j json_codec \<Rightarrow> request_context \<Rightarrow> 'j log_context" where
  "to_ores_log_context normalized jc c = normalized (raw_log_context jc c)"

section \<open>Loggers of requests\<close>

record ('l, 'j) request_logger =
  rl_logger :: 'l
  rl_context :: "'j log_context"
  rl_otel_sampled :: bool

definition request_logger_with_sampling ::
    "('j log_context \<Rightarrow> 'j log_context) \<Rightarrow> 'j json_codec \<Rightarrow> (bytes \<Rightarrow> bytes) \<Rightarrow> rounding_fn \<Rightarrow> 'l \<Rightarrow>
     request_context \<Rightarrow> bool \<Rightarrow> f64 \<Rightarrow> ('l, 'j) request_logger" where
  "request_logger_with_sampling normalized jc sha256 rnd logger c tracing_enabled sample_ratio =
     \<lparr>rl_logger = logger, rl_context = to_ores_log_context normalized jc c,
      rl_otel_sampled = (tracing_enabled \<and> should_sample_trace sha256 rnd (rc_trace_id c) sample_ratio)\<rparr>"

definition request_logger_new ::
    "('j log_context \<Rightarrow> 'j log_context) \<Rightarrow> 'j json_codec \<Rightarrow> (bytes \<Rightarrow> bytes) \<Rightarrow> rounding_fn \<Rightarrow> 'l \<Rightarrow>
     request_context \<Rightarrow> ('l, 'j) request_logger" where
  "request_logger_new normalized jc sha256 rnd logger c =
     request_logger_with_sampling normalized jc sha256 rnd logger c True (Fin 1)"

text \<open>Events of the logging package: one of a level, decorated with a context, and marked for export.\<close>

record ('l, 'j, 'ev) event_ops =
  ev_log :: "'l \<Rightarrow> log_level \<Rightarrow> 'j list \<Rightarrow> 'ev"
  ev_apply_context :: "'ev \<Rightarrow> 'j log_context \<Rightarrow> 'ev"
  ev_with_otel :: "'ev \<Rightarrow> bool \<Rightarrow> 'ev"

definition request_event :: "('l, 'j, 'ev) event_ops \<Rightarrow> ('l, 'j) request_logger \<Rightarrow> log_level \<Rightarrow> 'j list \<Rightarrow> 'ev" where
  "request_event ops l level vs =
     ev_with_otel ops (ev_apply_context ops (ev_log ops (rl_logger l) level vs) (rl_context l)) (rl_otel_sampled l)"

section \<open>The ambient context\<close>

text \<open>
  The carrier of the package: the context and the session it holds, and the poll of a future under an exact
  frame, which the package removes again behind the poll.
\<close>

record ('lc, 'p, 'w) context_carrier =
  ca_current :: "'w \<Rightarrow> canonical_context option"
  ca_capture :: "'w \<Rightarrow> canonical_context option"
  ca_with_captured :: "'lc \<Rightarrow> ('w \<Rightarrow> 'p \<times> 'w) \<Rightarrow> 'w \<Rightarrow> 'p \<times> 'w"
  ca_with_request :: "canonical_context \<Rightarrow> ('w \<Rightarrow> 'p \<times> 'w) \<Rightarrow> 'w \<Rightarrow> 'p \<times> 'w"
  ca_to_log_context :: "canonical_context \<Rightarrow> 'lc"
  ca_default :: 'lc

definition current_context :: "('lc, 'p, 'w) context_carrier \<Rightarrow> 'w \<Rightarrow> request_context option" where
  "current_context ca w = map_option from_canonical (ca_current ca w)"

definition capture_request_context :: "('lc, 'p, 'w) context_carrier \<Rightarrow> 'w \<Rightarrow> request_context option" where
  "capture_request_context ca w = map_option from_canonical (ca_capture ca w)"

definition current_trace_id :: "('lc, 'p, 'w) context_carrier \<Rightarrow> 'w \<Rightarrow> string option" where
  "current_trace_id ca w = opt_filter (\<lambda>v. v \<noteq> []) (map_option rc_trace_id (current_context ca w))"

text \<open>One poll of a future under a context that the package merges with the one of the caller.\<close>

definition poll_with_context ::
    "('lc, 'p, 'w) context_carrier \<Rightarrow> request_context \<Rightarrow> ('f \<Rightarrow> 'w \<Rightarrow> 'p \<times> 'w) \<Rightarrow> 'f \<Rightarrow> 'w \<Rightarrow> 'p \<times> 'w" where
  "poll_with_context ca c poll f w = ca_with_request ca (to_canonical c) (poll f) w"

text \<open>One poll of the future of a captured context.\<close>

definition exact_poll ::
    "('lc, 'p, 'w) context_carrier \<Rightarrow> 'lc \<Rightarrow> ('f \<Rightarrow> 'w \<Rightarrow> 'p \<times> 'w) \<Rightarrow> 'f \<Rightarrow> 'w \<Rightarrow> 'p \<times> 'w" where
  "exact_poll ca frame poll f w = ca_with_captured ca frame (poll f) w"

definition captured_frame :: "('lc, 'p, 'w) context_carrier \<Rightarrow> request_context option \<Rightarrow> 'lc" where
  "captured_frame ca c =
     (case c of None \<Rightarrow> ca_default ca | Some c \<Rightarrow> ca_to_log_context ca (to_canonical c))"

definition poll_with_captured_context ::
    "('lc, 'p, 'w) context_carrier \<Rightarrow> request_context option \<Rightarrow> ('f \<Rightarrow> 'w \<Rightarrow> 'p \<times> 'w) \<Rightarrow> 'f \<Rightarrow> 'w \<Rightarrow> 'p \<times> 'w" where
  "poll_with_captured_context ca c = exact_poll ca (captured_frame ca c)"

section \<open>What is exported, and where\<close>

definition endpoint_safe :: "('l, 't, 'c, 'g, 'o, 'w) otel_ops \<Rightarrow> string \<Rightarrow> bool" where
  "endpoint_safe ops raw \<longleftrightarrow>
     raw \<noteq> [] \<and> \<not> has_control raw \<and> \<not> has_whitespace raw \<and> CHR ''#'' \<notin> set raw \<and>
     (\<exists>uri authority. ot_parse_uri ops raw = Some uri \<and> uv_scheme uri \<in> {Some ''http'', Some ''https''} \<and>
        uv_authority uri = Some authority \<and> CHR ''@'' \<notin> set authority \<and> uv_query uri = None)"

lemma validate_exporter_endpoint_exact: "validate_exporter_endpoint ops raw = Inr u \<longleftrightarrow> endpoint_safe ops raw"
proof (cases "ot_parse_uri ops raw")
  case (Some uri)
  then show ?thesis
    by (cases "uv_authority uri") (simp_all add: validate_exporter_endpoint_def endpoint_safe_def ok_or_def)
qed (simp add: validate_exporter_endpoint_def endpoint_safe_def ok_or_def)

definition exports :: "otel_config \<Rightarrow> bool" where
  "exports config \<longleftrightarrow> oc_enabled config \<and> oc_tracing_enabled config \<and> oc_protocol config \<noteq> None"

lemma exporter_endpoint_exact:
  "exporter_endpoint_of ops config environment transports = Inr endpoint \<longleftrightarrow>
    (if exports config then
       oc_endpoint_env config \<noteq> None \<and> list_ex (ot_is_open_telemetry ops) transports \<and> 
       (\<exists>e. endpoint = Some e \<and> ot_resolve_endpoint ops config environment = Some e \<and> endpoint_safe ops e)
     else endpoint = None)"
  by (auto simp: exporter_endpoint_of_def exports_def bind_result_Inr ok_or_def validate_exporter_endpoint_exact
      split: option.splits)

text \<open>
  A telemetry runtime exists exactly for the service it was configured for and without automatic sending; it
  exports exactly when telemetry, tracing and a protocol are enabled, and then only to the configured
  endpoint, which is plain HTTP or HTTPS without credentials, query or fragment, and through a transport
  that the application owns; it logs exactly when logging is enabled, at the configured level.
\<close>

theorem telemetry_runtime_exact:
  "server_otel_runtime_from_resolved ops config environment expected logger_name transports = Inr rt \<longleftrightarrow>
    oc_service_name config \<in> {None, Some expected} \<and> \<not> oc_auto_send config \<and> sor_config rt = config \<and>
    (if exports config then
       oc_endpoint_env config \<noteq> None \<and> list_ex (ot_is_open_telemetry ops) transports \<and>
       (\<exists>e. sor_exporter_endpoint rt = Some e \<and> ot_resolve_endpoint ops config environment = Some e \<and>
          endpoint_safe ops e)
     else sor_exporter_endpoint rt = None) \<and>
    sor_logger rt =
      (if oc_enabled config \<and> oc_logging_enabled config then
         Some (ot_logger_new ops
           \<lparr>lo_app_name = expected, lo_name = logger_name, lo_max_level = log_level_of (oc_level config),
            lo_console = oc_console config, lo_transports = transports, lo_otel_enabled = oc_tracing_enabled config\<rparr>)
       else None)"
  by (cases rt)
    (auto simp: server_otel_runtime_from_resolved_def bind_result_Inr exporter_endpoint_exact split: option.splits)

section \<open>Sampling is consistent\<close>

lemma saturating_cast_mono:
  assumes "fle x y"
  shows "(saturating_cast x :: 'a::len word) \<le> saturating_cast y"
proof (cases x; cases y)
  fix a b
  assume xy: "x = Fin a" "y = Fin b"
  with assms have ab: "a \<le> b" by simp
  show ?thesis
  proof (cases "0 < a \<and> b < 2 ^ LENGTH('a)")
    case True
    then have "\<lfloor>b\<rfloor> < 2 ^ LENGTH('a)" "0 \<le> \<lfloor>a\<rfloor>" "\<lfloor>a\<rfloor> \<le> \<lfloor>b\<rfloor>" using ab by (simp_all add: floor_less_iff floor_mono)
    then have "uint (of_int \<lfloor>a\<rfloor> :: 'a word) = \<lfloor>a\<rfloor>" "uint (of_int \<lfloor>b\<rfloor> :: 'a word) = \<lfloor>b\<rfloor>"
      unfolding uint_word_of_int by (intro mod_pos_pos_trivial; linarith)+
    then have "(of_int \<lfloor>a\<rfloor> :: 'a word) \<le> of_int \<lfloor>b\<rfloor>" using \<open>\<lfloor>a\<rfloor> \<le> \<lfloor>b\<rfloor>\<close> by (simp add: word_le_def)
    with True ab show ?thesis by (simp add: xy saturating_cast_def)
  next
    case False
    with ab show ?thesis by (auto simp: xy saturating_cast_def)
  qed
qed (use assms in \<open>auto simp: saturating_cast_def\<close>)

text \<open>
  C39. Sampling decides by the trace alone and consistently: no trace is sampled at a ratio of zero or below, every
  one at one or above, and a trace that is sampled at a ratio is sampled at every larger one, so that
  services with different ratios never export a part of a trace that a more willing service lacks.
\<close>

theorem sampling_monotone:
  assumes "rounding rnd" "fle r r'"
  shows "(should_sample_trace sha256 rnd t r \<longrightarrow> should_sample_trace sha256 rnd t r') \<and>
    (fle r (Fin 0) \<longrightarrow> \<not> should_sample_trace sha256 rnd t r) \<and>
    (fle (Fin 1) r' \<longrightarrow> should_sample_trace sha256 rnd t r')"
proof -
  have trans: "fle a b \<Longrightarrow> fle b c \<Longrightarrow> fle a c" for a b c by (cases a; cases b; cases c) auto
  have ge1: "should_sample_trace sha256 rnd t x" if "fle (Fin 1) x" for x
    using that by (cases x) (auto simp: should_sample_trace_def)
  have "should_sample_trace sha256 rnd t r'" if sampled: "should_sample_trace sha256 rnd t r"
  proof (cases "fle (Fin 1) r'")
    case True
    then show ?thesis by (rule ge1)
  next
    case False
    with sampled assms(2) obtain a b where ab: "r = Fin a" "r' = Fin b" "0 < a" "a \<le> b" "b < 1"
      by (cases r; cases r') (auto simp: should_sample_trace_def split: if_splits)
    then have "fle (rnd (a * 2 ^ 64)) (rnd (b * 2 ^ 64))" by (intro rounding_mono [OF assms(1)]) simp
    from saturating_cast_mono [OF this, where 'a = 64] sampled ab show ?thesis
      by (auto simp: should_sample_trace_def Let_def)
  qed
  moreover have "\<not> should_sample_trace sha256 rnd t r" if "fle r (Fin 0)"
    using that by (simp add: should_sample_trace_def)
  ultimately show ?thesis using ge1 by blast
qed

section \<open>What a log context holds\<close>

text \<open>
  Only the named fields are copied, and of the baggage only what is meant for telemetry: exactly what the
  ambient carrier holds of the same request.
\<close>

lemma raw_log_context_allowed:
  "fst ` set (lg_fields (raw_log_context jc c)) \<subseteq>
     {''request.id'', ''trace.id'', ''request.started_at_unix_ms'', ''user.id'', ''tenant.id'', ''request.locale'',
      ''request.deadline_unix_ms''}"
  "lg_baggage (raw_log_context jc c) = cc_baggage (to_canonical c)"
  "lg_trace_id (raw_log_context jc c) = cc_trace_id (to_canonical c)"
  "list_all (\<lambda>kv. starts_with ''otel.'' (fst kv)) (lg_baggage (raw_log_context jc c))"
proof -
  show "fst ` set (lg_fields (raw_log_context jc c)) \<subseteq>
     {''request.id'', ''trace.id'', ''request.started_at_unix_ms'', ''user.id'', ''tenant.id'', ''request.locale'',
      ''request.deadline_unix_ms''}"
    unfolding raw_log_context_def Let_def log_context.simps
    by (rule order_trans [OF image_mono [OF set_bt_collect_subset]]) auto
  show "lg_baggage (raw_log_context jc c) = cc_baggage (to_canonical c)"
    "lg_trace_id (raw_log_context jc c) = cc_trace_id (to_canonical c)"
    by (simp_all add: raw_log_context_def to_canonical_def Let_def)
  show "list_all (\<lambda>kv. starts_with ''otel.'' (fst kv)) (lg_baggage (raw_log_context jc c))"
    using set_bt_collect_subset [of "filter (\<lambda>kv. starts_with ''otel.'' (fst kv)) (rc_baggage c)"]
    by (auto simp: raw_log_context_def Let_def list_all_iff)
qed

section \<open>Example\<close>

lemma sampling_monotone_witness:
  "should_sample_trace (\<lambda>_. replicate 32 (CHR 0x00)) Fin ''t'' (Fin (1 / 2)) \<and>
   should_sample_trace (\<lambda>_. replicate 32 (CHR 0x00)) Fin ''t'' (Fin 2)"
proof -
  have "should_sample_trace (\<lambda>_. replicate 32 (CHR 0x00)) Fin ''t'' (Fin (1 / 2))"
    by (simp add: should_sample_trace_def u64_from_be_bytes_def numeral_nat)
  moreover have "fle (Fin (1 / 2)) (Fin 2)" by simp
  ultimately show ?thesis using sampling_monotone [OF rounding_exact] by blast
qed

end
