(* ===== verification/Axum_Adapter.thy ===== *)
theory Axum_Adapter
  imports Stack_Guarantees Operation Telemetry
begin

text \<open>
  The adapters that install the stack around the router of a service,
  \<^verbatim>\<open>src/src/rust/src/frameworks/axum.rs\<close> and \<^verbatim>\<open>axum07.rs\<close>: what becomes of a request between the server
  and its handler.

  Requests, responses and headers are those of the \<open>axum\<close> and \<open>http\<close> packages. Of requests and responses
  the records below have what this code reads or writes; the operations on header maps are the argument
  \<open>ho\<close>, of which \<open>header_laws\<close> says what is used. Handlers are futures of the operation boundary.
\<close>

section \<open>Headers, requests and responses\<close>

record 'h header_ops =
  hd_entries :: "'h \<Rightarrow> (string \<times> bytes) list"
  hd_get :: "'h \<Rightarrow> string \<Rightarrow> bytes option"
  hd_contains_key :: "'h \<Rightarrow> string \<Rightarrow> bool"
  hd_insert :: "'h \<Rightarrow> string \<Rightarrow> bytes \<Rightarrow> 'h"
  hd_append :: "'h \<Rightarrow> string \<Rightarrow> bytes \<Rightarrow> 'h"
  hd_header_name :: "string \<Rightarrow> string option"
  hd_header_value :: "string \<Rightarrow> bytes option"
  hd_to_str :: "bytes \<Rightarrow> string option"
  hd_valid_status :: "u16 \<Rightarrow> bool"

definition hd_values :: "'h header_ops \<Rightarrow> 'h \<Rightarrow> string \<Rightarrow> bytes list" where
  "hd_values ho h n = map snd (filter (\<lambda>e. fst e = n) (hd_entries ho h))"

datatype http_version = Http09 | Http10 | Http11 | Http2 | Http3

record ('h, 'b, 'rl) axum_request =
  xr_version :: http_version
  xr_method :: string
  xr_scheme :: "string option"
  xr_path :: string
  xr_headers :: 'h
  xr_connect_info :: "ip_addr option"
  xr_transport_security :: "bool option"
  xr_context :: "request_context option"
  xr_logger :: "'rl option"
  xr_auth_decision :: "auth_decision option"
  xr_body :: 'b

record ('h, 'b) axum_response =
  xs_status :: u16
  xs_headers :: 'h
  xs_body :: 'b

definition axum_request_metadata :: "'h header_ops \<Rightarrow> ('h, 'b, 'rl) axum_request \<Rightarrow> request_metadata" where
  "axum_request_metadata ho request =
     \<lparr>rq_method = xr_method request, rq_path = xr_path request,
      rq_headers = bt_collect (List.map_filter
        (\<lambda>(name, v). map_option (\<lambda>v. (to_ascii_lowercase name, v)) (hd_to_str ho v))
        (hd_entries ho (xr_headers request))),
      rq_remote_ip = map_option show_ip_addr (xr_connect_info request),
      rq_content_length = map_option of_nat
        (Option.bind (Option.bind (hd_get ho (xr_headers request) ''content-length'') (hd_to_str ho))
          (parse_unsigned (2 ^ 64))),
      rq_transport_secure =
        (xr_scheme request = Some ''https'' \<or> xr_transport_security request = Some True)\<rparr>"

text \<open>\<open>(status, Json(document)).into_response()\<close> is the argument \<open>json_response\<close>.\<close>

definition insert_header_pairs :: "'h header_ops \<Rightarrow> (string \<times> string) list \<Rightarrow> 'h \<Rightarrow> 'h" where
  "insert_header_pairs ho pairs h =
     foldl (\<lambda>h (name, v).
       case (hd_header_name ho name, hd_header_value ho v) of
         (Some n, Some v) \<Rightarrow> hd_insert ho h n v
       | _ \<Rightarrow> h) h pairs"

definition axum_problem ::
    "'h header_ops \<Rightarrow> 'j json_codec \<Rightarrow> (u16 \<Rightarrow> 'j \<Rightarrow> ('h, 'b) axum_response) \<Rightarrow> middleware_error \<Rightarrow>
     ('h, 'b) axum_response" where
  "axum_problem ho jc json_response e =
     (let status = (if hd_valid_status ho (me_status e) then me_status e else 500);
          response = json_response status (jc_object jc
            [(''type'', jc_string jc (''urn:ores:middleware:'' @ me_code e)), (''title'', jc_string jc (me_code e)),
             (''status'', jc_number jc (unat status)), (''detail'', jc_string jc (me_message e))])
      in response\<lparr>xs_headers := insert_header_pairs ho (me_headers e) (xs_headers response)\<rparr>)"

text \<open>A policy of the handler for its content stays beside the one of the stack.\<close>

definition csp :: string where "csp = ''content-security-policy''"

definition finish_header_step :: "'h header_ops \<Rightarrow> 'h \<Rightarrow> string \<times> string \<Rightarrow> 'h" where
  "finish_header_step ho h pair =
     (case (hd_header_name ho (fst pair), hd_header_value ho (snd pair)) of
        (Some n, Some v) \<Rightarrow>
          if n = csp \<and> hd_contains_key ho h n then hd_append ho h n v else hd_insert ho h n v
      | _ \<Rightarrow> h)"

definition apply_finish_headers ::
    "'h header_ops \<Rightarrow> (string \<times> string) list \<Rightarrow> ('h, 'b) axum_response \<Rightarrow> ('h, 'b) axum_response" where
  "apply_finish_headers ho pairs response =
     response\<lparr>xs_headers := foldl (finish_header_step ho) (xs_headers response) pairs\<rparr>"

definition append_vary :: "'h header_ops \<Rightarrow> ('h, 'b) axum_response \<Rightarrow> ('h, 'b) axum_response" where
  "append_vary ho response =
     response\<lparr>xs_headers := hd_append ho (xs_headers response) ''vary'' ''accept, accept-encoding''\<rparr>"

section \<open>Logging\<close>

record ('l, 'j, 'ev, 'w) axum_logging =
  al_events :: "('l, 'j, 'ev) event_ops"
  al_add_fields :: "'ev \<Rightarrow> (string, 'j) btree_map \<Rightarrow> 'ev"
  al_send :: "'ev \<Rightarrow> 'w \<Rightarrow> bool \<times> 'w"
  al_warn :: "string \<Rightarrow> 'w \<Rightarrow> 'w"
  al_normalized :: "'j log_context \<Rightarrow> 'j log_context"
  al_sha256 :: "bytes \<Rightarrow> bytes"

definition emit_request_log :: "('l, 'j, 'ev, 'w) axum_logging \<Rightarrow> 'ev \<Rightarrow> string \<Rightarrow> 'w \<Rightarrow> 'w" where
  "emit_request_log al event phase w =
     (case al_send al event w of (sent, w) \<Rightarrow> if sent then w else al_warn al phase w)"

definition request_log_fields :: "'j json_codec \<Rightarrow> request_metadata \<Rightarrow> (string, 'j) btree_map" where
  "request_log_fields jc metadata =
     bt_collect [(''http.request.method'', jc_string jc (rq_method metadata)),
       (''url.path'', jc_string jc (rq_path metadata))]"

definition request_outcome_fields ::
    "'j json_codec \<Rightarrow> request_metadata \<Rightarrow> string \<Rightarrow> duration \<Rightarrow> u16 option \<Rightarrow> (string, 'j) btree_map" where
  "request_outcome_fields jc metadata outcome d status =
     (let fields = bt_insert ''request.outcome'' (jc_string jc outcome) (request_log_fields jc metadata);
          millis = d div 1000000;
          fields = bt_insert ''request.duration_ms''
            (jc_number jc (if millis < 2 ^ 64 then millis else 2 ^ 64 - 1)) fields
      in case status of
           None \<Rightarrow> fields
         | Some s \<Rightarrow> bt_insert ''http.response.status_code'' (jc_number jc (unat s)) fields)"

section \<open>Installation\<close>

record ('x, 'l) dispatch_state =
  ds_stack :: "'x middleware_stack"
  ds_logger :: "'l option"
  ds_otel_tracing_enabled :: bool
  ds_otel_sample_ratio :: f64

text \<open>The layers of the router package.\<close>

record ('r, 'x, 'l) router_ops =
  ro_dispatch :: "('x, 'l) dispatch_state \<Rightarrow> 'r \<Rightarrow> 'r"
  ro_body_limit :: "nat \<Rightarrow> 'r \<Rightarrow> 'r"
  ro_compression :: "'r \<Rightarrow> 'r"

text \<open>\<open>compression\<close> is the feature of the crate.\<close>

definition install_with_state ::
    "('r, 'x, 'l) router_ops \<Rightarrow> bool \<Rightarrow> ('x, 'l) dispatch_state \<Rightarrow> 'r \<Rightarrow> 'r" where
  "install_with_state ro compression st router =
     (let settings = mc_settings (mk_config (ds_stack st));
          router = ro_body_limit ro (ms_max_body_bytes settings) (ro_dispatch ro st router)
      in if compression \<and> cp_enabled (ms_compression settings) then ro_compression ro router else router)"

definition axum_install :: "('r, 'x, 'l) router_ops \<Rightarrow> bool \<Rightarrow> 'r \<Rightarrow> 'x middleware_stack \<Rightarrow> 'r" where
  "axum_install ro compression router stack =
     install_with_state ro compression
       \<lparr>ds_stack = stack, ds_logger = None, ds_otel_tracing_enabled = False, ds_otel_sample_ratio = Fin 0\<rparr> router"

definition install_with_ores_logger ::
    "('r, 'x, 'l) router_ops \<Rightarrow> bool \<Rightarrow> 'r \<Rightarrow> 'x middleware_stack \<Rightarrow> 'l \<Rightarrow> 'r" where
  "install_with_ores_logger ro compression router stack logger =
     install_with_state ro compression
       \<lparr>ds_stack = stack, ds_logger = Some logger, ds_otel_tracing_enabled = True, ds_otel_sample_ratio = Fin 1\<rparr>
       router"

definition install_with_ores_runtime ::
    "('r, 'x, 'l) router_ops \<Rightarrow> bool \<Rightarrow> 'r \<Rightarrow> 'x middleware_stack \<Rightarrow> 'l server_otel_runtime \<Rightarrow> 'r" where
  "install_with_ores_runtime ro compression router stack runtime =
     install_with_state ro compression
       \<lparr>ds_stack = stack, ds_logger = sor_logger runtime,
        ds_otel_tracing_enabled = (oc_enabled (sor_config runtime) \<and> oc_tracing_enabled (sor_config runtime)),
        ds_otel_sample_ratio = oc_sample_ratio (sor_config runtime)\<rparr> router"

definition axum_install_from_env ::
    "('r, 'x, 'l) router_ops \<Rightarrow> bool \<Rightarrow> 'm hmac_ops \<Rightarrow> 'x environment \<Rightarrow> (string \<Rightarrow> string) \<Rightarrow>
     (string \<Rightarrow> string option) \<Rightarrow> 'r \<Rightarrow> string \<Rightarrow> 'x \<Rightarrow> (bootstrap_error, 'r \<times> 'x stack_world) result" where
  "axum_install_from_env ro compression hmac env dbg lookup router service_name x =
     bind_result (stack_from_env hmac env dbg service_name lookup x) (\<lambda>(stack, w).
       Inr (axum_install ro compression router stack, w))"

definition install_from_env_with_ores_logger ::
    "('r, 'x, 'l) router_ops \<Rightarrow> bool \<Rightarrow> 'm hmac_ops \<Rightarrow> 'x environment \<Rightarrow> (string \<Rightarrow> string) \<Rightarrow>
     (string \<Rightarrow> string option) \<Rightarrow> 'r \<Rightarrow> string \<Rightarrow> 'l \<Rightarrow> 'x \<Rightarrow> (bootstrap_error, 'r \<times> 'x stack_world) result" where
  "install_from_env_with_ores_logger ro compression hmac env dbg lookup router service_name logger x =
     bind_result (stack_from_env hmac env dbg service_name lookup x) (\<lambda>(stack, w).
       Inr (install_with_ores_logger ro compression router stack logger, w))"

section \<open>Dispatch\<close>

definition handler_descriptor :: operation_descriptor where
  "handler_descriptor = \<lparr>od_transport = HttpTransport, od_scope = RequestScope, od_name = ''middleware.handler''\<rparr>"

text \<open>The outcome, status, code, detail and log message of a failure.\<close>

definition failure_answer ::
    "operation_failure_kind \<Rightarrow> string \<times> u16 \<times> string \<times> string \<times> string" where
  "failure_answer kind =
     (case kind of
        DeadlineFailure \<Rightarrow>
          (''timeout'', 504, ''deadline_exceeded'', ''request deadline exceeded'', ''request handler timed out'')
      | CancelledFailure \<Rightarrow>
          (''cancelled'', 499, ''request_cancelled'', ''request was cancelled'', ''request handler cancelled'')
      | ErrorFailure \<Rightarrow>
          (''error'', 500, ''internal_error'', ''request handler failed'', ''request handler failed'')
      | PanicFailure \<Rightarrow>
          (''panic'', 500, ''internal_error'', ''request handler failed'', ''request handler panicked''))"

definition log_if ::
    "('l, 'j, 'ev, 'w) axum_logging \<Rightarrow> 'j json_codec \<Rightarrow> ('l, 'j) request_logger option \<Rightarrow> log_level \<Rightarrow> string \<Rightarrow>
     (string, 'j) btree_map \<Rightarrow> string \<Rightarrow> 'w \<Rightarrow> 'w" where
  "log_if al jc logger level message extra phase w =
     (case logger of
        None \<Rightarrow> w
      | Some l \<Rightarrow>
          emit_request_log al
            (al_add_fields al (request_event (al_events al) l level [jc_string jc message]) extra) phase w)"

definition outcome_response ::
    "'h header_ops \<Rightarrow> 'j json_codec \<Rightarrow> (u16 \<Rightarrow> 'j \<Rightarrow> ('h, 'b) axum_response) \<Rightarrow>
     ('l, 'j, 'ev, 'w) axum_logging \<Rightarrow> ('l, 'j) request_logger option \<Rightarrow> request_metadata \<Rightarrow> duration \<Rightarrow>
     ('h, 'b) axum_response operation_outcome \<Rightarrow> 'w \<Rightarrow> ('h, 'b) axum_response \<times> 'w" where
  "outcome_response ho jc json_response al logger metadata elapsed outcome w =
     (case outcome of
        Completed response \<Rightarrow>
          (response, log_if al jc logger InfoLevel ''request handler completed''
             (request_outcome_fields jc metadata ''completed'' elapsed (Some (xs_status response))) ''completed'' w)
      | Failed failure \<Rightarrow>
          (case failure_answer (of_kind failure) of (outcome, status, code, detail, log_message) \<Rightarrow>
             (axum_problem ho jc json_response (middleware_error_new status code detail),
              log_if al jc logger ErrorLevel log_message
                (request_outcome_fields jc metadata outcome elapsed (Some status)) outcome w)))"

text \<open>
  The dispatch of one request: \<open>handler\<close> gives the future of the router behind the layer for the request with
  its extensions, \<open>wakes\<close> are the wake-ups of the boundary.
\<close>

definition axum_dispatch ::
    "'h header_ops \<Rightarrow> 'j json_codec \<Rightarrow> (u16 \<Rightarrow> 'j \<Rightarrow> ('h, 'b) axum_response) \<Rightarrow>
     ('l, 'j, 'ev, 'x stack_world) axum_logging \<Rightarrow> 'x environment \<Rightarrow>
     ('f, 'c, 'x stack_world, 'e, ('h, 'b) axum_response) op_env \<Rightarrow> ('x, 'l) dispatch_state \<Rightarrow>
     ('x stack_world \<Rightarrow> 'x stack_world) list \<Rightarrow> (('h, 'b, ('l, 'j) request_logger) axum_request \<Rightarrow> 'f) \<Rightarrow>
     ('h, 'b, ('l, 'j) request_logger) axum_request \<Rightarrow> 'x stack_world \<Rightarrow>
     ('h, 'b) axum_response run \<times> 'x stack_world" where
  "axum_dispatch ho jc json_response al env oe st wakes handler request w =
     (let metadata = axum_request_metadata ho request; stack = ds_stack st in
      case stack_begin env stack metadata w of
        (Inl e, w) \<Rightarrow> (Done (axum_problem ho jc json_response e), w)
      | (Inr active, w) \<Rightarrow>
          let logger = map_option (\<lambda>l. request_logger_with_sampling (al_normalized al) jc (al_sha256 al) (en_round env)
                l (ar_context active) (ds_otel_tracing_enabled st) (ds_otel_sample_ratio st)) (ds_logger st);
              request = request\<lparr>xr_context := Some (ar_context active)\<rparr>;
              request = (case logger of None \<Rightarrow> request | Some l \<Rightarrow> request\<lparr>xr_logger := Some l\<rparr>);
              w = log_if al jc logger InfoLevel ''request handler started'' (request_log_fields jc metadata)
                ''started'' w;
              started = now_in env w
          in case run_with_timeout oe (ar_context active) handler_descriptor
                 (from_millis (ms_timeout_ms (mc_settings (mk_config stack)))) wakes (handler request) w of
               (Running, w) \<Rightarrow> (Running, w)
             | (Unwound, w) \<Rightarrow> (Unwound, w)
             | (Done outcome, w) \<Rightarrow>
                 (case outcome_response ho jc json_response al logger metadata (now_in env w - started) outcome w of
                    (response, w) \<Rightarrow>
                      (case stack_finish env stack active (xs_status response) None w of
                         (headers, w) \<Rightarrow>
                           (Done (append_vary ho (apply_finish_headers ho headers response)), w))))"

section \<open>The older router\<close>

text \<open>
  The time limit of \<open>tokio\<close>: the future is polled first, under the context of the request, and a panic is a
  value; \<open>o7_deadline\<close> is the timer that is armed at the start.
\<close>

record ('f, 'd, 'w, 't) old_env =
  o7_poll :: "canonical_context \<Rightarrow> 'f \<Rightarrow> 'w \<Rightarrow> ('f, 't) poll option \<times> 'w"
  o7_drop :: "'f \<Rightarrow> 'w \<Rightarrow> 'w"
  o7_deadline :: "duration \<Rightarrow> 'w \<Rightarrow> 'd"
  o7_elapsed :: "'d \<Rightarrow> 'w \<Rightarrow> bool \<times> 'w"

datatype 't limited = Finished 't | Panicked | TimedOutLimit

fun timeout_loop ::
    "('f, 'd, 'w, 't) old_env \<Rightarrow> canonical_context \<Rightarrow> 'd \<Rightarrow> ('w \<Rightarrow> 'w) list \<Rightarrow> 'f \<Rightarrow> 'w \<Rightarrow>
     't limited run \<times> 'w" where
  "timeout_loop oe c d wakes f w =
     (case o7_poll oe c f w of
        (None, w) \<Rightarrow> (Done Panicked, w)
      | (Some (Ready r), w) \<Rightarrow> (Done (Finished r), w)
      | (Some (Pending f'), w) \<Rightarrow>
          (case o7_elapsed oe d w of
             (True, w) \<Rightarrow> (Done TimedOutLimit, o7_drop oe f' w)
           | (False, w) \<Rightarrow>
               (case wakes of [] \<Rightarrow> (Running, w) | wake # wakes' \<Rightarrow> timeout_loop oe c d wakes' f' (wake w))))"

declare timeout_loop.simps [simp del]

text \<open>Its installation; the compression is not a feature there.\<close>

record ('r, 'x) old_router_ops =
  r7_dispatch :: "'x middleware_stack \<Rightarrow> 'r \<Rightarrow> 'r"
  r7_body_limit :: "nat \<Rightarrow> 'r \<Rightarrow> 'r"
  r7_compression :: "'r \<Rightarrow> 'r"

definition axum07_install :: "('r, 'x) old_router_ops \<Rightarrow> 'r \<Rightarrow> 'x middleware_stack \<Rightarrow> 'r" where
  "axum07_install ro router stack =
     (let settings = mc_settings (mk_config stack);
          router = r7_body_limit ro (ms_max_body_bytes settings) (r7_dispatch ro stack router)
      in if cp_enabled (ms_compression settings) then r7_compression ro router else router)"

definition axum07_install_from_env ::
    "('r, 'x) old_router_ops \<Rightarrow> 'm hmac_ops \<Rightarrow> 'x environment \<Rightarrow> (string \<Rightarrow> string) \<Rightarrow>
     (string \<Rightarrow> string option) \<Rightarrow> 'r \<Rightarrow> string \<Rightarrow> 'x \<Rightarrow> (bootstrap_error, 'r \<times> 'x stack_world) result" where
  "axum07_install_from_env ro hmac env dbg lookup router service_name x =
     bind_result (stack_from_env hmac env dbg service_name lookup x) (\<lambda>(stack, w).
       Inr (axum07_install ro router stack, w))"

definition axum07_dispatch ::
    "'h header_ops \<Rightarrow> 'j json_codec \<Rightarrow> (u16 \<Rightarrow> 'j \<Rightarrow> ('h, 'b) axum_response) \<Rightarrow> 'x environment \<Rightarrow>
     ('f, 'd, 'x stack_world, ('h, 'b) axum_response) old_env \<Rightarrow> 'x middleware_stack \<Rightarrow>
     ('x stack_world \<Rightarrow> 'x stack_world) list \<Rightarrow> (('h, 'b, 'rl) axum_request \<Rightarrow> 'f) \<Rightarrow>
     ('h, 'b, 'rl) axum_request \<Rightarrow> 'x stack_world \<Rightarrow> ('h, 'b) axum_response run \<times> 'x stack_world" where
  "axum07_dispatch ho jc json_response env oe stack wakes handler request w =
     (case stack_begin env stack (axum_request_metadata ho request) w of
        (Inl e, w) \<Rightarrow> (Done (axum_problem ho jc json_response e), w)
      | (Inr active, w) \<Rightarrow>
          let request = request\<lparr>xr_context := Some (ar_context active)\<rparr>;
              d = o7_deadline oe (from_millis (ms_timeout_ms (mc_settings (mk_config stack)))) w
          in case timeout_loop oe (to_canonical (ar_context active)) d wakes (handler request) w of
               (Running, w) \<Rightarrow> (Running, w)
             | (Unwound, w) \<Rightarrow> (Unwound, w)
             | (Done limited, w) \<Rightarrow>
                 let response =
                   (case limited of
                      TimedOutLimit \<Rightarrow> axum_problem ho jc json_response
                        (middleware_error_new 504 ''deadline_exceeded'' ''request deadline exceeded'')
                    | Panicked \<Rightarrow> axum_problem ho jc json_response
                        (middleware_error_new 500 ''internal_error'' ''request handler failed'')
                    | Finished response \<Rightarrow> response)
                 in case stack_finish env stack active (xs_status response) None w of
                      (headers, w) \<Rightarrow>
                        (Done (append_vary ho
                           (response\<lparr>xs_headers := insert_header_pairs ho headers (xs_headers response)\<rparr>)), w))"

section \<open>What the headers of the response are\<close>

text \<open>What is used of header maps.\<close>

definition header_laws :: "'h header_ops \<Rightarrow> bool" where
  "header_laws ho \<longleftrightarrow>
     (\<forall>h n v m. hd_values ho (hd_insert ho h n v) m = (if m = n then [v] else hd_values ho h m)) \<and>
     (\<forall>h n v m. hd_values ho (hd_append ho h n v) m = (if m = n then hd_values ho h m @ [v] else hd_values ho h m)) \<and>
     (\<forall>h n. hd_contains_key ho h n \<longleftrightarrow> hd_values ho h n \<noteq> [])"

definition new_values :: "'h header_ops \<Rightarrow> (string \<times> string) list \<Rightarrow> string \<Rightarrow> bytes list" where
  "new_values ho pairs m =
     List.map_filter (\<lambda>(name, v). if hd_header_name ho name = Some m then hd_header_value ho v else None) pairs"

lemma new_values_simps [simp]:
  "new_values ho [] m = []"
  "new_values ho ((name, v) # pairs) m =
     (if hd_header_name ho name = Some m then opt_list (hd_header_value ho v) else []) @ new_values ho pairs m"
  by (auto simp: new_values_def List.map_filter_simps opt_list_def split: option.splits)

lemma insert_header_pairs_values:
  assumes "header_laws ho"
  shows "hd_values ho (insert_header_pairs ho pairs h) m =
    (if new_values ho pairs m = [] then hd_values ho h m else [last (new_values ho pairs m)])"
proof (induction pairs arbitrary: h)
  case (Cons p pairs)
  obtain name v where p: "p = (name, v)" by force
  have step: "insert_header_pairs ho (p # pairs) h = insert_header_pairs ho pairs
      (case (hd_header_name ho name, hd_header_value ho v) of (Some n, Some v) \<Rightarrow> hd_insert ho h n v | _ \<Rightarrow> h)"
    by (simp add: insert_header_pairs_def p)
  show ?case unfolding step Cons.IH
    using assms by (auto simp: p header_laws_def split: option.splits)
qed (simp add: insert_header_pairs_def)

lemma finish_headers_values:
  assumes "header_laws ho"
  shows "hd_values ho (xs_headers (apply_finish_headers ho pairs r)) m =
    (if m = csp then hd_values ho (xs_headers r) m @ new_values ho pairs m
     else if new_values ho pairs m = [] then hd_values ho (xs_headers r) m else [last (new_values ho pairs m)])"
proof -
  have "hd_values ho (foldl (finish_header_step ho) h pairs) m =
      (if m = csp then hd_values ho h m @ new_values ho pairs m
       else if new_values ho pairs m = [] then hd_values ho h m else [last (new_values ho pairs m)])" for h
  proof (induction pairs arbitrary: h)
    case (Cons p pairs)
    obtain name v where p: "p = (name, v)" by force
    show ?case
      using assms unfolding foldl_Cons Cons.IH
      by (auto simp: p finish_header_step_def header_laws_def split: option.splits)
  qed simp
  then show ?thesis by (simp add: apply_finish_headers_def)
qed

text \<open>
  A content security policy of the handler survives: behind the adapter the response has every policy of the
  handler and every one of the stack, while for any other header that the stack sets the response has
  exactly the stack's value. The adapter of the older router keeps only the policy of the stack.
\<close>

theorem handler_policy_kept:
  assumes "header_laws ho" "new_values ho pairs csp \<noteq> []"
  shows "hd_values ho (xs_headers (apply_finish_headers ho pairs r)) csp =
      hd_values ho (xs_headers r) csp @ new_values ho pairs csp \<and>
    (if m = csp \<or> new_values ho pairs m = [] then True
     else hd_values ho (xs_headers (apply_finish_headers ho pairs r)) m = [last (new_values ho pairs m)]) \<and>
    hd_values ho (insert_header_pairs ho pairs (xs_headers r)) csp = [last (new_values ho pairs csp)]"
  using assms by (simp add: finish_headers_values insert_header_pairs_values)

section \<open>The life of a request\<close>

lemma stack_finish_headers:
  assumes "stack_finish env s active status len w = (hs, w')"
  shows "hs = finish_headers (mk_config s) (rc_request_id (ar_context active)) (ar_rate_limit_decision active) \<and>
    bt_get (sw_registry w') (rc_request_id (ar_context active)) = None"
proof -
  obtain w1 where "stack_finish env s active status len w =
      (finish_headers (mk_config s) (rc_request_id (ar_context active)) (ar_rate_limit_decision active),
       registry_drop (rc_request_id (ar_context active)) w1)"
    by (rule stack_finish_eq)
  with assms show ?thesis by (auto simp: registry_drop_def context_remove_def bt_get_remove)
qed

text \<open>
  A request that the stack rejects is answered by its problem, and nothing else happens: no future of the
  handler exists. An admitted one runs once within its budget, with its context, and then is always finished,
  whether the handler answered, failed, panicked or ran out of time: the registry holds no entry for it any
  more, and the response, the handler's or a fixed problem of status 500, 504 or 499, carries the headers
  the stack gives at the end.
\<close>

theorem dispatch_lifecycle:
  assumes "axum_dispatch ho jc json_response al env oe st wakes handler request w = (Done response, w')"
  shows "case stack_begin env (ds_stack st) (axum_request_metadata ho request) w of
      (Inl e, w1) \<Rightarrow> response = axum_problem ho jc json_response e \<and> w' = w1
    | (Inr active, w1) \<Rightarrow>
        bt_get (sw_registry w') (rc_request_id (ar_context active)) = None \<and>
        (\<exists>seen w2 w3 outcome r.
           xr_context seen = Some (ar_context active) \<and> xr_body seen = xr_body request \<and>
           run_with_timeout oe (ar_context active) handler_descriptor
             (from_millis (ms_timeout_ms (mc_settings (mk_config (ds_stack st))))) wakes (handler seen) w2 =
             (Done outcome, w3) \<and>
           (case outcome of
              Completed x \<Rightarrow> r = x
            | Failed failure \<Rightarrow>
                (\<exists>status code detail. status \<in> {500, 504, 499} \<and>
                   r = axum_problem ho jc json_response (middleware_error_new status code detail))) \<and>
           response = append_vary ho (apply_finish_headers ho
             (finish_headers (mk_config (ds_stack st)) (rc_request_id (ar_context active))
                (ar_rate_limit_decision active)) r))"
proof -
  obtain b w1 where begin_eq: "stack_begin env (ds_stack st) (axum_request_metadata ho request) w = (b, w1)"
    by fastforce
  show ?thesis
  proof (cases b)
    case (Inl e)
    with assms begin_eq show ?thesis by (simp add: axum_dispatch_def Let_def)
  next
    case (Inr active)
    let ?logger = "map_option (\<lambda>l. request_logger_with_sampling (al_normalized al) jc (al_sha256 al) (en_round env)
      l (ar_context active) (ds_otel_tracing_enabled st) (ds_otel_sample_ratio st)) (ds_logger st)"
    let ?request = "request\<lparr>xr_context := Some (ar_context active)\<rparr>"
    let ?seen = "case ?logger of None \<Rightarrow> ?request | Some l \<Rightarrow> ?request\<lparr>xr_logger := Some l\<rparr>"
    let ?w2 = "log_if al jc ?logger InfoLevel ''request handler started''
      (request_log_fields jc (axum_request_metadata ho request)) ''started'' w1"
    from assms begin_eq Inr obtain outcome w3 r w4 hs where
      run: "run_with_timeout oe (ar_context active) handler_descriptor
        (from_millis (ms_timeout_ms (mc_settings (mk_config (ds_stack st))))) wakes (handler ?seen) ?w2 = (Done outcome, w3)"
      and r: "outcome_response ho jc json_response al ?logger (axum_request_metadata ho request)
        (now_in env w3 - now_in env ?w2) outcome w3 = (r, w4)"
      and hs: "stack_finish env (ds_stack st) active (xs_status r) None w4 = (hs, w')"
      and response: "response = append_vary ho (apply_finish_headers ho hs r)"
      by (auto simp: axum_dispatch_def Let_def split: prod.splits run.splits)
    have "xr_context ?seen = Some (ar_context active)" "xr_body ?seen = xr_body request"
      by (simp_all split: option.split)
    moreover have "case outcome of Completed x \<Rightarrow> r = x
        | Failed failure \<Rightarrow> (\<exists>status code detail. status \<in> {500, 504, 499} \<and>
            r = axum_problem ho jc json_response (middleware_error_new status code detail))"
      using r by (cases outcome)
        (auto simp: outcome_response_def failure_answer_def split: operation_failure_kind.splits)
    moreover note run response stack_finish_headers [OF hs]
    ultimately show ?thesis unfolding begin_eq Inr prod.case sum.case
      by (intro conjI exI [where x = ?seen] exI [where x = ?w2] exI [where x = w3] exI [where x = outcome]
          exI [where x = r]) simp_all
  qed
qed

text \<open>The same end of an admitted request behind the older router.\<close>

lemma old_dispatch_finishes:
  assumes "axum07_dispatch ho jc json_response env oe s wakes handler request w = (Done response, w')"
    and "stack_begin env s (axum_request_metadata ho request) w = (Inr active, w1)"
  shows "bt_get (sw_registry w') (rc_request_id (ar_context active)) = None"
  using assms
  by (auto simp: axum07_dispatch_def Let_def dest: stack_finish_headers split: prod.splits run.splits)

text \<open>The dispatch answers once the timer of the budget has fired at a wake-up.\<close>

lemma dispatch_answers:
  assumes "\<And>t v budget. oe_checked_add oe (oe_now oe v) budget = Some t \<Longrightarrow>
      \<exists>wake \<in> set wakes. timer_fires (never_cancelled oe) t wake"
  shows "fst (axum_dispatch ho jc json_response al env oe st wakes handler request w) \<noteq> Running"
proof -
  have "fst (run_with_timeout oe c d budget wakes f v) \<noteq> Running" for c d budget f v
    unfolding run_with_timeout_def
    by (rule run_controlled_ends) (use assms in \<open>simp add: never_cancelled_def\<close>)
  then show ?thesis
    by (auto simp: axum_dispatch_def Let_def split: prod.splits run.splits sum.splits) (metis fst_conv)+
qed

section \<open>Example\<close>

definition sample_headers :: "(string \<times> bytes) list header_ops" where
  "sample_headers =
     \<lparr>hd_entries = id, hd_get = map_of, hd_contains_key = (\<lambda>h n. n \<in> fst ` set h),
      hd_insert = (\<lambda>h n v. filter (\<lambda>e. fst e \<noteq> n) h @ [(n, v)]), hd_append = (\<lambda>h n v. h @ [(n, v)]),
      hd_header_name = Some, hd_header_value = Some, hd_to_str = Some,
      hd_valid_status = (\<lambda>s. 100 \<le> s \<and> s < 1000)\<rparr>"

lemma sample_header_laws: "header_laws sample_headers"
proof -
  have "filter (\<lambda>x. fst x \<noteq> n \<and> fst x = m) h = filter (\<lambda>x. fst x = m) h" if "m \<noteq> n"
    for m n :: string and h :: "(string \<times> bytes) list"
    using that by (intro filter_cong) auto
  then show ?thesis by (auto simp: header_laws_def hd_values_def sample_headers_def filter_empty_conv conj_commute)
qed

lemma handler_policy_kept_witness:
  "hd_values sample_headers (xs_headers (apply_finish_headers sample_headers [(csp, ''default-src'')]
     \<lparr>xs_status = 200, xs_headers = [(csp, ''sandbox'')], xs_body = ()\<rparr>)) csp = [''sandbox'', ''default-src''] \<and>
   hd_values sample_headers (insert_header_pairs sample_headers [(csp, ''default-src'')] [(csp, ''sandbox'')]) csp =
     [''default-src'']"
proof -
  have new: "new_values sample_headers [(csp, ''default-src'')] csp = [''default-src'']"
    by (simp add: sample_headers_def)
  then have "new_values sample_headers [(csp, ''default-src'')] csp \<noteq> []" by simp
  from handler_policy_kept [OF sample_header_laws this,
      where r = "\<lparr>xs_status = 200, xs_headers = [(csp, ''sandbox'')], xs_body = ()\<rparr>" and m = csp] new
  show ?thesis by (simp add: hd_values_def sample_headers_def)
qed

definition sample_json_codec :: "string json_codec" where
  "sample_json_codec =
     \<lparr>jc_string = id, jc_number = show_nat, jc_object = (\<lambda>_. []), jc_to_vec = Some, jc_struct_to_vec = (\<lambda>_. None)\<rparr>"

definition sample_logging :: "(unit, string, unit, 'w) axum_logging" where
  "sample_logging =
     \<lparr>al_events = \<lparr>ev_log = (\<lambda>_ _ _. ()), ev_apply_context = (\<lambda>_ _. ()), ev_with_otel = (\<lambda>_ _. ())\<rparr>,
      al_add_fields = (\<lambda>_ _. ()), al_send = (\<lambda>_ w. (True, w)), al_warn = (\<lambda>_ w. w), al_normalized = id,
      al_sha256 = (\<lambda>_. [])\<rparr>"

text \<open>A handler that answers at its first poll.\<close>

definition sample_handler_env ::
    "(unit, unit, unit stack_world, unit, ((string \<times> bytes) list, unit) axum_response) op_env" where
  "sample_handler_env =
     \<lparr>oe_poll = (\<lambda>_ _ w. (Some (Ready (Inr \<lparr>xs_status = 200, xs_headers = [], xs_body = ()\<rparr>)), w)),
      oe_drop = (\<lambda>_ w. w), oe_poll_cancel = (\<lambda>k w. (Some (Pending k), w)), oe_drop_cancel = (\<lambda>_ w. w),
      oe_now = (\<lambda>_. 0), oe_checked_add = (\<lambda>t d. Some (t + d)), oe_elapsed = (\<lambda>_ w. (False, w)),
      oe_emit = (\<lambda>_ _ w. w), oe_type_name = ''Infallible''\<rparr>"

definition sample_axum_request :: "((string \<times> bytes) list, unit, (unit, string) request_logger) axum_request" where
  "sample_axum_request =
     \<lparr>xr_version = Http11, xr_method = ''POST'', xr_scheme = Some ''https'', xr_path = ''/widgets'', xr_headers = [],
      xr_connect_info = Some (V4 2130706433), xr_transport_security = None, xr_context = None, xr_logger = None,
      xr_auth_decision = None, xr_body = ()\<rparr>"

definition sample_dispatch_state :: "(unit, unit) dispatch_state" where
  "sample_dispatch_state =
     \<lparr>ds_stack = sample_stack, ds_logger = None, ds_otel_tracing_enabled = False, ds_otel_sample_ratio = Fin 0\<rparr>"

lemma sample_dispatch_answers:
  "\<exists>response w'. axum_dispatch sample_headers sample_json_codec (\<lambda>s _. \<lparr>xs_status = s, xs_headers = [], xs_body = ()\<rparr>)
     sample_logging sample_env sample_handler_env sample_dispatch_state [] (\<lambda>_. ()) sample_axum_request sample_world =
     (Done response, w')"
proof -
  have "\<exists>outcome. run_with_timeout sample_handler_env c handler_descriptor d [] () w = (Done outcome, w)" for c d w
    by (cases "d = 0")
      (simp_all add: run_with_timeout_def run_controlled_def never_cancelled_def sample_handler_env_def expiry_of_def
        select_loop.simps poll_expiry_def poll_scoped_def report_failure_def Let_def)
  then show ?thesis
    by (simp add: axum_dispatch_def Let_def split: prod.split sum.split run.split) (metis fst_conv run.distinct prod.inject)
qed

lemma sample_metadata: "axum_request_metadata sample_headers sample_axum_request = sample_request"
proof -
  have "show_ip_addr (V4 2130706433) = ''127.0.0.1''" by code_simp
  then show ?thesis
    by (simp add: axum_request_metadata_def sample_headers_def sample_axum_request_def sample_request_def
        bt_collect_def bt_extend_def List.map_filter_simps)
qed

lemma dispatch_lifecycle_witness:
  "\<exists>response w' active w1. axum_dispatch sample_headers sample_json_codec
      (\<lambda>s _. \<lparr>xs_status = s, xs_headers = [], xs_body = ()\<rparr>) sample_logging sample_env sample_handler_env
      sample_dispatch_state [] (\<lambda>_. ()) sample_axum_request sample_world = (Done response, w') \<and>
    stack_begin sample_env sample_stack sample_request sample_world = (Inr active, w1) \<and>
    bt_get (sw_registry w') (rc_request_id (ar_context active)) = None"
proof -
  obtain response w' where run: "axum_dispatch sample_headers sample_json_codec
      (\<lambda>s _. \<lparr>xs_status = s, xs_headers = [], xs_body = ()\<rparr>) sample_logging sample_env sample_handler_env
      sample_dispatch_state [] (\<lambda>_. ()) sample_axum_request sample_world = (Done response, w')"
    using sample_dispatch_answers by blast
  obtain active w1 where "stack_begin sample_env sample_stack sample_request sample_world = (Inr active, w1)"
    using sample_admitted by blast
  with dispatch_lifecycle [OF run] run show ?thesis
    by (auto simp: sample_dispatch_state_def sample_metadata)
qed

end
