(* ===== verification/Axum_Layers.thy ===== *)
theory Axum_Layers
  imports Axum_Adapter Runtime_Manifest
begin

text \<open>
  Other ways to put the stack, or one part of it, around a router: behind the manifest of the repository
  (\<^verbatim>\<open>src/src/rust/src/frameworks/axum.rs\<close>), for audit (\<^verbatim>\<open>axum_audit.rs\<close>), and the authentication layer that a
  consumer composes itself (\<^verbatim>\<open>axum_composable.rs\<close>). The routers of the other frameworks are installed like the
  one of \<open>axum\<close>. The service behind a layer is an action \<open>inner\<close> on the world.
\<close>

section \<open>Installation behind a manifest\<close>

text \<open>\<^const>\<open>None\<close> is a panic of the reader of the manifest.\<close>

definition manifest_gate :: "string \<Rightarrow> string option \<Rightarrow> string \<Rightarrow> (bootstrap_error, unit) result option" where
  "manifest_gate manifest_source target_name expected_stack_config =
     map_option (\<lambda>r. case r of
         Inl e \<Rightarrow> Inl \<lparr>be_variable = None, be_code = manifest_error_code e,
           be_message = ''.ores-mw.toml runtime target admission failed''\<rparr>
       | Inr _ \<Rightarrow> Inr ())
       (admit_server_stack manifest_source target_name expected_stack_config)"

definition install_from_env_with_manifest ::
    "('r, 'x, 'l) router_ops \<Rightarrow> bool \<Rightarrow> 'm hmac_ops \<Rightarrow> 'x environment \<Rightarrow> (string \<Rightarrow> string) \<Rightarrow>
     (string \<Rightarrow> string option) \<Rightarrow> 'r \<Rightarrow> string \<Rightarrow> string \<Rightarrow> string option \<Rightarrow> string \<Rightarrow> 'x \<Rightarrow>
     (bootstrap_error, 'r \<times> 'x stack_world) result option" where
  "install_from_env_with_manifest ro compression hmac env dbg lookup router service_name manifest_source
     target_name expected_stack_config x =
     map_option (\<lambda>gate. bind_result gate (\<lambda>_.
       axum_install_from_env ro compression hmac env dbg lookup router service_name x))
       (manifest_gate manifest_source target_name expected_stack_config)"

text \<open>The other frameworks run on the same router.\<close>

definition dioxus_install :: "('r, 'x, 'l) router_ops \<Rightarrow> bool \<Rightarrow> 'r \<Rightarrow> 'x middleware_stack \<Rightarrow> 'r" where
  "dioxus_install ro compression router stack = axum_install ro compression router stack"

definition leptos_install :: "('r, 'x, 'l) router_ops \<Rightarrow> bool \<Rightarrow> 'r \<Rightarrow> 'x middleware_stack \<Rightarrow> 'r" where
  "leptos_install ro compression router stack = axum_install ro compression router stack"

definition mash_install :: "('r, 'x, 'l) router_ops \<Rightarrow> bool \<Rightarrow> 'r \<Rightarrow> 'x middleware_stack \<Rightarrow> 'r" where
  "mash_install ro compression router stack = axum_install ro compression router stack"

section \<open>Installation for audit\<close>

definition audit_config :: "middleware_config \<Rightarrow> middleware_config" where
  "audit_config cfg =
     (let settings = mc_settings cfg
      in cfg\<lparr>mc_settings := settings\<lparr>ms_rate_limit := (ms_rate_limit settings)\<lparr>sr_enabled := False\<rparr>\<rparr>\<rparr>)"

definition audit_install_with_config ::
    "('r, 'x, 'l) router_ops \<Rightarrow> bool \<Rightarrow> 'm hmac_ops \<Rightarrow> 'x environment \<Rightarrow> 'r \<Rightarrow> middleware_config \<Rightarrow> 'x \<Rightarrow>
     (bootstrap_error, 'r \<times> 'x stack_world) result" where
  "audit_install_with_config ro compression hmac env router cfg x =
     (case stack_new hmac env (audit_config cfg) x of
        Inl issues \<Rightarrow> Inl (error_config issues)
      | Inr (stack, w) \<Rightarrow> Inr (axum_install ro compression router stack, w))"

definition audit_install_from_env ::
    "('r, 'x, 'l) router_ops \<Rightarrow> bool \<Rightarrow> 'm hmac_ops \<Rightarrow> 'x environment \<Rightarrow> (string \<Rightarrow> string) \<Rightarrow>
     (string \<Rightarrow> string option) \<Rightarrow> 'r \<Rightarrow> string \<Rightarrow> 'x \<Rightarrow> (bootstrap_error, 'r \<times> 'x stack_world) result" where
  "audit_install_from_env ro compression hmac env dbg lookup router service_name x =
     bind_result (config_from_lookup dbg (en_round env) service_name lookup) (\<lambda>cfg.
       audit_install_with_config ro compression hmac env router cfg x)"

definition audit_install_with_manifest ::
    "('r, 'x, 'l) router_ops \<Rightarrow> bool \<Rightarrow> 'm hmac_ops \<Rightarrow> 'x environment \<Rightarrow> (string \<Rightarrow> string) \<Rightarrow>
     (string \<Rightarrow> string option) \<Rightarrow> 'r \<Rightarrow> string \<Rightarrow> string \<Rightarrow> string option \<Rightarrow> string \<Rightarrow> 'x \<Rightarrow>
     (bootstrap_error, 'r \<times> 'x stack_world) result option" where
  "audit_install_with_manifest ro compression hmac env dbg lookup router service_name manifest_source
     target_name expected_stack_config x =
     map_option (\<lambda>gate. bind_result gate (\<lambda>_.
       audit_install_from_env ro compression hmac env dbg lookup router service_name x))
       (manifest_gate manifest_source target_name expected_stack_config)"

section \<open>The authentication layer\<close>

definition is_security_sensitive_header :: "string \<Rightarrow> bool" where
  "is_security_sensitive_header name \<longleftrightarrow>
     name \<in> {''authorization'', ''cookie'', ''host'', ''origin'', ''forwarded'', ''content-length'',
       ''transfer-encoding'', ''cf-connecting-ip'', ''traceparent'', ''tracestate'', ''idempotency-key''} \<or>
     starts_with ''x-forwarded-'' name \<or> starts_with ''x-ores-'' name"

text \<open>The loop that counts the headers by name and the one that puts them into a map.\<close>

fun count_headers ::
    "'h header_ops \<Rightarrow> (string \<times> bytes) list \<Rightarrow> (string, nat) btree_map \<Rightarrow> (string, (string, nat) btree_map) result" where
  "count_headers ho [] counts = Inr counts"
| "count_headers ho ((name, v) # entries) counts =
     (let name = to_ascii_lowercase name in
      if is_security_sensitive_header name \<and> hd_to_str ho v = None then
        Inl ''ores.request.invalid_sensitive_header_value''
      else count_headers ho entries (bt_insert name (case_option 0 id (bt_get counts name) + 1) counts))"

definition validate_raw_headers :: "'h header_ops \<Rightarrow> 'h \<Rightarrow> (string, unit) result" where
  "validate_raw_headers ho h =
     (if hd_contains_key ho h ''content-length'' \<and> hd_contains_key ho h ''transfer-encoding'' then
        Inl ''ores.request.transfer_encoding_content_length_ambiguous''
      else bind_result (count_headers ho (hd_entries ho h) []) (\<lambda>counts.
        if list_ex (\<lambda>(name, count). 1 < count \<and> is_security_sensitive_header name) counts then
          Inl ''ores.request.ambiguous_duplicate_header''
        else Inr ()))"

fun project_headers ::
    "'h header_ops \<Rightarrow> (string \<times> bytes) list \<Rightarrow> headers \<Rightarrow> (string, headers) result" where
  "project_headers ho [] headers = Inr headers"
| "project_headers ho ((name, v) # entries) headers =
     (case hd_to_str ho v of
        None \<Rightarrow> Inl ''ores.request.invalid_header_value''
      | Some v \<Rightarrow> project_headers ho entries (bt_insert (to_ascii_lowercase name) v headers))"

definition composable_metadata ::
    "'h header_ops \<Rightarrow> ('h, 'b, 'rl) axum_request \<Rightarrow> (string, request_metadata) result" where
  "composable_metadata ho request =
     bind_result (validate_raw_headers ho (xr_headers request)) (\<lambda>_.
     bind_result (project_headers ho (hd_entries ho (xr_headers request)) []) (\<lambda>headers.
       Inr \<lparr>rq_method = xr_method request, rq_path = xr_path request, rq_headers = headers,
         rq_remote_ip = map_option show_ip_addr (xr_connect_info request),
         rq_content_length = map_option of_nat
           (Option.bind (Option.bind (hd_get ho (xr_headers request) ''content-length'') (hd_to_str ho))
             (parse_unsigned (2 ^ 64))),
         rq_transport_secure =
           (xr_scheme request = Some ''https'' \<or> xr_transport_security request = Some True)\<rparr>))"

definition authentication_problem ::
    "'j json_codec \<Rightarrow> (u16 \<Rightarrow> 'j \<Rightarrow> ('h, 'b) axum_response) \<Rightarrow> ('h, 'b) axum_response" where
  "authentication_problem jc json_response =
     json_response 401 (jc_object jc
       [(''type'', jc_string jc ''urn:ores:middleware:authentication_failed''),
        (''title'', jc_string jc ''authentication_failed''), (''status'', jc_number jc 401),
        (''detail'', jc_string jc ''authentication failed'')])"

definition request_admission_problem ::
    "'j json_codec \<Rightarrow> (u16 \<Rightarrow> 'j \<Rightarrow> ('h, 'b) axum_response) \<Rightarrow> string \<Rightarrow> ('h, 'b) axum_response" where
  "request_admission_problem jc json_response code =
     json_response 400 (jc_object jc
       [(''type'', jc_string jc (''urn:ores:middleware:'' @ code)), (''title'', jc_string jc ''invalid_request''),
        (''status'', jc_number jc 400),
        (''detail'', jc_string jc ''request rejected by middleware admission policy''),
        (''code'', jc_string jc code)])"

text \<open>The log lines of the rejections are not modelled.\<close>

definition axum_authenticate ::
    "'h header_ops \<Rightarrow> 'j json_codec \<Rightarrow> (u16 \<Rightarrow> 'j \<Rightarrow> ('h, 'b) axum_response) \<Rightarrow>
     (request_metadata \<Rightarrow> ((integration_error, auth_decision) result, 'w) action) \<Rightarrow>
     (('h, 'b, 'rl) axum_request \<Rightarrow> (('h, 'b) axum_response, 'w) action) \<Rightarrow> ('h, 'b, 'rl) axum_request \<Rightarrow>
     (('h, 'b) axum_response, 'w) action" where
  "axum_authenticate ho jc json_response verifier inner request =
     (case composable_metadata ho request of
        Inl code \<Rightarrow> act_return (request_admission_problem jc json_response code)
      | Inr metadata \<Rightarrow>
          act_bind (verifier metadata) (\<lambda>r.
            case r of
              Inr decision \<Rightarrow> inner (request\<lparr>xr_auth_decision := Some decision\<rparr>)
            | Inl e \<Rightarrow> act_return (authentication_problem jc json_response)))"

section \<open>What the authentication layer lets through\<close>

text \<open>The number of headers with a name, and what is wrong with the headers of a request, if anything.\<close>

definition occurrences :: "(string \<times> bytes) list \<Rightarrow> string \<Rightarrow> nat" where
  "occurrences entries name = length (filter (\<lambda>e. to_ascii_lowercase (fst e) = name) entries)"

definition header_fault :: "'h header_ops \<Rightarrow> 'h \<Rightarrow> string option" where
  "header_fault ho h =
     (let entries = hd_entries ho h; sensitive = (\<lambda>e. is_security_sensitive_header (to_ascii_lowercase (fst e)))
      in if hd_contains_key ho h ''content-length'' \<and> hd_contains_key ho h ''transfer-encoding'' then
           Some ''ores.request.transfer_encoding_content_length_ambiguous''
         else if list_ex (\<lambda>e. sensitive e \<and> hd_to_str ho (snd e) = None) entries then
           Some ''ores.request.invalid_sensitive_header_value''
         else if list_ex (\<lambda>e. sensitive e \<and> 1 < occurrences entries (to_ascii_lowercase (fst e))) entries then
           Some ''ores.request.ambiguous_duplicate_header''
         else if list_ex (\<lambda>e. hd_to_str ho (snd e) = None) entries then
           Some ''ores.request.invalid_header_value''
         else None)"

lemma occurrences_simps [simp]:
  "occurrences [] n = 0"
  "occurrences (e # es) n = (if to_ascii_lowercase (fst e) = n then 1 else 0) + occurrences es n"
  by (simp_all add: occurrences_def)

lemma occurrences_pos: "0 < occurrences es n \<longleftrightarrow> (\<exists>e \<in> set es. to_ascii_lowercase (fst e) = n)"
  by (auto simp: occurrences_def filter_empty_conv)

lemma count_headers_eq:
  assumes "bt_ok counts"
  shows "count_headers ho es counts =
      Inl ''ores.request.invalid_sensitive_header_value'' \<and>
        list_ex (\<lambda>e. is_security_sensitive_header (to_ascii_lowercase (fst e)) \<and> hd_to_str ho (snd e) = None) es \<or>
    (\<exists>c. count_headers ho es counts = Inr c \<and> bt_ok c \<and>
      \<not> list_ex (\<lambda>e. is_security_sensitive_header (to_ascii_lowercase (fst e)) \<and> hd_to_str ho (snd e) = None) es \<and>
      (\<forall>n. case_option 0 id (bt_get c n) = case_option 0 id (bt_get counts n) + occurrences es n))"
  using assms
proof (induction es arbitrary: counts)
  case (Cons e es)
  obtain name v where e: "e = (name, v)" by force
  let ?name = "to_ascii_lowercase name"
  let ?counts = "bt_insert ?name (case_option 0 id (bt_get counts ?name) + 1) counts"
  show ?case
  proof (cases "is_security_sensitive_header ?name \<and> hd_to_str ho v = None")
    case True
    then show ?thesis by (simp add: e Let_def)
  next
    case False
    then have step: "count_headers ho (e # es) counts = count_headers ho es ?counts" by (auto simp: e Let_def)
    from Cons.prems have "bt_ok ?counts" by simp
    from Cons.IH [OF this] show ?thesis
    proof (elim disjE exE conjE)
      fix c
      assume c: "count_headers ho es ?counts = Inr c" "bt_ok c"
        "\<not> list_ex (\<lambda>e. is_security_sensitive_header (to_ascii_lowercase (fst e)) \<and> hd_to_str ho (snd e) = None) es"
        "\<forall>n. case_option 0 id (bt_get c n) = case_option 0 id (bt_get ?counts n) + occurrences es n"
      have "case_option 0 id (bt_get c n) = case_option 0 id (bt_get counts n) + occurrences (e # es) n" for n
        using c(4) Cons.prems by (simp add: e bt_get_insert)
      moreover have "\<not> (is_security_sensitive_header (to_ascii_lowercase (fst e)) \<and> hd_to_str ho (snd e) = None)"
        using False by (simp add: e)
      ultimately show ?thesis using c(1-3) unfolding step by (auto simp: list_ex_iff)
    qed (simp add: step)
  qed
qed simp

lemma project_headers_eq:
  "project_headers ho es hs =
     (if list_ex (\<lambda>e. hd_to_str ho (snd e) = None) es then Inl ''ores.request.invalid_header_value''
      else Inr (bt_extend hs (List.map_filter
        (\<lambda>(name, v). map_option (\<lambda>v. (to_ascii_lowercase name, v)) (hd_to_str ho v)) es)))"
proof (induction es arbitrary: hs)
  case (Cons e es)
  obtain name v where e: "e = (name, v)" by force
  show ?case by (cases "hd_to_str ho v") (simp_all add: e Cons.IH bt_extend_def List.map_filter_simps)
qed (simp add: bt_extend_def List.map_filter_simps)

lemma validate_raw_headers_eq:
  "validate_raw_headers ho h =
     (let entries = hd_entries ho h; sensitive = (\<lambda>e. is_security_sensitive_header (to_ascii_lowercase (fst e)))
      in if hd_contains_key ho h ''content-length'' \<and> hd_contains_key ho h ''transfer-encoding'' then
           Inl ''ores.request.transfer_encoding_content_length_ambiguous''
         else if list_ex (\<lambda>e. sensitive e \<and> hd_to_str ho (snd e) = None) entries then
           Inl ''ores.request.invalid_sensitive_header_value''
         else if list_ex (\<lambda>e. sensitive e \<and> 1 < occurrences entries (to_ascii_lowercase (fst e))) entries then
           Inl ''ores.request.ambiguous_duplicate_header''
         else Inr ())"
proof -
  let ?es = "hd_entries ho h"
  have dup: "list_ex (\<lambda>(name, count). 1 < count \<and> is_security_sensitive_header name) c \<longleftrightarrow>
      list_ex (\<lambda>e. is_security_sensitive_header (to_ascii_lowercase (fst e)) \<and>
        1 < occurrences ?es (to_ascii_lowercase (fst e))) ?es"
    if "bt_ok c" "\<forall>n. case_option 0 id (bt_get c n) = occurrences ?es n" for c
  proof -
    have "list_ex (\<lambda>(name, count). 1 < count \<and> is_security_sensitive_header name) c \<longleftrightarrow>
        (\<exists>n k. bt_get c n = Some k \<and> 1 < k \<and> is_security_sensitive_header n)"
      by (auto simp: list_ex_iff bt_get_iff [OF that(1)])
    also have "\<dots> \<longleftrightarrow> (\<exists>n. 1 < occurrences ?es n \<and> is_security_sensitive_header n)"
    proof -
      have "(\<exists>k. bt_get c n = Some k \<and> 1 < k) \<longleftrightarrow> 1 < occurrences ?es n" for n
        using that(2) [rule_format, of n] by (cases "bt_get c n") auto
      then show ?thesis by metis
    qed
    also have "\<dots> \<longleftrightarrow> list_ex (\<lambda>e. is_security_sensitive_header (to_ascii_lowercase (fst e)) \<and>
        1 < occurrences ?es (to_ascii_lowercase (fst e))) ?es"
    proof -
      have "\<exists>e \<in> set ?es. to_ascii_lowercase (fst e) = n" if "1 < occurrences ?es n" for n
        using that occurrences_pos [of ?es n] by simp
      then show ?thesis unfolding list_ex_iff by metis
    qed
    finally show ?thesis .
  qed
  show ?thesis
    using count_headers_eq [of "[]" ho ?es] dup
    by (auto simp: validate_raw_headers_def Let_def bt_get_def)
qed

lemma composable_metadata_eq:
  "composable_metadata ho request =
     (case header_fault ho (xr_headers request) of
        Some code \<Rightarrow> Inl code
      | None \<Rightarrow> Inr (axum_request_metadata ho request))"
  by (simp add: composable_metadata_def validate_raw_headers_eq project_headers_eq header_fault_def Let_def
      axum_request_metadata_def bt_collect_def)

text \<open>
  C40. The authentication layer lets a request through exactly if its headers are unambiguous and the provider
  accepts it. The provider then saw the same metadata as that of the whole stack; otherwise the answer is a
  fixed problem, of status 400 before the provider is asked, 401 behind it, and nothing of the provider's
  error or of the headers is in it.
\<close>

theorem composable_auth_exact:
  "axum_authenticate ho jc json_response verifier inner request w =
     (case header_fault ho (xr_headers request) of
        Some code \<Rightarrow> (Some (request_admission_problem jc json_response code), w)
      | None \<Rightarrow>
          (case verifier (axum_request_metadata ho request) w of
             (None, w') \<Rightarrow> (None, w')
           | (Some (Inl e), w') \<Rightarrow> (Some (authentication_problem jc json_response), w')
           | (Some (Inr decision), w') \<Rightarrow> inner (request\<lparr>xr_auth_decision := Some decision\<rparr>) w'))"
  by (auto simp: axum_authenticate_def composable_metadata_eq act_bind_def act_return_def
      split: option.split prod.split sum.split)

text \<open>For a sensitive name the metadata then has the one value that was sent.\<close>

lemma sensitive_value_single:
  assumes "header_fault ho (xr_headers request) = None" "is_security_sensitive_header n"
    and "(name, v) \<in> set (hd_entries ho (xr_headers request))" "to_ascii_lowercase name = n"
  shows "bt_get (rq_headers (axum_request_metadata ho request)) n = hd_to_str ho v \<and>
    filter (\<lambda>e. to_ascii_lowercase (fst e) = n) (hd_entries ho (xr_headers request)) = [(name, v)]"
proof -
  let ?es = "hd_entries ho (xr_headers request)"
  let ?only = "filter (\<lambda>e. to_ascii_lowercase (fst e) = n) ?es"
  have "\<not> 1 < occurrences ?es n"
    using assms by (fastforce simp: header_fault_def Let_def list_ex_iff split: if_splits)
  moreover have "(name, v) \<in> set ?only" using assms(3,4) by simp
  ultimately have only: "?only = [(name, v)]"
    unfolding occurrences_def by (cases ?only) (auto simp: Suc_le_eq not_less)
  have "map_of (rev (List.map_filter (\<lambda>(name, v). map_option (\<lambda>v. (to_ascii_lowercase name, v)) (hd_to_str ho v)) es)) n =
      map_of (rev (List.map_filter (\<lambda>(name, v). map_option (\<lambda>v. (n, v)) (hd_to_str ho v))
        (filter (\<lambda>e. to_ascii_lowercase (fst e) = n) es))) n" for es
    by (induction es) (auto simp: List.map_filter_simps map_add_def split: option.splits)
  with only show ?thesis
    by (simp add: axum_request_metadata_def bt_get_collect List.map_filter_simps split: option.split)
qed

text \<open>The whole stack takes the last of several values for the same name.\<close>

lemma stack_collapses_duplicates:
  assumes "hd_entries ho (xr_headers request) = [(''authorization'', a), (''authorization'', b)]"
    and "hd_to_str ho a = Some x" "hd_to_str ho b = Some y"
  shows "rq_headers (axum_request_metadata ho request) = [(''authorization'', y)] \<and>
    header_fault ho (xr_headers request) \<noteq> None"
proof -
  have "to_ascii_lowercase ''authorization'' = ''authorization''" by code_simp
  with assms show ?thesis
    by (simp add: axum_request_metadata_def header_fault_def Let_def List.map_filter_simps bt_collect_def
        bt_extend_def is_security_sensitive_header_def)
qed

section \<open>What the audit installation never does\<close>

text \<open>Actions that leave the buckets alone.\<close>

definition keeps_buckets :: "('a, 'x stack_world) action \<Rightarrow> bool" where
  "keeps_buckets m \<longleftrightarrow> (\<forall>w. sw_buckets (snd (m w)) = sw_buckets w)"

named_theorems keeps_buckets \<open>actions that leave the buckets alone\<close>

lemma keeps_bucketsD: "keeps_buckets m \<Longrightarrow> m w = (r, w') \<Longrightarrow> sw_buckets w' = sw_buckets w"
  unfolding keeps_buckets_def by (metis snd_conv)

lemma keeps_buckets_return [keeps_buckets]: "keeps_buckets (act_return a)"
  by (simp add: keeps_buckets_def act_return_def)

lemma keeps_buckets_on_env [keeps_buckets]: "keeps_buckets (on_env m)"
  by (simp add: keeps_buckets_def on_env_def split: prod.splits)

lemma keeps_buckets_bind [keeps_buckets]:
  assumes "keeps_buckets m" "\<And>a. keeps_buckets (f a)"
  shows "keeps_buckets (act_bind m f)"
  unfolding keeps_buckets_def
proof
  fix w
  obtain r w1 where m: "m w = (r, w1)" by (rule prod.exhaust)
  from keeps_bucketsD [OF assms(1) m] assms(2) show "sw_buckets (snd (act_bind m f w)) = sw_buckets w"
    by (simp add: act_bind_def m keeps_buckets_def split: option.split)
qed

lemma keeps_buckets_put [keeps_buckets]:
  "keeps_buckets (\<lambda>w. let w = registry_put env s context w in (Some (f w), w))"
  by (simp add: keeps_buckets_def Let_def registry_put_def)

lemma keeps_buckets_pre_auth [keeps_buckets]: "keeps_buckets (pre_auth s rq)"
  unfolding pre_auth_def by (auto intro!: keeps_buckets split: sum.split)

lemma keeps_buckets_start [keeps_buckets]: "keeps_buckets (start_request env s context request decision)"
  unfolding start_request_def Let_def by (auto intro!: keeps_buckets keeps_buckets_put [unfolded Let_def])

lemma keeps_buckets_request_start:
  assumes "\<not> sr_enabled (ms_rate_limit (mc_settings (mk_config s)))"
  shows "keeps_buckets (request_start env s context request auth)"
  using assms by (auto intro!: keeps_buckets simp: request_start_def Let_def)

lemma stack_begin_keeps_buckets:
  assumes "\<not> sr_enabled (ms_rate_limit (mc_settings (mk_config s)))"
  shows "sw_buckets (snd (stack_begin env s request w)) = sw_buckets w"
proof -
  have life: "sw_buckets (snd (run_lifecycle_stage m v)) = sw_buckets v" if "keeps_buckets m" for m v
    using that by (simp add: run_lifecycle_world keeps_buckets_def)
  obtain base x where base: "base_context env (mk_config s) request (sw_env w) = (base, x)" by force
  obtain r w1 where r: "run_lifecycle_stage (pre_auth s request) (w\<lparr>sw_env := x\<rparr>) = (r, w1)" by force
  from life [OF keeps_buckets_pre_auth, of s request "w\<lparr>sw_env := x\<rparr>"] r have 1: "sw_buckets w1 = sw_buckets w"
    by simp
  show ?thesis
  proof (cases r)
    case (Inl e)
    with base r 1 show ?thesis by (simp add: stack_begin_def)
  next
    case (Inr auth)
    let ?m = "request_start env s (authenticated_context base auth) request auth"
    obtain q w2 where q: "run_lifecycle_stage ?m w1 = (q, w2)" by force
    from life [OF keeps_buckets_request_start [OF assms], of env "authenticated_context base auth" request auth w1] q 1
    have "sw_buckets w2 = sw_buckets w" by simp
    with base r Inr q show ?thesis
      by (auto simp: stack_begin_def Let_def registry_drop_def split: sum.split)
  qed
qed

lemma limiter_update:
  "mk_config (s\<lparr>mk_rate_limiter := l, mk_key_deriver := d\<rparr>) = mk_config s"
  "mk_auth (s\<lparr>mk_rate_limiter := l, mk_key_deriver := d\<rparr>) = mk_auth s"
  "mk_auth_error_exposure (s\<lparr>mk_rate_limiter := l, mk_key_deriver := d\<rparr>) = mk_auth_error_exposure s"
  "mk_telemetry (s\<lparr>mk_rate_limiter := l, mk_key_deriver := d\<rparr>) = mk_telemetry s"
  "mk_registry (s\<lparr>mk_rate_limiter := l, mk_key_deriver := d\<rparr>) = mk_registry s"
  by simp_all

lemma limiter_unused:
  "pre_auth (s\<lparr>mk_rate_limiter := l, mk_key_deriver := d\<rparr>) = pre_auth s"
  "start_request env (s\<lparr>mk_rate_limiter := l, mk_key_deriver := d\<rparr>) = start_request env s"
  by (intro ext; unfold pre_auth_def start_request_def registry_put_def limiter_update; rule refl)+

lemma stack_begin_limiter:
  assumes "\<not> sr_enabled (ms_rate_limit (mc_settings (mk_config s)))"
  shows "stack_begin env (s\<lparr>mk_rate_limiter := l, mk_key_deriver := d\<rparr>) request w = stack_begin env s request w"
proof -
  have start: "request_start env (s\<lparr>mk_rate_limiter := l, mk_key_deriver := d\<rparr>) = request_start env s"
    using assms by (intro ext) (simp add: request_start_def limiter_unused limiter_update Let_def)
  show ?thesis unfolding stack_begin_def limiter_unused limiter_update start by (rule refl)
qed

lemma stack_begin_undecided:
  assumes "\<not> sr_enabled (ms_rate_limit (mc_settings (mk_config s)))"
    and "stack_begin env s request w = (Inr active, w')"
  shows "ar_rate_limit_decision active = None"
  using assms(2)
proof (cases rule: stack_begin_InrE)
  case (1 base x auth w1 started decision)
  from 1(3) show ?thesis
    by (cases rule: request_start_cases) (use assms(1) 1(4) in auto)
qed

text \<open>
  Behind the audit installation no request consumes or is granted a quota, whatever the configuration said:
  the buckets stay as they were, neither an installed limiter nor the key deriver has any influence on what
  becomes of a request, and an admitted one has no decision of a limiter.
\<close>

theorem audit_never_limits:
  assumes "audit_install_with_config ro compression hmac env router cfg x = Inr (router', w0)"
  shows "\<exists>s. stack_new hmac env (audit_config cfg) x = Inr (s, w0) \<and> router' = axum_install ro compression router s \<and>
    mk_config s = audit_config cfg \<and>
    sw_buckets (snd (stack_begin env s request w)) = sw_buckets w \<and>
    stack_begin env (s\<lparr>mk_rate_limiter := l, mk_key_deriver := d\<rparr>) request w = stack_begin env s request w \<and>
    (case stack_begin env s request w of (Inr active, _) \<Rightarrow> ar_rate_limit_decision active = None | _ \<Rightarrow> True)"
proof -
  from assms obtain s where s: "stack_new hmac env (audit_config cfg) x = Inr (s, w0)"
    "router' = axum_install ro compression router s"
    by (auto simp: audit_install_with_config_def split: sum.splits)
  from s(1) have cfg: "mk_config s = audit_config cfg"
    by (auto simp: stack_new_def Let_def split: if_splits prod.splits)
  then have off: "\<not> sr_enabled (ms_rate_limit (mc_settings (mk_config s)))" by (simp add: audit_config_def Let_def)
  from s cfg stack_begin_keeps_buckets [OF off, of env request w] stack_begin_limiter [OF off, of env d l request w]
    stack_begin_undecided [OF off, of env request w]
  show ?thesis by (auto split: prod.split sum.split)
qed

text \<open>The audit installation needs no key of a limiter: it fails only for an invalid configuration.\<close>

lemma audit_install_fails:
  "audit_install_with_config ro compression hmac env router cfg x = Inl e \<longleftrightarrow>
   validate_config (audit_config cfg) \<noteq> [] \<and> e = error_config (validate_config (audit_config cfg))"
  by (auto simp: audit_install_with_config_def stack_new_def Let_def split: sum.split prod.split if_splits)

text \<open>Behind the manifest gate both installations are the ones without it, or nothing happens.\<close>

lemma manifest_gate_first:
  "install_from_env_with_manifest ro compression hmac env dbg lookup router service_name source target expected x =
     (case admit_server_stack source target expected of
        None \<Rightarrow> None
      | Some (Inl e) \<Rightarrow> Some (Inl \<lparr>be_variable = None, be_code = manifest_error_code e,
          be_message = ''.ores-mw.toml runtime target admission failed''\<rparr>)
      | Some (Inr _) \<Rightarrow> Some (axum_install_from_env ro compression hmac env dbg lookup router service_name x)) \<and>
   audit_install_with_manifest ro compression hmac env dbg lookup router service_name source target expected x =
     (case admit_server_stack source target expected of
        None \<Rightarrow> None
      | Some (Inl e) \<Rightarrow> Some (Inl \<lparr>be_variable = None, be_code = manifest_error_code e,
          be_message = ''.ores-mw.toml runtime target admission failed''\<rparr>)
      | Some (Inr _) \<Rightarrow> Some (audit_install_from_env ro compression hmac env dbg lookup router service_name x))"
  by (simp add: install_from_env_with_manifest_def audit_install_with_manifest_def manifest_gate_def split: option.split sum.split)

section \<open>Example\<close>

definition sample_router_ops :: "(string list, unit, unit) router_ops" where
  "sample_router_ops =
     \<lparr>ro_dispatch = (\<lambda>_ r. r @ [''dispatch'']), ro_body_limit = (\<lambda>_ r. r @ [''limit'']), ro_compression = id\<rparr>"

lemma audit_never_limits_witness:
  "\<exists>w0 s. audit_install_with_config sample_router_ops False sample_hmac sample_env [] (mk_config sample_stack) () =
      Inr ([''dispatch'', ''limit''], w0) \<and>
    mk_config s = audit_config (mk_config sample_stack) \<and>
    sw_buckets (snd (stack_begin sample_env s sample_request w0)) = sw_buckets w0"
proof -
  have "validate_config (audit_config (mk_config sample_stack)) = []"
    using sample_stack_valid
    by (simp add: validate_config_Nil config_ok_def rate_limit_ok_def audit_config_def Let_def is_production_def)
  from stack_new_Inr [OF this, of sample_hmac sample_env "()"] obtain s w0 where
    s: "stack_new sample_hmac sample_env (audit_config (mk_config sample_stack)) () = Inr (s, w0)" by blast
  then have run: "audit_install_with_config sample_router_ops False sample_hmac sample_env [] (mk_config sample_stack) () =
      Inr ([''dispatch'', ''limit''], w0)"
    by (simp add: audit_install_with_config_def axum_install_def install_with_state_def Let_def sample_router_ops_def)
  from audit_never_limits [OF run, where w = w0 and request = sample_request] run show ?thesis by blast
qed

end
