(* ===== verification/Shutdown_Layer.thy ===== *)
theory Shutdown_Layer
  imports Shutdown Header_Admission Axum_Adapter
begin

text \<open>
  \<^verbatim>\<open>src/src/rust/src/frameworks/axum_shutdown.rs\<close>: the layer that admits requests while a server drains.

  A request is a thread whose accesses to the coordinator are those of \<open>Shutdown\<close>: it begins, is served under
  its guard, and releases the guard whether the service answered or unwound. The service itself is abstract:
  its end is an event of the environment. The other threads of the server, the drain among them, run as they are.
\<close>

section \<open>The rejection\<close>

text \<open>\<open>(status, Body::from(bytes)).into_response()\<close> is the argument \<open>bytes_response\<close>.\<close>

definition shutdown_response ::
    "'h header_ops \<Rightarrow> 'j json_codec \<Rightarrow> (u16 \<Rightarrow> bytes \<Rightarrow> ('h, 'b) axum_response) \<Rightarrow> shutdown_rejection \<Rightarrow>
     http_version \<Rightarrow> ('h, 'b) axum_response" where
  "shutdown_response ho jc bytes_response rej version =
     (let stage_response = sanitized_problem_response jc (sx_status rej) (sx_code rej) None (sx_headers rej);
          status = (if hd_valid_status ho (sr_status stage_response) then sr_status stage_response else 429);
          response = bytes_response status (sr_body stage_response);
          headers = insert_header_pairs ho (sr_headers stage_response) (xs_headers response);
          headers = (if version \<in> {Http10, Http11} then hd_insert ho headers ''connection'' ''close'' else headers)
      in response\<lparr>xs_headers := headers\<rparr>)"

text \<open>Whatever the version, the rejection is a 429 problem; it asks to close the connection only below HTTP/2.\<close>

lemma shutdown_response_exact:
  assumes "header_laws ho" "hd_valid_status ho 429"
  shows "let rej = rejection s; response = shutdown_response ho jc bytes_response rej version;
      problem = sanitized_problem_response jc 429 ''service_draining'' None (sx_headers rej);
      plain = bytes_response 429 (sr_body problem)
    in xs_status response = xs_status plain \<and> xs_body response = xs_body plain \<and>
      hd_values ho (xs_headers response) n =
        (if n = ''connection'' \<and> version \<in> {Http10, Http11} then [''close'']
         else hd_values ho (insert_header_pairs ho (sr_headers problem) (xs_headers plain)) n)"
  using assms
  by (simp add: shutdown_response_def rejection_def shutdown_http_status_def Let_def header_laws_def
      sanitized_problem_response_def)

section \<open>The layer\<close>

datatype ('t, 'r) layer_thread =
    Entering "'t thread"
  | Serving
  | Leaving "'r option" "'t thread"
  | Served "'r option"
  | Refused 'r
  | Elsewhere "'t thread"

text \<open>
  One access, or the end of the service: \<open>ends\<close> is \<^const>\<open>None\<close> while it runs, and then what it returned,
  nothing if it unwound or was dropped. \<open>respond\<close> makes the response of a rejection.
\<close>

definition layer_thread_step ::
    "('n, 't) notify_ops \<Rightarrow> (shutdown_rejection \<Rightarrow> 'r) \<Rightarrow> choice \<Rightarrow> 'r option option \<Rightarrow> 'n shutdown_inner \<Rightarrow>
     ('t, 'r) layer_thread \<Rightarrow> ('n shutdown_inner \<times> ('t, 'r) layer_thread) option" where
  "layer_thread_step ops respond c ends s th =
     (case th of
        Entering t \<Rightarrow>
          map_option (\<lambda>(s', t'). (s',
              if t' = Admitted then Serving
              else if t' = BrRejected then Refused (respond (rejection s'))
              else Entering t')) (begin_request_step ops s t)
      | Serving \<Rightarrow> map_option (\<lambda>answer. (s, Leaving answer Admitted)) ends
      | Leaving answer t \<Rightarrow>
          map_option (\<lambda>(s', t'). (s',
              if t' = thread.Finished then Served answer else Leaving answer t'))
            (guard_step ops s t)
      | Elsewhere t \<Rightarrow> map_option (\<lambda>(s', t'). (s', Elsewhere t')) (thread_step ops c s t)
      | _ \<Rightarrow> None)"

inductive layer_step ::
    "('n, 't) notify_ops \<Rightarrow> (shutdown_rejection \<Rightarrow> 'r) \<Rightarrow> 'n shutdown_inner \<times> ('t, 'r) layer_thread list \<Rightarrow>
     'n shutdown_inner \<times> ('t, 'r) layer_thread list \<Rightarrow> bool"
  for ops :: "('n, 't) notify_ops" and respond :: "shutdown_rejection \<Rightarrow> 'r" where
  "i < length ths \<Longrightarrow> layer_thread_step ops respond c ends s (ths ! i) = Some (s', th') \<Longrightarrow>
   layer_step ops respond (s, ths) (s', ths[i := th'])"

inductive layer_reachable ::
    "('n, 't) notify_ops \<Rightarrow> (shutdown_rejection \<Rightarrow> 'r) \<Rightarrow> nat \<Rightarrow> 'n shutdown_inner \<times> ('t, 'r) layer_thread list \<Rightarrow> bool"
  for ops :: "('n, 't) notify_ops" and respond :: "shutdown_rejection \<Rightarrow> 'r" and n :: nat where
  start: "with_retry_after ops drain_timeout retry_after = Some s \<Longrightarrow> length ths = n \<Longrightarrow>
    set ths \<subseteq> {Entering Idle, Elsewhere Idle} \<Longrightarrow> layer_reachable ops respond n (s, ths)"
| step: "layer_reachable ops respond n sys \<Longrightarrow> layer_step ops respond sys sys' \<Longrightarrow> layer_reachable ops respond n sys'"

section \<open>The layer runs the coordinator\<close>

fun layer_abs :: "('t, 'r) layer_thread \<Rightarrow> 't thread" where
  "layer_abs (Entering t) = t"
| "layer_abs Serving = Admitted"
| "layer_abs (Leaving _ t) = t"
| "layer_abs (Served _) = thread.Finished"
| "layer_abs (Refused _) = BrRejected"
| "layer_abs (Elsewhere t) = t"

lemma begin_step_thread:
  "begin_request_step ops s t = Some r \<Longrightarrow> \<exists>c. thread_step ops c s t = Some r"
  by (intro exI [of _ CallBegin]) (cases t; simp add: thread_step_def)

lemma guard_step_thread: "guard_step ops s t = Some r \<Longrightarrow> \<exists>c. thread_step ops c s t = Some r"
  by (intro exI [of _ Proceed]) (cases t; simp add: thread_step_def)

lemma layer_thread_step_abs:
  assumes "layer_thread_step ops respond c ends s th = Some (s', th')"
  shows "s' = s \<and> layer_abs th' = layer_abs th \<or> (\<exists>c'. thread_step ops c' s (layer_abs th) = Some (s', layer_abs th'))"
proof (cases th)
  case (Entering t)
  with assms obtain t' where t': "begin_request_step ops s t = Some (s', t')"
    and "th' = (if t' = Admitted then Serving else if t' = BrRejected then Refused (respond (rejection s')) else Entering t')"
    by (auto simp: layer_thread_step_def)
  then have "layer_abs th' = t'" by simp
  with begin_step_thread [OF t'] Entering show ?thesis by auto
next
  case (Leaving answer t)
  with assms obtain t' where t': "guard_step ops s t = Some (s', t')"
    and "th' = (if t' = thread.Finished then Served answer else Leaving answer t')"
    by (auto simp: layer_thread_step_def)
  then have "layer_abs th' = t'" by simp
  with guard_step_thread [OF t'] Leaving show ?thesis by auto
qed (use assms in \<open>auto simp: layer_thread_step_def\<close>)

definition layer_system_abs :: "'n shutdown_inner \<times> ('t, 'r) layer_thread list \<Rightarrow> ('n, 't) system" where
  "layer_system_abs sys = (fst sys, map layer_abs (snd sys))"

lemma layer_step_simulated:
  assumes "layer_step ops respond sys sys'"
  shows "(shutdown_step ops)\<^sup>*\<^sup>* (layer_system_abs sys) (layer_system_abs sys')"
  using assms
proof (cases rule: layer_step.cases)
  case (1 i ths c ends s s' th')
  let ?t = "layer_abs th'"
  have abs: "layer_system_abs sys' = (s', (map layer_abs ths)[i := ?t])"
    by (simp add: layer_system_abs_def 1(2) map_update)
  from layer_thread_step_abs [OF 1(4)] show ?thesis
  proof
    assume "s' = s \<and> ?t = layer_abs (ths ! i)"
    moreover from this have "(map layer_abs ths)[i := ?t] = map layer_abs ths"
      using 1(3) by (metis length_map list_update_id nth_map)
    ultimately show ?thesis unfolding abs by (simp add: layer_system_abs_def 1(1))
  next
    assume "\<exists>c'. thread_step ops c' s (layer_abs (ths ! i)) = Some (s', ?t)"
    then obtain c' where "thread_step ops c' s (map layer_abs ths ! i) = Some (s', ?t)" using 1(3) by auto
    from shutdown_step.intros [OF _ this] 1(3) show ?thesis
      unfolding abs by (auto simp: layer_system_abs_def 1(1))
  qed
qed

lemma layer_steps_simulated:
  "(layer_step ops respond)\<^sup>*\<^sup>* sys sys' \<Longrightarrow> (shutdown_step ops)\<^sup>*\<^sup>* (layer_system_abs sys) (layer_system_abs sys')"
  by (induction rule: rtranclp_induct) (auto intro: layer_step_simulated rtranclp_trans)

lemma layer_reachable_abs:
  "layer_reachable ops respond n sys \<Longrightarrow> shutdown_reachable ops n (layer_system_abs sys)"
proof (induction rule: layer_reachable.induct)
  case (start drain_timeout retry_after s ths)
  have "map layer_abs ths = replicate n Idle"
  proof -
    have "layer_abs th = Idle" if "th \<in> set ths" for th using start(3) that by auto
    then have "map layer_abs ths = map (\<lambda>_. Idle) ths" by simp
    then show ?thesis by (simp add: map_replicate_const start(2))
  qed
  with shutdown_reachable.start [OF start(1)] show ?case by (simp add: layer_system_abs_def)
next
  case (step sys sys')
  from reachable_steps [OF layer_step_simulated [OF step(2)] step(3)] show ?case .
qed

text \<open>
  The layer keeps the promise of the drain for the service: once a drain has reported that it is drained, no
  request is inside the service, now or later, however requests and their ends interleave; and the counter of
  the coordinator counts every request inside.
\<close>

theorem drained_service_empty:
  assumes "layer_reachable ops respond n (s, ths)" "n < 2 ^ 64" "Elsewhere (DrDone (Drained k)) \<in> set ths"
    and "(layer_step ops respond)\<^sup>*\<^sup>* (s, ths) (s', ths')"
  shows "Serving \<notin> set ths'"
proof -
  note reach = layer_reachable_abs [OF assms(1)] and steps = layer_steps_simulated [OF assms(4)]
  have "DrDone (Drained k) \<in> set (snd (layer_system_abs (s, ths)))"
    using assms(3) by (force simp: layer_system_abs_def)
  from drained_stays [OF steps this] have "DrDone (Drained k) \<in> set (map layer_abs ths')"
    by (simp add: layer_system_abs_def)
  moreover from reachable_steps [OF steps reach] have "shutdown_reachable ops n (s', map layer_abs ths')"
    by (simp add: layer_system_abs_def)
  ultimately have "Admitted \<notin> set (map layer_abs ths')" using drained_empty [OF _ assms(2)] by blast
  then show ?thesis by force
qed

lemma serving_counted:
  assumes "layer_reachable ops respond n (s, ths)" "n < 2 ^ 64"
  shows "length (filter (\<lambda>th. th = Serving) ths) \<le> unat (sd_active_requests s)"
proof -
  from reachable_ok [OF layer_reachable_abs [OF assms(1)] assms(2)]
  have "sd_active_requests s = of_nat (count_of (map layer_abs ths))" and n: "length ths = n"
    by (simp_all add: system_ok_def layer_system_abs_def)
  moreover have "count_of (map layer_abs ths) < 2 ^ 64"
    using count_of_le [of "map layer_abs ths"] n assms(2) by simp
  moreover have "length (filter (\<lambda>th. th = Serving) ths) \<le> count_of (map layer_abs ths)"
    by (induction ths) (auto simp: count_of_def counted_def)
  ultimately show ?thesis by (simp add: unat_of_nat)
qed

text \<open>A refused request never was inside the service, and a request leaves it only with its guard released.\<close>

lemma refused_response:
  assumes "layer_thread_step ops respond c ends s th = Some (s', Refused r)"
  shows "r = respond (rejection s') \<and> (\<exists>t. th = Entering t)"
  using assms by (auto simp: layer_thread_step_def split: layer_thread.splits if_splits)

lemma served_released:
  assumes "layer_thread_step ops respond c ends s th = Some (s', Served answer)"
  shows "\<exists>t. th = Leaving answer t"
  using assms by (auto simp: layer_thread_step_def split: layer_thread.splits if_splits)

end
