(* ===== verification/Spec2Isabelle.thy ===== *)
theory Spec2Isabelle
  imports Resilience Breaker_Registry Hardened_Pipeline Shutdown Middleware_Order Composition Security
    Net Rate_Limit Token_Bucket Rate_Limit_Policy Route_Table
    Stack_Guarantees Rate_Limit_Bindings Shared_Auth Runtime_Manifest Local_Host Edge_Host
    Ingress Shared_Auth_Service Auth_Stage Docs_Serving Core_Rate_Limiter
    Operation Config_Discovery Lambda Archive_Audit Artifacts Contract_Stages Telemetry Axum_Adapter Axum_Layers Shutdown_Layer
begin

text \<open>
  A verification of the Rust middleware crate under \<^verbatim>\<open>src/src/rust/src\<close>, of its adapter to the rate-limit core,
  \<^verbatim>\<open>src/integrations/ores-rate-limit-core-rust\<close>, and of the release tool \<^verbatim>\<open>src/tools/zed-archive-audit\<close>. File names
  without a directory are those of the crate.

  The crate gives HTTP services a middleware stack and the parts to compose one by hand. A service reads its
  configuration from the environment, behind a manifest of the repository, and builds the stack; an adapter
  installs it around a router. A request then becomes metadata, gets a context, is authenticated and rate
  limited, runs in the handler within a deadline, and is finished. Services that compose their own pipeline
  use stages around a handler, hardened against failing stages and hostile input, with validators of the
  order in which they stand. The hosts run the same middleware for other processes and at the edge.

  \<^bold>\<open>Foundations.\<close>

  \<^item> \<open>Prelude\<close>, \<open>Ordered_Map\<close>, \<open>Float64\<close>: machine integers, results, the operations of \<open>str\<close>; the maps and sets
    of the standard library, behind the locale \<open>map_interface\<close>, interpreted on both representations; and the
    floating-point numbers with an arbitrary monotone rounding.
  \<^item> \<open>Request_Types\<close>, \<open>Context_Registry\<close> (\<^verbatim>\<open>integrations.rs\<close>, \<^verbatim>\<open>context.rs\<close>): requests, responses, contexts, their
    exchange with the canonical context, and the bounded registry of running requests.

  \<^bold>\<open>Pipelines and their parts.\<close>

  \<^item> \<open>Resilience\<close>, \<open>Breaker_Registry\<close> (\<^verbatim>\<open>resilience.rs\<close>, \<^verbatim>\<open>hardening.rs\<close>): circuit breakers, bulkheads and the
    bounded registry of breakers. Every operation holds its lock once, so it is one function on the state.
    The lemmas give when a breaker opens, admits a probe and closes, and that at most one probe is out.
  \<^item> \<open>Stage\<close>, \<open>Contract_Stages\<close>, \<open>Auth_Stage\<close> (\<^verbatim>\<open>stage.rs\<close>, \<^verbatim>\<open>validation.rs\<close>, \<^verbatim>\<open>fallthrough.rs\<close>, \<^verbatim>\<open>payload.rs\<close>, \<^verbatim>\<open>lib.rs\<close>,
    \<^verbatim>\<open>compat.rs\<close>, \<^verbatim>\<open>auth_stage.rs\<close>): the execution of a pipeline, which is the nesting of its stages, and the
    stages for validation and authentication. Stages act on an explicit world \<open>'w\<close>.
  \<^item> \<open>Header_Admission\<close>, \<open>Hardened_Pipeline\<close> (\<^verbatim>\<open>hardening.rs\<close>): which raw headers and attributes are admitted;
    what a problem response may carry; execution with tasks that may panic, be cancelled or time out, where
    every entered stage is finalized exactly once, and which refines the plain pipeline where nothing fails.
  \<^item> \<open>Security\<close> (\<^verbatim>\<open>security.rs\<close> and the Fetch Metadata stage of \<^verbatim>\<open>hardening.rs\<close>): the CORS, CSRF and Fetch
    Metadata stages. The locale \<open>gate_stage\<close> states what a gate promises to the pipeline and is interpreted
    on the three and on the validation stage; this theory combines them.
  \<^item> \<open>Middleware_Order\<close>, \<open>Composition\<close>, \<open>Artifacts\<close> (\<^verbatim>\<open>middleware_order.rs\<close>, \<^verbatim>\<open>composition.rs\<close>, \<^verbatim>\<open>placement.rs\<close>,
    \<^verbatim>\<open>edge_proxy.rs\<close>, \<^verbatim>\<open>runtime_artifact.rs\<close>): the reviewed orders, consumer policies, the cycle check, and where
    an artifact may run, each validator shown to accept exactly what its rules describe.
  \<^item> \<open>Shutdown\<close>, \<open>Shutdown_Layer\<close> (\<^verbatim>\<open>shutdown.rs\<close>, \<^verbatim>\<open>frameworks/axum_shutdown.rs\<close>): the lock-free coordinator as
    interleavings of single atomic accesses, one program counter per thread. Its counter is exact, a drained
    coordinator stays empty, no wake-up is lost. The layer in front of a service is simulated by it, so a
    drained service has no request inside.
  \<^item> \<open>Operation\<close> (\<^verbatim>\<open>operation.rs\<close>): the boundary around a callback as a machine of polls over the list of its
    wake-ups. It answers for values, errors and panics of the callback, reports every failure once, and ends
    at its deadline.

  \<^bold>\<open>Rate limiting.\<close>

  \<^item> \<open>Net\<close>, \<open>Rate_Limit\<close> (\<^verbatim>\<open>net.rs\<close>, \<^verbatim>\<open>rate_limit.rs\<close>): addresses and CIDR blocks; signals, decisions, and the
    derivation of a principal, whose hashed input determines what it was made from.
  \<^item> \<open>Token_Bucket\<close> (\<open>InMemoryTokenBucket\<close> of \<^verbatim>\<open>integrations.rs\<close>), \<open>Core_Rate_Limiter\<close> (the adapter to the core
    package): the limiters. The store of the first stays bounded for every rounding, and over exact
    arithmetic it enforces its rate as long as it neither evicts nor expires a bucket early.
  \<^item> \<open>Rate_Limit_Policy\<close>, \<open>Route_Matching\<close>, \<open>Route_Table\<close>, \<open>Rate_Limit_Bindings\<close> (\<^verbatim>\<open>rate_limit_v2.rs\<close>,
    \<^verbatim>\<open>rate_limit_routes.rs\<close>, \<^verbatim>\<open>rate_limit_bindings.rs\<close>): policies, templates, and the policy of a request.

  \<^bold>\<open>The stack and its surroundings.\<close>

  \<^item> \<open>Config\<close>, \<open>Bootstrap\<close> (\<^verbatim>\<open>config.rs\<close>, \<^verbatim>\<open>bootstrap.rs\<close>): the configuration, its rules, and its reading from the
    environment, which only gives safe configurations.
  \<^item> \<open>Stack\<close>, \<open>Stack_Guarantees\<close> (\<^verbatim>\<open>pipeline.rs\<close>): the stack, \<open>begin\<close> and \<open>finish\<close>. Which requests are admitted
    and rejected, what a rate limit rests on, and the registry over all runs of a stack.
  \<^item> \<open>Shared_Auth\<close>, \<open>Shared_Auth_Service\<close> (\<^verbatim>\<open>shared_auth.rs\<close>, \<^verbatim>\<open>shared_auth_service.rs\<close>): authentication by two
    providers and the stacks that are only built with it.
  \<^item> \<open>Runtime_Manifest\<close>, \<open>Config_Discovery\<close>, \<open>Lambda\<close> (\<^verbatim>\<open>runtime_manifest.rs\<close>, \<^verbatim>\<open>runtime_manifest_evidence.rs\<close>,
    \<^verbatim>\<open>config_discovery.rs\<close>, \<^verbatim>\<open>lambda.rs\<close>, \<^verbatim>\<open>lambda_capabilities.rs\<close>): the manifest with its parser, where it is found,
    the evidence of an admission, and the admission of function invocations.
  \<^item> \<open>Host_Abi\<close>, \<open>Local_Host\<close>, \<open>Edge_Host\<close> (\<^verbatim>\<open>host_abi.rs\<close>, \<^verbatim>\<open>hosts\<close>, \<^verbatim>\<open>provider_api.rs\<close>,
    \<^verbatim>\<open>frameworks/streaming_response.rs\<close>): the frames of the hosts and the two hosts as tables of sessions; the
    local one refines the set of its permitted sessions, the one at the edge contains its callbacks.
  \<^item> \<open>Axum_Adapter\<close>, \<open>Axum_Layers\<close>, \<open>Ingress\<close>, \<open>Docs_Serving\<close> (\<^verbatim>\<open>frameworks\<close>, \<^verbatim>\<open>docs_serving.rs\<close>): the adapters of both
    routers, in which the stack, the boundary and the telemetry meet; the audit mode, which never limits;
    the authentication layer; the checks of bodies and forwarded metadata; and the served documentation.
  \<^item> \<open>Telemetry\<close> (\<^verbatim>\<open>otel.rs\<close>, \<^verbatim>\<open>context.rs\<close>): what is exported where, sampling, log contexts and request loggers.
  \<^item> \<open>Archive_Audit\<close>: the receipt of a pair of release archives, given exactly for admitted and equal trees.

  \<^bold>\<open>Conventions.\<close> A \<open>Result\<close> is a sum with the error on the left; a panic is \<^const>\<open>None\<close> where one can be
  written at all. Integers whose overflow can be observed are words; lengths and times are natural
  numbers. An action on the world is a function to an optional result and the world after it. The clock,
  the iteration order of hash tables, the encoders, the hash functions, tasks, semaphores, the file system
  and the types of the web packages belong to other packages or to the environment: each is an argument, and
  what is assumed of it is a named predicate that is shown to hold of a concrete instance.

  \<^bold>\<open>Loops.\<close> Loops that are not structural have termination proofs; the search for a fresh session id, which
  need not end, is a \<open>partial_function\<close>, with a theorem that it ends where the source of ids does not repeat. The
  search for a manifest visits at most 64 directories, the bound of the code itself. A future is run against
  a finite list of wake-ups and may still be pending at its end, which is a result of its own.

  \<^bold>\<open>Not modelled.\<close> The code generators and contract comparisons under \<^verbatim>\<open>src/tools/contract-parity\<close> and the scripts,
  which work on schemas and generated text with parsers of other packages; the implementations in other
  languages; accessors that only call the logging package; the polls between which a stage or a provider is
  suspended, where the surrounding code does not observe them. Log lines inside the modelled functions are
  left out, except those of a request behind the adapter. Drawing a random identifier does not fail.
\<close>

section \<open>The browser gates in front of a pipeline\<close>

lemma gates_keep_world:
  "snd (execute jc [cors_stage c, fetch_metadata_stage f, csrf_stage s] i handler w) = w
   \<or> \<not> short_circuits [cors_stage c, fetch_metadata_stage f, csrf_stage s] i w"
  by (auto simp: execute_def execute_loop_onion unwind_def cors_stage_def fetch_metadata_stage_def
      csrf_stage_def default_response_def split: prod.splits stage_decision.splits)

lemma browser_gates_block:
  assumes "\<not> (cors_pass c i \<and> fetch_metadata_pass f i \<and> csrf_pass s i)"
  shows "short_circuits [cors_stage c, fetch_metadata_stage f, csrf_stage s] i w"
  by (rule gates_block [of "[(cors_stage c, cors_pass c), (fetch_metadata_stage f, fetch_metadata_pass f),
      (csrf_stage s, csrf_pass s)]" i w, unfolded list.map fst_conv])
    (use assms in \<open>auto simp: cors.gate_stage_axioms csrf.gate_stage_axioms
      fetch_metadata.gate_stage_axioms\<close>)

text \<open>
  C17. With the CORS, Fetch Metadata and CSRF stages in front of a pipeline, a request that fails
  the condition of any of them reaches no later stage and not the handler: nothing happens to the
  outside world, and the response is that of the three stages alone, whatever is behind them.
\<close>

theorem browser_gates_protect:
  assumes "\<not> (cors_pass c i \<and> fetch_metadata_pass f i \<and> csrf_pass s i)"
  shows "execute jc ([cors_stage c, fetch_metadata_stage f, csrf_stage s] @ stages) i handler w =
      execute jc [cors_stage c, fetch_metadata_stage f, csrf_stage s] i handler' w \<and>
    snd (execute jc ([cors_stage c, fetch_metadata_stage f, csrf_stage s] @ stages) i handler w) = w"
proof -
  note sc = browser_gates_block [OF assms, of w]
  have "execute jc ([cors_stage c, fetch_metadata_stage f, csrf_stage s] @ stages) i handler w =
      execute jc [cors_stage c, fetch_metadata_stage f, csrf_stage s] i handler' w" for handler'
    using onion_short_circuits [OF sc, of jc stages handler handler']
    by (simp add: execute_def execute_loop_onion unwind_def del: onion.simps)
  with gates_keep_world [of jc c f s i handler w] sc show ?thesis by metis
qed

text \<open>A request with a forged CSRF token, whose handler would count up.\<close>

theorem browser_gates_protect_witness:
  "snd (execute unit_codec
     ([cors_stage cors_sample_policy, fetch_metadata_stage fetch_metadata_policy_default,
       csrf_stage csrf_sample_policy] @ [counting_stage])
     (csrf_sample_input ''forged'') (\<lambda>i w. (response_empty 200, w + 100)) 0) = 0"
proof -
  have "\<not> csrf_pass csrf_sample_policy (csrf_sample_input ''forged'')"
    by (simp add: csrf_pass_def csrf_sample_cookies csrf_sample_facts)
  then have "\<not> (cors_pass cors_sample_policy (csrf_sample_input ''forged'') \<and>
      fetch_metadata_pass fetch_metadata_policy_default (csrf_sample_input ''forged'') \<and>
      csrf_pass csrf_sample_policy (csrf_sample_input ''forged''))" by blast
  then show ?thesis by (rule browser_gates_protect [THEN conjunct2])
qed

end
